(* ===== verification/Prelude.thy ===== *)
theory Prelude
  imports Complex_Main "HOL-Library.Word" "HOL-Library.Multiset"
begin

text \<open>
  Shared vocabulary of the development: the Go values the platform is built from (instants,
  durations, 64-bit integers, strings, maps and the order in which a map is ranged over) and the
  generic lemmas about them. Every other theory imports this one.

  \<^item> An instant (\<^verbatim>\<open>time.Time\<close>) is an \<open>int\<close>: nanoseconds since Go's zero time, so
    \<^verbatim>\<open>t.IsZero()\<close> is \<open>t = 0\<close>. A call of \<^verbatim>\<open>time.Now()\<close> is an argument of the operation.
  \<^item> A Go \<^verbatim>\<open>map[string]T\<close> is a partial function. Ranging over it visits its keys in an order
    the language leaves open; the order is an explicit list of keys, and \<open>go_range\<close> says which
    lists are possible.
\<close>

section \<open>Collections of facts\<close>

named_theorems store_defs \<open>definitions of the in-memory store operations\<close>
named_theorems record_defs \<open>definitions that build or stamp records\<close>

section \<open>Time and 64-bit integers\<close>

type_synonym time = int
type_synonym duration = int

definition time_IsZero :: "time \<Rightarrow> bool" where
  "time_IsZero t \<longleftrightarrow> t = 0"

definition second :: duration where
  "second = 1000000000"

definition millisecond :: duration where
  "millisecond = 1000000"

text \<open>The value a Go \<^verbatim>\<open>int64\<close> holds after an operation whose exact result is \<open>x\<close>.\<close>

definition int64 :: "int \<Rightarrow> int" where
  "int64 x = sint (word_of_int x :: 64 word)"

lemma int64_signed_take_bit: "int64 x = signed_take_bit 63 x"
  by (simp add: int64_def sint_sbintrunc')

lemma int64_id: "- (2 ^ 63) \<le> x \<Longrightarrow> x < 2 ^ 63 \<Longrightarrow> int64 x = x"
  by (simp add: int64_signed_take_bit signed_take_bit_int_eq_self)

lemma int64_bounds: "- (2 ^ 63) \<le> int64 x \<and> int64 x < 2 ^ 63"
  using signed_take_bit_int_greater_eq_minus_exp [of 63 x] signed_take_bit_int_less_exp [of 63 x]
  by (simp add: int64_signed_take_bit)

section \<open>Maps and the order of ranging over them\<close>

type_synonym 'v gomap = "string \<rightharpoonup> 'v"

text \<open>\<open>go_range m ks\<close>: \<open>ks\<close> is an order in which \<^verbatim>\<open>for k := range m\<close> may visit the keys.\<close>

definition go_range :: "('k \<rightharpoonup> 'v) \<Rightarrow> 'k list \<Rightarrow> bool" where
  "go_range m ks \<longleftrightarrow> distinct ks \<and> set ks = dom m"

text \<open>The values met when ranging in the order \<open>ks\<close>.\<close>

definition go_values :: "('k \<rightharpoonup> 'v) \<Rightarrow> 'k list \<Rightarrow> 'v list" where
  "go_values m ks = List.map_filter m ks"

lemma go_values_Nil [simp]: "go_values m [] = []"
  by (simp add: go_values_def List.map_filter_simps)

lemma go_values_Cons [simp]:
  "go_values m (k # ks) = (case m k of None \<Rightarrow> go_values m ks | Some v \<Rightarrow> v # go_values m ks)"
  by (simp add: go_values_def List.map_filter_simps split: option.split)

lemma in_go_values: "v \<in> set (go_values m ks) \<longleftrightarrow> (\<exists>k \<in> set ks. m k = Some v)"
  by (induction ks) (auto split: option.splits)

lemma go_range_values: "go_range m ks \<Longrightarrow> v \<in> set (go_values m ks) \<longleftrightarrow> (\<exists>k. m k = Some v)"
  by (auto simp: go_range_def in_go_values dom_def)

lemma go_range_length: "go_range m ks \<Longrightarrow> length (go_values m ks) = card (dom m)"
proof -
  assume r: "go_range m ks"
  have "\<forall>k \<in> set ks. m k \<noteq> None \<Longrightarrow> length (go_values m ks) = length ks" for ks
    by (induction ks) (auto split: option.splits)
  with r show ?thesis by (auto simp: go_range_def dom_def distinct_card [symmetric])
qed

lemma go_range_exists: "finite (dom m) \<Longrightarrow> \<exists>ks. go_range m ks"
  using finite_distinct_list [of "dom m"] by (auto simp: go_range_def)

lemma map_go_values_keys:
  assumes "\<And>k v. m k = Some v \<Longrightarrow> key v = k" "set ks \<subseteq> dom m"
  shows "map key (go_values m ks) = ks"
  using assms(2) by (induction ks) (auto simp: assms(1) split: option.splits)

section \<open>Strings\<close>

text \<open>ASCII letters folded to lower case, as \<^verbatim>\<open>strings.ToLower\<close> and \<^verbatim>\<open>strings.EqualFold\<close> do.\<close>

definition lower_char :: "char \<Rightarrow> char" where
  "lower_char c = (if 65 \<le> (of_char c :: nat) \<and> (of_char c :: nat) \<le> 90
     then char_of ((of_char c :: nat) + 32) else c)"

definition ToLower :: "string \<Rightarrow> string" where
  "ToLower s = map lower_char s"

definition EqualFold :: "string \<Rightarrow> string \<Rightarrow> bool" where
  "EqualFold a b \<longleftrightarrow> ToLower a = ToLower b"

definition is_space :: "char \<Rightarrow> bool" where
  "is_space c \<longleftrightarrow> c = CHR '' '' \<or> (9 \<le> (of_char c :: nat) \<and> (of_char c :: nat) \<le> 13)"

definition TrimSpace :: "string \<Rightarrow> string" where
  "TrimSpace s = rev (dropWhile is_space (rev (dropWhile is_space s)))"

text \<open>\<^verbatim>\<open>strings.Contains(s, sub)\<close>.\<close>

fun str_contains :: "string \<Rightarrow> string \<Rightarrow> bool" where
  "str_contains [] sub = (sub = [])"
| "str_contains (c # cs) sub = (take (length sub) (c # cs) = sub \<or> str_contains cs sub)"

text \<open>\<^verbatim>\<open>strings.Split(s, sep)\<close> for a one-character separator: never empty.\<close>

fun str_split :: "char \<Rightarrow> string \<Rightarrow> string list" where
  "str_split sep [] = [[]]"
| "str_split sep (c # cs) =
     (if c = sep then [] # str_split sep cs
      else case str_split sep cs of [] \<Rightarrow> [[c]] | w # ws \<Rightarrow> (c # w) # ws)"

text \<open>\<^verbatim>\<open>strings.Join(ws, sep)\<close> for a one-character separator.\<close>

fun str_join :: "char \<Rightarrow> string list \<Rightarrow> string" where
  "str_join sep [] = []"
| "str_join sep [w] = w"
| "str_join sep (w # v # ws) = w @ sep # str_join sep (v # ws)"

text \<open>Two hexadecimal digits for each byte, \<^verbatim>\<open>hex.EncodeToString\<close>.\<close>

definition hex_digit :: "nat \<Rightarrow> char" where
  "hex_digit n = (if n < 10 then char_of (48 + n) else char_of (87 + n))"

definition hex_EncodeToString :: "8 word list \<Rightarrow> string" where
  "hex_EncodeToString bs = concat (map (\<lambda>b. [hex_digit (unat b div 16), hex_digit (unat b mod 16)]) bs)"

text \<open>Decimal digits.\<close>

definition is_digit :: "char \<Rightarrow> bool" where
  "is_digit c \<longleftrightarrow> 48 \<le> (of_char c :: nat) \<and> (of_char c :: nat) \<le> 57"

definition digits_value :: "string \<Rightarrow> int" where
  "digits_value ds = foldl (\<lambda>v c. 10 * v + (of_char c - 48)) 0 ds"

text \<open>\<^verbatim>\<open>strconv.Itoa\<close> of a number that is not negative.\<close>

function show_nat :: "nat \<Rightarrow> string" where
  "show_nat n = (if n < 10 then [char_of (48 + n)] else show_nat (n div 10) @ [char_of (48 + n mod 10)])"
  by pat_completeness auto
termination by (relation "measure id") auto

declare show_nat.simps [simp del]

lemma EqualFold_refl [simp]: "EqualFold a a"
  by (simp add: EqualFold_def)

lemma EqualFold_sym: "EqualFold a b \<Longrightarrow> EqualFold b a"
  by (simp add: EqualFold_def)

lemma EqualFold_trans: "EqualFold a b \<Longrightarrow> EqualFold b c \<Longrightarrow> EqualFold a c"
  by (simp add: EqualFold_def)

lemma str_contains_iff: "str_contains s sub \<longleftrightarrow> (\<exists>p q. s = p @ sub @ q)"
proof (induction s)
  case Nil
  then show ?case by auto
next
  case (Cons c cs)
  have "take (length sub) (c # cs) = sub \<longleftrightarrow> (\<exists>q. c # cs = sub @ q)"
    by (metis append_eq_conv_conj append_take_drop_id)
  moreover have "(\<exists>p q. c # cs = p @ sub @ q) \<longleftrightarrow>
      (\<exists>q. c # cs = sub @ q) \<or> (\<exists>p q. cs = p @ sub @ q)"
    by (metis append_Cons append_Nil list.exhaust list.inject)
  ultimately show ?case by (simp add: Cons.IH)
qed

lemma str_split_not_Nil [simp]: "str_split sep s \<noteq> []"
  by (cases s) (auto split: list.splits)

lemma str_split_append: "sep \<notin> set a \<Longrightarrow> str_split sep (a @ sep # b) = a # str_split sep b"
  by (induction a) auto

lemma str_split_free: "w \<in> set (str_split sep s) \<Longrightarrow> sep \<notin> set w"
proof (induction s arbitrary: w)
  case (Cons c cs)
  obtain v vs where v: "str_split sep cs = v # vs" by (cases "str_split sep cs") auto
  with Cons show ?case by (auto split: if_splits)
qed simp

lemma str_split_plain: "sep \<notin> set a \<Longrightarrow> str_split sep a = [a]"
  by (induction a) auto

lemma str_split_join: "ws \<noteq> [] \<Longrightarrow> (\<And>w. w \<in> set ws \<Longrightarrow> sep \<notin> set w) \<Longrightarrow> str_split sep (str_join sep ws) = ws"
  by (induction sep ws rule: str_join.induct) (auto simp: str_split_append str_split_plain)

lemma set_TrimSpace: "set (TrimSpace s) \<subseteq> set s"
  by (auto simp: TrimSpace_def dest!: set_dropWhileD)

lemma TrimSpace_idem [simp]: "TrimSpace (TrimSpace s) = TrimSpace s"
proof -
  let ?d = "dropWhile is_space"
  have d: "?d xs = xs" if "xs = [] \<or> \<not> is_space (hd xs)" for xs
    using that by (cases xs) auto
  have e: "?d xs = [] \<or> \<not> is_space (hd (?d xs))" for xs
    by (induction xs) auto
  let ?t = "?d (rev (?d s))"
  have "\<not> is_space (last ?t)" if "?t \<noteq> []"
  proof -
    from that have "last ?t = last (rev (?d s))"
      by (metis dropWhile_eq_drop last_drop drop_eq_Nil not_le)
    also have "\<dots> = hd (?d s)" by (simp add: last_rev)
    finally have l: "last ?t = hd (?d s)" .
    from that have "?d s \<noteq> []" by (metis dropWhile.simps(1) rev.simps(1))
    with e [of s] have "\<not> is_space (hd (?d s))" by blast
    then show ?thesis by (simp only: l not_False_eq_True)
  qed
  then have "rev ?t = [] \<or> \<not> is_space (hd (rev ?t))" by (metis hd_rev rev_is_Nil_conv)
  then have "?d (rev ?t) = rev ?t" by (rule d)
  moreover have "?d ?t = ?t" by (rule d, rule e)
  ultimately show ?thesis by (simp add: TrimSpace_def)
qed

lemma TrimSpace_id: "list_all (\<lambda>c. \<not> is_space c) s \<Longrightarrow> TrimSpace s = s"
proof -
  have d: "dropWhile is_space xs = xs" if "list_all (\<lambda>c. \<not> is_space c) xs" for xs
    using that by (cases xs) auto
  assume "list_all (\<lambda>c. \<not> is_space c) s"
  then show ?thesis using d [of s] d [of "rev s"] by (simp add: TrimSpace_def)
qed

lemma digit_char: "k < 10 \<Longrightarrow> (of_char (char_of (48 + k :: nat)) :: nat) = 48 + k \<and> is_digit (char_of (48 + k))
    \<and> \<not> is_space (char_of (48 + k))"
proof -
  assume k: "k < 10"
  then have o: "(of_char (char_of (48 + k :: nat)) :: nat) = 48 + k" by simp
  moreover have "char_of (48 + k) \<noteq> CHR '' ''"
  proof
    assume "char_of (48 + k) = CHR '' ''"
    with o have "48 + k = (of_char CHR '' '' :: nat)" by simp
    then show False by simp
  qed
  ultimately show ?thesis using k by (auto simp: is_digit_def is_space_def)
qed

lemma digit_char_int: "k < 10 \<Longrightarrow> (of_char (char_of (48 + k :: nat)) :: int) = 48 + int k"
  using digit_char [of k] of_nat_of_char [of "char_of (48 + k)", where ?'a = int] by simp

lemma digits_value_snoc: "digits_value (ds @ [c]) = 10 * digits_value ds + (of_char c - 48)"
  by (simp add: digits_value_def)

section \<open>Optional collaborators\<close>

text \<open>
  A pointer or interface field that the code compares with \<^verbatim>\<open>nil\<close> is an \<open>option\<close>;
  \<open>when_some\<close> runs an effect only when the collaborator is configured.
\<close>

definition when_some :: "'a option \<Rightarrow> ('a \<Rightarrow> 's \<Rightarrow> 's) \<Rightarrow> 's \<Rightarrow> 's" where
  "when_some x f s = (case x of None \<Rightarrow> s | Some a \<Rightarrow> f a s)"

definition or_default :: "string \<Rightarrow> string \<Rightarrow> string" where
  "or_default s d = (if s = [] then d else s)"

lemma when_some_simps [simp]:
  "when_some None f s = s"
  "when_some (Some a) f s = f a s"
  by (simp_all add: when_some_def)

lemma or_default_nonempty: "d \<noteq> [] \<Longrightarrow> or_default s d \<noteq> []"
  by (simp add: or_default_def)

end
