(* ===== verification/Priority_Queue.thy ===== *)
theory Priority_Queue
  imports Prelude
begin

text \<open>
  The priority queue of the route planner: the slice of items of
  \<^verbatim>\<open>internal/mall/navigation.go\<close> with its five methods, and the functions of the standard
  library's \<^verbatim>\<open>container/heap\<close> that work on it (\<^verbatim>\<open>Push\<close>, \<^verbatim>\<open>Pop\<close>, \<^verbatim>\<open>up\<close>, \<^verbatim>\<open>down\<close>), a binary heap in
  an array. The items are pointers that nothing else holds, so they are values here.
\<close>

record item =
  it_id :: string
  it_dist :: real

type_synonym priorityQueue = "item list"

definition pq_Less :: "priorityQueue \<Rightarrow> nat \<Rightarrow> nat \<Rightarrow> bool" where
  "pq_Less pq i j \<longleftrightarrow> it_dist (pq ! i) < it_dist (pq ! j)"

definition pq_Swap :: "nat \<Rightarrow> nat \<Rightarrow> priorityQueue \<Rightarrow> priorityQueue" where
  "pq_Swap i j pq = pq[i := pq ! j, j := pq ! i]"

definition pq_Push :: "item \<Rightarrow> priorityQueue \<Rightarrow> priorityQueue" where
  "pq_Push x pq = pq @ [x]"

definition pq_Pop :: "priorityQueue \<Rightarrow> item \<times> priorityQueue" where
  "pq_Pop pq = (let n = length pq in (pq ! (n - 1), take (n - 1) pq))"

text \<open>Go's division truncates towards zero: \<^verbatim>\<open>(0 - 1) / 2\<close> is \<open>0\<close>, as on natural numbers.\<close>

function heap_up :: "nat \<Rightarrow> priorityQueue \<Rightarrow> priorityQueue" where
  "heap_up j pq =
     (let i = (j - 1) div 2 in
      if i = j \<or> \<not> pq_Less pq j i then pq else heap_up i (pq_Swap i j pq))"
  by pat_completeness auto
termination
  by (relation "measure fst") auto

function heap_down :: "nat \<Rightarrow> nat \<Rightarrow> priorityQueue \<Rightarrow> priorityQueue" where
  "heap_down i n pq =
     (let j1 = 2 * i + 1 in
      if j1 \<ge> n then pq
      else let j2 = j1 + 1; j = (if j2 < n \<and> pq_Less pq j2 j1 then j2 else j1) in
        if \<not> pq_Less pq j i then pq else heap_down j n (pq_Swap i j pq))"
  by pat_completeness auto
termination
  by (relation "measure (\<lambda>(i, n, pq). n - i)") (auto split: if_splits)

declare heap_up.simps [simp del] heap_down.simps [simp del]

definition heap_Push :: "item \<Rightarrow> priorityQueue \<Rightarrow> priorityQueue" where
  "heap_Push x pq = (let pq1 = pq_Push x pq in heap_up (length pq1 - 1) pq1)"

definition heap_Pop :: "priorityQueue \<Rightarrow> item \<times> priorityQueue" where
  "heap_Pop pq = (let n = length pq - 1 in pq_Pop (heap_down 0 n (pq_Swap 0 n pq)))"

section \<open>Swapping and multisets\<close>

lemma length_pq_Swap [simp]: "length (pq_Swap i j pq) = length pq"
  by (simp add: pq_Swap_def)

lemma nth_pq_Swap:
  "i < length pq \<Longrightarrow> j < length pq \<Longrightarrow> k < length pq \<Longrightarrow>
     pq_Swap i j pq ! k = (if k = i then pq ! j else if k = j then pq ! i else pq ! k)"
  by (auto simp: pq_Swap_def nth_list_update)

lemma mset_pq_Swap [simp]: "i < length pq \<Longrightarrow> j < length pq \<Longrightarrow> mset (pq_Swap i j pq) = mset pq"
  by (simp add: pq_Swap_def mset_swap)

lemma length_heap_up [simp]: "length (heap_up j pq) = length pq"
  by (induction j pq rule: heap_up.induct) (subst heap_up.simps, simp add: Let_def)

lemma mset_heap_up: "j < length pq \<Longrightarrow> mset (heap_up j pq) = mset pq"
proof (induction j pq rule: heap_up.induct)
  case (1 j pq)
  then show ?case by (subst heap_up.simps) (auto simp: Let_def)
qed

lemma length_heap_down [simp]: "length (heap_down i n pq) = length pq"
  by (induction i n pq rule: heap_down.induct) (subst heap_down.simps, simp add: Let_def)

lemma mset_heap_down: "n \<le> length pq \<Longrightarrow> mset (heap_down i n pq) = mset pq"
proof (induction i n pq rule: heap_down.induct)
  case (1 i n pq)
  then show ?case by (subst heap_down.simps) (auto simp: Let_def)
qed

lemma heap_down_beyond: "n \<le> k \<Longrightarrow> heap_down i n pq ! k = pq ! k"
proof (induction i n pq rule: heap_down.induct)
  case (1 i n pq)
  then show ?case
    by (subst heap_down.simps) (auto simp: Let_def pq_Swap_def nth_list_update split: if_splits)
qed

section \<open>The heap order\<close>

abbreviation par :: "nat \<Rightarrow> nat" where
  "par k \<equiv> (k - 1) div 2"

text \<open>Every element of the first \<open>n\<close> but the root is at least its parent.\<close>

definition is_heap :: "nat \<Rightarrow> priorityQueue \<Rightarrow> bool" where
  "is_heap n pq \<longleftrightarrow> (\<forall>k. 0 < k \<and> k < n \<longrightarrow> it_dist (pq ! par k) \<le> it_dist (pq ! k))"

text \<open>The order may fail between \<open>j\<close> and its parent only, but not between grandparent and child.\<close>

definition heap_but_up :: "nat \<Rightarrow> nat \<Rightarrow> priorityQueue \<Rightarrow> bool" where
  "heap_but_up n j pq \<longleftrightarrow>
     (\<forall>k. 0 < k \<and> k < n \<and> k \<noteq> j \<longrightarrow> it_dist (pq ! par k) \<le> it_dist (pq ! k))
     \<and> (\<forall>k. 0 < k \<and> k < n \<and> par k = j \<and> 0 < j \<longrightarrow> it_dist (pq ! par j) \<le> it_dist (pq ! k))"

text \<open>The order may fail between \<open>i\<close> and its children only.\<close>

definition heap_but_down :: "nat \<Rightarrow> nat \<Rightarrow> priorityQueue \<Rightarrow> bool" where
  "heap_but_down n i pq \<longleftrightarrow>
     (\<forall>k. 0 < k \<and> k < n \<and> par k \<noteq> i \<longrightarrow> it_dist (pq ! par k) \<le> it_dist (pq ! k))
     \<and> (\<forall>k. 0 < k \<and> k < n \<and> par k = i \<and> 0 < i \<longrightarrow> it_dist (pq ! par i) \<le> it_dist (pq ! k))"

lemma heap_root: "is_heap n pq \<Longrightarrow> k < n \<Longrightarrow> it_dist (pq ! 0) \<le> it_dist (pq ! k)"
proof (induction k rule: less_induct)
  case (less k)
  show ?case
  proof (cases "k = 0")
    case False
    then have "par k < k" by simp
    with less have "it_dist (pq ! 0) \<le> it_dist (pq ! par k)" by simp
    also have "\<dots> \<le> it_dist (pq ! k)" using less.prems False by (simp add: is_heap_def)
    finally show ?thesis .
  qed simp
qed

lemma heap_up_heap:
  "heap_but_up (length pq) j pq \<Longrightarrow> j < length pq \<Longrightarrow> is_heap (length pq) (heap_up j pq)"
proof (induction j pq rule: heap_up.induct)
  case (1 j pq)
  show ?case
  proof (cases "par j = j \<or> \<not> pq_Less pq j (par j)")
    case True
    then have "is_heap (length pq) pq"
      using 1(2) by (auto simp: is_heap_def heap_but_up_def pq_Less_def)
    with True show ?thesis by (subst heap_up.simps) (simp add: Let_def)
  next
    case False
    let ?q = "pq_Swap (par j) j pq"
    have j: "0 < j" "par j < j" using False by (auto intro: Suc_leI)
    have q: "?q ! k = (if k = par j then pq ! j else if k = j then pq ! par j else pq ! k)"
      if "k < length pq" for k
      using that j 1(3) by (simp add: nth_pq_Swap)
    have less: "it_dist (pq ! j) < it_dist (pq ! par j)" using False by (simp add: pq_Less_def)
    have A: "it_dist (pq ! par k) \<le> it_dist (pq ! k)" if "0 < k" "k < length pq" "k \<noteq> j" for k
      using 1(2) that by (simp add: heap_but_up_def)
    have B: "it_dist (pq ! par j) \<le> it_dist (pq ! k)" if "0 < k" "k < length pq" "par k = j" for k
      using 1(2) that j(1) by (simp add: heap_but_up_def)
    have "heap_but_up (length ?q) (par j) ?q" unfolding heap_but_up_def length_pq_Swap
    proof (intro conjI allI impI; elim conjE)
      fix k assume k: "0 < k" "k < length pq" "k \<noteq> par j"
      then have pk: "par k < length pq" by (meson diff_le_self div_le_dividend le_less_trans le_trans)
      consider "k = j" | "k \<noteq> j" "par k = par j" | "k \<noteq> j" "par k \<noteq> par j" "par k = j"
        | "k \<noteq> j" "par k \<noteq> par j" "par k \<noteq> j" by blast
      then show "it_dist (?q ! par k) \<le> it_dist (?q ! k)"
      proof cases
        case 1
        then show ?thesis using q [OF k(2)] q [OF pk] less j by simp
      next
        case 2
        then show ?thesis using q [OF k(2)] q [OF pk] less k A [OF k(1,2)] by simp
      next
        case 3
        then show ?thesis using q [OF k(2)] q [OF pk] k B [OF k(1,2)] by simp
      next
        case 4
        then show ?thesis using q [OF k(2)] q [OF pk] k A [OF k(1,2)] by simp
      qed
    next
      fix k assume k: "0 < k" "k < length pq" "par k = par j" "0 < par j"
      have ppj: "par (par j) < length pq" "par (par j) \<noteq> par j" "par (par j) \<noteq> j" "par j < length pq"
        using j 1(3) k(4) by auto
      have up: "it_dist (pq ! par (par j)) \<le> it_dist (pq ! par j)" using A [OF k(4) ppj(4)] j(2) by simp
      have low: "it_dist (pq ! par j) \<le> it_dist (?q ! k)"
      proof (cases "k = j")
        case True
        then show ?thesis using q [OF k(2)] j(2) by simp
      next
        case False
        have "par k < k" using k(1) by simp
        then have "k \<noteq> par j" using k(3) by simp
        then show ?thesis using q [OF k(2)] False A [OF k(1,2) False] k(3) by simp
      qed
      have "?q ! par (par j) = pq ! par (par j)" by (simp only: q [OF ppj(1)] ppj(2,3) if_False)
      then show "it_dist (?q ! par (par j)) \<le> it_dist (?q ! k)"
        using order.trans [OF up low] by (simp only:)
    qed
    with 1(1) False j 1(3) have "is_heap (length pq) (heap_up (par j) ?q)" by simp
    with False show ?thesis by (subst heap_up.simps) (simp add: Let_def)
  qed
qed

definition least_child :: "nat \<Rightarrow> nat \<Rightarrow> priorityQueue \<Rightarrow> nat" where
  "least_child i n pq =
     (if 2 * i + 2 < n \<and> pq_Less pq (2 * i + 2) (2 * i + 1) then 2 * i + 2 else 2 * i + 1)"

lemma heap_down_unfold:
  "heap_down i n pq =
     (if 2 * i + 1 < n \<and> pq_Less pq (least_child i n pq) i
      then heap_down (least_child i n pq) n (pq_Swap i (least_child i n pq) pq) else pq)"
  by (subst heap_down.simps) (auto simp: Let_def least_child_def)

lemma heap_down_induct [case_names 1]:
  assumes "\<And>i pq. (2 * i + 1 < n \<Longrightarrow> pq_Less pq (least_child i n pq) i
      \<Longrightarrow> P (least_child i n pq) (pq_Swap i (least_child i n pq) pq)) \<Longrightarrow> P i pq"
  shows "P i pq"
proof (induction "n - i" arbitrary: i pq rule: less_induct)
  case less
  show ?case by (rule assms, rule less) (auto simp: least_child_def)
qed

lemma heap_down_heap:
  "heap_but_down n i pq \<Longrightarrow> n \<le> length pq \<Longrightarrow> is_heap n (heap_down i n pq)"
proof (induction i pq rule: heap_down_induct [where n = n])
  case (1 i pq)
  let ?j1 = "2 * i + 1" and ?j2 = "2 * i + 2"
  define j where "j = least_child i n pq"
  have A: "it_dist (pq ! par k) \<le> it_dist (pq ! k)" if "0 < k" "k < n" "par k \<noteq> i" for k
    using 1(2) that by (simp add: heap_but_down_def)
  have B: "it_dist (pq ! par i) \<le> it_dist (pq ! k)" if "0 < k" "k < n" "par k = i" "0 < i" for k
    using 1(2) that by (simp add: heap_but_down_def)
  have children: "k = ?j1 \<or> k = ?j2" if "0 < k" "par k = i" for k using that by presburger
  show ?case
  proof (cases "?j1 < n \<and> pq_Less pq j i")
    case False
    have "it_dist (pq ! i) \<le> it_dist (pq ! k)" if k: "0 < k" "k < n" "par k = i" for k
      using children [OF k(1,3)] k(2) False by (auto simp: pq_Less_def j_def least_child_def split: if_splits)
    with A have "is_heap n pq" by (auto simp: is_heap_def)
    moreover have "heap_down i n pq = pq" using False by (subst heap_down_unfold) (auto simp: j_def)
    ultimately show ?thesis by simp
  next
    case True
    let ?q = "pq_Swap i j pq"
    have j: "j < n" "i < j" "par j = i" "0 < j" using True by (auto simp: j_def least_child_def)
    have q: "?q ! k = (if k = i then pq ! j else if k = j then pq ! i else pq ! k)" if "k < n" for k
      using that j 1(3) by (intro nth_pq_Swap) auto
    have less: "it_dist (pq ! j) < it_dist (pq ! i)" using True by (simp add: pq_Less_def)
    have least: "it_dist (pq ! j) \<le> it_dist (pq ! k)" if k: "0 < k" "k < n" "par k = i" for k
      using children [OF k(1,3)] k(2) by (auto simp: pq_Less_def j_def least_child_def split: if_splits)
    have "heap_but_down n j ?q" unfolding heap_but_down_def
    proof (intro conjI allI impI; elim conjE)
      fix k assume k: "0 < k" "k < n" "par k \<noteq> j"
      have pk: "par k < n" "par k < k" using k by auto
      consider "par k = i" "k = j" | "par k = i" "k \<noteq> j" | "k = i" | "par k \<noteq> i" "k \<noteq> i" "k \<noteq> j"
        using j(3) by metis
      then show "it_dist (?q ! par k) \<le> it_dist (?q ! k)"
      proof cases
        case 1
        then show ?thesis using q [OF k(2)] q [OF pk(1)] less j(2) by simp
      next
        case 2
        then show ?thesis using q [OF k(2)] q [OF pk(1)] least [OF k(1,2)] pk(2) by simp
      next
        case 3
        then show ?thesis using q [OF k(2)] q [OF pk(1)] B [of j] j k pk(2) by simp
      next
        case 4
        then show ?thesis using q [OF k(2)] q [OF pk(1)] A [OF k(1,2)] k(3) by simp
      qed
    next
      fix k assume k: "0 < k" "k < n" "par k = j"
      have kn: "k \<noteq> i" "k \<noteq> j" using k(1,3) j(2) by auto
      have i: "i < n" using j by simp
      show "it_dist (?q ! par j) \<le> it_dist (?q ! k)"
        unfolding j(3) using q [OF i] q [OF k(2)] kn A [OF k(1,2)] k(3) j(2) by simp
    qed
    with 1(1) True 1(3) have "is_heap n (heap_down j n ?q)" by (simp add: j_def)
    moreover have "heap_down i n pq = heap_down j n ?q"
      using True by (subst heap_down_unfold) (simp add: j_def)
    ultimately show ?thesis by simp
  qed
qed

section \<open>The contract of a priority queue\<close>

text \<open>
  What the route planner relies on: a pop removes one item, and none of the others is nearer.
  \<open>ok\<close> is the representation invariant, \<open>items\<close> the content.
\<close>

locale priority_queue =
  fixes ok :: "'q \<Rightarrow> bool" and items :: "'q \<Rightarrow> item multiset" and empty :: 'q
    and push :: "item \<Rightarrow> 'q \<Rightarrow> 'q" and pop :: "'q \<Rightarrow> item \<times> 'q"
  assumes ok_empty: "ok empty" and items_empty: "items empty = {#}"
    and ok_push: "ok q \<Longrightarrow> ok (push x q)"
    and items_push: "ok q \<Longrightarrow> items (push x q) = add_mset x (items q)"
    and ok_pop: "ok q \<Longrightarrow> items q \<noteq> {#} \<Longrightarrow> ok (snd (pop q))"
    and items_pop: "ok q \<Longrightarrow> items q \<noteq> {#} \<Longrightarrow> items q = add_mset (fst (pop q)) (items (snd (pop q)))"
    and pop_least: "ok q \<Longrightarrow> x \<in># items q \<Longrightarrow> it_dist (fst (pop q)) \<le> it_dist x"
begin

text \<open>Popping everything gives the items in the order of their distances.\<close>

primrec drain :: "nat \<Rightarrow> 'q \<Rightarrow> item list" where
  "drain 0 q = []"
| "drain (Suc n) q = (if items q = {#} then [] else fst (pop q) # drain n (snd (pop q)))"

lemma drain_sorted:
  "ok q \<Longrightarrow> size (items q) \<le> n \<Longrightarrow> mset (drain n q) = items q \<and> sorted (map it_dist (drain n q))"
proof (induction n arbitrary: q)
  case (Suc n)
  show ?case
  proof (cases "items q = {#}")
    case False
    note p = items_pop [OF Suc.prems(1) False]
    have "size (items (snd (pop q))) \<le> n" using Suc.prems(2) p by (metis Suc_le_mono size_add_mset)
    with Suc.IH ok_pop [OF Suc.prems(1) False]
    have r: "mset (drain n (snd (pop q))) = items (snd (pop q))" "sorted (map it_dist (drain n (snd (pop q))))"
      by auto
    have "it_dist (fst (pop q)) \<le> it_dist x" if "x \<in> set (drain n (snd (pop q)))" for x
      using pop_least [OF Suc.prems(1), of x] that r(1) p
      by (metis insert_iff set_mset_add_mset_insert set_mset_mset)
    with r p False show ?thesis by simp
  qed simp
qed simp

end

definition pq_ok :: "priorityQueue \<Rightarrow> bool" where
  "pq_ok pq \<longleftrightarrow> is_heap (length pq) pq"

lemma heap_Push_ok:
  assumes "pq_ok pq" shows "pq_ok (heap_Push x pq)" and "mset (heap_Push x pq) = add_mset x (mset pq)"
proof -
  have "heap_but_up (length (pq @ [x])) (length pq) (pq @ [x])" unfolding heap_but_up_def
  proof (intro conjI allI impI; elim conjE)
    fix k assume k: "0 < k" "k < length (pq @ [x])" "k \<noteq> length pq"
    then have "k < length pq" "par k < length pq" by auto
    with assms k(1) show "it_dist ((pq @ [x]) ! par k) \<le> it_dist ((pq @ [x]) ! k)"
      by (simp add: pq_ok_def is_heap_def nth_append)
  next
    fix k assume "0 < k" "k < length (pq @ [x])" "par k = length pq" "0 < length pq"
    then have "par k < k" "k \<le> length pq" "par k = length pq" by auto
    then show "it_dist ((pq @ [x]) ! par (length pq)) \<le> it_dist ((pq @ [x]) ! k)" by linarith
  qed
  from heap_up_heap [OF this] show "pq_ok (heap_Push x pq)"
    by (simp add: pq_ok_def heap_Push_def pq_Push_def Let_def)
  show "mset (heap_Push x pq) = add_mset x (mset pq)"
    by (simp add: heap_Push_def pq_Push_def Let_def mset_heap_up)
qed

lemma heap_Pop_eq:
  assumes "pq \<noteq> []"
  shows "heap_Pop pq = (pq ! 0, take (length pq - 1) (heap_down 0 (length pq - 1) (pq_Swap 0 (length pq - 1) pq)))"
  using assms by (auto simp: heap_Pop_def pq_Pop_def Let_def heap_down_beyond nth_pq_Swap)

lemma heap_Pop_ok:
  assumes "pq_ok pq" "pq \<noteq> []"
  shows "pq_ok (snd (heap_Pop pq))" and "mset pq = add_mset (fst (heap_Pop pq)) (mset (snd (heap_Pop pq)))"
proof -
  let ?n = "length pq - 1" and ?s = "pq_Swap 0 (length pq - 1) pq"
  let ?d = "heap_down 0 ?n ?s"
  have n: "?n < length pq" "0 < length pq" using assms(2) by auto
  have s: "?s ! k = (if k = 0 then pq ! ?n else if k = ?n then pq ! 0 else pq ! k)" if "k < length pq" for k
    using that n by (intro nth_pq_Swap) auto
  have "heap_but_down ?n 0 ?s" unfolding heap_but_down_def
  proof (intro conjI allI impI; elim conjE)
    fix k assume k: "0 < k" "k < ?n" "par k \<noteq> 0"
    then have "par k < k" by auto
    with k assms(1) show "it_dist (?s ! par k) \<le> it_dist (?s ! k)"
      using s [of k] s [of "par k"] n by (simp add: pq_ok_def is_heap_def)
  qed simp
  from heap_down_heap [OF this] have h: "is_heap ?n ?d" by simp
  have "is_heap ?n (take ?n ?d)" unfolding is_heap_def
  proof (intro allI impI; elim conjE)
    fix k assume k: "0 < k" "k < ?n"
    have "par k < ?n" using k by (meson diff_le_self div_le_dividend le_less_trans le_trans)
    then show "it_dist (take ?n ?d ! par k) \<le> it_dist (take ?n ?d ! k)"
      using h k unfolding is_heap_def by (simp only: nth_take)
  qed
  moreover have "length (take ?n ?d) = ?n" by simp
  ultimately show "pq_ok (snd (heap_Pop pq))"
    unfolding heap_Pop_eq [OF assms(2)] pq_ok_def snd_conv by (simp only:)
  have "?d = take ?n ?d @ [?d ! ?n]" using n by (metis Suc_diff_1 length_heap_down length_pq_Swap lessI take_Suc_conv_app_nth take_all_iff order.refl)
  moreover have "?d ! ?n = pq ! 0" using s [OF n(1)] by (auto simp: heap_down_beyond)
  moreover have "mset ?d = mset pq" using n by (simp add: mset_heap_down)
  ultimately show "mset pq = add_mset (fst (heap_Pop pq)) (mset (snd (heap_Pop pq)))"
    using assms(2) by (metis fst_conv heap_Pop_eq mset.simps(2) mset_append mset_single_iff snd_conv
        union_mset_add_mset_right add.right_neutral mset.simps(1))
qed

interpretation bq: priority_queue pq_ok mset "[]" heap_Push heap_Pop
proof (unfold_locales, goal_cases)
  case (7 q x)
  then obtain k where "k < length q" "x = q ! k" by (auto simp: in_set_conv_nth)
  moreover from this have "q \<noteq> []" by auto
  ultimately show ?case using heap_root [of "length q" q k] 7(1) by (simp add: heap_Pop_eq pq_ok_def)
next
  case 1
  show ?case by (simp add: pq_ok_def is_heap_def)
qed (simp_all add: heap_Push_ok heap_Pop_ok)

end
