(* ===== verification/Mall_Graph.thy ===== *)
theory Mall_Graph
  imports Priority_Queue "HOL-Library.AList"
begin

text \<open>
  The navigation graph of a mall and its shortest paths, \<^verbatim>\<open>internal/mall/map.go\<close> and
  \<^verbatim>\<open>navigation.go\<close>.

  The nested maps are association lists. The order in which Go ranges over the neighbours of a node
  is the argument \<open>ord\<close>; a node is expanded once, so one order per node is enough. A \<^verbatim>\<open>float64\<close>
  is a real, and the sum of two of them is \<open>rnd\<close> of the exact sum, where \<open>rnd\<close> is the rounding
  of the hardware; the theorems hold for every monotone rounding that keeps the values it produces.
  A distance is \<open>None\<close> for \<^verbatim>\<open>math.Inf(1)\<close>, and reading an absent key of the map gives \<open>0\<close>.
\<close>

record Coordinates =
  co_X :: real
  co_Y :: real

record NavNode =
  n_ID :: string
  n_Name :: string
  n_FloorID :: string
  n_Zone :: string
  n_Coordinates :: Coordinates
  n_Type :: string

record NavEdge =
  ne_From :: string
  ne_To :: string
  ne_Distance :: real
  ne_Bidirectional :: bool

datatype mall_error = ErrMallNotFound | ErrPathNotFound | ErrStoreNotFound | ErrNoBasePoint string

type_synonym adjacency = "(string \<times> (string \<times> real) list) list"

section \<open>The graph\<close>

definition set_weight :: "string \<Rightarrow> string \<Rightarrow> real \<Rightarrow> adjacency \<Rightarrow> adjacency" where
  "set_weight u v w g =
     AList.update u (AList.update v w (case map_of g u of None \<Rightarrow> [] | Some m \<Rightarrow> m)) g"

definition add_edge :: "NavEdge \<Rightarrow> adjacency \<Rightarrow> adjacency" where
  "add_edge e g =
     (let g1 = set_weight (ne_From e) (ne_To e) (ne_Distance e) g
      in if ne_Bidirectional e then set_weight (ne_To e) (ne_From e) (ne_Distance e) g1 else g1)"

definition NewGraph :: "NavNode list \<Rightarrow> NavEdge list \<Rightarrow> adjacency" where
  "NewGraph nodes edges = fold add_edge edges (fold (\<lambda>n g. AList.update (n_ID n) [] g) nodes [])"

definition weight :: "adjacency \<Rightarrow> string \<Rightarrow> string \<Rightarrow> real option" where
  "weight g u v = Option.bind (map_of g u) (\<lambda>m. map_of m v)"

abbreviation nodes_of :: "adjacency \<Rightarrow> string set" where
  "nodes_of g \<equiv> fst ` set g"

section \<open>Dijkstra's algorithm\<close>

record dijkstra_state =
  dj_dist :: "real option gomap"
  dj_prev :: "string gomap"
  dj_pq :: priorityQueue
  dj_seen :: "string set"

definition dist_get :: "real option gomap \<Rightarrow> string \<Rightarrow> real option" where
  "dist_get m v = (case m v of None \<Rightarrow> Some 0 | Some d \<Rightarrow> d)"

definition dist_less :: "real \<Rightarrow> real option \<Rightarrow> bool" where
  "dist_less a d = (case d of None \<Rightarrow> True | Some b \<Rightarrow> a < b)"

definition relax :: "(real \<Rightarrow> real) \<Rightarrow> string \<Rightarrow> string \<times> real \<Rightarrow> dijkstra_state \<Rightarrow> dijkstra_state" where
  "relax rnd u e st =
     (let (v, w) = e in
      if v \<in> dj_seen st then st
      else case dist_get (dj_dist st) u of
          None \<Rightarrow> st
        | Some du \<Rightarrow>
            let alt = rnd (du + w) in
            if dist_less alt (dist_get (dj_dist st) v)
            then st\<lparr>dj_dist := (dj_dist st)(v \<mapsto> Some alt), dj_prev := (dj_prev st)(v \<mapsto> u),
                    dj_pq := heap_Push \<lparr>it_id = v, it_dist = alt\<rparr> (dj_pq st)\<rparr>
            else st)"

definition neighbours :: "adjacency \<Rightarrow> (string \<Rightarrow> string list) \<Rightarrow> string \<Rightarrow> (string \<times> real) list" where
  "neighbours g ord u = List.map_filter (\<lambda>v. map_option (Pair v) (weight g u v)) (ord u)"

definition expand :: "adjacency \<Rightarrow> (string \<Rightarrow> string list) \<Rightarrow> (real \<Rightarrow> real) \<Rightarrow> string \<Rightarrow> dijkstra_state \<Rightarrow> dijkstra_state" where
  "expand g ord rnd u st =
     fold (relax rnd u) (neighbours g ord u) (st\<lparr>dj_seen := insert u (dj_seen st)\<rparr>)"

lemma relax_seen [simp]: "dj_seen (relax rnd u e st) = dj_seen st"
  by (auto simp: relax_def Let_def split: prod.split option.split)

lemma expand_seen [simp]: "dj_seen (expand g ord rnd u st) = insert u (dj_seen st)"
proof -
  have "dj_seen (fold (relax rnd u) es st) = dj_seen st" for es st
    by (induction es arbitrary: st) simp_all
  then show ?thesis by (simp add: expand_def)
qed

lemma neighbours_absent: "u \<notin> nodes_of g \<Longrightarrow> neighbours g ord u = []"
proof -
  assume "u \<notin> nodes_of g"
  then have "map_of g u = None" by (simp add: map_of_eq_None_iff)
  then show ?thesis by (simp add: neighbours_def weight_def List.map_filter_def)
qed

lemma length_heap_Pop [simp]: "length (snd (heap_Pop pq)) = length pq - 1"
  by (cases pq) (simp_all add: heap_Pop_def pq_Pop_def Let_def min_def)

text \<open>A popped node outside the graph has no neighbours; any other new one is counted as seen.\<close>

function dijkstra ::
  "adjacency \<Rightarrow> (string \<Rightarrow> string list) \<Rightarrow> (real \<Rightarrow> real) \<Rightarrow> string \<Rightarrow> dijkstra_state \<Rightarrow> dijkstra_state" where
  "dijkstra g ord rnd toID st =
     (if dj_pq st = [] then st
      else let u = it_id (fst (heap_Pop (dj_pq st))); st1 = st\<lparr>dj_pq := snd (heap_Pop (dj_pq st))\<rparr> in
        if u = toID then st1
        else if u \<in> dj_seen st1 then dijkstra g ord rnd toID st1
        else dijkstra g ord rnd toID (expand g ord rnd u st1))"
  by pat_completeness auto
termination
proof (relation "measures [\<lambda>(g, ord, rnd, toID, st). card (nodes_of g - dj_seen st),
    \<lambda>(g, ord, rnd, toID, st). length (dj_pq st)]", goal_cases)
  case 1
  show ?case by simp
next
  case (2 g ord rnd toID st u st1)
  then have "dj_pq st \<noteq> []" by simp
  with 2 show ?case by auto
next
  case (3 g ord rnd toID st u st1)
  let ?st2 = "expand g ord rnd u st1"
  have pq: "dj_pq st \<noteq> []" and new: "u \<notin> dj_seen st" using 3 by simp_all
  have fin: "finite (nodes_of g - dj_seen st)" by simp
  show ?case
  proof (cases "u \<in> nodes_of g")
    case True
    then have "card (nodes_of g - dj_seen ?st2) < card (nodes_of g - dj_seen st)"
      using new 3 by (intro psubset_card_mono [OF fin]) auto
    then show ?thesis by simp
  next
    case False
    then have "dj_pq ?st2 = snd (heap_Pop (dj_pq st))"
      using 3 by (simp add: expand_def neighbours_absent)
    moreover have "nodes_of g - dj_seen ?st2 = nodes_of g - dj_seen st" using False 3 by auto
    ultimately show ?thesis using pq by simp
  qed
qed

declare dijkstra.simps [simp del]

text \<open>The loop that follows \<^verbatim>\<open>prev\<close> back to the start; \<open>None\<close> would be a loop that never ends.\<close>

partial_function (option) rebuild :: "string gomap \<Rightarrow> string \<Rightarrow> string list \<Rightarrow> string list option" where
  [code]: "rebuild prev a path =
     (if a = [] then Some path
      else rebuild prev (case prev a of None \<Rightarrow> [] | Some p \<Rightarrow> p) (a # path))"

definition dijkstra_init :: "adjacency \<Rightarrow> string \<Rightarrow> dijkstra_state" where
  "dijkstra_init g fromID =
     \<lparr>dj_dist = (\<lambda>v. if v \<in> nodes_of g then Some None else None)(fromID \<mapsto> Some 0),
      dj_prev = Map.empty, dj_pq = heap_Push \<lparr>it_id = fromID, it_dist = 0\<rparr> [], dj_seen = {}\<rparr>"

definition ShortestPath ::
  "adjacency \<Rightarrow> (string \<Rightarrow> string list) \<Rightarrow> (real \<Rightarrow> real) \<Rightarrow> string \<Rightarrow> string
   \<Rightarrow> (mall_error + string list \<times> real) option" where
  "ShortestPath g ord rnd fromID toID =
     (if map_of g fromID = None \<or> map_of g toID = None then Some (Inl ErrPathNotFound)
      else if fromID = toID then Some (Inr ([fromID], 0))
      else let st = dijkstra g ord rnd toID (dijkstra_init g fromID) in
        case dist_get (dj_dist st) toID of
          None \<Rightarrow> Some (Inl ErrPathNotFound)
        | Some d \<Rightarrow> map_option (\<lambda>path. Inr (path, d)) (rebuild (dj_prev st) toID []))"

section \<open>Walks and their lengths\<close>

text \<open>The length of the walk from \<open>u\<close> along \<open>vs\<close>, summed from left to right as the code does.\<close>

fun walk_from :: "adjacency \<Rightarrow> (real \<Rightarrow> real) \<Rightarrow> real \<Rightarrow> string \<Rightarrow> string list \<Rightarrow> real option" where
  "walk_from g rnd d u [] = Some d"
| "walk_from g rnd d u (v # vs) =
     (case weight g u v of None \<Rightarrow> None | Some w \<Rightarrow> walk_from g rnd (rnd (d + w)) v vs)"

definition is_walk :: "adjacency \<Rightarrow> (real \<Rightarrow> real) \<Rightarrow> string \<Rightarrow> string \<Rightarrow> string list \<Rightarrow> real \<Rightarrow> bool" where
  "is_walk g rnd s t p d \<longleftrightarrow> (\<exists>vs. p = s # vs \<and> last p = t \<and> walk_from g rnd 0 s vs = Some d)"

definition rounding :: "(real \<Rightarrow> real) \<Rightarrow> bool" where
  "rounding rnd \<longleftrightarrow> mono rnd \<and> rnd 0 = 0 \<and> (\<forall>x. rnd (rnd x) = rnd x)"

definition nonneg_weights :: "adjacency \<Rightarrow> bool" where
  "nonneg_weights g \<longleftrightarrow> (\<forall>u v w. weight g u v = Some w \<longrightarrow> 0 \<le> w)"

lemma walk_from_snoc:
  "walk_from g rnd d u (vs @ [v]) = (case walk_from g rnd d u vs of None \<Rightarrow> None | Some d' \<Rightarrow>
     (case weight g (last (u # vs)) v of None \<Rightarrow> None | Some w \<Rightarrow> Some (rnd (d' + w))))"
  by (induction vs arbitrary: d u) (auto split: option.split)

lemma is_walk_start: "is_walk g rnd s s [s] 0"
  by (simp add: is_walk_def)

lemma is_walk_snoc:
  "is_walk g rnd s u p d \<Longrightarrow> weight g u v = Some w \<Longrightarrow> is_walk g rnd s v (p @ [v]) (rnd (d + w))"
  unfolding is_walk_def
proof (elim exE conjE)
  fix vs assume "p = s # vs" "last p = u" "walk_from g rnd 0 s vs = Some d" "weight g u v = Some w"
  then show "\<exists>vs. p @ [v] = s # vs \<and> last (p @ [v]) = v \<and> walk_from g rnd 0 s vs = Some (rnd (d + w))"
    by (intro exI [of _ "vs @ [v]"]) (auto simp: walk_from_snoc)
qed

lemma is_walk_cases:
  assumes "is_walk g rnd s t p d"
  obtains (start) "t = s" "d = 0" "p = [s]"
  | (step) p' u d' w where "is_walk g rnd s u p' d'" "weight g u t = Some w" "d = rnd (d' + w)" "p = p' @ [t]"
proof -
  from assms obtain vs where vs: "p = s # vs" "last p = t" "walk_from g rnd 0 s vs = Some d"
    by (auto simp: is_walk_def)
  show thesis
  proof (cases vs rule: rev_cases)
    case Nil
    with vs show thesis by (intro start) auto
  next
    case (snoc ws x)
    with vs obtain d' w where "walk_from g rnd 0 s ws = Some d'" "weight g (last (s # ws)) x = Some w"
      "d = rnd (d' + w)" by (auto simp: walk_from_snoc split: option.splits)
    with vs snoc show thesis by (intro step [of "last (s # ws)" "s # ws" d' w]) (auto simp: is_walk_def)
  qed
qed

section \<open>The invariant of the search\<close>

text \<open>The nodes that \<open>prev\<close> leads through from \<open>v\<close> back to the start, all but the last one seen.\<close>

inductive chain :: "string gomap \<Rightarrow> string set \<Rightarrow> string \<Rightarrow> string \<Rightarrow> string list \<Rightarrow> bool"
  for prev seen s where
  chain_start: "chain prev seen s s [s]"
| chain_next: "chain prev seen s u ps \<Longrightarrow> u \<in> seen \<Longrightarrow> prev v = Some u \<Longrightarrow> v \<noteq> s
    \<Longrightarrow> chain prev seen s v (ps @ [v])"

lemma chain_mono: "chain prev seen s v ps \<Longrightarrow> seen \<subseteq> seen' \<Longrightarrow> chain prev seen' s v ps"
  by (induction rule: chain.induct) (auto intro: chain.intros)

lemma chain_upd:
  "chain prev seen s v ps \<Longrightarrow> x \<notin> seen \<Longrightarrow> v \<noteq> x \<Longrightarrow> chain (prev(x \<mapsto> y)) seen s v ps"
  by (induction rule: chain.induct) (auto intro!: chain.intros)

lemma chain_nodes: "chain prev seen s v ps \<Longrightarrow> set ps \<subseteq> insert s (insert v seen)"
  by (induction rule: chain.induct) auto

lemma rebuild_chain:
  assumes "chain prev seen s v ps" "prev s = None" "[] \<notin> set ps"
  shows "rebuild prev v acc = Some (ps @ acc)"
  using assms
proof (induction arbitrary: acc rule: chain.induct)
  case chain_start
  then show ?case by (subst rebuild.simps, subst rebuild.simps) simp
next
  case (chain_next u ps v)
  then show ?case by (subst rebuild.simps) auto
qed

abbreviation finite_dist :: "dijkstra_state \<Rightarrow> string \<Rightarrow> real \<Rightarrow> bool" where
  "finite_dist st v d \<equiv> dj_dist st v = Some (Some d)"

text \<open>
  \<open>E\<close> holds the edges that have been looked at: their heads are no farther than over the edge.
\<close>

definition queue_inv :: "dijkstra_state \<Rightarrow> bool" where
  "queue_inv st \<longleftrightarrow> pq_ok (dj_pq st)
     \<and> (\<forall>v d. v \<notin> dj_seen st \<and> finite_dist st v d \<longrightarrow> \<lparr>it_id = v, it_dist = d\<rparr> \<in> set (dj_pq st))
     \<and> (\<forall>x \<in> set (dj_pq st). \<exists>d. finite_dist st (it_id x) d \<and> d \<le> it_dist x)"

definition dist_inv :: "adjacency \<Rightarrow> (real \<Rightarrow> real) \<Rightarrow> string \<Rightarrow> dijkstra_state \<Rightarrow> bool" where
  "dist_inv g rnd s st \<longleftrightarrow> dom (dj_dist st) = nodes_of g \<and> finite_dist st s 0 \<and> dj_prev st s = None
     \<and> (\<forall>u \<in> dj_seen st. \<exists>d. finite_dist st u d)
     \<and> (\<forall>v d. finite_dist st v d \<longrightarrow> rnd d = d \<and> 0 \<le> d
          \<and> (\<exists>p. chain (dj_prev st) (dj_seen st) s v p \<and> is_walk g rnd s v p d))
     \<and> (\<forall>u v du dv. u \<in> dj_seen st \<and> v \<notin> dj_seen st \<and> finite_dist st u du \<and> finite_dist st v dv \<longrightarrow> du \<le> dv)"

definition edge_inv :: "adjacency \<Rightarrow> (real \<Rightarrow> real) \<Rightarrow> (string \<times> string) set \<Rightarrow> dijkstra_state \<Rightarrow> bool" where
  "edge_inv g rnd E st \<longleftrightarrow> (\<forall>u v w du. (u, v) \<in> E \<and> u \<in> dj_seen st \<and> weight g u v = Some w
     \<and> v \<in> nodes_of g \<and> finite_dist st u du \<longrightarrow> (\<exists>dv. finite_dist st v dv \<and> dv \<le> rnd (du + w)))"

lemma rounding_grows: "rounding rnd \<Longrightarrow> rnd d = d \<Longrightarrow> 0 \<le> w \<Longrightarrow> d \<le> rnd (d + w)"
  unfolding rounding_def by (metis le_add_same_cancel1 monoD)

text \<open>What an update of a node not yet seen does to the three parts of the invariant.\<close>

lemma relax_update:
  fixes st u v du a
  defines "st' \<equiv> st\<lparr>dj_dist := (dj_dist st)(v \<mapsto> Some a), dj_prev := (dj_prev st)(v \<mapsto> u),
    dj_pq := heap_Push \<lparr>it_id = v, it_dist = a\<rparr> (dj_pq st)\<rparr>"
  assumes q: "queue_inv st" and d: "dist_inv g rnd s st" and e: "edge_inv g rnd E st"
    and u: "u \<in> dj_seen st" "finite_dist st u du" and v: "v \<notin> dj_seen st" "v \<in> nodes_of g" "v \<noteq> s"
    and less': "\<forall>dv. finite_dist st v dv \<longrightarrow> a < dv"
    and last': "\<forall>x dx. x \<in> dj_seen st \<longrightarrow> finite_dist st x dx \<longrightarrow> dx \<le> a"
    and w: "weight g u v = Some w" "a = rnd (du + w)" "rnd a = a" "0 \<le> a"
  shows "queue_inv st'" "dist_inv g rnd s st'" "edge_inv g rnd (insert (u, v) E) st'"
proof -
  note less = less' [rule_format] and last = last' [rule_format]
  have seen: "dj_seen st' = dj_seen st" by (simp add: st'_def)
  have dist': "dj_dist st' x = (if x = v then Some (Some a) else dj_dist st x)" for x
    by (simp add: st'_def)
  have uv: "u \<noteq> v" using u(1) v(1) by auto
  have pq: "pq_ok (dj_pq st)" using q by (simp add: queue_inv_def)
  have items: "set (dj_pq st') = insert \<lparr>it_id = v, it_dist = a\<rparr> (set (dj_pq st))"
    using bq.items_push [OF pq] by (metis (no_types, lifting) dijkstra_state.ext_inject dijkstra_state.surjective
        dijkstra_state.update_convs(3) st'_def set_mset_mset set_mset_add_mset_insert)
  show "queue_inv st'" unfolding queue_inv_def seen
  proof (intro conjI allI impI ballI)
    show "pq_ok (dj_pq st')" using bq.ok_push [OF pq] by (simp add: st'_def)
    fix x dx assume "x \<notin> dj_seen st \<and> finite_dist st' x dx"
    then show "\<lparr>it_id = x, it_dist = dx\<rparr> \<in> set (dj_pq st')"
      using q unfolding items by (auto simp: queue_inv_def dist' split: if_splits)
  next
    fix x assume x: "x \<in> set (dj_pq st')"
    show "\<exists>dx. finite_dist st' (it_id x) dx \<and> dx \<le> it_dist x"
    proof (cases "x = \<lparr>it_id = v, it_dist = a\<rparr>")
      case False
      with x q items obtain dx where "finite_dist st (it_id x) dx" "dx \<le> it_dist x" by (auto simp: queue_inv_def)
      with less [of dx] show ?thesis by (auto simp: dist' intro: order.trans [OF less_imp_le])
    qed (simp add: dist')
  qed
  have walk_v: "\<exists>p. chain (dj_prev st') (dj_seen st) s v p \<and> is_walk g rnd s v p a"
  proof -
    obtain p where "chain (dj_prev st) (dj_seen st) s u p" "is_walk g rnd s u p du"
      using d u(2) unfolding dist_inv_def by blast
    then have "chain (dj_prev st') (dj_seen st) s v (p @ [v])" "is_walk g rnd s v (p @ [v]) a"
      using u(1) v uv w by (auto simp: st'_def intro: chain.chain_next chain_upd is_walk_snoc)
    then show ?thesis by blast
  qed
  have walk_x: "\<exists>p. chain (dj_prev st') (dj_seen st) s x p \<and> is_walk g rnd s x p dx"
    if fx: "finite_dist st x dx" "x \<noteq> v" for x dx
  proof -
    obtain p where "chain (dj_prev st) (dj_seen st) s x p" "is_walk g rnd s x p dx"
      using d fx(1) unfolding dist_inv_def by blast
    then show ?thesis using fx(2) v(1) by (auto simp: st'_def intro: chain_upd)
  qed
  show "dist_inv g rnd s st'" unfolding dist_inv_def seen
  proof (intro conjI allI impI ballI)
    show "dom (dj_dist st') = nodes_of g" using d v(2) by (auto simp: dist_inv_def st'_def)
    show "finite_dist st' s 0" "dj_prev st' s = None" using d v(3) by (auto simp: dist_inv_def st'_def)
    show "\<exists>dx. finite_dist st' x dx" if "x \<in> dj_seen st" for x using d that by (auto simp: dist_inv_def dist')
    show "rnd dx = dx" "0 \<le> dx" if "finite_dist st' x dx" for x dx
      using d w(3,4) that by (auto simp: dist_inv_def dist' split: if_splits)
    show "\<exists>p. chain (dj_prev st') (dj_seen st) s x p \<and> is_walk g rnd s x p dx" if "finite_dist st' x dx" for x dx
      using that walk_v walk_x by (cases "x = v") (auto simp: dist')
    show "dx \<le> dy" if "x \<in> dj_seen st \<and> y \<notin> dj_seen st \<and> finite_dist st' x dx \<and> finite_dist st' y dy" for x y dx dy
      using d that last v(1) by (fastforce simp: dist_inv_def dist' split: if_splits)
  qed
  show "edge_inv g rnd (insert (u, v) E) st'" unfolding edge_inv_def seen
  proof (intro allI impI; elim conjE)
    fix x y wt dx assume xy: "(x, y) \<in> insert (u, v) E" "x \<in> dj_seen st" "weight g x y = Some wt"
      "y \<in> nodes_of g" "finite_dist st' x dx"
    have dx: "finite_dist st x dx" using xy(2,5) v(1) by (auto simp: dist' split: if_splits)
    show "\<exists>dy. finite_dist st' y dy \<and> dy \<le> rnd (dx + wt)"
    proof (cases "(x, y) \<in> E")
      case True
      with e xy dx obtain dy where dy: "finite_dist st y dy" "dy \<le> rnd (dx + wt)"
        unfolding edge_inv_def by blast
      with less show ?thesis by (cases "y = v") (auto simp: dist' intro: order.trans [OF less_imp_le])
    next
      case False
      with xy(1) have "x = u" "y = v" by auto
      with dx u(2) w xy(3) show ?thesis by (simp add: dist')
    qed
  qed
qed

lemma edge_inv_insert:
  assumes "edge_inv g rnd E st" "finite_dist st u du" "weight g u v = Some w"
    and "v \<in> nodes_of g \<Longrightarrow> \<exists>dv. finite_dist st v dv \<and> dv \<le> rnd (du + w)"
  shows "edge_inv g rnd (insert (u, v) E) st"
  unfolding edge_inv_def
proof (intro allI impI; elim conjE)
  fix x y wt dx assume xy: "(x, y) \<in> insert (u, v) E" "x \<in> dj_seen st" "weight g x y = Some wt"
    "y \<in> nodes_of g" "finite_dist st x dx"
  show "\<exists>dy. finite_dist st y dy \<and> dy \<le> rnd (dx + wt)"
  proof (cases "(x, y) \<in> E")
    case True
    with assms(1) xy show ?thesis unfolding edge_inv_def by blast
  next
    case False
    with xy assms(2-4) show ?thesis by auto
  qed
qed

lemma relax_inv:
  assumes r: "rounding rnd" and n: "nonneg_weights g"
    and q: "queue_inv st" and d: "dist_inv g rnd s st" and e: "edge_inv g rnd E st"
    and u: "u \<in> dj_seen st" "finite_dist st u du"
    and last: "\<And>x dx. x \<in> dj_seen st \<Longrightarrow> finite_dist st x dx \<Longrightarrow> dx \<le> du"
    and w: "weight g u v = Some w"
  shows "queue_inv (relax rnd u (v, w) st) \<and> dist_inv g rnd s (relax rnd u (v, w) st)
    \<and> edge_inv g rnd (insert (u, v) E) (relax rnd u (v, w) st)
    \<and> (\<forall>x \<in> dj_seen st. dj_dist (relax rnd u (v, w) st) x = dj_dist st x)"
proof -
  let ?alt = "rnd (du + w)"
  have du: "rnd du = du" "0 \<le> du" using d u(2) by (auto simp: dist_inv_def)
  have alt: "du \<le> ?alt"
    by (rule rounding_grows [OF r du(1)]) (use n w in \<open>auto simp: nonneg_weights_def\<close>)
  have get: "dist_get (dj_dist st) u = Some du" using u(2) by (simp add: dist_get_def)
  have dom: "dj_dist st v \<noteq> None \<longleftrightarrow> v \<in> nodes_of g" using d by (auto simp: dist_inv_def)
  consider (seen) "v \<in> dj_seen st" | (keep) "v \<notin> dj_seen st" "\<not> dist_less ?alt (dist_get (dj_dist st) v)"
    | (upd) "v \<notin> dj_seen st" "dist_less ?alt (dist_get (dj_dist st) v)" by blast
  then show ?thesis
  proof cases
    case seen
    then obtain dv where "finite_dist st v dv" using d by (auto simp: dist_inv_def)
    with last seen alt have "\<exists>dv. finite_dist st v dv \<and> dv \<le> ?alt" by (meson order.trans)
    then have "edge_inv g rnd (insert (u, v) E) st" by (intro edge_inv_insert [OF e u(2) w])
    with seen q d show ?thesis by (simp add: relax_def)
  next
    case keep
    have "\<exists>dv. finite_dist st v dv \<and> dv \<le> ?alt" if "v \<in> nodes_of g"
      using keep(2) dom that by (auto simp: dist_get_def dist_less_def split: option.splits)
    then have "edge_inv g rnd (insert (u, v) E) st" by (intro edge_inv_insert [OF e u(2) w])
    with keep get q d show ?thesis by (simp add: relax_def)
  next
    case upd
    have v: "v \<in> nodes_of g"
      using upd(2) dom alt du(2) by (cases "dj_dist st v") (auto simp: dist_get_def dist_less_def)
    have vs: "v \<noteq> s"
      using upd(2) d alt du(2) by (auto simp: dist_inv_def dist_get_def dist_less_def)
    have less: "\<forall>dv. finite_dist st v dv \<longrightarrow> ?alt < dv"
      using upd(2) by (auto simp: dist_get_def dist_less_def)
    have rr: "rnd ?alt = ?alt" using r by (simp add: rounding_def)
    have la: "\<forall>x dx. x \<in> dj_seen st \<longrightarrow> finite_dist st x dx \<longrightarrow> dx \<le> ?alt" using last alt by fastforce
    have a0: "0 \<le> ?alt" using alt du(2) by simp
    have "relax rnd u (v, w) st = st\<lparr>dj_dist := (dj_dist st)(v \<mapsto> Some ?alt), dj_prev := (dj_prev st)(v \<mapsto> u),
        dj_pq := heap_Push \<lparr>it_id = v, it_dist = ?alt\<rparr> (dj_pq st)\<rparr>" (is "_ = ?st'")
      using upd get by (simp add: relax_def Let_def)
    moreover have "queue_inv ?st'" "dist_inv g rnd s ?st'" "edge_inv g rnd (insert (u, v) E) ?st'"
      using relax_update [OF q d e u upd(1) v vs less la w refl rr a0] by blast+
    moreover have "dj_dist ?st' x = dj_dist st x" if "x \<in> dj_seen st" for x using that upd(1) by auto
    ultimately show ?thesis by simp
  qed
qed

lemma neighbours_in: "e \<in> set (neighbours g ord u) \<longleftrightarrow> fst e \<in> set (ord u) \<and> weight g u (fst e) = Some (snd e)"
proof -
  have "set (List.map_filter f xs) = {y. \<exists>x \<in> set xs. f x = Some y}" for f :: "string \<Rightarrow> (string \<times> real) option" and xs
    by (induction xs) (auto simp: List.map_filter_simps split: option.splits)
  then show ?thesis by (cases e) (auto simp: neighbours_def)
qed

lemma relax_all_inv:
  assumes r: "rounding rnd" and n: "nonneg_weights g" and u: "u \<in> dj_seen st" "finite_dist st u du"
    and last: "\<forall>x dx. x \<in> dj_seen st \<longrightarrow> finite_dist st x dx \<longrightarrow> dx \<le> du"
    and es: "\<forall>e \<in> set es. weight g u (fst e) = Some (snd e)"
    and inv: "queue_inv st" "dist_inv g rnd s st" "edge_inv g rnd E st"
  shows "queue_inv (fold (relax rnd u) es st) \<and> dist_inv g rnd s (fold (relax rnd u) es st)
    \<and> edge_inv g rnd (E \<union> (\<lambda>e. (u, fst e)) ` set es) (fold (relax rnd u) es st)"
  using es u last inv
proof (induction es arbitrary: st E)
  case (Cons e es)
  obtain v w where e: "e = (v, w)" by fastforce
  let ?st1 = "relax rnd u (v, w) st"
  have r1: "queue_inv ?st1 \<and> dist_inv g rnd s ?st1 \<and> edge_inv g rnd (insert (u, v) E) ?st1
    \<and> (\<forall>x \<in> dj_seen st. dj_dist ?st1 x = dj_dist st x)"
    using Cons.prems e by (intro relax_inv [OF r n]) auto
  have "queue_inv (fold (relax rnd u) es ?st1) \<and> dist_inv g rnd s (fold (relax rnd u) es ?st1)
    \<and> edge_inv g rnd (insert (u, v) E \<union> (\<lambda>e. (u, fst e)) ` set es) (fold (relax rnd u) es ?st1)"
    using Cons.prems r1 by (intro Cons.IH) auto
  moreover have "insert (u, v) E \<union> (\<lambda>e. (u, fst e)) ` set es = E \<union> (\<lambda>e. (u, fst e)) ` set (e # es)"
    by (auto simp: e)
  ultimately show ?case by (simp add: e)
qed simp

text \<open>The invariant at the head of the loop: all edges of seen nodes have been looked at.\<close>

definition search_inv :: "adjacency \<Rightarrow> (real \<Rightarrow> real) \<Rightarrow> string \<Rightarrow> dijkstra_state \<Rightarrow> bool" where
  "search_inv g rnd s st \<longleftrightarrow> queue_inv st \<and> dist_inv g rnd s st \<and> edge_inv g rnd UNIV st"

lemma inv_frames:
  "edge_inv g rnd E (st\<lparr>dj_pq := q\<rparr>) = edge_inv g rnd E st"
  "dist_inv g rnd s (st\<lparr>dj_pq := q\<rparr>) = dist_inv g rnd s st"
  unfolding edge_inv_def dist_inv_def by simp_all

lemma edge_inv_all:
  "\<forall>a b w. weight g a b = Some w \<longrightarrow> (a, b) \<in> E \<Longrightarrow> edge_inv g rnd E st \<Longrightarrow> edge_inv g rnd UNIV st"
  unfolding edge_inv_def by blast

lemma pop_inv:
  assumes inv: "queue_inv st" and ne: "dj_pq st \<noteq> []"
  defines "x \<equiv> fst (heap_Pop (dj_pq st))"
  shows "pq_ok (snd (heap_Pop (dj_pq st)))"
    and "set (dj_pq st) = insert x (set (snd (heap_Pop (dj_pq st))))"
    and "\<exists>d. finite_dist st (it_id x) d \<and> d \<le> it_dist x"
    and "\<And>v d. v \<notin> dj_seen st \<Longrightarrow> finite_dist st v d \<Longrightarrow> it_dist x \<le> d"
proof -
  have ok: "pq_ok (dj_pq st)" using inv by (simp add: queue_inv_def)
  have ne': "mset (dj_pq st) \<noteq> {#}" using ne by simp
  show "pq_ok (snd (heap_Pop (dj_pq st)))" by (rule bq.ok_pop [OF ok ne'])
  show set: "set (dj_pq st) = insert x (set (snd (heap_Pop (dj_pq st))))"
    using bq.items_pop [OF ok ne'] unfolding x_def by (metis set_mset_add_mset_insert set_mset_mset)
  then have "x \<in> set (dj_pq st)" by blast
  with inv show "\<exists>d. finite_dist st (it_id x) d \<and> d \<le> it_dist x" unfolding queue_inv_def by blast
  show "it_dist x \<le> d" if "v \<notin> dj_seen st" "finite_dist st v d" for v d
    using bq.pop_least [OF ok, of "\<lparr>it_id = v, it_dist = d\<rparr>"] inv that
    by (auto simp: queue_inv_def x_def)
qed

lemma pop_queue_inv:
  assumes q: "queue_inv st" and ne: "dj_pq st \<noteq> []"
  shows "queue_inv (st\<lparr>dj_pq := snd (heap_Pop (dj_pq st)),
    dj_seen := insert (it_id (fst (heap_Pop (dj_pq st)))) (dj_seen st)\<rparr>)" (is "queue_inv ?st")
  unfolding queue_inv_def
proof (intro conjI allI impI ballI)
  note p = pop_inv [OF q ne]
  show "pq_ok (dj_pq ?st)" using p(1) by simp
  fix v dv assume v: "v \<notin> dj_seen ?st \<and> finite_dist ?st v dv"
  then have "\<lparr>it_id = v, it_dist = dv\<rparr> \<in> set (dj_pq st)" "v \<noteq> it_id (fst (heap_Pop (dj_pq st)))"
    using q by (auto simp: queue_inv_def)
  moreover from this(2) have "\<lparr>it_id = v, it_dist = dv\<rparr> \<noteq> fst (heap_Pop (dj_pq st))" by (metis item.select_convs(1))
  ultimately show "\<lparr>it_id = v, it_dist = dv\<rparr> \<in> set (dj_pq ?st)" using p(2) by simp
next
  fix y assume "y \<in> set (dj_pq ?st)"
  then have "y \<in> set (dj_pq st)" using pop_inv(2) [OF q ne] by simp
  then show "\<exists>dy. finite_dist ?st (it_id y) dy \<and> dy \<le> it_dist y" using q by (simp add: queue_inv_def)
qed

lemma skip_inv:
  assumes "search_inv g rnd s st" "dj_pq st \<noteq> []" "it_id (fst (heap_Pop (dj_pq st))) \<in> dj_seen st"
  shows "search_inv g rnd s (st\<lparr>dj_pq := snd (heap_Pop (dj_pq st))\<rparr>)"
proof -
  have "queue_inv (st\<lparr>dj_pq := snd (heap_Pop (dj_pq st))\<rparr>)"
    using pop_queue_inv [of st] assms by (simp add: search_inv_def insert_absorb queue_inv_def)
  then show ?thesis using assms(1) by (simp add: search_inv_def inv_frames)
qed

lemma expand_inv:
  assumes r: "rounding rnd" and n: "nonneg_weights g"
    and ord: "\<forall>u v w. weight g u v = Some w \<longrightarrow> v \<in> set (ord u)"
    and inv: "search_inv g rnd s st" and ne: "dj_pq st \<noteq> []"
  defines "x \<equiv> fst (heap_Pop (dj_pq st))"
  assumes new: "it_id x \<notin> dj_seen st"
  shows "search_inv g rnd s (expand g ord rnd (it_id x) (st\<lparr>dj_pq := snd (heap_Pop (dj_pq st))\<rparr>))"
proof -
  have q: "queue_inv st" and d: "dist_inv g rnd s st" and e: "edge_inv g rnd UNIV st"
    using inv by (auto simp: search_inv_def)
  note p = pop_inv [OF q ne, folded x_def]
  let ?u = "it_id x"
  let ?st = "st\<lparr>dj_pq := snd (heap_Pop (dj_pq st)), dj_seen := insert ?u (dj_seen st)\<rparr>"
  obtain du where du: "finite_dist st ?u du" "du \<le> it_dist x" using p(3) by blast
  have least: "du \<le> dv" if "v \<notin> dj_seen st" "finite_dist st v dv" for v dv
    using p(4) [OF that] du(2) by simp
  have ux: "du = it_dist x" using p(4) [OF new du(1)] du(2) by simp
  have seen_le: "dy \<le> du" if "y \<in> dj_seen st" "finite_dist st y dy" for y dy
    using d that new du(1) unfolding dist_inv_def by blast
  have q': "queue_inv ?st" using pop_queue_inv [OF q ne] by (simp add: x_def)
  have d': "dist_inv g rnd s ?st" unfolding dist_inv_def
  proof (intro conjI allI impI ballI)
    show "dom (dj_dist ?st) = nodes_of g" "finite_dist ?st s 0" "dj_prev ?st s = None"
      using d by (simp_all add: dist_inv_def)
    show "\<exists>dy. finite_dist ?st y dy" if "y \<in> dj_seen ?st" for y using d that du(1) by (auto simp: dist_inv_def)
    show "rnd dy = dy" "0 \<le> dy" if "finite_dist ?st y dy" for y dy using d that by (auto simp: dist_inv_def)
    show "\<exists>p. chain (dj_prev ?st) (dj_seen ?st) s y p \<and> is_walk g rnd s y p dy" if fy: "finite_dist ?st y dy" for y dy
    proof -
      have fy': "finite_dist st y dy" using fy by simp
      obtain p where "chain (dj_prev st) (dj_seen st) s y p" "is_walk g rnd s y p dy"
        using d fy' unfolding dist_inv_def by blast
      then have "chain (dj_prev ?st) (dj_seen ?st) s y p \<and> is_walk g rnd s y p dy"
        using chain_mono [OF _ subset_insertI [of "dj_seen st" ?u]] by simp
      then show ?thesis by blast
    qed
    show "dy \<le> dz" if "y \<in> dj_seen ?st \<and> z \<notin> dj_seen ?st \<and> finite_dist ?st y dy \<and> finite_dist ?st z dz" for y z dy dz
      using that d least du(1) by (auto simp: dist_inv_def)
  qed
  have e': "edge_inv g rnd {e. fst e \<noteq> ?u} ?st" unfolding edge_inv_def
  proof (intro allI impI; elim conjE)
    fix a b w da assume "(a, b) \<in> {e. fst e \<noteq> ?u}" "a \<in> dj_seen ?st" "weight g a b = Some w" "b \<in> nodes_of g"
      "finite_dist ?st a da"
    then show "\<exists>db. finite_dist ?st b db \<and> db \<le> rnd (da + w)"
      using e [unfolded edge_inv_def, rule_format, of a b w da] by simp
  qed
  have f: "?u \<in> dj_seen ?st" "finite_dist ?st ?u du" using du(1) by simp_all
  have l: "\<forall>y dy. y \<in> dj_seen ?st \<longrightarrow> finite_dist ?st y dy \<longrightarrow> dy \<le> du"
    using seen_le du(1) by auto
  have "\<forall>e \<in> set (neighbours g ord ?u). weight g ?u (fst e) = Some (snd e)" by (simp add: neighbours_in)
  note all = relax_all_inv [OF r n f l this q' d' e']
  let ?E = "{e. fst e \<noteq> ?u} \<union> (\<lambda>e. (?u, fst e)) ` set (neighbours g ord ?u)"
  have "\<forall>a b w. weight g a b = Some w \<longrightarrow> (a, b) \<in> ?E"
  proof (intro allI impI)
    fix a b w assume "weight g a b = Some w"
    then have "(b, w) \<in> set (neighbours g ord a)" using ord by (simp add: neighbours_in)
    then show "(a, b) \<in> ?E" by force
  qed
  note edges = edge_inv_all [OF this]
  have "edge_inv g rnd UNIV (fold (relax rnd ?u) (neighbours g ord ?u) ?st)"
    by (rule edges) (use all in blast)
  with all show ?thesis by (simp add: search_inv_def expand_def)
qed

section \<open>The result of the search\<close>

text \<open>
  A walk that leaves the seen nodes passes an unseen node that is known and no farther than the
  walk is long; a walk within them is at least as long as the distance found.
\<close>

lemma walk_frontier:
  assumes r: "rounding rnd" and n: "nonneg_weights g" and inv: "search_inv g rnd s st"
  shows "is_walk g rnd s v p L \<Longrightarrow> v \<in> nodes_of g \<Longrightarrow> rnd L = L \<and>
    ((v \<in> dj_seen st \<and> (\<exists>d. finite_dist st v d \<and> d \<le> L))
     \<or> (\<exists>y dy. y \<notin> dj_seen st \<and> finite_dist st y dy \<and> dy \<le> L))"
proof (induction "length p" arbitrary: p v L rule: less_induct)
  case less
  have d: "dist_inv g rnd s st" and e: "edge_inv g rnd UNIV st" using inv by (auto simp: search_inv_def)
  show ?case using less.prems(1)
  proof (cases rule: is_walk_cases)
    case start
    have "rnd 0 = 0" using r by (simp add: rounding_def)
    with start d show ?thesis unfolding dist_inv_def by (metis order.refl)
  next
    case (step p' u L' w)
    have u: "u \<in> nodes_of g" using step(2)
      by (cases "map_of g u") (auto simp: weight_def dest: map_of_SomeD intro: rev_image_eqI)
    have IH: "rnd L' = L'" "(u \<in> dj_seen st \<and> (\<exists>d. finite_dist st u d \<and> d \<le> L'))
       \<or> (\<exists>y dy. y \<notin> dj_seen st \<and> finite_dist st y dy \<and> dy \<le> L')"
      using less.hyps [OF _ step(1) u] step(4) by auto
    have w: "0 \<le> w" using n step(2) by (auto simp: nonneg_weights_def)
    have LL: "L' \<le> L" unfolding step(3) by (rule rounding_grows [OF r IH(1) w])
    have fix_L: "rnd L = L" using r by (simp add: step(3) rounding_def)
    from IH(2) show ?thesis
    proof (elim disjE conjE exE)
      fix du assume du: "u \<in> dj_seen st" "finite_dist st u du" "du \<le> L'"
      then obtain dv where dv: "finite_dist st v dv" "dv \<le> rnd (du + w)"
        using e step(2) less.prems(2) unfolding edge_inv_def by blast
      have "rnd (du + w) \<le> L" unfolding step(3) using r du(3) by (auto simp: rounding_def intro: monoD)
      with dv fix_L show ?thesis by (metis order.trans)
    next
      fix y dy assume "y \<notin> dj_seen st" "finite_dist st y dy" "dy \<le> L'"
      with LL fix_L show ?thesis by (metis order.trans)
    qed
  qed
qed

text \<open>What the final state says of the target.\<close>

definition search_result :: "adjacency \<Rightarrow> (real \<Rightarrow> real) \<Rightarrow> string \<Rightarrow> string \<Rightarrow> dijkstra_state \<Rightarrow> bool" where
  "search_result g rnd s t st \<longleftrightarrow> dist_inv g rnd s st \<and> t \<notin> dj_seen st \<and> dj_seen st \<subseteq> nodes_of g
     \<and> (\<forall>p L. is_walk g rnd s t p L \<longrightarrow> (\<exists>d. finite_dist st t d \<and> d \<le> L))"

lemma dist_inv_seen: "dist_inv g rnd s st \<Longrightarrow> dj_seen st \<subseteq> nodes_of g"
  unfolding dist_inv_def by blast

lemma stop_result:
  assumes r: "rounding rnd" and n: "nonneg_weights g" and t: "t \<in> nodes_of g"
    and inv: "search_inv g rnd s st" and new: "t \<notin> dj_seen st"
    and stop: "dj_pq st = [] \<or> it_id (fst (heap_Pop (dj_pq st))) = t"
  shows "search_result g rnd s t (st\<lparr>dj_pq := q\<rparr>)"
proof -
  have q: "queue_inv st" and d: "dist_inv g rnd s st" using inv by (auto simp: search_inv_def)
  have "\<exists>d. finite_dist st t d \<and> d \<le> L" if walk: "is_walk g rnd s t p L" for p L
  proof -
    obtain y dy where y: "y \<notin> dj_seen st" "finite_dist st y dy" "dy \<le> L"
      using walk_frontier [OF r n inv walk t] new by blast
    then have ne: "dj_pq st \<noteq> []" using q unfolding queue_inv_def by force
    with stop obtain dt where "finite_dist st t dt" "dt \<le> it_dist (fst (heap_Pop (dj_pq st)))"
      using pop_inv(3) [OF q ne] by auto
    with pop_inv(4) [OF q ne y(1,2)] y(3) show ?thesis by (meson order.trans)
  qed
  with d new show ?thesis by (auto simp: search_result_def inv_frames dist_inv_seen)
qed

lemma dijkstra_result:
  assumes "rounding rnd" "nonneg_weights g" "\<forall>u v w. weight g u v = Some w \<longrightarrow> v \<in> set (ord u)"
    and "t \<in> nodes_of g" "search_inv g rnd s st" "t \<notin> dj_seen st"
  shows "search_result g rnd s t (dijkstra g ord rnd t st)"
  using assms
proof (induction g ord rnd t st rule: dijkstra.induct)
  case (1 g ord rnd t st)
  let ?x = "fst (heap_Pop (dj_pq st))" and ?st1 = "st\<lparr>dj_pq := snd (heap_Pop (dj_pq st))\<rparr>"
  note stop = stop_result [OF 1(3,4,6,7,8)]
  consider "dj_pq st = []" | "dj_pq st \<noteq> []" "it_id ?x = t" | "dj_pq st \<noteq> []" "it_id ?x \<noteq> t" "it_id ?x \<in> dj_seen st"
    | "dj_pq st \<noteq> []" "it_id ?x \<noteq> t" "it_id ?x \<notin> dj_seen st" by blast
  then show ?case
  proof cases
    case 1
    then have "st\<lparr>dj_pq := []\<rparr> = st" by simp
    with 1 stop [of "[]"] show ?thesis by (subst dijkstra.simps) simp
  next
    case 2
    with stop [of "snd (heap_Pop (dj_pq st))"] show ?thesis by (subst dijkstra.simps) (simp add: Let_def)
  next
    case 3
    have "search_result g rnd s t (dijkstra g ord rnd t ?st1)"
      by (rule 1(1) [OF 3(1) refl refl 3(2)]) (use 3 1 skip_inv [OF 1(7) 3(1,3)] in simp_all)
    then show ?thesis using 3 by (subst dijkstra.simps) (simp add: Let_def)
  next
    case 4
    have "search_result g rnd s t (dijkstra g ord rnd t (expand g ord rnd (it_id ?x) ?st1))"
      by (rule 1(2) [OF 4(1) refl refl 4(2)]) (use 4 1 expand_inv [OF 1(3,4,5,7) 4(1,3)] in simp_all)
    then show ?thesis using 4 by (subst dijkstra.simps) (simp add: Let_def)
  qed
qed

lemma init_inv:
  assumes "rounding rnd" "s \<in> nodes_of g"
  shows "search_inv g rnd s (dijkstra_init g s)"
proof -
  have "pq_ok (heap_Push x [])" for x by (rule bq.ok_push [OF bq.ok_empty])
  moreover have "set (heap_Push x []) = {x}" for x
    using bq.items_push [OF bq.ok_empty, of x] by (metis mset_single_iff_right set_mset_add_mset_insert set_mset_empty set_mset_mset mset.simps(1))
  ultimately have "queue_inv (dijkstra_init g s)"
    by (auto simp: queue_inv_def dijkstra_init_def split: if_splits)
  moreover have "dom (dj_dist (dijkstra_init g s)) = nodes_of g"
  proof -
    have "dj_dist (dijkstra_init g s) v \<noteq> None \<longleftrightarrow> v \<in> nodes_of g" for v
      using assms(2) by (simp add: dijkstra_init_def)
    then show ?thesis by (simp only: dom_def) blast
  qed
  then have "dist_inv g rnd s (dijkstra_init g s)" unfolding dist_inv_def
    using assms(1) by (auto simp: dijkstra_init_def rounding_def split: if_splits
        intro!: exI [of _ "[s]"] chain_start is_walk_start)
  moreover have "edge_inv g rnd UNIV (dijkstra_init g s)" by (simp add: edge_inv_def dijkstra_init_def)
  ultimately show ?thesis by (simp add: search_inv_def)
qed

section \<open>Properties\<close>

text \<open>The order \<open>ord\<close> lists the neighbours of every node.\<close>

definition complete_order :: "adjacency \<Rightarrow> (string \<Rightarrow> string list) \<Rightarrow> bool" where
  "complete_order g ord \<longleftrightarrow> (\<forall>u v w. weight g u v = Some w \<longrightarrow> v \<in> set (ord u))"

lemma nodes_of_map_of: "u \<in> nodes_of g \<longleftrightarrow> map_of g u \<noteq> None"
  by (simp add: map_of_eq_None_iff)

lemma ShortestPath_found:
  assumes "search_result g rnd s t st" "finite_dist st t d" "t \<in> nodes_of g" "[] \<notin> nodes_of g"
  shows "\<exists>p. rebuild (dj_prev st) t [] = Some p \<and> is_walk g rnd s t p d
    \<and> (\<forall>p' L. is_walk g rnd s t p' L \<longrightarrow> d \<le> L)"
proof -
  have d: "dist_inv g rnd s st" and seen: "dj_seen st \<subseteq> nodes_of g"
    and least: "\<forall>p L. is_walk g rnd s t p L \<longrightarrow> (\<exists>d. finite_dist st t d \<and> d \<le> L)"
    using assms(1) by (auto simp: search_result_def)
  obtain p where p: "chain (dj_prev st) (dj_seen st) s t p" "is_walk g rnd s t p d"
    using d assms(2) unfolding dist_inv_def by blast
  have s: "s \<in> nodes_of g" "dj_prev st s = None" using d unfolding dist_inv_def by blast+
  have "[] \<notin> set p" using chain_nodes [OF p(1)] seen s(1) assms(3,4) by blast
  then have "rebuild (dj_prev st) t [] = Some (p @ [])" by (rule rebuild_chain [OF p(1) s(2)])
  with p(2) least assms(2) show ?thesis by (intro exI [of _ p]) auto
qed

lemma ShortestPath_correct:
  assumes "rounding rnd" "nonneg_weights g" "complete_order g ord" "[] \<notin> nodes_of g"
  shows "(\<exists>p d. ShortestPath g ord rnd s t = Some (Inr (p, d)) \<and> is_walk g rnd s t p d
      \<and> (\<forall>p' L. is_walk g rnd s t p' L \<longrightarrow> d \<le> L))
    \<or> ShortestPath g ord rnd s t = Some (Inl ErrPathNotFound)
      \<and> (s \<notin> nodes_of g \<or> t \<notin> nodes_of g \<or> (\<nexists>p L. is_walk g rnd s t p L))"
proof (cases "s \<in> nodes_of g \<and> t \<in> nodes_of g")
  case False
  then have "map_of g s = None \<or> map_of g t = None" by (simp add: nodes_of_map_of)
  then have "ShortestPath g ord rnd s t = Some (Inl ErrPathNotFound)" by (simp add: ShortestPath_def)
  with False show ?thesis by blast
next
  case True
  then have known: "\<not> (map_of g s = None \<or> map_of g t = None)" by (simp add: nodes_of_map_of)
  show ?thesis
  proof (cases "s = t")
    case True
    have "0 \<le> L" if "is_walk g rnd s s p L" for p L
      using walk_frontier [OF assms(1,2) init_inv [OF assms(1)] that] \<open>s \<in> nodes_of g \<and> t \<in> nodes_of g\<close>
      by (auto simp: dijkstra_init_def split: if_splits)
    moreover have "ShortestPath g ord rnd s t = Some (Inr ([s], 0))" using True known by (simp add: ShortestPath_def)
    ultimately show ?thesis using True is_walk_start [of g rnd s]
      by (intro disjI1 exI [of _ "[s]"] exI [of _ "0 :: real"]) auto
  next
    case False
    let ?st = "dijkstra g ord rnd t (dijkstra_init g s)"
    have res: "search_result g rnd s t ?st"
      using assms True by (intro dijkstra_result init_inv) (auto simp: complete_order_def dijkstra_init_def)
    then have "dj_dist ?st t \<noteq> None" using True unfolding search_result_def dist_inv_def by blast
    then obtain x where x: "dj_dist ?st t = Some x" by blast
    show ?thesis
    proof (cases x)
      case None
      then have "\<nexists>p L. is_walk g rnd s t p L" using res x by (auto simp: search_result_def)
      with None x False known show ?thesis by (simp add: ShortestPath_def Let_def dist_get_def)
    next
      case (Some d)
      with ShortestPath_found [OF res] x True assms(4) obtain p where "rebuild (dj_prev ?st) t [] = Some p"
        "is_walk g rnd s t p d" "\<forall>p' L. is_walk g rnd s t p' L \<longrightarrow> d \<le> L" by blast
      with Some x False known show ?thesis by (auto simp: ShortestPath_def Let_def dist_get_def)
    qed
  qed
qed

text \<open>What \<^verbatim>\<open>NewGraph\<close> makes of the edges of a map.\<close>

lemma weight_set_weight:
  "weight (set_weight u v w g) a b = (if a = u \<and> b = v then Some w else weight g a b)"
  by (auto simp: weight_def set_weight_def update_conv' split: option.split)

lemma weight_Nil [simp]: "weight [] u v = None"
  by (simp add: weight_def)

lemma nodes_set_weight: "nodes_of (set_weight u v w g) = insert u (nodes_of g)"
proof -
  have "a \<in> nodes_of (set_weight u v w g) \<longleftrightarrow> a = u \<or> a \<in> nodes_of g" for a
    unfolding nodes_of_map_of set_weight_def by (simp add: update_conv')
  then show ?thesis by blast
qed

lemma NewGraph_induct:
  assumes "P (fold (\<lambda>n g. AList.update (n_ID n) [] g) nodes [])"
    and "\<And>e g. e \<in> set edges \<Longrightarrow> P g \<Longrightarrow> P (set_weight (ne_From e) (ne_To e) (ne_Distance e) g)"
    and "\<And>e g. e \<in> set edges \<Longrightarrow> P g \<Longrightarrow> P (set_weight (ne_To e) (ne_From e) (ne_Distance e) g)"
  shows "P (NewGraph nodes edges)"
proof -
  have "set es \<subseteq> set edges \<Longrightarrow> P g \<Longrightarrow> P (fold add_edge es g)" for es g
    by (induction es arbitrary: g) (auto simp: add_edge_def Let_def assms(2,3))
  then show ?thesis using assms(1) by (simp add: NewGraph_def)
qed

definition good_edges :: "NavNode list \<Rightarrow> NavEdge list \<Rightarrow> bool" where
  "good_edges nodes edges \<longleftrightarrow> list_all (\<lambda>n. n_ID n \<noteq> []) nodes
     \<and> list_all (\<lambda>e. 0 \<le> ne_Distance e \<and> ne_From e \<noteq> [] \<and> ne_To e \<noteq> []) edges"

lemma node_fold: "map_of (fold (\<lambda>n g. AList.update (n_ID n) [] g) nodes g) u =
    (if u \<in> n_ID ` set nodes then Some [] else map_of g u)" for g :: adjacency
  by (induction nodes arbitrary: g) (auto simp: update_conv')

lemma NewGraph_nonneg: "good_edges nodes edges \<Longrightarrow> nonneg_weights (NewGraph nodes edges)"
proof (rule NewGraph_induct, goal_cases)
  case 1
  show ?case by (auto simp: nonneg_weights_def weight_def node_fold split: if_splits)
qed (auto simp: nonneg_weights_def weight_set_weight good_edges_def list_all_iff split: if_splits)

lemma NewGraph_named: "good_edges nodes edges \<Longrightarrow> [] \<notin> nodes_of (NewGraph nodes edges)"
proof (rule NewGraph_induct, goal_cases)
  case 1
  then show ?case unfolding nodes_of_map_of node_fold by (auto simp: good_edges_def list_all_iff)
qed (auto simp: nodes_set_weight good_edges_def list_all_iff)

text \<open>
  C20. The route planner is correct: on the graph of a map whose edges have non-negative distances and whose
  names are not empty, whatever the order of the neighbours, \<^verbatim>\<open>ShortestPath\<close> returns; what it returns is a
  walk of the graph from the start to the target, with its length, and no walk is shorter; it reports that
  there is no path exactly when one of the nodes is unknown or no walk exists.
\<close>

theorem route_planner_correct:
  assumes "rounding rnd" "good_edges nodes edges" "complete_order (NewGraph nodes edges) ord"
  shows "(\<exists>p d. ShortestPath (NewGraph nodes edges) ord rnd s t = Some (Inr (p, d))
        \<and> is_walk (NewGraph nodes edges) rnd s t p d
        \<and> (\<forall>p' L. is_walk (NewGraph nodes edges) rnd s t p' L \<longrightarrow> d \<le> L))
    \<or> ShortestPath (NewGraph nodes edges) ord rnd s t = Some (Inl ErrPathNotFound)
      \<and> (map_of (NewGraph nodes edges) s = None \<or> map_of (NewGraph nodes edges) t = None
         \<or> (\<nexists>p L. is_walk (NewGraph nodes edges) rnd s t p L))"
  using ShortestPath_correct [OF assms(1) NewGraph_nonneg [OF assms(2)] assms(3) NewGraph_named [OF assms(2)]]
  unfolding nodes_of_map_of by blast

definition example_edges :: "NavEdge list" where
  "example_edges =
     [\<lparr>ne_From = ''a'', ne_To = ''b'', ne_Distance = 5, ne_Bidirectional = True\<rparr>,
      \<lparr>ne_From = ''a'', ne_To = ''c'', ne_Distance = 1, ne_Bidirectional = True\<rparr>,
      \<lparr>ne_From = ''c'', ne_To = ''b'', ne_Distance = 2, ne_Bidirectional = True\<rparr>]"

definition example_order :: "string \<Rightarrow> string list" where
  "example_order u = [''a'', ''b'', ''c'']"

lemma example_path:
  "ShortestPath (NewGraph [] example_edges) example_order (\<lambda>x. x) ''a'' ''b'' = Some (Inr ([''a'', ''c'', ''b''], 3))"
  by code_simp

theorem route_planner_correct_witness:
  "is_walk (NewGraph [] example_edges) (\<lambda>x. x) ''a'' ''b'' [''a'', ''c'', ''b''] 3
   \<and> (\<nexists>p L. is_walk (NewGraph [] example_edges) (\<lambda>x. x) ''a'' ''b'' p L \<and> L < 3)"
proof -
  have r: "rounding (\<lambda>x. x)" by (simp add: rounding_def mono_def)
  have e: "good_edges [] example_edges" by (simp add: good_edges_def example_edges_def)
  have "complete_order (NewGraph [] example_edges) example_order"
    by (auto simp: complete_order_def example_order_def NewGraph_def example_edges_def add_edge_def
        weight_set_weight Let_def split: if_splits)
  from route_planner_correct [OF r e this, of "''a''" "''b''"] example_path show ?thesis by (auto simp: not_less)
qed

end
