(* ===== verification/Mall_Service.thy ===== *)
theory Mall_Service
  imports Mall_Graph
begin

text \<open>
  The mall digital twin: maps and their repository (\<^verbatim>\<open>internal/mall/map.go\<close>, \<^verbatim>\<open>repository.go\<close>),
  routes and the service on top of them (\<^verbatim>\<open>routes.go\<close>, \<^verbatim>\<open>service.go\<close>), and the older directory of
  stores (\<^verbatim>\<open>directory.go\<close>). Reading and decoding the file of a map is outside: its result is an argument.
\<close>

record Floor =
  fl_ID :: string
  fl_Name :: string
  fl_Level :: int

record StoreLocation =
  sl_StoreName :: string
  sl_FloorID :: string
  sl_Zone :: string
  sl_NodeID :: string

record MallMap =
  mm_ID :: string
  mm_Name :: string
  mm_Floors :: "Floor list"
  mm_Nodes :: "NavNode list"
  mm_Edges :: "NavEdge list"
  mm_Stores :: "StoreLocation list"
  mm_BasePoint :: string

section \<open>Coordinates as text\<close>

text \<open>Nearest integer, ties to even.\<close>

definition round_even :: "real \<Rightarrow> int" where
  "round_even x =
     (let f = \<lfloor>x\<rfloor>; r = x - of_int f in
      if r < 1 / 2 then f else if r > 1 / 2 then f + 1 else if even f then f else f + 1)"

text \<open>\<^verbatim>\<open>fmt.Sprintf("%.2f", x)\<close>.\<close>

definition show_2f :: "real \<Rightarrow> string" where
  "show_2f x =
     (let c = nat (round_even (\<bar>x\<bar> * 100)) in
      (if x < 0 then ''-'' else []) @ show_nat (c div 100) @ ''.''
        @ [char_of (48 + c div 10 mod 10), char_of (48 + c mod 10)])"

definition Coordinates_String :: "Coordinates \<Rightarrow> string" where
  "Coordinates_String c = show_2f (co_X c) @ '','' @ show_2f (co_Y c) @ '',0''"

section \<open>The repository\<close>

definition defaultMallMap :: MallMap where
  "defaultMallMap =
     \<lparr>mm_ID = ''default'', mm_Name = ''Default Mall'',
      mm_Floors = [\<lparr>fl_ID = ''floor-1'', fl_Name = ''Ground Floor'', fl_Level = 0\<rparr>],
      mm_Nodes =
        [\<lparr>n_ID = ''node-standby'', n_Name = ''Standby'', n_FloorID = ''floor-1'', n_Zone = ''A'',
          n_Coordinates = \<lparr>co_X = 0, co_Y = 0\<rparr>, n_Type = ''standby''\<rparr>,
         \<lparr>n_ID = ''node-entrance'', n_Name = ''Entrance'', n_FloorID = ''floor-1'', n_Zone = ''A'',
          n_Coordinates = \<lparr>co_X = 0, co_Y = 5\<rparr>, n_Type = ''entrance''\<rparr>],
      mm_Edges =
        [\<lparr>ne_From = ''node-standby'', ne_To = ''node-entrance'', ne_Distance = 5, ne_Bidirectional = True\<rparr>],
      mm_Stores = [], mm_BasePoint = ''node-standby''\<rparr>"

type_synonym mall_repo = "MallMap gomap"

text \<open>\<open>file\<close>: what the file at the path decodes to, if there is one.\<close>

definition NewMemoryRepository :: "MallMap option \<Rightarrow> mall_repo" where
  "NewMemoryRepository file =
     (case file of
        None \<Rightarrow> [''default'' \<mapsto> defaultMallMap]
      | Some m \<Rightarrow> (if mm_ID m \<noteq> [] then [mm_ID m \<mapsto> m] else [''default'' \<mapsto> defaultMallMap]))"

definition GetMap :: "mall_repo \<Rightarrow> string \<Rightarrow> mall_error + MallMap" where
  "GetMap r mallID = (case r mallID of None \<Rightarrow> Inl ErrMallNotFound | Some m \<Rightarrow> Inr m)"

section \<open>The service\<close>

definition nav_node_zero :: NavNode where
  "nav_node_zero = \<lparr>n_ID = [], n_Name = [], n_FloorID = [], n_Zone = [],
     n_Coordinates = \<lparr>co_X = 0, co_Y = 0\<rparr>, n_Type = []\<rparr>"

text \<open>\<^verbatim>\<open>nodeByID\<close>: later nodes replace earlier ones of the same name.\<close>

definition nodeByID :: "NavNode list \<Rightarrow> NavNode gomap" where
  "nodeByID nodes = map_of (rev (map (\<lambda>n. (n_ID n, n)) nodes))"

definition CalculateRoute ::
  "(string \<Rightarrow> string list) \<Rightarrow> (real \<Rightarrow> real) \<Rightarrow> mall_repo \<Rightarrow> string \<Rightarrow> string \<Rightarrow> string
   \<Rightarrow> (mall_error + NavNode list \<times> real) option" where
  "CalculateRoute ord rnd repo mallID fromNodeID toNodeID =
     (case GetMap repo mallID of
        Inl e \<Rightarrow> Some (Inl e)
      | Inr m \<Rightarrow>
          let byID = nodeByID (mm_Nodes m) in
          if byID fromNodeID = None then Some (Inl ErrPathNotFound)
          else if byID toNodeID = None then Some (Inl ErrPathNotFound)
          else case ShortestPath (NewGraph (mm_Nodes m) (mm_Edges m)) ord rnd fromNodeID toNodeID of
              None \<Rightarrow> None
            | Some (Inl e) \<Rightarrow> Some (Inl e)
            | Some (Inr (pathIDs, d)) \<Rightarrow>
                Some (Inr (map (\<lambda>i. case byID i of None \<Rightarrow> nav_node_zero | Some n \<Rightarrow> n) pathIDs, d)))"

fun find_exact :: "NavNode gomap \<Rightarrow> string \<Rightarrow> StoreLocation list \<Rightarrow> (mall_error + NavNode) option" where
  "find_exact byID name [] = None"
| "find_exact byID name (sl # sls) =
     (if EqualFold (sl_StoreName sl) name
      then Some (case byID (sl_NodeID sl) of Some n \<Rightarrow> Inr n | None \<Rightarrow> Inl ErrStoreNotFound)
      else find_exact byID name sls)"

fun find_partial :: "NavNode gomap \<Rightarrow> string \<Rightarrow> StoreLocation list \<Rightarrow> mall_error + NavNode" where
  "find_partial byID key [] = Inl ErrStoreNotFound"
| "find_partial byID key (sl # sls) =
     (if str_contains (ToLower (sl_StoreName sl)) key \<or> str_contains key (ToLower (sl_StoreName sl))
      then (case byID (sl_NodeID sl) of Some n \<Rightarrow> Inr n | None \<Rightarrow> find_partial byID key sls)
      else find_partial byID key sls)"

definition FindStoreNode :: "mall_repo \<Rightarrow> string \<Rightarrow> string \<Rightarrow> mall_error + NavNode" where
  "FindStoreNode repo mallID storeName =
     (case GetMap repo mallID of
        Inl e \<Rightarrow> Inl e
      | Inr m \<Rightarrow>
          let key = ToLower (TrimSpace storeName); byID = nodeByID (mm_Nodes m) in
          case find_exact byID storeName (mm_Stores m) of
            Some r \<Rightarrow> r
          | None \<Rightarrow> find_partial byID key (mm_Stores m))"

definition GetBasePoint :: "mall_repo \<Rightarrow> string \<Rightarrow> mall_error + NavNode" where
  "GetBasePoint repo mallID =
     (case GetMap repo mallID of
        Inl e \<Rightarrow> Inl e
      | Inr m \<Rightarrow>
          if mm_BasePoint m = [] then Inl (ErrNoBasePoint mallID)
          else case find (\<lambda>n. n_ID n = mm_BasePoint m) (mm_Nodes m) of
              Some n \<Rightarrow> Inr n | None \<Rightarrow> Inl ErrPathNotFound)"

definition ListStores :: "mall_repo \<Rightarrow> string \<Rightarrow> mall_error + StoreLocation list" where
  "ListStores repo mallID = (case GetMap repo mallID of Inl e \<Rightarrow> Inl e | Inr m \<Rightarrow> Inr (mm_Stores m))"

section \<open>The directory\<close>

record Store =
  st_Name :: string
  st_Floor :: string
  st_Zone :: string
  st_Coordinates :: string

definition food_court :: Store where
  "food_court = \<lparr>st_Name = ''Food Court'', st_Floor = ''1'', st_Zone = ''Dining'', st_Coordinates = ''5.0,20.0,0''\<rparr>"

definition initDirectory :: "Store gomap" where
  "initDirectory =
     [''nike'' \<mapsto> \<lparr>st_Name = ''Nike'', st_Floor = ''1'', st_Zone = ''Sportswear'', st_Coordinates = ''10.5,5.2,0''\<rparr>,
      ''adidas'' \<mapsto> \<lparr>st_Name = ''Adidas'', st_Floor = ''1'', st_Zone = ''Sportswear'', st_Coordinates = ''12.0,5.2,0''\<rparr>,
      ''electronics'' \<mapsto> \<lparr>st_Name = ''Electronics Zone'', st_Floor = ''2'', st_Zone = ''Electronics'',
         st_Coordinates = ''8.0,15.0,0''\<rparr>,
      ''food court'' \<mapsto> food_court, ''food'' \<mapsto> food_court, ''restaurant'' \<mapsto> food_court,
      ''restaurants'' \<mapsto> food_court]"

text \<open>\<open>ks\<close>: the order in which the directory is ranged over.\<close>

definition FindStore :: "string list \<Rightarrow> string \<Rightarrow> mall_error + Store" where
  "FindStore ks name =
     (if name = [] then Inl ErrStoreNotFound
      else let key = ToLower (TrimSpace name) in
        case initDirectory key of
          Some s \<Rightarrow> Inr s
        | None \<Rightarrow>
            case find (\<lambda>k. case initDirectory k of None \<Rightarrow> False | Some s \<Rightarrow>
                str_contains k key \<or> str_contains key k \<or> str_contains (ToLower (st_Name s)) key) ks of
              Some k \<Rightarrow> (case initDirectory k of Some s \<Rightarrow> Inr s | None \<Rightarrow> Inl ErrStoreNotFound)
            | None \<Rightarrow> Inl ErrStoreNotFound)"

section \<open>Lemmas\<close>

lemma nodeByID_Some: "nodeByID nodes i = Some n \<Longrightarrow> n \<in> set nodes \<and> n_ID n = i"
  by (auto simp: nodeByID_def dest!: map_of_SomeD)

lemma nodeByID_None: "nodeByID nodes i = None \<longleftrightarrow> i \<notin> n_ID ` set nodes"
  by (auto simp: nodeByID_def map_of_eq_None_iff image_image)

text \<open>Every edge of the map joins declared nodes.\<close>

definition closed_map :: "MallMap \<Rightarrow> bool" where
  "closed_map m \<longleftrightarrow> list_all (\<lambda>e. ne_From e \<in> n_ID ` set (mm_Nodes m) \<and> ne_To e \<in> n_ID ` set (mm_Nodes m)) (mm_Edges m)"

lemma NewGraph_closed:
  assumes "closed_map m" "weight (NewGraph (mm_Nodes m) (mm_Edges m)) u v = Some w"
  shows "v \<in> n_ID ` set (mm_Nodes m)"
proof -
  have "\<forall>u v w. weight (NewGraph (mm_Nodes m) (mm_Edges m)) u v = Some w \<longrightarrow> v \<in> n_ID ` set (mm_Nodes m)"
  proof (rule NewGraph_induct, goal_cases)
    case 1
    show ?case by (auto simp: weight_def node_fold split: if_splits)
  qed (use assms(1) in \<open>auto simp: closed_map_def list_all_iff weight_set_weight split: if_splits\<close>)
  with assms(2) show ?thesis by blast
qed

lemma walk_closed:
  assumes "closed_map m" "s \<in> n_ID ` set (mm_Nodes m)"
  shows "is_walk (NewGraph (mm_Nodes m) (mm_Edges m)) rnd s t p d \<Longrightarrow> set p \<subseteq> n_ID ` set (mm_Nodes m)"
proof (induction "length p" arbitrary: p t d rule: less_induct)
  case less
  from less.prems show ?case
  proof (cases rule: is_walk_cases)
    case (step p' u d' w)
    with less.hyps [of p' u d'] NewGraph_closed [OF assms(1) step(2)] show ?thesis by simp
  qed (use assms(2) in simp)
qed

section \<open>Properties\<close>

text \<open>
  A route consists of declared nodes of the map: for a map whose edges join declared nodes, the nodes
  of a calculated route belong to the map, they spell a walk of its graph from the start to the target with
  the reported length, and no walk is shorter.
\<close>

theorem CalculateRoute_correct:
  assumes "repo mallID = Some m" "closed_map m" "good_edges (mm_Nodes m) (mm_Edges m)"
    and "rounding rnd" "complete_order (NewGraph (mm_Nodes m) (mm_Edges m)) ord"
    and "CalculateRoute ord rnd repo mallID s t = Some (Inr (route, d))"
  shows "set route \<subseteq> set (mm_Nodes m)
    \<and> is_walk (NewGraph (mm_Nodes m) (mm_Edges m)) rnd s t (map n_ID route) d
    \<and> (\<forall>p L. is_walk (NewGraph (mm_Nodes m) (mm_Edges m)) rnd s t p L \<longrightarrow> d \<le> L)"
proof -
  let ?g = "NewGraph (mm_Nodes m) (mm_Edges m)" and ?by = "nodeByID (mm_Nodes m)"
  let ?n = "\<lambda>i. case ?by i of None \<Rightarrow> nav_node_zero | Some n \<Rightarrow> n"
  obtain p where p: "ShortestPath ?g ord rnd s t = Some (Inr (p, d))" and route: "route = map ?n p"
    and s: "?by s \<noteq> None"
    using assms(1,6) by (auto simp: CalculateRoute_def GetMap_def Let_def split: if_splits option.splits sum.splits)
  have w: "is_walk ?g rnd s t p d" "\<forall>p' L. is_walk ?g rnd s t p' L \<longrightarrow> d \<le> L"
    using ShortestPath_correct [OF assms(4) NewGraph_nonneg [OF assms(3)] assms(5) NewGraph_named [OF assms(3)], of s t] p
    by auto
  have "s \<in> n_ID ` set (mm_Nodes m)" using s by (simp add: nodeByID_None)
  from walk_closed [OF assms(2) this w(1)] have sub: "set p \<subseteq> n_ID ` set (mm_Nodes m)" .
  have ni: "?n i \<in> set (mm_Nodes m) \<and> n_ID (?n i) = i" if "i \<in> set p" for i
  proof -
    have "?by i \<noteq> None" using sub that by (auto simp: nodeByID_None)
    then obtain n where "?by i = Some n" by blast
    then show ?thesis using nodeByID_Some by auto
  qed
  then have "set route \<subseteq> set (mm_Nodes m)" "map n_ID route = p" unfolding route by (auto intro: map_idI)
  with w show ?thesis by simp
qed

lemma default_route:
  "CalculateRoute (\<lambda>u. [''node-standby'', ''node-entrance'']) (\<lambda>x. x) (NewMemoryRepository None) ''default'' ''node-standby'' ''node-entrance''
   = Some (Inr (mm_Nodes defaultMallMap, 5))"
  by code_simp

theorem CalculateRoute_correct_witness:
  "is_walk (NewGraph (mm_Nodes defaultMallMap) (mm_Edges defaultMallMap)) (\<lambda>x. x) ''node-standby'' ''node-entrance''
     [''node-standby'', ''node-entrance''] 5"
proof -
  let ?m = defaultMallMap
  have m: "NewMemoryRepository None ''default'' = Some ?m" by (simp add: NewMemoryRepository_def)
  have c: "closed_map ?m" "good_edges (mm_Nodes ?m) (mm_Edges ?m)"
    by (simp_all add: closed_map_def good_edges_def defaultMallMap_def)
  have r: "rounding (\<lambda>x. x)" by (simp add: rounding_def mono_def)
  have "complete_order (NewGraph (mm_Nodes ?m) (mm_Edges ?m)) (\<lambda>u. [''node-standby'', ''node-entrance''])"
    using NewGraph_closed [OF c(1)] by (auto simp: complete_order_def defaultMallMap_def)
  from CalculateRoute_correct [OF m c r this default_route] show ?thesis by (simp add: defaultMallMap_def)
qed

lemma find_exact_Some:
  "find_exact byID name sls = Some (Inr n) \<Longrightarrow> \<exists>sl \<in> set sls. EqualFold (sl_StoreName sl) name \<and> byID (sl_NodeID sl) = Some n"
  by (induction sls) (auto split: if_splits option.splits)

lemma find_exact_None: "find_exact byID name sls = None \<longleftrightarrow> (\<forall>sl \<in> set sls. \<not> EqualFold (sl_StoreName sl) name)"
  by (induction sls) auto

lemma find_partial_Inr:
  "find_partial byID key sls = Inr n \<Longrightarrow> \<exists>sl \<in> set sls. byID (sl_NodeID sl) = Some n
     \<and> (str_contains (ToLower (sl_StoreName sl)) key \<or> str_contains key (ToLower (sl_StoreName sl)))"
  by (induction sls) (auto split: if_splits option.splits)

text \<open>
  A store that is found is a declared node of a store of the map whose name equals the query up to case;
  only if no name does, a store whose name contains the query or is contained in it.
\<close>

theorem FindStoreNode_sound:
  assumes "repo mallID = Some m" "FindStoreNode repo mallID name = Inr n"
  shows "n \<in> set (mm_Nodes m) \<and> (\<exists>sl \<in> set (mm_Stores m). sl_NodeID sl = n_ID n
    \<and> (EqualFold (sl_StoreName sl) name
       \<or> (\<forall>sl' \<in> set (mm_Stores m). \<not> EqualFold (sl_StoreName sl') name)
         \<and> (str_contains (ToLower (sl_StoreName sl)) (ToLower (TrimSpace name))
            \<or> str_contains (ToLower (TrimSpace name)) (ToLower (sl_StoreName sl)))))"
proof (cases "find_exact (nodeByID (mm_Nodes m)) name (mm_Stores m)")
  case (Some r)
  with assms have "find_exact (nodeByID (mm_Nodes m)) name (mm_Stores m) = Some (Inr n)"
    by (simp add: FindStoreNode_def GetMap_def Let_def)
  from find_exact_Some [OF this] obtain sl where sl: "sl \<in> set (mm_Stores m)" "EqualFold (sl_StoreName sl) name"
    "nodeByID (mm_Nodes m) (sl_NodeID sl) = Some n" by blast
  with nodeByID_Some [OF sl(3)] show ?thesis by auto
next
  case None
  with assms have "find_partial (nodeByID (mm_Nodes m)) (ToLower (TrimSpace name)) (mm_Stores m) = Inr n"
    by (simp add: FindStoreNode_def GetMap_def Let_def)
  from find_partial_Inr [OF this] obtain sl where sl: "sl \<in> set (mm_Stores m)"
    "nodeByID (mm_Nodes m) (sl_NodeID sl) = Some n"
    "str_contains (ToLower (sl_StoreName sl)) (ToLower (TrimSpace name))
      \<or> str_contains (ToLower (TrimSpace name)) (ToLower (sl_StoreName sl))" by blast
  with nodeByID_Some [OF sl(2)] None show ?thesis unfolding find_exact_None by auto
qed

definition example_map :: MallMap where
  "example_map = defaultMallMap\<lparr>mm_ID := ''m1'', mm_Stores :=
     [\<lparr>sl_StoreName = ''Nike'', sl_FloorID = ''floor-1'', sl_Zone = ''A'', sl_NodeID = ''node-entrance''\<rparr>]\<rparr>"

theorem FindStoreNode_sound_witness:
  "\<exists>n. FindStoreNode (NewMemoryRepository (Some example_map)) ''m1'' ''nike'' = Inr n \<and> n \<in> set (mm_Nodes example_map)"
proof -
  have m: "NewMemoryRepository (Some example_map) ''m1'' = Some example_map"
    by (simp add: NewMemoryRepository_def example_map_def)
  have "FindStoreNode (NewMemoryRepository (Some example_map)) ''m1'' ''nike'' = Inr (mm_Nodes example_map ! 1)"
    by code_simp
  with FindStoreNode_sound [of "NewMemoryRepository (Some example_map)" "''m1''" example_map "''nike''"] m
  show ?thesis by blast
qed

text \<open>
  A blank query finds a store: every name contains the empty string, so that the service returns the first
  store of the map that has a node, and the directory an arbitrary store, whichever Go's map yields first.
\<close>

theorem blank_query_finds_store:
  "FindStoreNode (NewMemoryRepository (Some example_map)) ''m1'' '' '' = Inr (mm_Nodes example_map ! 1)
   \<and> FindStore [''nike'', ''adidas''] '' '' \<noteq> FindStore [''adidas'', ''nike''] '' ''"
  by code_simp

end
