(* ===== verification/Go_Json.thy ===== *)
theory Go_Json
  imports Prelude
begin

text \<open>
  What the platform uses of \<^verbatim>\<open>encoding/json\<close>: a \<^verbatim>\<open>json.RawMessage\<close> and
  \<^verbatim>\<open>json.Unmarshal\<close> of it into a struct.

  A raw message is empty, not valid JSON, or the text of a JSON value. An object keeps its
  members in the order of the text, duplicates included. A number written without fraction and
  exponent is \<open>JInt\<close>, any other is \<open>JFloat\<close> with the \<^verbatim>\<open>float64\<close> that
  \<^verbatim>\<open>strconv.ParseFloat\<close> gives.

  \<^verbatim>\<open>Unmarshal\<close> fills a struct member by member, in the order of the text: a member's name is
  matched with the fields exactly first and by case folding otherwise, so that a later member may
  overwrite an earlier one; \<^verbatim>\<open>null\<close> leaves the field as it is; a value of the wrong type leaves
  the field, is reported as an error, and decoding continues with the next member. Names are
  folded over ASCII (the two non-ASCII code points that fold to \<^verbatim>\<open>k\<close> and \<^verbatim>\<open>s\<close> are left out).
\<close>

datatype json =
    JNull
  | JBool bool
  | JInt int
  | JFloat real
  | JStr string
  | JArr "json list"
  | JObj "(string \<times> json) list"

datatype raw_message = RawEmpty | RawInvalid string | RawJson json

text \<open>A \<^verbatim>\<open>float64\<close> is written without fraction and exponent when it is whole and below \<open>10 ^ 21\<close>.\<close>

definition num_json :: "real \<Rightarrow> json" where
  "num_json x = (if x = of_int \<lfloor>x\<rfloor> \<and> \<bar>x\<bar> < 10 ^ 21 then JInt \<lfloor>x\<rfloor> else JFloat x)"

text \<open>A field decoder: the JSON value and the struct to whether it fits, and the new struct.\<close>

type_synonym 's field_decoder = "json \<Rightarrow> 's \<Rightarrow> bool \<times> 's"
type_synonym 's struct_fields = "(string \<times> 's field_decoder) list"

definition float_finite :: "real \<Rightarrow> bool" where
  "float_finite r \<longleftrightarrow> \<bar>r\<bar> < 2 ^ 1024 - 2 ^ 970"

fun decode_float :: "(real \<Rightarrow> 's \<Rightarrow> 's) \<Rightarrow> 's field_decoder" where
  "decode_float upd (JInt i) s =
     (if float_finite (of_int i) then (True, upd (of_int i) s) else (False, s))"
| "decode_float upd (JFloat r) s = (True, upd r s)"
| "decode_float upd JNull s = (True, s)"
| "decode_float upd _ s = (False, s)"

fun decode_int :: "(int \<Rightarrow> 's \<Rightarrow> 's) \<Rightarrow> 's field_decoder" where
  "decode_int upd (JInt i) s =
     (if - (2 ^ 63) \<le> i \<and> i < 2 ^ 63 then (True, upd i s) else (False, s))"
| "decode_int upd JNull s = (True, s)"
| "decode_int upd _ s = (False, s)"

fun decode_string :: "(string \<Rightarrow> 's \<Rightarrow> 's) \<Rightarrow> 's field_decoder" where
  "decode_string upd (JStr v) s = (True, upd v s)"
| "decode_string upd JNull s = (True, s)"
| "decode_string upd _ s = (False, s)"

text \<open>A \<^verbatim>\<open>[]string\<close> field: an element that is not a string is reported and left empty.\<close>

fun decode_elems :: "json list \<Rightarrow> bool \<times> string list" where
  "decode_elems [] = (True, [])"
| "decode_elems (j # js) = (let (ok, vs) = decode_elems js in
     case j of JStr v \<Rightarrow> (ok, v # vs) | JNull \<Rightarrow> (ok, [] # vs) | _ \<Rightarrow> (False, [] # vs))"

fun decode_strings :: "(string list \<Rightarrow> 's \<Rightarrow> 's) \<Rightarrow> 's field_decoder" where
  "decode_strings upd (JArr js) s = (let (ok, vs) = decode_elems js in (ok, upd vs s))"
| "decode_strings upd JNull s = (True, upd [] s)"
| "decode_strings upd _ s = (False, s)"

definition find_field :: "'s struct_fields \<Rightarrow> string \<Rightarrow> 's field_decoder option" where
  "find_field fs k = (case find (\<lambda>f. fst f = k) fs of
       Some f \<Rightarrow> Some (snd f)
     | None \<Rightarrow> map_option snd (find (\<lambda>f. EqualFold (fst f) k) fs))"

fun decode_members :: "'s struct_fields \<Rightarrow> (string \<times> json) list \<Rightarrow> 's \<Rightarrow> bool \<times> 's" where
  "decode_members fs [] s = (True, s)"
| "decode_members fs ((k, v) # kvs) s =
     (case find_field fs k of
        None \<Rightarrow> decode_members fs kvs s
      | Some d \<Rightarrow> (let (ok, s') = d v s; (ok', s'') = decode_members fs kvs s'
                  in (ok \<and> ok', s'')))"

text \<open>\<^verbatim>\<open>json.Unmarshal(raw, &s)\<close>: whether the error is \<^verbatim>\<open>nil\<close>, and the struct afterwards.\<close>

fun unmarshal :: "'s struct_fields \<Rightarrow> raw_message \<Rightarrow> 's \<Rightarrow> bool \<times> 's" where
  "unmarshal fs RawEmpty s = (False, s)"
| "unmarshal fs (RawInvalid t) s = (False, s)"
| "unmarshal fs (RawJson JNull) s = (True, s)"
| "unmarshal fs (RawJson (JObj kvs)) s = decode_members fs kvs s"
| "unmarshal fs (RawJson _) s = (False, s)"

text \<open>\<^verbatim>\<open>if len(payload) > 0 { _ = json.Unmarshal(payload, &p) }\<close>: the error is dropped.\<close>

definition unmarshal_lenient :: "'s struct_fields \<Rightarrow> raw_message \<Rightarrow> 's \<Rightarrow> 's" where
  "unmarshal_lenient fs raw s = snd (unmarshal fs raw s)"

text \<open>
  A property of a struct that every field decoder keeps is kept by decoding a whole message,
  whatever the message.
\<close>

lemma find_field_in: "find_field fs k = Some d \<Longrightarrow> \<exists>n. (n, d) \<in> set fs"
  by (auto simp: find_field_def find_Some_iff split: option.splits) (metis nth_mem prod.collapse)+

lemma decode_members_induct:
  assumes step: "\<And>n d v s. (n, d) \<in> set fs \<Longrightarrow> P s \<Longrightarrow> P (snd (d v s))" and "P s"
  shows "P (snd (decode_members fs kvs s))"
  using assms(2)
proof (induction kvs arbitrary: s)
  case Nil
  then show ?case by simp
next
  case (Cons kv kvs)
  obtain k v where kv: "kv = (k, v)" by fastforce
  show ?case
  proof (cases "find_field fs k")
    case None
    with Cons kv show ?thesis by simp
  next
    case (Some d)
    with find_field_in obtain n where "(n, d) \<in> set fs" by blast
    with Cons.prems step have "P (snd (d v s))" by blast
    then show ?thesis using Cons.IH Some kv by (simp add: Let_def split: prod.split) force
  qed
qed

lemma unmarshal_induct:
  assumes "\<And>n d v s. (n, d) \<in> set fs \<Longrightarrow> P s \<Longrightarrow> P (snd (d v s))" and "P s"
  shows "P (snd (unmarshal fs raw s))"
  using assms by (induction fs raw s rule: unmarshal.induct) (auto intro: decode_members_induct)

end
