(* ===== verification/Store_Interface.thy ===== *)
theory Store_Interface
  imports Prelude
begin

text \<open>
  The contract the in-memory stores share, stated once: a store keeps at most one value per
  identifier, \<open>add\<close> stamps a value and files it under its own identifier, \<open>get\<close> finds what was
  added last, and ranging over the store in any possible order meets every value once. The laws
  are proved for each store where it is defined (\<open>interpretation\<close>); what a client needs is
  proved here from the laws alone.
\<close>

locale keyed_store =
  fixes get :: "'s \<Rightarrow> string \<Rightarrow> 'v option"
    and add :: "time \<Rightarrow> 'v \<Rightarrow> 's \<Rightarrow> 's"
    and key :: "'v \<Rightarrow> string"
    and stamp :: "time \<Rightarrow> 'v \<Rightarrow> 'v"
  assumes get_add: "get (add now v s) k = (if k = key v then Some (stamp now v) else get s k)"
    and key_stamp: "key (stamp now v) = key v"
begin

definition keys_agree :: "'s \<Rightarrow> bool" where
  "keys_agree s \<longleftrightarrow> (\<forall>k v. get s k = Some v \<longrightarrow> key v = k)"

lemma get_add_same: "get (add now v s) (key v) = Some (stamp now v)"
  by (simp add: get_add)

lemma get_add_other: "k \<noteq> key v \<Longrightarrow> get (add now v s) k = get s k"
  by (simp add: get_add)

lemma keys_agree_add: "keys_agree s \<Longrightarrow> keys_agree (add now v s)"
  by (simp add: keys_agree_def get_add key_stamp)

lemma add_add_commute:
  "key v \<noteq> key w \<Longrightarrow> get (add n1 v (add n2 w s)) k = get (add n2 w (add n1 v s)) k"
  by (simp add: get_add)

lemma add_keeps_all:
  "(\<And>k v. get s k = Some v \<Longrightarrow> P v) \<Longrightarrow> P (stamp now w) \<Longrightarrow> get (add now w s) k = Some v \<Longrightarrow> P v"
  by (auto simp: get_add split: if_splits)

end

locale deletable_store = keyed_store get add key stamp
  for get :: "'s \<Rightarrow> string \<Rightarrow> 'v option"
    and add :: "time \<Rightarrow> 'v \<Rightarrow> 's \<Rightarrow> 's"
    and key :: "'v \<Rightarrow> string"
    and stamp :: "time \<Rightarrow> 'v \<Rightarrow> 'v" +
  fixes del :: "string \<Rightarrow> 's \<Rightarrow> 's"
  assumes get_del: "get (del i s) k = (if k = i then None else get s k)"
begin

lemma keys_agree_del: "keys_agree s \<Longrightarrow> keys_agree (del i s)"
  by (simp add: keys_agree_def get_del)

lemma del_keeps_all:
  "(\<And>k v. get s k = Some v \<Longrightarrow> P v) \<Longrightarrow> get (del i s) k = Some v \<Longrightarrow> P v"
  by (auto simp: get_del split: if_splits)

lemma add_del_add: "get (del (key v) (add now v s)) k = get (del (key v) s) k"
  by (simp add: get_add get_del)

end

locale listed_store = keyed_store get add key stamp
  for get :: "'s \<Rightarrow> string \<Rightarrow> 'v option"
    and add :: "time \<Rightarrow> 'v \<Rightarrow> 's \<Rightarrow> 's"
    and key :: "'v \<Rightarrow> string"
    and stamp :: "time \<Rightarrow> 'v \<Rightarrow> 'v" +
  fixes listing :: "string list \<Rightarrow> 's \<Rightarrow> 'v list"
  assumes listing_values: "listing ks s = go_values (get s) ks"
begin

lemma in_listing: "go_range (get s) ks \<Longrightarrow> v \<in> set (listing ks s) \<longleftrightarrow> (\<exists>k. get s k = Some v)"
  by (simp add: listing_values go_range_values)

lemma listing_keys: "keys_agree s \<Longrightarrow> go_range (get s) ks \<Longrightarrow> map key (listing ks s) = ks"
  unfolding keys_agree_def go_range_def listing_values by (rule map_go_values_keys) auto

lemma listing_distinct: "keys_agree s \<Longrightarrow> go_range (get s) ks \<Longrightarrow> distinct (map key (listing ks s))"
  by (simp add: listing_keys) (simp add: go_range_def)

lemma listing_perm:
  assumes "keys_agree s" "go_range (get s) ks" "go_range (get s) ks'"
  shows "mset (listing ks s) = mset (listing ks' s)"
proof -
  have d: "distinct (listing qs s)" if "go_range (get s) qs" for qs
    using listing_distinct [OF assms(1) that] by (simp add: distinct_map)
  show ?thesis
    by (rule set_eq_iff_mset_eq_distinct [THEN iffD1, OF d d])
      (use assms in \<open>auto simp: in_listing\<close>)
qed

end

end
