(* ===== verification/Tasks.thy ===== *)
theory Tasks
  imports Go_Json Store_Interface
begin

text \<open>
  Tasks and their in-memory store, \<^verbatim>\<open>pkg/control-plane/tasks/types.go\<close> and \<^verbatim>\<open>store.go\<close>. The mutex
  makes every operation atomic; reads return copies.
\<close>

datatype Status = StatusPending | StatusRunning | StatusCompleted | StatusFailed | StatusCancelled

fun status_string :: "Status \<Rightarrow> string" where
  "status_string StatusPending = ''pending''"
| "status_string StatusRunning = ''running''"
| "status_string StatusCompleted = ''completed''"
| "status_string StatusFailed = ''failed''"
| "status_string StatusCancelled = ''cancelled''"

record Task =
  k_ID :: string
  k_RobotID :: string
  k_TenantID :: string
  k_Type :: string
  k_ScenarioID :: string
  k_Payload :: raw_message
  k_Status :: Status
  k_CreatedAt :: time
  k_UpdatedAt :: time
  k_CompletedAt :: "time option"
  k_OperatorID :: string

record ListFilters =
  lf_RobotID :: string
  lf_TenantID :: string
  lf_Status :: string

type_synonym task_store = "Task gomap"

definition task_stamp :: "time \<Rightarrow> Task \<Rightarrow> Task" where
  "task_stamp now t =
     (let t1 = t\<lparr>k_UpdatedAt := now\<rparr>
      in if time_IsZero (k_CreatedAt t1) then t1\<lparr>k_CreatedAt := now\<rparr> else t1)"

definition tasks_Create :: "time \<Rightarrow> Task \<Rightarrow> task_store \<Rightarrow> task_store" where
  "tasks_Create now t s = s(k_ID t \<mapsto> task_stamp now t)"

definition tasks_Get :: "task_store \<Rightarrow> string \<Rightarrow> Task option" where
  "tasks_Get s i = s i"

definition task_match :: "ListFilters \<Rightarrow> Task \<Rightarrow> bool" where
  "task_match f t \<longleftrightarrow>
     \<not> (lf_RobotID f \<noteq> [] \<and> k_RobotID t \<noteq> lf_RobotID f)
     \<and> \<not> (lf_TenantID f \<noteq> [] \<and> k_TenantID t \<noteq> lf_TenantID f)
     \<and> \<not> (lf_Status f \<noteq> [] \<and> status_string (k_Status t) \<noteq> lf_Status f)"

definition tasks_List :: "string list \<Rightarrow> ListFilters \<Rightarrow> task_store \<Rightarrow> Task list" where
  "tasks_List ks f s = filter (task_match f) (go_values s ks)"

definition tasks_UpdateStatus :: "time \<Rightarrow> string \<Rightarrow> Status \<Rightarrow> task_store \<Rightarrow> task_store" where
  "tasks_UpdateStatus now i status s =
     (case s i of
        None \<Rightarrow> s
      | Some t \<Rightarrow> s(i \<mapsto> t\<lparr>k_Status := status, k_UpdatedAt := now\<rparr>))"

definition tasks_UpdateStatusAndCompletedAt ::
  "time \<Rightarrow> string \<Rightarrow> Status \<Rightarrow> time \<Rightarrow> task_store \<Rightarrow> task_store" where
  "tasks_UpdateStatusAndCompletedAt now i status completedAt s =
     (case s i of
        None \<Rightarrow> s
      | Some t \<Rightarrow> s(i \<mapsto> t\<lparr>k_Status := status, k_UpdatedAt := now,
                          k_CompletedAt := Some completedAt\<rparr>))"

definition HasRunningForRobot :: "string list \<Rightarrow> string \<Rightarrow> task_store \<Rightarrow> bool" where
  "HasRunningForRobot ks robotID s =
     list_ex (\<lambda>t. k_RobotID t = robotID \<and> k_Status t = StatusRunning) (go_values s ks)"

section \<open>The contract of the store\<close>

lemma task_stamp_fields [simp]:
  "k_ID (task_stamp now t) = k_ID t"
  "k_RobotID (task_stamp now t) = k_RobotID t"
  "k_TenantID (task_stamp now t) = k_TenantID t"
  "k_Status (task_stamp now t) = k_Status t"
  "k_ScenarioID (task_stamp now t) = k_ScenarioID t"
  "k_Payload (task_stamp now t) = k_Payload t"
  "k_OperatorID (task_stamp now t) = k_OperatorID t"
  "k_CompletedAt (task_stamp now t) = k_CompletedAt t"
  by (simp_all add: task_stamp_def Let_def)

interpretation tks: keyed_store tasks_Get tasks_Create k_ID task_stamp
  by unfold_locales (auto simp: tasks_Get_def tasks_Create_def)

text \<open>
  The interface \<^verbatim>\<open>tasks.Store\<close> as the runner and the handlers rely on it: writes of a status touch
  one task, and the two queries are exact whatever the order of the map.
\<close>

locale task_store_spec =
  fixes get :: "'s \<Rightarrow> string \<Rightarrow> Task option"
    and set_status :: "time \<Rightarrow> string \<Rightarrow> Status \<Rightarrow> 's \<Rightarrow> 's"
    and finish :: "time \<Rightarrow> string \<Rightarrow> Status \<Rightarrow> time \<Rightarrow> 's \<Rightarrow> 's"
  assumes get_set_status: "get (set_status now i st s) j =
      (if j = i then map_option (\<lambda>t. t\<lparr>k_Status := st, k_UpdatedAt := now\<rparr>) (get s i) else get s j)"
    and get_finish: "get (finish now i st c s) j =
      (if j = i then map_option
          (\<lambda>t. t\<lparr>k_Status := st, k_UpdatedAt := now, k_CompletedAt := Some c\<rparr>) (get s i)
       else get s j)"
begin

definition running :: "'s \<Rightarrow> string \<Rightarrow> string set" where
  "running s r = {i. \<exists>t. get s i = Some t \<and> k_RobotID t = r \<and> k_Status t = StatusRunning}"

definition one_running :: "'s \<Rightarrow> bool" where
  "one_running s \<longleftrightarrow> (\<forall>r i j. i \<in> running s r \<longrightarrow> j \<in> running s r \<longrightarrow> i = j)"

lemma running_set_status_other:
  "st \<noteq> StatusRunning \<Longrightarrow> running (set_status now i st s) r \<subseteq> running s r"
  by (auto simp: running_def get_set_status split: if_splits)

lemma running_finish_other:
  "st \<noteq> StatusRunning \<Longrightarrow> running (finish now i st c s) r \<subseteq> running s r"
  by (auto simp: running_def get_finish split: if_splits)

lemma one_running_mono:
  "(\<And>r. running s' r \<subseteq> running s r) \<Longrightarrow> one_running s \<Longrightarrow> one_running s'"
  unfolding one_running_def by blast

lemma one_running_set_status:
  "st \<noteq> StatusRunning \<Longrightarrow> one_running s \<Longrightarrow> one_running (set_status now i st s)"
  by (rule one_running_mono [OF running_set_status_other])

lemma one_running_finish:
  "st \<noteq> StatusRunning \<Longrightarrow> one_running s \<Longrightarrow> one_running (finish now i st c s)"
  by (rule one_running_mono [OF running_finish_other])

lemma one_running_start:
  assumes "one_running s" "get s i = Some t" "running s (k_RobotID t) = {}"
  shows "one_running (set_status now i StatusRunning s)"
proof -
  have sub: "running (set_status now i StatusRunning s) r \<subseteq>
      (if r = k_RobotID t then {i} else running s r)" for r
    using assms(2,3) by (auto simp: running_def get_set_status split: if_splits)
  show ?thesis unfolding one_running_def
  proof (intro allI impI)
    fix r a b
    assume "a \<in> running (set_status now i StatusRunning s) r"
      and "b \<in> running (set_status now i StatusRunning s) r"
    with sub [of r] have "a \<in> (if r = k_RobotID t then {i} else running s r)"
      and "b \<in> (if r = k_RobotID t then {i} else running s r)" by auto
    with assms(1) show "a = b" by (auto simp: one_running_def split: if_splits)
  qed
qed

end

interpretation ts: task_store_spec tasks_Get tasks_UpdateStatus tasks_UpdateStatusAndCompletedAt
  by unfold_locales
    (auto simp: tasks_Get_def tasks_UpdateStatus_def tasks_UpdateStatusAndCompletedAt_def
      split: option.splits)

text \<open>The running tasks of a robot, and the invariant of exclusive execution, on the store.\<close>

definition running_tasks :: "task_store \<Rightarrow> string \<Rightarrow> string set" where
  "running_tasks s r = {i. \<exists>t. s i = Some t \<and> k_RobotID t = r \<and> k_Status t = StatusRunning}"

definition one_running :: "task_store \<Rightarrow> bool" where
  "one_running s \<longleftrightarrow> (\<forall>r i j. i \<in> running_tasks s r \<longrightarrow> j \<in> running_tasks s r \<longrightarrow> i = j)"

lemma running_tasks_eq: "ts.running = running_tasks"
  by (intro ext) (simp add: ts.running_def running_tasks_def tasks_Get_def)

lemma one_running_eq: "ts.one_running = one_running"
  by (intro ext) (simp add: ts.one_running_def one_running_def running_tasks_eq)

lemmas one_running_set_status = ts.one_running_set_status [unfolded one_running_eq]
lemmas one_running_finish = ts.one_running_finish [unfolded one_running_eq]
lemmas one_running_start = ts.one_running_start [unfolded one_running_eq running_tasks_eq tasks_Get_def]

lemma HasRunningForRobot_iff:
  "go_range s ks \<Longrightarrow> HasRunningForRobot ks r s \<longleftrightarrow> running_tasks s r \<noteq> {}"
  by (simp add: HasRunningForRobot_def list_ex_iff Bex_def go_range_values running_tasks_def) blast

lemma tasks_List_in:
  "go_range s ks \<Longrightarrow> t \<in> set (tasks_List ks f s) \<longleftrightarrow> (\<exists>i. s i = Some t) \<and> task_match f t"
  by (auto simp: tasks_List_def go_range_values)

lemma one_running_Create:
  assumes "one_running s" "k_Status t \<noteq> StatusRunning"
  shows "one_running (tasks_Create now t s)"
proof -
  have "running_tasks (tasks_Create now t s) r \<subseteq> running_tasks s r" for r
    using assms(2) by (auto simp: running_tasks_def tasks_Create_def split: if_splits)
  with assms(1) show ?thesis unfolding one_running_def by blast
qed

text \<open>Pending tasks are those a listing with the pending filter returns.\<close>

definition pending_filter :: ListFilters where
  "pending_filter = \<lparr>lf_RobotID = [], lf_TenantID = [], lf_Status = status_string StatusPending\<rparr>"

lemma status_string_inj: "status_string a = status_string b \<Longrightarrow> a = b"
  by (cases a; cases b) auto

lemma pending_match: "task_match pending_filter t \<longleftrightarrow> k_Status t = StatusPending"
  using status_string_inj [of "k_Status t" StatusPending]
  by (auto simp: task_match_def pending_filter_def)

lemma tasks_dom [simp]:
  "dom (tasks_UpdateStatus now i st s) = dom s"
  "dom (tasks_UpdateStatusAndCompletedAt now i st c s) = dom s"
  by (auto simp: tasks_UpdateStatus_def tasks_UpdateStatusAndCompletedAt_def split: option.splits if_splits)

section \<open>Writes of other goroutines\<close>

text \<open>The statuses a task never leaves.\<close>

definition terminal :: "Status \<Rightarrow> bool" where
  "terminal s \<longleftrightarrow> s \<in> {StatusCompleted, StatusFailed, StatusCancelled}"

lemma terminal_simps [simp]:
  "terminal StatusCompleted" "terminal StatusFailed" "terminal StatusCancelled"
  "\<not> terminal StatusPending" "\<not> terminal StatusRunning"
  by (simp_all add: terminal_def)

definition keyed :: "task_store \<Rightarrow> bool" where
  "keyed s \<longleftrightarrow> (\<forall>i t. s i = Some t \<longrightarrow> k_ID t = i)"

text \<open>
  What the handlers and the mall assistant may do to the store between two interactions of the
  runner: create pending tasks, and move tasks to a final status. They start no task, delete none,
  and never change the robot of one.
\<close>

definition others_write :: "task_store \<Rightarrow> task_store \<Rightarrow> bool" where
  "others_write s s' \<longleftrightarrow> (\<forall>i. case s i of
      None \<Rightarrow> (case s' i of None \<Rightarrow> True | Some t' \<Rightarrow> k_ID t' = i \<and> k_Status t' = StatusPending)
    | Some t \<Rightarrow> (case s' i of None \<Rightarrow> False | Some t' \<Rightarrow>
        k_ID t' = k_ID t \<and> k_RobotID t' = k_RobotID t
        \<and> (k_Status t' = k_Status t \<or> terminal (k_Status t'))
        \<and> (k_CompletedAt t \<noteq> None \<longrightarrow> k_CompletedAt t' \<noteq> None)))"

definition lawful :: "(task_store \<Rightarrow> task_store) \<Rightarrow> bool" where
  "lawful f \<longleftrightarrow> (\<forall>s. others_write s (f s))"

lemma lawful_id [simp]: "lawful (\<lambda>s. s)"
  by (simp add: lawful_def others_write_def split: option.split)

lemma others_write_refl: "others_write s s"
  by (auto simp: others_write_def split: option.split)

lemma others_write_Create: "s (k_ID t) = None \<Longrightarrow> k_Status t = StatusPending \<Longrightarrow> others_write s (tasks_Create now t s)"
  by (auto simp: others_write_def tasks_Create_def split: option.split)

lemma others_write_finish: "terminal st \<Longrightarrow> others_write s (tasks_UpdateStatusAndCompletedAt now i st c s)"
  by (auto simp: others_write_def tasks_UpdateStatusAndCompletedAt_def split: option.split)

lemma others_write_Some:
  "others_write s s' \<Longrightarrow> s i = Some t \<Longrightarrow> \<exists>t'. s' i = Some t' \<and> k_ID t' = k_ID t
     \<and> k_RobotID t' = k_RobotID t \<and> (k_Status t' = k_Status t \<or> terminal (k_Status t'))
     \<and> (k_CompletedAt t \<noteq> None \<longrightarrow> k_CompletedAt t' \<noteq> None)"
  unfolding others_write_def by (drule spec [of _ i]) (auto split: option.splits)

lemma others_write_None:
  "others_write s s' \<Longrightarrow> s i = None \<Longrightarrow> s' i = Some t' \<Longrightarrow> k_ID t' = i \<and> k_Status t' = StatusPending"
  unfolding others_write_def by (drule spec [of _ i]) auto

lemma others_write_running:
  assumes "others_write s s'"
  shows "running_tasks s' r \<subseteq> running_tasks s r"
proof
  fix i assume "i \<in> running_tasks s' r"
  then obtain t' where t': "s' i = Some t'" "k_RobotID t' = r" "k_Status t' = StatusRunning"
    by (auto simp: running_tasks_def)
  show "i \<in> running_tasks s r"
  proof (cases "s i")
    case None
    with others_write_None [OF assms None t'(1)] t'(3) show ?thesis by simp
  next
    case (Some t)
    with others_write_Some [OF assms Some] t' show ?thesis by (auto simp: running_tasks_def)
  qed
qed

lemma one_running_subset:
  "(\<And>r. running_tasks s' r \<subseteq> running_tasks s r) \<Longrightarrow> one_running s \<Longrightarrow> one_running s'"
  unfolding one_running_def by blast

lemmas others_write_one_running = one_running_subset [OF others_write_running]

lemma others_write_keyed: "others_write s s' \<Longrightarrow> keyed s \<Longrightarrow> keyed s'"
  unfolding keyed_def
proof (intro allI impI)
  fix i t' assume w: "others_write s s'" and k: "\<forall>i t. s i = Some t \<longrightarrow> k_ID t = i" and t': "s' i = Some t'"
  show "k_ID t' = i"
  proof (cases "s i")
    case None
    with others_write_None [OF w None t'] show ?thesis by simp
  next
    case (Some t)
    with others_write_Some [OF w Some] k t' show ?thesis by auto
  qed
qed

text \<open>A task that has ended, with its instant of completion, stays so.\<close>

definition ended :: "task_store \<Rightarrow> string \<Rightarrow> bool" where
  "ended s i \<longleftrightarrow> (case s i of None \<Rightarrow> False | Some t \<Rightarrow> terminal (k_Status t) \<and> k_CompletedAt t \<noteq> None)"

lemma others_write_ended: "others_write s s' \<Longrightarrow> ended s i \<Longrightarrow> ended s' i"
  by (auto simp: ended_def split: option.splits dest!: others_write_Some)

lemma others_write_dom: "others_write s s' \<Longrightarrow> i \<in> dom s \<Longrightarrow> i \<in> dom s'"
  by (auto dest: others_write_Some)

lemma finish_ended:
  "terminal st \<Longrightarrow> i \<in> dom s \<Longrightarrow> ended (tasks_UpdateStatusAndCompletedAt now i st c s) i"
  by (auto simp: ended_def tasks_UpdateStatusAndCompletedAt_def)

lemma finish_running:
  "st \<noteq> StatusRunning \<Longrightarrow> running_tasks (tasks_UpdateStatusAndCompletedAt now i st c s) r \<subseteq> running_tasks s r"
  using ts.running_finish_other unfolding running_tasks_eq .

end
