(* ===== verification/Mall_Assistant.thy ===== *)
theory Mall_Assistant
  imports Mall_Service Tasks
begin

text \<open>
  The mall assistant, \<^verbatim>\<open>pkg/control-plane/mallassistant/handler.go\<close>: the registry that hands a visitor's words to the
  handler of a robot, and the handler itself, a goroutine the task runner starts for a task of the scenario
  \<^verbatim>\<open>mall_assistant\<close>. It greets, waits for a request, finds the store and the way, creates a task for the journey, waits
  for that task, and creates the task of the return.

  A channel is a number, since the registry closes channels that a handler still holds. The AI services
  (intent, speech), the base64 decoding and the waiting (what ends it, what other goroutines do to the task store
  meanwhile) are arguments. \<open>None\<close> as the result of the handler: it has not returned.
\<close>

section \<open>The registry of visitor requests\<close>

record VisitorRequestRegistry =
  vr_channels :: "nat gomap"
  vr_buf :: "nat \<Rightarrow> string list"
  vr_closed :: "nat set"
  vr_next :: nat

definition NewVisitorRequestRegistry :: VisitorRequestRegistry where
  "NewVisitorRequestRegistry = \<lparr>vr_channels = Map.empty, vr_buf = (\<lambda>_. []), vr_closed = {}, vr_next = 0\<rparr>"

text \<open>The channel is made with room for four requests; an older channel of the robot is closed.\<close>

definition Register :: "string \<Rightarrow> VisitorRequestRegistry \<Rightarrow> nat \<times> VisitorRequestRegistry" where
  "Register robotID r =
     (let ch = vr_next r
      in (ch, r\<lparr>vr_closed := (case vr_channels r robotID of None \<Rightarrow> vr_closed r | Some old \<Rightarrow> insert old (vr_closed r)),
                vr_channels := (vr_channels r)(robotID \<mapsto> ch), vr_next := Suc ch\<rparr>))"

definition Unregister :: "string \<Rightarrow> VisitorRequestRegistry \<Rightarrow> VisitorRequestRegistry" where
  "Unregister robotID r =
     (case vr_channels r robotID of
        None \<Rightarrow> r
      | Some ch \<Rightarrow> r\<lparr>vr_closed := insert ch (vr_closed r), vr_channels := (vr_channels r)(robotID := None)\<rparr>)"

text \<open>
  \<^verbatim>\<open>Submit\<close> reads the channel under the lock and sends after releasing it; the send panics (\<open>None\<close>) when the
  channel has been closed in between.
\<close>

definition submit_lookup :: "string \<Rightarrow> VisitorRequestRegistry \<Rightarrow> nat option" where
  "submit_lookup robotID r = vr_channels r robotID"

definition submit_send :: "nat option \<Rightarrow> string \<Rightarrow> VisitorRequestRegistry \<Rightarrow> (bool \<times> VisitorRequestRegistry) option" where
  "submit_send ch text r =
     (case ch of
        None \<Rightarrow> Some (False, r)
      | Some c \<Rightarrow> if c \<in> vr_closed r then None
                  else if length (vr_buf r c) < 4 then Some (True, r\<lparr>vr_buf := (vr_buf r)(c := vr_buf r c @ [text])\<rparr>)
                  else Some (False, r))"

definition Submit :: "string \<Rightarrow> string \<Rightarrow> VisitorRequestRegistry \<Rightarrow> (bool \<times> VisitorRequestRegistry) option" where
  "Submit robotID text r = submit_send (submit_lookup robotID r) text r"

text \<open>What a receive on a channel gives: a request, the end of a closed channel, or nothing yet.\<close>

datatype receipt = Request string | ChannelClosed | Nothing

definition receive :: "nat \<Rightarrow> VisitorRequestRegistry \<Rightarrow> receipt \<times> VisitorRequestRegistry" where
  "receive ch r =
     (case vr_buf r ch of
        t # ts \<Rightarrow> (Request t, r\<lparr>vr_buf := (vr_buf r)(ch := ts)\<rparr>)
      | [] \<Rightarrow> (if ch \<in> vr_closed r then ChannelClosed else Nothing, r))"

section \<open>The handler\<close>

definition greetingText :: string where
  "greetingText = ''Hello! Welcome to the mall. How can I help you?''"

definition follow_text :: "string \<Rightarrow> string" where
  "follow_text store = ''Follow me. I will guide you to '' @ store @ ''.''"

definition arrival_text :: "string \<Rightarrow> string" where
  "arrival_text store = ''We have arrived. '' @ store @ '' is here.''"

definition storeNotFoundText :: string where
  "storeNotFoundText = ''I'' @ [CHR 0x27] @ ''m sorry, I couldn'' @ [CHR 0x27] @ ''t find that store. Could you try another?''"

definition standbyCoordinates :: string where
  "standbyCoordinates = ''0,0,0''"

definition navigateTaskWait :: duration where
  "navigateTaskWait = 30 * second"

datatype gateway_error = GatewayError string

record gateway =
  gw_intent :: "string \<Rightarrow> string \<Rightarrow> gateway_error + string \<times> json gomap" \<comment> \<open>robot and text to intent and parameters\<close>
  gw_synthesize :: "string \<Rightarrow> string \<Rightarrow> gateway_error + string" \<comment> \<open>robot and text to base64\<close>

record assistant =
  as_gateway :: "gateway option"
  as_bus :: bool
  as_broadcaster :: bool
  as_mall :: "mall_repo option"
  as_onTaskCompleted :: bool
  as_base64 :: "string \<Rightarrow> string option" \<comment> \<open>\<^verbatim>\<open>base64.StdEncoding.DecodeString\<close>\<close>

record assistant_world =
  aw_tasks :: task_store
  aw_registry :: VisitorRequestRegistry
  aw_events :: "(string \<times> (string \<times> json) list) list"
  aw_audio :: "(string \<times> string) list"
  aw_completed :: "(string \<times> string \<times> string) list"

definition ma_broadcast :: "assistant \<Rightarrow> string \<Rightarrow> (string \<times> json) list \<Rightarrow> assistant_world \<Rightarrow> assistant_world" where
  "ma_broadcast h typ data w = (if as_broadcaster h then w\<lparr>aw_events := aw_events w @ [(typ, data)]\<rparr> else w)"

definition speak :: "assistant \<Rightarrow> string \<Rightarrow> string \<Rightarrow> assistant_world \<Rightarrow> assistant_world" where
  "speak h robotID text w =
     (case as_gateway h of
        None \<Rightarrow> w
      | Some gw \<Rightarrow>
          if \<not> as_bus h then w
          else case gw_synthesize gw robotID text of
              Inl e \<Rightarrow> w
            | Inr audioBase64 \<Rightarrow>
                if audioBase64 = [] then w
                else case as_base64 h audioBase64 of
                    None \<Rightarrow> w
                  | Some audioBytes \<Rightarrow> w\<lparr>aw_audio := aw_audio w @ [(robotID, audioBytes)]\<rparr>)"

text \<open>\<^verbatim>\<open>intentRes.Parameters["store_name"].(string)\<close>, empty when absent or of another type.\<close>

definition store_name_of :: "json gomap \<Rightarrow> string" where
  "store_name_of params = (case params ''store_name'' of Some (JStr s) \<Rightarrow> s | _ \<Rightarrow> [])"

text \<open>\<open>ks\<close>: the order of ranging over the directory. An error and \<^verbatim>\<open>nil\<close> have the same consequence: no store.\<close>

definition processRequest :: "assistant \<Rightarrow> string list \<Rightarrow> string \<Rightarrow> string \<Rightarrow> Store option" where
  "processRequest h ks robotID text =
     (case as_gateway h of
        None \<Rightarrow> None
      | Some gw \<Rightarrow> (case gw_intent gw robotID text of
            Inl e \<Rightarrow> None
          | Inr (intent, params) \<Rightarrow>
              if intent \<noteq> ''find_store'' then None
              else if store_name_of params = [] then None
              else (case FindStore ks (store_name_of params) of Inl e \<Rightarrow> None | Inr store \<Rightarrow> Some store)))"

definition completeTask :: "assistant \<Rightarrow> time \<Rightarrow> string \<Rightarrow> string \<Rightarrow> Status \<Rightarrow> assistant_world \<Rightarrow> assistant_world" where
  "completeTask h now taskID robotID status w =
     (let w1 = w\<lparr>aw_tasks := tasks_UpdateStatusAndCompletedAt now taskID status now (aw_tasks w)\<rparr>
      in if as_onTaskCompleted h then w1\<lparr>aw_completed := aw_completed w1 @ [(taskID, robotID, status_string status)]\<rparr> else w1)"

definition navigate_task ::
  "string \<Rightarrow> string \<Rightarrow> string \<Rightarrow> string \<Rightarrow> Store \<Rightarrow> NavNode option \<Rightarrow> string list \<Rightarrow> real \<Rightarrow> Task" where
  "navigate_task uuid robotID tenantID operatorID store destNode route d =
     \<lparr>k_ID = uuid, k_RobotID = robotID, k_TenantID = or_default tenantID ''default'', k_Type = ''scenario'',
      k_ScenarioID = ''navigate_to_store'',
      k_Payload = RawJson (JObj
        [(''destination_node_id'', JStr (case destNode of None \<Rightarrow> [] | Some n \<Rightarrow> n_ID n)),
         (''estimated_distance'', num_json (if d > 0 then d else 0)),
         (''mall_id'', JStr ''default''),
         (''route'', JArr (map JStr route)),
         (''store_name'', JStr (st_Name store)),
         (''target_coordinates'', JStr (case destNode of None \<Rightarrow> st_Coordinates store | Some n \<Rightarrow> Coordinates_String (n_Coordinates n))),
         (''target_store'', JStr (st_Name store))]),
      k_Status = StatusPending, k_CreatedAt = 0, k_UpdatedAt = 0, k_CompletedAt = None, k_OperatorID = operatorID\<rparr>"

definition return_task :: "string \<Rightarrow> string \<Rightarrow> string \<Rightarrow> string \<Rightarrow> string \<Rightarrow> Task" where
  "return_task uuid robotID tenantID operatorID baseCoordinates =
     \<lparr>k_ID = uuid, k_RobotID = robotID, k_TenantID = or_default tenantID ''default'', k_Type = ''scenario'',
      k_ScenarioID = ''navigation'',
      k_Payload = RawJson (JObj
        [(''angular_z'', JInt 0), (''duration_sec'', JInt 10), (''linear_x'', JInt 0), (''linear_y'', JInt 0),
         (''target_coordinates'', JStr (or_default baseCoordinates standbyCoordinates))]),
      k_Status = StatusPending, k_CreatedAt = 0, k_UpdatedAt = 0, k_CompletedAt = None, k_OperatorID = operatorID\<rparr>"

text \<open>One turn of the waiting loop: the clock, whether the context is done, and what others did to the tasks before the tick.\<close>

record poll =
  po_now :: time
  po_done :: bool
  po_tasks :: "task_store \<Rightarrow> task_store"

fun waitForNavigation :: "time \<Rightarrow> string \<Rightarrow> poll list \<Rightarrow> task_store \<Rightarrow> task_store option" where
  "waitForNavigation deadline i [] s = None"
| "waitForNavigation deadline i (p # ps) s =
     (if \<not> po_now p < deadline then Some s
      else if po_done p then Some s
      else let s1 = po_tasks p s
           in case tasks_Get s1 i of
                Some t \<Rightarrow> if k_Status t \<in> {StatusCompleted, StatusFailed, StatusCancelled} then Some s1
                          else waitForNavigation deadline i ps s1
              | None \<Rightarrow> waitForNavigation deadline i ps s1)"

record assistant_env =
  an_now :: "nat \<Rightarrow> time"
  an_uuid :: "nat \<Rightarrow> string"
  an_registry :: "VisitorRequestRegistry \<Rightarrow> VisitorRequestRegistry" \<comment> \<open>by others while the handler waits for a request\<close>
  an_done :: bool \<comment> \<open>the context is done first\<close>
  an_tasks :: "nat \<Rightarrow> task_store \<Rightarrow> task_store" \<comment> \<open>by others between the handler's own writes\<close>
  an_stores :: "string list"
  an_order :: "string \<Rightarrow> string list"
  an_round :: "real \<Rightarrow> real"
  an_create_fails :: bool
  an_polls :: "poll list"

definition meet_tasks :: "assistant_env \<Rightarrow> nat \<Rightarrow> assistant_world \<Rightarrow> assistant_world" where
  "meet_tasks env n w = w\<lparr>aw_tasks := an_tasks env n (aw_tasks w)\<rparr>"

text \<open>The node of the store, the base and the way between them, as far as the mall service knows them.\<close>

record mall_plan =
  mp_dest :: "NavNode option"
  mp_base :: "NavNode option"
  mp_route :: "string list"
  mp_distance :: real

definition default_mallID :: string where
  "default_mallID = ''default''"

definition mp_way :: "assistant_env \<Rightarrow> mall_repo \<Rightarrow> NavNode \<Rightarrow> NavNode \<Rightarrow> (NavNode list \<times> real) option" where
  "mp_way env repo base dest =
     (case CalculateRoute (an_order env) (an_round env) repo default_mallID (n_ID base) (n_ID dest) of
        Some (Inr r) \<Rightarrow> Some r | _ \<Rightarrow> None)"

definition plan_guidance :: "assistant \<Rightarrow> assistant_env \<Rightarrow> Store \<Rightarrow> assistant_world \<Rightarrow> mall_plan \<times> assistant_world" where
  "plan_guidance h env store w =
     (let none = \<lparr>mp_dest = None, mp_base = None, mp_route = [], mp_distance = 0\<rparr> in
      case as_mall h of
        None \<Rightarrow> (none, w)
      | Some repo \<Rightarrow> (case FindStoreNode repo default_mallID (st_Name store) of
            Inl e \<Rightarrow> (none, w)
          | Inr n \<Rightarrow>
              let w1 = ma_broadcast h ''mall_store_resolved''
                    [(''mall_id'', JStr default_mallID), (''store_name'', JStr (st_Name store)), (''node_id'', JStr (n_ID n))] w
              in case GetBasePoint repo default_mallID of
                   Inl e \<Rightarrow> (none\<lparr>mp_dest := Some n\<rparr>, w1)
                 | Inr b \<Rightarrow> (case mp_way env repo b n of
                       None \<Rightarrow> (none\<lparr>mp_dest := Some n, mp_base := Some b\<rparr>, w1)
                     | Some (route, d) \<Rightarrow>
                         (\<lparr>mp_dest = Some n, mp_base = Some b, mp_route = map n_ID route, mp_distance = d\<rparr>,
                          ma_broadcast h ''mall_route_calculated''
                            [(''mall_id'', JStr default_mallID), (''from_node'', JStr (n_ID b)), (''to_node'', JStr (n_ID n)),
                             (''route_length'', JInt (int (length route))), (''estimated_distance'', num_json d)] w1))))"

definition task_robot :: "string \<Rightarrow> string \<Rightarrow> (string \<times> json) list" where
  "task_robot taskID robotID = [(''task_id'', JStr taskID), (''robot_id'', JStr robotID)]"

definition createNavigateTask ::
  "assistant_env \<Rightarrow> string \<Rightarrow> string \<Rightarrow> string \<Rightarrow> Store \<Rightarrow> mall_plan \<Rightarrow> assistant_world \<Rightarrow> (string \<times> assistant_world) option" where
  "createNavigateTask env robotID tenantID operatorID store plan w =
     (let t = navigate_task (an_uuid env 0) robotID tenantID operatorID store (mp_dest plan) (mp_route plan) (mp_distance plan)
      in if an_create_fails env then None else Some (k_ID t, w\<lparr>aw_tasks := tasks_Create (an_now env 0) t (aw_tasks w)\<rparr>))"

definition createReturnTask :: "assistant_env \<Rightarrow> string \<Rightarrow> string \<Rightarrow> string \<Rightarrow> string \<Rightarrow> assistant_world \<Rightarrow> assistant_world" where
  "createReturnTask env robotID tenantID operatorID baseCoordinates w =
     w\<lparr>aw_tasks := tasks_Create (an_now env 2) (return_task (an_uuid env 1) robotID tenantID operatorID baseCoordinates) (aw_tasks w)\<rparr>"

definition navigation_requested :: "assistant \<Rightarrow> string \<Rightarrow> Store \<Rightarrow> mall_plan \<Rightarrow> assistant_world \<Rightarrow> assistant_world" where
  "navigation_requested h robotID store plan w =
     (case (mp_dest plan, mp_base plan) of
        (Some n, Some b) \<Rightarrow> ma_broadcast h ''mall_navigation_requested''
          [(''mall_id'', JStr default_mallID), (''robot_id'', JStr robotID), (''store_name'', JStr (st_Name store)),
           (''from_node'', JStr (n_ID b)), (''to_node'', JStr (n_ID n)), (''route_length'', JInt (int (length (mp_route plan)))),
           (''estimated_distance'', num_json (mp_distance plan))] w
      | _ \<Rightarrow> w)"

definition announce_arrival ::
  "assistant \<Rightarrow> assistant_env \<Rightarrow> string \<Rightarrow> string \<Rightarrow> string \<Rightarrow> string \<Rightarrow> Store \<Rightarrow> mall_plan \<Rightarrow> assistant_world \<Rightarrow> assistant_world" where
  "announce_arrival h env taskID robotID tenantID operatorID store plan w =
     (let w1 = ma_broadcast h ''navigation_completed'' (task_robot taskID robotID @ [(''store'', JStr (st_Name store))]) w;
          w2 = speak h robotID (arrival_text (st_Name store)) w1;
          w3 = ma_broadcast h ''visitor_interaction_finished'' (task_robot taskID robotID) w2;
          baseCoords = (case mp_base plan of None \<Rightarrow> standbyCoordinates | Some b \<Rightarrow> Coordinates_String (n_Coordinates b));
          w4 = createReturnTask env robotID tenantID operatorID baseCoords (meet_tasks env 1 w3)
      in completeTask h (an_now env 3) taskID robotID StatusCompleted (meet_tasks env 2 w4))"

definition guide ::
  "assistant \<Rightarrow> assistant_env \<Rightarrow> string \<Rightarrow> string \<Rightarrow> string \<Rightarrow> string \<Rightarrow> Store \<Rightarrow> assistant_world \<Rightarrow> assistant_world option" where
  "guide h env taskID robotID tenantID operatorID store w =
     (let (plan, w1) = plan_guidance h env store w;
          w2 = ma_broadcast h ''navigation_started'' (task_robot taskID robotID @ [(''store'', JStr (st_Name store))]) w1;
          w3 = speak h robotID (follow_text (st_Name store)) w2
      in case createNavigateTask env robotID tenantID operatorID store plan (meet_tasks env 0 w3) of
           None \<Rightarrow> Some (completeTask h (an_now env 1) taskID robotID StatusFailed (meet_tasks env 0 w3))
         | Some (navTaskID, w4) \<Rightarrow>
             let w5 = navigation_requested h robotID store plan w4
             in case waitForNavigation (an_now env 1 + navigateTaskWait) navTaskID (an_polls env) (aw_tasks w5) of
                  None \<Rightarrow> None
                | Some s \<Rightarrow> Some (announce_arrival h env taskID robotID tenantID operatorID store plan (w5\<lparr>aw_tasks := s\<rparr>)))"

definition unregistered :: "string \<Rightarrow> assistant_world \<Rightarrow> assistant_world" where
  "unregistered robotID w = w\<lparr>aw_registry := Unregister robotID (aw_registry w)\<rparr>"

text \<open>\<^verbatim>\<open>Handler.Run\<close>; \<^verbatim>\<open>Unregister\<close> is deferred, so it comes last on every path.\<close>

definition assistant_Run ::
  "assistant \<Rightarrow> assistant_env \<Rightarrow> string \<Rightarrow> string \<Rightarrow> string \<Rightarrow> string \<Rightarrow> assistant_world \<Rightarrow> assistant_world option" where
  "assistant_Run h env taskID robotID tenantID operatorID w =
     (let w1 = ma_broadcast h ''visitor_interaction_started'' (task_robot taskID robotID) w;
          w2 = speak h robotID greetingText w1;
          (ch, reg) = Register robotID (aw_registry w2);
          reg1 = an_registry env reg;
          cancelled = (\<lambda>w. unregistered robotID
            (completeTask h (an_now env 1) taskID robotID StatusCancelled (meet_tasks env 0 w)))
      in if an_done env then Some (cancelled (w2\<lparr>aw_registry := reg1\<rparr>))
         else let (got, reg2) = receive ch reg1; w3 = w2\<lparr>aw_registry := reg2\<rparr>
              in case got of
                   Nothing \<Rightarrow> None
                 | ChannelClosed \<Rightarrow> Some (cancelled w3)
                 | Request text \<Rightarrow> (case processRequest h (an_stores env) robotID text of
                       None \<Rightarrow> Some (unregistered robotID
                         (completeTask h (an_now env 1) taskID robotID StatusCompleted
                           (meet_tasks env 0 (speak h robotID storeNotFoundText w3))))
                     | Some store \<Rightarrow> map_option (unregistered robotID)
                         (guide h env taskID robotID tenantID operatorID store w3)))"

section \<open>The assistant among the other writers of the task store\<close>

lemma ma_frames [simp]:
  "aw_tasks (ma_broadcast h typ data w) = aw_tasks w" "aw_tasks (speak h r text w) = aw_tasks w"
  "aw_completed (ma_broadcast h typ data w) = aw_completed w" "aw_completed (speak h r text w) = aw_completed w"
  "aw_registry (ma_broadcast h typ data w) = aw_registry w" "aw_registry (speak h r text w) = aw_registry w"
  "aw_events (speak h r text w) = aw_events w"
  "aw_tasks (meet_tasks env n w) = an_tasks env n (aw_tasks w)" "aw_completed (meet_tasks env n w) = aw_completed w"
  "aw_tasks (unregistered r w) = aw_tasks w" "aw_completed (unregistered r w) = aw_completed w"
  "aw_events (unregistered r w) = aw_events w" "aw_events (meet_tasks env n w) = aw_events w"
  "aw_events (completeTask h now t r st w) = aw_events w"
  "aw_tasks (completeTask h now t r st w) = tasks_UpdateStatusAndCompletedAt now t st now (aw_tasks w)"
  "aw_completed (completeTask h now t r st w) = aw_completed w @ (if as_onTaskCompleted h then [(t, r, status_string st)] else [])"
  by (auto simp: ma_broadcast_def speak_def meet_tasks_def unregistered_def completeTask_def Let_def split: option.split sum.split)

lemma plan_guidance_frames [simp]:
  "aw_tasks (snd (plan_guidance h env store w)) = aw_tasks w" "aw_completed (snd (plan_guidance h env store w)) = aw_completed w"
  by (auto simp: plan_guidance_def Let_def split: option.split sum.split)

lemma navigation_requested_frames [simp]:
  "aw_tasks (navigation_requested h r store plan w) = aw_tasks w"
  "aw_completed (navigation_requested h r store plan w) = aw_completed w"
  by (auto simp: navigation_requested_def split: option.split)

text \<open>
  The other goroutines write lawfully (as the runner assumes of its neighbours) and create no task under the UUIDs
  the assistant draws, which differ.
\<close>

definition fair_writer :: "string list \<Rightarrow> (task_store \<Rightarrow> task_store) \<Rightarrow> bool" where
  "fair_writer us f \<longleftrightarrow> lawful f \<and> (\<forall>s. list_all (\<lambda>u. s u = None \<longrightarrow> f s u = None) us)"

definition fair_neighbours :: "assistant_env \<Rightarrow> bool" where
  "fair_neighbours env \<longleftrightarrow> an_uuid env 0 \<noteq> an_uuid env 1
     \<and> (\<forall>n. fair_writer [an_uuid env 0, an_uuid env 1] (an_tasks env n))
     \<and> list_all (\<lambda>p. fair_writer [an_uuid env 0, an_uuid env 1] (po_tasks p)) (an_polls env)"

lemma fair_neighboursD:
  assumes "fair_neighbours env"
  shows "an_uuid env 1 \<noteq> an_uuid env 0" "others_write s (an_tasks env n s)" "p \<in> set (an_polls env) \<Longrightarrow> lawful (po_tasks p)"
    "s (an_uuid env 0) = None \<Longrightarrow> an_tasks env n s (an_uuid env 0) = None"
    "s (an_uuid env 1) = None \<Longrightarrow> an_tasks env n s (an_uuid env 1) = None"
    "p \<in> set (an_polls env) \<Longrightarrow> s (an_uuid env 1) = None \<Longrightarrow> po_tasks p s (an_uuid env 1) = None"
  using assms by (auto simp: fair_neighbours_def fair_writer_def lawful_def list_all_iff)

abbreviation writes :: "task_store \<Rightarrow> task_store \<Rightarrow> bool" where
  "writes \<equiv> others_write\<^sup>*\<^sup>*"

lemma writes_dom: "writes s s' \<Longrightarrow> i \<in> dom s \<Longrightarrow> i \<in> dom s'"
  by (induction rule: rtranclp_induct) (auto dest: others_write_dom)

lemma writes_one_running: "writes s s' \<Longrightarrow> one_running s \<Longrightarrow> one_running s'"
proof (induction rule: rtranclp_induct)
  case (step y z)
  then show ?case by (intro others_write_one_running [of y z]) simp_all
qed simp

lemma waitForNavigation_writes:
  assumes "waitForNavigation deadline i ps s = Some s'"
    and "\<And>p. p \<in> set ps \<Longrightarrow> lawful (po_tasks p)" "\<And>p s. p \<in> set ps \<Longrightarrow> s u = None \<Longrightarrow> po_tasks p s u = None"
  shows "writes s s' \<and> (s u = None \<longrightarrow> s' u = None)"
  using assms
proof (induction ps arbitrary: s)
  case (Cons p ps)
  have p: "others_write s (po_tasks p s)" "s u = None \<Longrightarrow> po_tasks p s u = None"
    using Cons.prems(2,3) by (auto simp: lawful_def)
  have rest: "writes (po_tasks p s) s' \<and> (po_tasks p s u = None \<longrightarrow> s' u = None)"
    if "waitForNavigation deadline i ps (po_tasks p s) = Some s'"
    by (rule Cons.IH [OF that]) (use Cons.prems(2,3) in auto)
  have "s' = s \<or> s' = po_tasks p s \<or> waitForNavigation deadline i ps (po_tasks p s) = Some s'"
    using Cons.prems(1) by (auto simp: Let_def split: if_splits option.splits)
  then show ?case using p rest by (auto intro: converse_rtranclp_into_rtranclp)
qed simp

text \<open>The wait ends with the turn that reads a clock past the deadline, at the latest.\<close>

lemma waitForNavigation_returns:
  "p \<in> set ps \<Longrightarrow> \<not> po_now p < deadline \<Longrightarrow> waitForNavigation deadline i ps s \<noteq> None"
  by (induction ps arbitrary: s) (auto simp: Let_def split: option.splits)

lemma announce_arrival_writes:
  assumes "fair_neighbours env" "aw_tasks w (an_uuid env 1) = None" "taskID \<in> dom (aw_tasks w)"
  shows "writes (aw_tasks w) (aw_tasks (announce_arrival h env taskID robotID tenantID op store plan w))
    \<and> ended (aw_tasks (announce_arrival h env taskID robotID tenantID op store plan w)) taskID
    \<and> aw_completed (announce_arrival h env taskID robotID tenantID op store plan w)
        = aw_completed w @ (if as_onTaskCompleted h then [(taskID, robotID, status_string StatusCompleted)] else [])"
proof -
  let ?s1 = "an_tasks env 1 (aw_tasks w)"
  let ?t = "\<lambda>base. return_task (an_uuid env 1) robotID tenantID op base"
  note l = fair_neighboursD(2) [OF assms(1)]
  have n: "?s1 (an_uuid env 1) = None" by (rule fair_neighboursD(5) [OF assms(1), where s = "aw_tasks w", OF assms(2)])
  have c: "others_write ?s1 (tasks_Create (an_now env 2) (?t base) ?s1)" for base
    by (rule others_write_Create) (simp_all add: n [unfolded One_nat_def] return_task_def)
  let ?s2 = "\<lambda>base. an_tasks env 2 (tasks_Create (an_now env 2) (?t base) ?s1)"
  have "writes (aw_tasks w) ?s1" by (rule r_into_rtranclp) (rule l)
  then have "writes (aw_tasks w) (tasks_Create (an_now env 2) (?t base) ?s1)" for base
    by (rule rtranclp.rtrancl_into_rtrancl) (rule c)
  then have w: "writes (aw_tasks w) (?s2 base)" for base
    by (rule rtranclp.rtrancl_into_rtrancl) (rule l)
  have "taskID \<in> dom (?s2 base)" for base by (rule writes_dom [OF w assms(3)])
  then show ?thesis
    using w by (simp add: announce_arrival_def Let_def createReturnTask_def finish_ended del: domIff)
      (blast intro: rtranclp.rtrancl_into_rtrancl others_write_finish terminal_simps)
qed

lemma guide_writes:
  assumes "fair_neighbours env" "aw_tasks w (an_uuid env 0) = None" "aw_tasks w (an_uuid env 1) = None" "taskID \<in> dom (aw_tasks w)"
    and "guide h env taskID robotID tenantID op store w = Some w'"
  shows "writes (aw_tasks w) (aw_tasks w') \<and> ended (aw_tasks w') taskID
    \<and> (\<exists>status \<in> {StatusCompleted, StatusFailed}. aw_completed w' =
        aw_completed w @ (if as_onTaskCompleted h then [(taskID, robotID, status_string status)] else []))"
proof -
  let ?plan = "fst (plan_guidance h env store w)"
  let ?w1 = "meet_tasks env 0 (speak h robotID (follow_text (st_Name store)) (ma_broadcast h ''navigation_started''
     (task_robot taskID robotID @ [(''store'', JStr (st_Name store))]) (snd (plan_guidance h env store w))))"
  have s1: "aw_tasks ?w1 = an_tasks env 0 (aw_tasks w)" "aw_completed ?w1 = aw_completed w" by simp_all
  have l: "others_write (aw_tasks w) (aw_tasks ?w1)" unfolding s1 by (rule fair_neighboursD(2) [OF assms(1)])
  have free: "aw_tasks ?w1 (an_uuid env 0) = None" "aw_tasks ?w1 (an_uuid env 1) = None"
    unfolding s1 by (rule fair_neighboursD(4) [OF assms(1), where s = "aw_tasks w", OF assms(2)],
      rule fair_neighboursD(5) [OF assms(1), where s = "aw_tasks w", OF assms(3)])
  have d: "taskID \<in> dom (aw_tasks ?w1)" by (rule others_write_dom [OF l assms(4)])
  show ?thesis
  proof (cases "an_create_fails env")
    case True
    then have w': "w' = completeTask h (an_now env 1) taskID robotID StatusFailed ?w1"
      using assms(5) by (simp add: guide_def split_beta Let_def createNavigateTask_def)
    have "writes (aw_tasks w) (aw_tasks w')" unfolding w' ma_frames(15)
      using l by (blast intro: rtranclp.rtrancl_into_rtrancl others_write_finish terminal_simps)
    moreover have "ended (aw_tasks w') taskID" unfolding w' ma_frames(15) by (rule finish_ended [OF _ d]) simp
    moreover have "aw_completed w' = aw_completed w @ (if as_onTaskCompleted h then [(taskID, robotID, status_string StatusFailed)] else [])"
      unfolding w' ma_frames(16) s1(2) ..
    ultimately show ?thesis by blast
  next
    case False
    let ?t = "navigate_task (an_uuid env 0) robotID tenantID op store (mp_dest ?plan) (mp_route ?plan) (mp_distance ?plan)"
    let ?w2 = "navigation_requested h robotID store ?plan (?w1\<lparr>aw_tasks := tasks_Create (an_now env 0) ?t (aw_tasks ?w1)\<rparr>)"
    have s2: "aw_tasks ?w2 = tasks_Create (an_now env 0) ?t (aw_tasks ?w1)" "aw_completed ?w2 = aw_completed w" by simp_all
    have id: "k_ID ?t = an_uuid env 0" "k_Status ?t = StatusPending" by (simp_all add: navigate_task_def)
    obtain s where s: "waitForNavigation (an_now env 1 + navigateTaskWait) (an_uuid env 0) (an_polls env) (aw_tasks ?w2) = Some s"
      and w': "w' = announce_arrival h env taskID robotID tenantID op store ?plan (?w2\<lparr>aw_tasks := s\<rparr>)"
      using False assms(5) id(1) by (auto simp: guide_def split_beta Let_def createNavigateTask_def split: option.splits)
    have c: "others_write (aw_tasks ?w1) (aw_tasks ?w2)"
      unfolding s2 by (rule others_write_Create) (simp_all only: id free)
    have f2: "aw_tasks ?w2 (an_uuid env 1) = None"
      unfolding s2 using fair_neighboursD(1) [OF assms(1)] free(2) id(1) by (simp add: tasks_Create_def)
    have wait: "writes (aw_tasks ?w2) s" "s (an_uuid env 1) = None"
      using waitForNavigation_writes [OF s fair_neighboursD(3) [OF assms(1)], of "an_uuid env 1"]
        fair_neighboursD(6) [OF assms(1)] f2 by blast+
    have all: "writes (aw_tasks w) s" using l c wait(1) by (meson converse_rtranclp_into_rtranclp)
    have ds: "taskID \<in> dom s" by (rule writes_dom [OF all assms(4)])
    have "writes s (aw_tasks w')" "ended (aw_tasks w') taskID"
      "aw_completed w' = aw_completed w @ (if as_onTaskCompleted h then [(taskID, robotID, status_string StatusCompleted)] else [])"
      using announce_arrival_writes [OF assms(1), of "?w2\<lparr>aw_tasks := s\<rparr>" taskID h robotID tenantID op store ?plan]
        wait(2) ds s2(2) by (simp_all add: w' del: domIff)
    with all show ?thesis by (blast intro: rtranclp_trans)
  qed
qed

lemma guide_returns:
  assumes "p \<in> set (an_polls env)" "an_now env 1 + navigateTaskWait \<le> po_now p"
  shows "guide h env taskID robotID tenantID op store w \<noteq> None"
proof -
  have ret: "waitForNavigation (an_now env 1 + navigateTaskWait) i (an_polls env) s \<noteq> None" for i s
    by (rule waitForNavigation_returns [OF assms(1)]) (use assms(2) in simp)
  show ?thesis
    by (simp add: guide_def split_beta Let_def ret [unfolded One_nat_def] del: not_None_eq split: option.split prod.split)
qed

section \<open>Properties of the assistant\<close>

text \<open>
  C31. Whatever the visitor says and however the others interleave: when the assistant returns, its task has ended,
  the callback was told so exactly once, with the status the task was given last, the robot takes no more requests, and the task
  store has seen only lawful writes (so the assistant is one of the neighbours the task runner may rely on).
\<close>

theorem assistant_Run_ends:
  assumes "fair_neighbours env" "aw_tasks w (an_uuid env 0) = None" "aw_tasks w (an_uuid env 1) = None" "taskID \<in> dom (aw_tasks w)"
    and "assistant_Run h env taskID robotID tenantID op w = Some w'"
  shows "writes (aw_tasks w) (aw_tasks w') \<and> ended (aw_tasks w') taskID \<and> vr_channels (aw_registry w') robotID = None
    \<and> (\<exists>status. terminal status \<and> aw_completed w' =
        aw_completed w @ (if as_onTaskCompleted h then [(taskID, robotID, status_string status)] else []))"
proof -
  let ?P = "\<lambda>w1. writes (aw_tasks w) (aw_tasks w1) \<and> ended (aw_tasks w1) taskID
    \<and> (\<exists>status. terminal status \<and> aw_completed w1 =
        aw_completed w @ (if as_onTaskCompleted h then [(taskID, robotID, status_string status)] else []))"
  have end': "?P (completeTask h now taskID robotID st (meet_tasks env 0 v))"
    if "aw_tasks v = aw_tasks w" "aw_completed v = aw_completed w" "terminal st" for v st now
  proof -
    have l: "others_write (aw_tasks w) (an_tasks env 0 (aw_tasks w))" by (rule fair_neighboursD(2) [OF assms(1)])
    then have "ended (tasks_UpdateStatusAndCompletedAt now taskID st now (an_tasks env 0 (aw_tasks w))) taskID"
      by (intro finish_ended [OF that(3)] others_write_dom [OF _ assms(4)])
    moreover have "writes (aw_tasks w) (tasks_UpdateStatusAndCompletedAt now taskID st now (an_tasks env 0 (aw_tasks w)))"
      using l others_write_finish [OF that(3)] by (blast intro: rtranclp.rtrancl_into_rtrancl)
    ultimately show ?thesis using that by auto
  qed
  have guided: "?P w1" if "guide h env taskID robotID tenantID op store v = Some w1"
    "aw_tasks v = aw_tasks w" "aw_completed v = aw_completed w" for store v w1
    using guide_writes [OF assms(1) _ _ _ that(1)] assms(2-4) that(2,3) terminal_simps(1,2) by (metis insertE singletonD)
  obtain w1 where "w' = unregistered robotID w1" "?P w1"
    using assms(5) end' guided
    by (simp add: assistant_Run_def Let_def split_beta split: if_splits receipt.splits option.splits) fastforce+
  then show ?thesis by (auto simp: unregistered_def Unregister_def split: option.split)
qed

text \<open>
  The assistant returns: once the context is done, a request has come or its channel was closed, it ends after
  the first turn of the waiting loop that reads a clock thirty seconds past the start of the wait.
\<close>

theorem assistant_Run_returns:
  assumes "an_done env \<or> fst (receive (vr_next (aw_registry w)) (an_registry env (snd (Register robotID (aw_registry w))))) \<noteq> Nothing"
    and "p \<in> set (an_polls env)" "an_now env 1 + navigateTaskWait \<le> po_now p"
  shows "assistant_Run h env taskID robotID tenantID op w \<noteq> None"
proof -
  have "guide h env taskID robotID tenantID op store v \<noteq> None" for store v
    by (rule guide_returns [OF assms(2,3)])
  with assms(1) show ?thesis
    by (auto simp: assistant_Run_def Let_def split_beta Register_def split: receipt.split option.split)
qed

text \<open>
  The arrival is announced whether or not the robot has moved: when nobody touches the journey's task during the wait
  (and the runner does not, as long as the assistant's own task is running), the assistant still broadcasts that
  the navigation is completed, and the task is still pending.
\<close>

theorem arrival_announced_unmoved:
  assumes "guide h env taskID robotID tenantID op store w = Some w'" "as_broadcaster h" "\<not> an_create_fails env"
    and "\<And>n s. an_tasks env n s (an_uuid env 0) = s (an_uuid env 0)"
    and "\<And>p s. p \<in> set (an_polls env) \<Longrightarrow> po_tasks p s (an_uuid env 0) = s (an_uuid env 0)"
    and "an_uuid env 0 \<noteq> an_uuid env 1" "an_uuid env 0 \<noteq> taskID"
  shows "(\<exists>t. aw_tasks w' (an_uuid env 0) = Some t \<and> k_RobotID t = robotID \<and> k_Status t = StatusPending)
    \<and> (''navigation_completed'', task_robot taskID robotID @ [(''store'', JStr (st_Name store))]) \<in> set (aw_events w')"
proof -
  let ?plan = "fst (plan_guidance h env store w)"
  let ?w1 = "meet_tasks env 0 (speak h robotID (follow_text (st_Name store)) (ma_broadcast h ''navigation_started''
     (task_robot taskID robotID @ [(''store'', JStr (st_Name store))]) (snd (plan_guidance h env store w))))"
  let ?t = "navigate_task (an_uuid env 0) robotID tenantID op store (mp_dest ?plan) (mp_route ?plan) (mp_distance ?plan)"
  let ?w2 = "navigation_requested h robotID store ?plan (?w1\<lparr>aw_tasks := tasks_Create (an_now env 0) ?t (aw_tasks ?w1)\<rparr>)"
  have id: "k_ID ?t = an_uuid env 0" "k_Status ?t = StatusPending" "k_RobotID ?t = robotID" by (simp_all add: navigate_task_def)
  obtain s where s: "waitForNavigation (an_now env 1 + navigateTaskWait) (an_uuid env 0) (an_polls env) (aw_tasks ?w2) = Some s"
    and w': "w' = announce_arrival h env taskID robotID tenantID op store ?plan (?w2\<lparr>aw_tasks := s\<rparr>)"
    using assms(1,3) id(1) by (auto simp: guide_def split_beta Let_def createNavigateTask_def split: option.splits)
  have unmoved: "s i = s0 i" if "waitForNavigation dl j ps s0 = Some s" "\<And>p s. p \<in> set ps \<Longrightarrow> po_tasks p s i = s i" for dl i j ps s0
    using that by (induction ps arbitrary: s0) (auto simp: Let_def split: if_splits option.splits)
  have t: "aw_tasks ?w2 (an_uuid env 0) = Some (task_stamp (an_now env 0) ?t)" by (simp add: tasks_Create_def id)
  have "s (an_uuid env 0) = Some (task_stamp (an_now env 0) ?t)"
    using unmoved [OF s assms(5)] t by simp
  then have "aw_tasks w' (an_uuid env 0) = Some (task_stamp (an_now env 0) ?t)"
    using assms(4,6,7) by (simp add: w' announce_arrival_def Let_def createReturnTask_def tasks_UpdateStatusAndCompletedAt_def
        tasks_Create_def return_task_def split: option.split)
  moreover have "(''navigation_completed'', task_robot taskID robotID @ [(''store'', JStr (st_Name store))]) \<in> set (aw_events w')"
    using assms(2) by (simp add: w' announce_arrival_def Let_def createReturnTask_def ma_broadcast_def)
  ultimately show ?thesis using id by simp
qed

text \<open>
  An assistant that is started while an earlier handler of the same robot still waits (its task was cancelled, which
  the handler does not notice) is cancelled at once: registering closes the earlier channel, the earlier
  handler ends, and its deferred \<^verbatim>\<open>Unregister\<close> closes the new channel.
\<close>

theorem earlier_handler_cancels:
  assumes "vr_channels (aw_registry w) robotID = Some ch" "vr_buf (aw_registry w) ch = []"
    and "vr_buf (aw_registry w) (vr_next (aw_registry w)) = []" "ch \<noteq> vr_next (aw_registry w)"
    and "\<not> an_done env" "an_registry env = Unregister robotID" "\<And>n s. an_tasks env n s = s" "aw_tasks w taskID = Some t"
  shows "fst (receive ch (snd (Register robotID (aw_registry w)))) = ChannelClosed
    \<and> (\<exists>w' t'. assistant_Run h env taskID robotID tenantID op w = Some w' \<and> aw_tasks w' taskID = Some t'
         \<and> k_Status t' = StatusCancelled)"
  using assms
  by (simp add: Register_def receive_def assistant_Run_def Let_def split_beta Unregister_def tasks_UpdateStatusAndCompletedAt_def)

section \<open>Witnesses\<close>

definition example_assistant :: assistant where
  "example_assistant = \<lparr>as_gateway = Some \<lparr>gw_intent = (\<lambda>r t. Inr (''find_store'', [''store_name'' \<mapsto> JStr ''nike''])),
       gw_synthesize = (\<lambda>r t. Inr t)\<rparr>,
     as_bus = True, as_broadcaster = True, as_mall = None, as_onTaskCompleted = True, as_base64 = Some\<rparr>"

definition example_assistant_env :: assistant_env where
  "example_assistant_env = \<lparr>an_now = (\<lambda>n. 0), an_uuid = (\<lambda>n. ''u'' @ replicate n CHR ''x''),
     an_registry = (\<lambda>r. r\<lparr>vr_buf := (vr_buf r)(0 := [''Where is Nike?''])\<rparr>), an_done = False, an_tasks = (\<lambda>n s. s),
     an_stores = [], an_order = (\<lambda>_. []), an_round = (\<lambda>x. x), an_create_fails = False,
     an_polls = [\<lparr>po_now = 0, po_done = False, po_tasks = (\<lambda>s. s)\<rparr>, \<lparr>po_now = 30 * second, po_done = False, po_tasks = (\<lambda>s. s)\<rparr>]\<rparr>"

definition example_assistant_world :: assistant_world where
  "example_assistant_world = \<lparr>aw_tasks = [''t1'' \<mapsto> \<lparr>k_ID = ''t1'', k_RobotID = ''r1'', k_TenantID = ''default'', k_Type = ''scenario'',
       k_ScenarioID = ''mall_assistant'', k_Payload = RawEmpty, k_Status = StatusRunning, k_CreatedAt = 1, k_UpdatedAt = 1,
       k_CompletedAt = None, k_OperatorID = ''console''\<rparr>],
     aw_registry = NewVisitorRequestRegistry, aw_events = [], aw_audio = [], aw_completed = []\<rparr>"

theorem assistant_Run_ends_witness:
  "\<exists>w'. assistant_Run example_assistant example_assistant_env ''t1'' ''r1'' ''default'' ''console'' example_assistant_world = Some w'
    \<and> ended (aw_tasks w') ''t1'' \<and> length (aw_completed w') = 1"
proof -
  have n: "assistant_Run example_assistant example_assistant_env ''t1'' ''r1'' ''default'' ''console'' example_assistant_world \<noteq> None"
    by (rule assistant_Run_returns [where p = "\<lparr>po_now = 30 * second, po_done = False, po_tasks = (\<lambda>s. s)\<rparr>"])
      (simp_all add: example_assistant_env_def navigateTaskWait_def receive_def example_assistant_world_def
        NewVisitorRequestRegistry_def)
  then obtain w' where w': "assistant_Run example_assistant example_assistant_env ''t1'' ''r1'' ''default'' ''console''
      example_assistant_world = Some w'" by auto
  have fair: "fair_neighbours example_assistant_env"
    by (simp add: fair_neighbours_def fair_writer_def example_assistant_env_def)
  have dom: "''t1'' \<in> dom (aw_tasks example_assistant_world)" by (simp add: example_assistant_world_def)
  have cb: "as_onTaskCompleted example_assistant" "aw_completed example_assistant_world = []"
    by (simp_all add: example_assistant_def example_assistant_world_def)
  have "ended (aw_tasks w') ''t1'' \<and> length (aw_completed w') = 1"
    using assistant_Run_ends [OF fair _ _ dom w'] cb
    by (auto simp: example_assistant_world_def example_assistant_env_def)
  with w' show ?thesis by blast
qed

theorem arrival_announced_unmoved_witness:
  "\<exists>w'. guide example_assistant example_assistant_env ''t1'' ''r1'' ''default'' ''console'' food_court example_assistant_world = Some w'
    \<and> (\<exists>t. aw_tasks w' ''u'' = Some t \<and> k_RobotID t = ''r1'' \<and> k_Status t = StatusPending)
    \<and> (''navigation_completed'', [(''task_id'', JStr ''t1''), (''robot_id'', JStr ''r1''), (''store'', JStr ''Food Court'')]) \<in> set (aw_events w')"
proof -
  obtain w' where w': "guide example_assistant example_assistant_env ''t1'' ''r1'' ''default'' ''console'' food_court
      example_assistant_world = Some w'"
    using guide_returns [of "\<lparr>po_now = 30 * second, po_done = False, po_tasks = (\<lambda>s. s)\<rparr>" example_assistant_env]
    by (fastforce simp: example_assistant_env_def navigateTaskWait_def)
  have "(\<exists>t. aw_tasks w' (an_uuid example_assistant_env 0) = Some t \<and> k_RobotID t = ''r1'' \<and> k_Status t = StatusPending)
    \<and> (''navigation_completed'', task_robot ''t1'' ''r1'' @ [(''store'', JStr (st_Name food_court))]) \<in> set (aw_events w')"
    by (rule arrival_announced_unmoved [OF w'])
      (auto simp: example_assistant_def example_assistant_env_def)
  with w' show ?thesis by (simp add: example_assistant_env_def task_robot_def food_court_def)
qed

end
