(* ===== verification/Hal.thy ===== *)
theory Hal
  imports Go_Json
begin

text \<open>
  The hardware abstraction layer, \<^verbatim>\<open>pkg/hal\<close>: the robots of the fleet registry, the commands
  and the telemetry on the bus, and the capability check. A struct is a record whose field names
  carry a prefix for the struct (\<open>r_\<close> robot, \<open>c_\<close> command, \<open>tm_\<close> telemetry).
\<close>

record Robot =
  r_ID :: string
  r_Vendor :: string
  r_Model :: string
  r_AdapterEndpoint :: string
  r_TenantID :: string
  r_EdgeID :: string
  r_Location :: string
  r_Capabilities :: "string list"
  r_CreatedAt :: time
  r_UpdatedAt :: time

record JointStateData =
  js_Name :: string
  js_Position :: real
  js_Velocity :: real
  js_Effort :: real

record IMUData =
  imu_Orientation :: "(string \<times> real) list"
  imu_AngularVel :: "(string \<times> real) list"

record Telemetry =
  tm_RobotID :: string
  tm_Timestamp :: time
  tm_Online :: bool
  tm_ActuatorStatus :: string
  tm_MockMode :: bool
  tm_IMU :: "IMUData option"
  tm_JointStates :: "JointStateData list"
  tm_CurrentTask :: string
  tm_Position :: string
  tm_TargetPosition :: string
  tm_DistanceToTarget :: "real option"

record Command =
  c_RobotID :: string
  c_Command :: string
  c_Payload :: raw_message
  c_Timestamp :: time
  c_OperatorID :: string

definition CapWalk :: string where "CapWalk = ''walk''"
definition CapStand :: string where "CapStand = ''stand''"
definition CapSafeStop :: string where "CapSafeStop = ''safe_stop''"
definition CapReleaseControl :: string where "CapReleaseControl = ''release_control''"
definition CapCmdVel :: string where "CapCmdVel = ''cmd_vel''"
definition CapZeroMode :: string where "CapZeroMode = ''zero_mode''"
definition CapPatrol :: string where "CapPatrol = ''patrol''"
definition CapNavigation :: string where "CapNavigation = ''navigation''"
definition CapSpeech :: string where "CapSpeech = ''speech''"

lemmas cap_defs = CapWalk_def CapStand_def CapSafeStop_def CapReleaseControl_def CapCmdVel_def
  CapZeroMode_def CapPatrol_def CapNavigation_def CapSpeech_def

text \<open>\<^verbatim>\<open>robot\<close> is a pointer: \<^verbatim>\<open>nil\<close> is accepted and has every capability.\<close>

definition HasCapability :: "Robot option \<Rightarrow> string list \<Rightarrow> bool" where
  "HasCapability robot required =
     (case robot of
        None \<Rightarrow> True
      | Some r \<Rightarrow> (if required = [] then True
                  else list_all (\<lambda>c. c \<in> set (r_Capabilities r)) required))"

lemma HasCapability_Some: "HasCapability (Some r) req \<longleftrightarrow> set req \<subseteq> set (r_Capabilities r)"
  by (auto simp: HasCapability_def list_all_iff)

lemma HasCapability_None [simp]: "HasCapability None req"
  by (simp add: HasCapability_def)

end
