(* ===== verification/Registry.thy ===== *)
theory Registry
  imports Hal Store_Interface
begin

text \<open>
  The fleet registry, \<^verbatim>\<open>pkg/control-plane/registry/store.go\<close>: the in-memory store of the
  robots. \<^verbatim>\<open>Get\<close> and the listings return copies, so the store is a map of values. An operation
  that ranges over the map takes the order of the keys as its first argument.
\<close>

type_synonym registry = "Robot gomap"

definition robot_stamp :: "time \<Rightarrow> Robot \<Rightarrow> Robot" where
  "robot_stamp now r =
     (let r1 = r\<lparr>r_UpdatedAt := now\<rparr>
      in if time_IsZero (r_CreatedAt r1) then r1\<lparr>r_CreatedAt := now\<rparr> else r1)"

definition registry_Add :: "time \<Rightarrow> Robot \<Rightarrow> registry \<Rightarrow> registry" where
  "registry_Add now r s = s(r_ID r \<mapsto> robot_stamp now r)"

definition registry_Get :: "registry \<Rightarrow> string \<Rightarrow> Robot option" where
  "registry_Get s rid = s rid"

definition registry_List :: "string list \<Rightarrow> registry \<Rightarrow> Robot list" where
  "registry_List ks s = go_values s ks"

definition registry_ListByTenant :: "string list \<Rightarrow> string \<Rightarrow> registry \<Rightarrow> Robot list" where
  "registry_ListByTenant ks tenantID s =
     filter (\<lambda>r. tenantID = [] \<or> r_TenantID r = tenantID) (go_values s ks)"

definition registry_Delete :: "string \<Rightarrow> registry \<Rightarrow> bool \<times> registry" where
  "registry_Delete rid s = (case s rid of None \<Rightarrow> (False, s) | Some _ \<Rightarrow> (True, s(rid := None)))"

lemma robot_stamp_fields [simp]:
  "r_ID (robot_stamp now r) = r_ID r"
  "r_TenantID (robot_stamp now r) = r_TenantID r"
  "r_EdgeID (robot_stamp now r) = r_EdgeID r"
  "r_Capabilities (robot_stamp now r) = r_Capabilities r"
  by (simp_all add: robot_stamp_def Let_def)

interpretation reg: deletable_store registry_Get registry_Add r_ID robot_stamp
  "\<lambda>i s. snd (registry_Delete i s)"
  by unfold_locales
    (auto simp: registry_Get_def registry_Add_def registry_Delete_def split: option.splits)

interpretation regl: listed_store registry_Get registry_Add r_ID robot_stamp registry_List
  by unfold_locales (simp add: registry_List_def registry_Get_def [abs_def])

lemma registry_ListByTenant_in:
  "go_range s ks \<Longrightarrow> r \<in> set (registry_ListByTenant ks t s) \<longleftrightarrow>
     (\<exists>i. s i = Some r) \<and> (t = [] \<or> r_TenantID r = t)"
  by (auto simp: registry_ListByTenant_def go_range_values)

lemma registry_Delete_fst: "fst (registry_Delete i s) \<longleftrightarrow> s i \<noteq> None"
  by (simp add: registry_Delete_def split: option.split)

end
