(* ===== verification/Coordinator.thy ===== *)
theory Coordinator
  imports Store_Interface
begin

text \<open>
  Zone coordination, \<^verbatim>\<open>pkg/control-plane/coordinator\<close>: the exclusive locks of robots on zones.
  The \<^verbatim>\<open>Coordinator\<close> forwards every call to its store, whose mutex makes each operation atomic.
\<close>

record Zone =
  z_ID :: string
  z_Name :: string

record ZoneLock =
  zl_ZoneID :: string
  zl_RobotID :: string
  zl_Acquired :: time

record ZoneStatus =
  zs_ZoneID :: string
  zs_RobotID :: "string option"
  zs_Occupied :: bool

record zone_store =
  zs_zones :: "Zone gomap"
  zs_locks :: "ZoneLock gomap"

definition coordinator_NewStore :: zone_store where
  "coordinator_NewStore = \<lparr>zs_zones = Map.empty, zs_locks = Map.empty\<rparr>"

definition RegisterZone :: "Zone \<Rightarrow> zone_store \<Rightarrow> zone_store" where
  "RegisterZone z s = s\<lparr>zs_zones := (zs_zones s)(z_ID z \<mapsto> z)\<rparr>"

definition NewCoordinator :: zone_store where
  "NewCoordinator =
     RegisterZone \<lparr>z_ID = ''C'', z_Name = ''Zone C''\<rparr>
       (RegisterZone \<lparr>z_ID = ''B'', z_Name = ''Zone B''\<rparr>
         (RegisterZone \<lparr>z_ID = ''A'', z_Name = ''Zone A''\<rparr> coordinator_NewStore))"

definition ListZones :: "string list \<Rightarrow> zone_store \<Rightarrow> Zone list" where
  "ListZones ks s = go_values (zs_zones s) ks"

definition AcquireZone :: "time \<Rightarrow> string \<Rightarrow> string \<Rightarrow> zone_store \<Rightarrow> bool \<times> zone_store" where
  "AcquireZone now robotID zoneID s =
     (case zs_locks s zoneID of
        Some _ \<Rightarrow> (False, s)
      | None \<Rightarrow> (True, s\<lparr>zs_locks := (zs_locks s)(zoneID \<mapsto>
          \<lparr>zl_ZoneID = zoneID, zl_RobotID = robotID, zl_Acquired = now\<rparr>)\<rparr>))"

definition ReleaseZone :: "string \<Rightarrow> string \<Rightarrow> zone_store \<Rightarrow> bool \<times> zone_store" where
  "ReleaseZone robotID zoneID s =
     (case zs_locks s zoneID of
        None \<Rightarrow> (False, s)
      | Some lock \<Rightarrow>
          if zl_RobotID lock \<noteq> robotID then (False, s)
          else (True, s\<lparr>zs_locks := (zs_locks s)(zoneID := None)\<rparr>))"

text \<open>Deleting while ranging over the map is the same for every order of the keys.\<close>

definition ReleaseAllForRobot :: "string \<Rightarrow> zone_store \<Rightarrow> zone_store" where
  "ReleaseAllForRobot robotID s =
     s\<lparr>zs_locks := (\<lambda>z. case zs_locks s z of None \<Rightarrow> None
        | Some lock \<Rightarrow> (if zl_RobotID lock = robotID then None else Some lock))\<rparr>"

definition IsZoneAvailable :: "string \<Rightarrow> zone_store \<Rightarrow> bool" where
  "IsZoneAvailable zoneID s \<longleftrightarrow> zs_locks s zoneID = None"

definition GetZoneStatus :: "string \<Rightarrow> zone_store \<Rightarrow> ZoneStatus" where
  "GetZoneStatus zoneID s =
     (case zs_locks s zoneID of
        None \<Rightarrow> \<lparr>zs_ZoneID = zoneID, zs_RobotID = None, zs_Occupied = False\<rparr>
      | Some lock \<Rightarrow>
          \<lparr>zs_ZoneID = zoneID, zs_RobotID = Some (zl_RobotID lock), zs_Occupied = True\<rparr>)"

definition ListZoneStatuses :: "string list \<Rightarrow> zone_store \<Rightarrow> ZoneStatus list" where
  "ListZoneStatuses ks s = map (\<lambda>z. GetZoneStatus z s) ks"

text \<open>The abstract view: which robot holds which zone.\<close>

definition holder :: "zone_store \<Rightarrow> string \<Rightarrow> string option" where
  "holder s z = map_option zl_RobotID (zs_locks s z)"

definition zones_wf :: "zone_store \<Rightarrow> bool" where
  "zones_wf s \<longleftrightarrow> (\<forall>z lock. zs_locks s z = Some lock \<longrightarrow> zl_ZoneID lock = z)"

text \<open>
  The contract of a table of exclusive locks, over the holders only: a lock is granted only when
  it is free, and only its holder can give it back.
\<close>

locale lock_table =
  fixes held_by :: "'s \<Rightarrow> string \<Rightarrow> string option"
    and acquire :: "string \<Rightarrow> string \<Rightarrow> 's \<Rightarrow> bool \<times> 's"
    and release :: "string \<Rightarrow> string \<Rightarrow> 's \<Rightarrow> bool \<times> 's"
  assumes acquire_iff: "fst (acquire r z s) \<longleftrightarrow> held_by s z = None"
    and held_acquire: "held_by (snd (acquire r z s)) z' =
      (if z' = z \<and> held_by s z = None then Some r else held_by s z')"
    and release_iff: "fst (release r z s) \<longleftrightarrow> held_by s z = Some r"
    and held_release: "held_by (snd (release r z s)) z' =
      (if z' = z \<and> held_by s z = Some r then None else held_by s z')"
begin

lemma exclusive: "held_by s z = Some r \<Longrightarrow> \<not> fst (acquire r' z s) \<and> held_by (snd (acquire r' z s)) z = Some r"
  by (simp add: acquire_iff held_acquire)

lemma only_holder_releases: "held_by s z = Some r \<Longrightarrow> r' \<noteq> r \<Longrightarrow> held_by (snd (release r' z s)) z = Some r"
  by (simp add: held_release)

lemma acquire_release:
  "fst (acquire r z s) \<Longrightarrow> held_by (snd (release r z (snd (acquire r z s)))) z' = held_by s z'"
  by (simp add: acquire_iff held_release held_acquire)

lemma acquire_then_release_ok: "fst (acquire r z s) \<Longrightarrow> fst (release r z (snd (acquire r z s)))"
  by (simp add: release_iff acquire_iff held_acquire)

end

interpretation zl: lock_table holder "AcquireZone now" ReleaseZone for now
  by unfold_locales
    (auto simp: holder_def AcquireZone_def ReleaseZone_def split: option.splits)

lemma holder_ReleaseAll:
  "holder (ReleaseAllForRobot r s) z = (if holder s z = Some r then None else holder s z)"
  by (auto simp: holder_def ReleaseAllForRobot_def split: option.splits)

lemma zones_wf_New: "zones_wf NewCoordinator"
  by (simp add: zones_wf_def NewCoordinator_def coordinator_NewStore_def RegisterZone_def)

lemma zones_wf_Acquire: "zones_wf s \<Longrightarrow> zones_wf (snd (AcquireZone now r z s))"
  by (auto simp: zones_wf_def AcquireZone_def split: option.splits)

lemma zones_wf_Release: "zones_wf s \<Longrightarrow> zones_wf (snd (ReleaseZone r z s))"
  by (auto simp: zones_wf_def ReleaseZone_def split: option.splits)

lemma zones_wf_ReleaseAll: "zones_wf s \<Longrightarrow> zones_wf (ReleaseAllForRobot r s)"
  by (auto simp: zones_wf_def ReleaseAllForRobot_def split: option.splits if_splits)

lemma AcquireZone_zones: "zs_zones (snd (AcquireZone now r z s)) = zs_zones s"
  by (simp add: AcquireZone_def split: option.split)

lemma release_after_acquire_locks:
  "AcquireZone now r z s = (True, s') \<Longrightarrow> snd (ReleaseZone r z s') = s"
  by (auto simp: AcquireZone_def ReleaseZone_def fun_upd_idem split: option.splits)

section \<open>Properties\<close>

text \<open>The operations that move locks, as a client's history.\<close>

datatype zone_op =
    OpAcquire time string string
  | OpRelease string string
  | OpReleaseAll string

fun zone_apply :: "zone_op \<Rightarrow> zone_store \<Rightarrow> zone_store" where
  "zone_apply (OpAcquire now r z) s = snd (AcquireZone now r z s)"
| "zone_apply (OpRelease r z) s = snd (ReleaseZone r z s)"
| "zone_apply (OpReleaseAll r) s = ReleaseAllForRobot r s"

text \<open>The robot gives the zone back with this operation.\<close>

fun gives_back :: "string \<Rightarrow> string \<Rightarrow> zone_op \<Rightarrow> bool" where
  "gives_back r z (OpAcquire _ _ _) = False"
| "gives_back r z (OpRelease r' z') = (r' = r \<and> z' = z)"
| "gives_back r z (OpReleaseAll r') = (r' = r)"

lemma zone_apply_keeps:
  "holder s z = Some r \<Longrightarrow> \<not> gives_back r z a \<Longrightarrow> holder (zone_apply a s) z = Some r"
  by (cases a) (auto simp: zl.held_acquire zl.held_release holder_ReleaseAll)

lemma zone_history_keeps:
  "holder s z = Some r \<Longrightarrow> list_all (\<lambda>a. \<not> gives_back r z a) as \<Longrightarrow> holder (fold zone_apply as s) z = Some r"
  by (induction as arbitrary: s) (simp_all add: zone_apply_keeps)

text \<open>
  C15. Mutual exclusion of zones: once a robot has acquired a zone, after any history of operations of any
  robots in which it does not give the zone back, it still holds the zone and nobody can acquire it.
\<close>

theorem zone_exclusive:
  assumes "AcquireZone now r z s = (True, s')" "list_all (\<lambda>a. \<not> gives_back r z a) as"
  shows "holder (fold zone_apply as s') z = Some r
    \<and> AcquireZone now' r' z (fold zone_apply as s') = (False, fold zone_apply as s')"
proof -
  have "holder s' z = Some r"
    using zl.acquire_iff [of now r z s] zl.held_acquire [of now r z s z] assms(1) by simp
  then have h: "holder (fold zone_apply as s') z = Some r"
    using assms(2) by (rule zone_history_keeps)
  then show ?thesis by (auto simp: AcquireZone_def holder_def split: option.split)
qed

theorem zone_exclusive_witness:
  "holder (fold zone_apply [OpAcquire 2 ''r2'' ''A'', OpRelease ''r2'' ''A'', OpReleaseAll ''r2'']
      (snd (AcquireZone 1 ''r1'' ''A'' NewCoordinator))) ''A'' = Some ''r1''"
proof -
  have "AcquireZone 1 ''r1'' ''A'' NewCoordinator = (True, snd (AcquireZone 1 ''r1'' ''A'' NewCoordinator))"
    by (simp add: AcquireZone_def NewCoordinator_def RegisterZone_def coordinator_NewStore_def)
  from zone_exclusive [OF this, of "[OpAcquire 2 ''r2'' ''A'', OpRelease ''r2'' ''A'', OpReleaseAll ''r2'']"]
  show ?thesis by simp
qed

text \<open>
  Every history keeps the lock table well formed (each lock is filed under its own zone), and a status
  report is occupied exactly when the zone has a holder, whom it names.
\<close>

theorem zone_history_wf:
  "zones_wf (fold zone_apply as NewCoordinator)
   \<and> zs_Occupied (GetZoneStatus z (fold zone_apply as NewCoordinator)) =
       (holder (fold zone_apply as NewCoordinator) z \<noteq> None)
   \<and> zs_RobotID (GetZoneStatus z (fold zone_apply as NewCoordinator)) =
       holder (fold zone_apply as NewCoordinator) z"
proof -
  have "zones_wf s \<Longrightarrow> zones_wf (zone_apply a s)" for a s
    by (cases a) (simp_all add: zones_wf_Acquire zones_wf_Release zones_wf_ReleaseAll)
  then have "zones_wf s \<Longrightarrow> zones_wf (fold zone_apply as s)" for s
    by (induction as arbitrary: s) simp_all
  then show ?thesis using zones_wf_New by (simp add: GetZoneStatus_def holder_def split: option.split)
qed

end
