(* ===== verification/Scenarios.thy ===== *)
theory Scenarios
  imports Hal
begin

text \<open>
  The scenarios a task can run, \<^verbatim>\<open>pkg/control-plane/scenarios\<close>: the in-memory store and the
  catalog with the built-in scenarios, which looks into its store first. Names outside ASCII are
  given by their UTF-8 bytes.
\<close>

record ScenarioStep =
  ss_Command :: string
  ss_Payload :: raw_message
  ss_DurationSec :: int

record Scenario =
  sc_ID :: string
  sc_Name :: string
  sc_Description :: string
  sc_Steps :: "ScenarioStep list"
  sc_RequiredCapabilities :: "string list"

type_synonym scenario_store = "Scenario gomap"

datatype scenario_error = ScenarioErrNotFound | ScenarioAlreadyExists

definition utf8 :: "nat list \<Rightarrow> string" where
  "utf8 bs = map char_of bs"

text \<open>\<^verbatim>\<open>json.Marshal\<close> of a velocity map: members sorted by name, whole numbers without a fraction.\<close>

definition vel_json :: "json \<Rightarrow> raw_message" where
  "vel_json lx = RawJson (JObj [(''angular_z'', JInt 0), (''linear_x'', lx), (''linear_y'', JInt 0)])"

text \<open>The \<^verbatim>\<open>float64\<close> nearest to 0.3.\<close>

definition float_0_3 :: real where
  "float_0_3 = 5404319552844595 / 18014398509481984"

definition standby_scenario :: Scenario where
  "standby_scenario =
     \<lparr>sc_ID = ''standby'',
      sc_Name = utf8 [208, 158, 208, 182, 208, 184, 208, 180, 208, 176, 208, 189, 208, 184, 208, 181],
      sc_Description = utf8 [208, 161, 209, 130, 208, 190, 209, 143, 209, 135, 208, 176, 209, 143, 32, 208,
      191, 208, 190, 208, 183, 208, 176],
      sc_Steps = [\<lparr>ss_Command = ''stand_mode'', ss_Payload = RawEmpty, ss_DurationSec = 0\<rparr>],
      sc_RequiredCapabilities = [CapStand]\<rparr>"

definition patrol_scenario :: Scenario where
  "patrol_scenario =
     \<lparr>sc_ID = ''patrol'',
      sc_Name = utf8 [208, 159, 208, 176, 209, 130, 209, 128, 209, 131, 208, 187, 209, 140],
      sc_Description = ''walk_mode + cmd_vel N '' @ utf8 [209, 129, 208, 181, 208, 186],
      sc_Steps =
        [\<lparr>ss_Command = ''walk_mode'', ss_Payload = RawEmpty, ss_DurationSec = 0\<rparr>,
         \<lparr>ss_Command = ''cmd_vel'', ss_Payload = vel_json (JFloat float_0_3), ss_DurationSec = - 1\<rparr>,
         \<lparr>ss_Command = ''cmd_vel'', ss_Payload = vel_json (JInt 0), ss_DurationSec = 0\<rparr>],
      sc_RequiredCapabilities = [CapWalk, CapCmdVel, CapPatrol]\<rparr>"

definition navigation_scenario :: Scenario where
  "navigation_scenario =
     \<lparr>sc_ID = ''navigation'',
      sc_Name = utf8 [208, 157, 208, 176, 208, 178, 208, 184, 208, 179, 208, 176, 209, 134, 208, 184,
      209, 143],
      sc_Description = ''walk_mode + '' @ utf8 [208, 180, 208, 178, 208, 184, 208, 182, 208, 181, 208, 189, 208, 184, 208, 181,
      32, 208, 191, 208, 190, 32, 208, 191, 208, 176, 209, 128, 208, 176, 208, 188,
      208, 181, 209, 130, 209, 128, 208, 176, 208, 188],
      sc_Steps =
        [\<lparr>ss_Command = ''walk_mode'', ss_Payload = RawEmpty, ss_DurationSec = 0\<rparr>,
         \<lparr>ss_Command = ''cmd_vel'', ss_Payload = RawEmpty, ss_DurationSec = - 1\<rparr>],
      sc_RequiredCapabilities = [CapWalk, CapCmdVel, CapNavigation]\<rparr>"

definition mall_assistant_scenario :: Scenario where
  "mall_assistant_scenario =
     \<lparr>sc_ID = ''mall_assistant'',
      sc_Name = ''Mall Assistant & Guide'',
      sc_Description = ''Interactive assistant in a shopping mall'',
      sc_Steps = [],
      sc_RequiredCapabilities = [CapWalk, CapStand, CapNavigation, CapSpeech]\<rparr>"

definition navigate_to_store_scenario :: Scenario where
  "navigate_to_store_scenario =
     \<lparr>sc_ID = ''navigate_to_store'',
      sc_Name = ''Navigate to Store'',
      sc_Description = ''Navigate to store coordinates'',
      sc_Steps =
        [\<lparr>ss_Command = ''walk_mode'', ss_Payload = RawEmpty, ss_DurationSec = 0\<rparr>,
         \<lparr>ss_Command = ''navigate_to'', ss_Payload = RawEmpty, ss_DurationSec = - 1\<rparr>],
      sc_RequiredCapabilities = [CapWalk, CapNavigation]\<rparr>"

section \<open>The in-memory store\<close>

definition scenarios_NewMemoryStore :: scenario_store where
  "scenarios_NewMemoryStore =
     [''standby'' \<mapsto> standby_scenario, ''patrol'' \<mapsto> patrol_scenario,
      ''navigation'' \<mapsto> navigation_scenario]"

definition scenarios_List :: "string list \<Rightarrow> scenario_store \<Rightarrow> Scenario list" where
  "scenarios_List ks s = go_values s ks"

definition scenarios_ListByTenant :: "string list \<Rightarrow> string \<Rightarrow> scenario_store \<Rightarrow> Scenario list" where
  "scenarios_ListByTenant ks tenantID s = scenarios_List ks s"

definition scenarios_Get :: "scenario_store \<Rightarrow> string \<Rightarrow> Scenario option" where
  "scenarios_Get s i = s i"

definition scenarios_GetByTenant :: "scenario_store \<Rightarrow> string \<Rightarrow> string \<Rightarrow> Scenario option" where
  "scenarios_GetByTenant s i tenantID = scenarios_Get s i"

definition scenarios_Create :: "Scenario \<Rightarrow> scenario_store \<Rightarrow> scenario_error + scenario_store" where
  "scenarios_Create sc s =
     (case s (sc_ID sc) of Some _ \<Rightarrow> Inl ScenarioAlreadyExists | None \<Rightarrow> Inr (s(sc_ID sc \<mapsto> sc)))"

definition scenarios_Update :: "Scenario \<Rightarrow> scenario_store \<Rightarrow> scenario_error + scenario_store" where
  "scenarios_Update sc s =
     (case s (sc_ID sc) of None \<Rightarrow> Inl ScenarioErrNotFound | Some _ \<Rightarrow> Inr (s(sc_ID sc \<mapsto> sc)))"

definition scenarios_Delete :: "string \<Rightarrow> scenario_store \<Rightarrow> scenario_error + scenario_store" where
  "scenarios_Delete i s =
     (case s i of None \<Rightarrow> Inl ScenarioErrNotFound | Some _ \<Rightarrow> Inr (s(i := None)))"

section \<open>The catalog\<close>

record Catalog =
  cat_store :: "scenario_store option"
  cat_scenarios :: "Scenario gomap"

definition registerDefaults :: "Scenario gomap" where
  "registerDefaults =
     [''standby'' \<mapsto> standby_scenario, ''patrol'' \<mapsto> patrol_scenario,
      ''navigation'' \<mapsto> navigation_scenario, ''mall_assistant'' \<mapsto> mall_assistant_scenario,
      ''navigate_to_store'' \<mapsto> navigate_to_store_scenario]"

definition NewCatalog :: Catalog where
  "NewCatalog = \<lparr>cat_store = None, cat_scenarios = registerDefaults\<rparr>"

definition NewCatalogWithStore :: "scenario_store \<Rightarrow> Catalog" where
  "NewCatalogWithStore st = \<lparr>cat_store = Some st, cat_scenarios = registerDefaults\<rparr>"

definition GetForTenant :: "Catalog \<Rightarrow> string \<Rightarrow> string \<Rightarrow> Scenario option" where
  "GetForTenant c i tenantID =
     (case cat_store c of
        None \<Rightarrow> cat_scenarios c i
      | Some st \<Rightarrow> (case scenarios_GetByTenant st i tenantID of
            Some sc \<Rightarrow> Some sc
          | None \<Rightarrow> cat_scenarios c i))"

definition catalog_Get :: "Catalog \<Rightarrow> string \<Rightarrow> Scenario option" where
  "catalog_Get c i = GetForTenant c i []"

text \<open>\<open>ks1\<close> and \<open>ks2\<close> are the orders in which the store and the built-in map are ranged over.\<close>

definition ListForTenant :: "string list \<Rightarrow> string list \<Rightarrow> Catalog \<Rightarrow> string \<Rightarrow> Scenario list" where
  "ListForTenant ks1 ks2 c tenantID =
     (let stored = (case cat_store c of None \<Rightarrow> [] | Some st \<Rightarrow> scenarios_ListByTenant ks1 tenantID st)
      in stored @ filter (\<lambda>s. sc_ID s \<notin> set (map sc_ID stored)) (go_values (cat_scenarios c) ks2))"

definition with_store ::
  "(scenario_store \<Rightarrow> scenario_error + scenario_store) \<Rightarrow> Catalog \<Rightarrow> scenario_error + Catalog" where
  "with_store f c =
     (case cat_store c of
        None \<Rightarrow> Inl ScenarioErrNotFound
      | Some st \<Rightarrow> (case f st of Inl e \<Rightarrow> Inl e | Inr st' \<Rightarrow> Inr (c\<lparr>cat_store := Some st'\<rparr>)))"

definition catalog_Create :: "Scenario \<Rightarrow> Catalog \<Rightarrow> scenario_error + Catalog" where
  "catalog_Create sc c = with_store (scenarios_Create sc) c"

definition catalog_Update :: "Scenario \<Rightarrow> Catalog \<Rightarrow> scenario_error + Catalog" where
  "catalog_Update sc c = with_store (scenarios_Update sc) c"

definition catalog_Delete :: "string \<Rightarrow> Catalog \<Rightarrow> scenario_error + Catalog" where
  "catalog_Delete i c = with_store (scenarios_Delete i) c"

section \<open>Lemmas\<close>

lemmas scenario_defs = standby_scenario_def patrol_scenario_def navigation_scenario_def
  mall_assistant_scenario_def navigate_to_store_scenario_def

lemma registerDefaults_keys: "registerDefaults i = Some sc \<Longrightarrow> sc_ID sc = i"
  by (auto simp: registerDefaults_def scenario_defs split: if_splits)

text \<open>A stored scenario shadows the built-in one of the same identifier; nothing else changes.\<close>

lemma catalog_Create_Get:
  assumes "catalog_Create sc c = Inr c'"
  shows "catalog_Get c' i = (if i = sc_ID sc then Some sc else catalog_Get c i)"
  using assms
  by (auto simp: catalog_Create_def with_store_def scenarios_Create_def catalog_Get_def
      GetForTenant_def scenarios_GetByTenant_def scenarios_Get_def split: option.splits sum.splits)

lemma catalog_Delete_builtin:
  assumes "catalog_Delete i c = Inr c'" "cat_scenarios c i = Some sc"
  shows "catalog_Get c' i = Some sc"
  using assms
  by (auto simp: catalog_Delete_def with_store_def scenarios_Delete_def catalog_Get_def
      GetForTenant_def scenarios_GetByTenant_def scenarios_Get_def split: option.splits sum.splits)

lemma ListForTenant_complete:
  assumes agree: "\<And>k sc. cat_scenarios c k = Some sc \<Longrightarrow> sc_ID sc = k"
    and agree': "\<And>st k sc. cat_store c = Some st \<Longrightarrow> st k = Some sc \<Longrightarrow> sc_ID sc = k"
    and r1: "\<And>st. cat_store c = Some st \<Longrightarrow> go_range st ks1"
    and r2: "go_range (cat_scenarios c) ks2"
  shows "sc \<in> set (ListForTenant ks1 ks2 c t) \<longleftrightarrow> GetForTenant c (sc_ID sc) t = Some sc"
proof (cases "cat_store c")
  case None
  then show ?thesis using agree go_range_values [OF r2]
    by (auto simp: ListForTenant_def GetForTenant_def)
next
  case (Some st)
  have st: "v \<in> set (go_values st ks1) \<longleftrightarrow> (\<exists>k. st k = Some v)" for v
    by (rule go_range_values [OF r1 [OF Some]])
  have stored: "sc_ID sc \<in> sc_ID ` set (go_values st ks1) \<longleftrightarrow> st (sc_ID sc) \<noteq> None"
    using st agree' [OF Some] by (auto simp: image_iff) metis
  have member: "sc \<in> set (ListForTenant ks1 ks2 c t) \<longleftrightarrow>
      (\<exists>k. st k = Some sc) \<or> ((\<exists>k. cat_scenarios c k = Some sc) \<and> st (sc_ID sc) = None)"
    using stored st go_range_values [OF r2] Some
    by (simp add: ListForTenant_def Let_def scenarios_ListByTenant_def scenarios_List_def)
  have "(\<exists>k. st k = Some sc) \<longleftrightarrow> st (sc_ID sc) = Some sc"
    and "(\<exists>k. cat_scenarios c k = Some sc) \<longleftrightarrow> cat_scenarios c (sc_ID sc) = Some sc"
    using agree agree' [OF Some] by metis+
  then show ?thesis unfolding member using Some
    by (simp add: GetForTenant_def scenarios_GetByTenant_def scenarios_Get_def split: option.split)
qed

section \<open>Properties\<close>

datatype catalog_op = OpCreate Scenario | OpUpdate Scenario | OpDelete string

definition catalog_apply :: "catalog_op \<Rightarrow> Catalog \<Rightarrow> Catalog" where
  "catalog_apply a c =
     (case (case a of OpCreate sc \<Rightarrow> catalog_Create sc c | OpUpdate sc \<Rightarrow> catalog_Update sc c
            | OpDelete i \<Rightarrow> catalog_Delete i c) of Inl _ \<Rightarrow> c | Inr c' \<Rightarrow> c')"

lemma catalog_apply_builtins: "cat_scenarios (catalog_apply a c) = cat_scenarios c"
  by (cases a) (auto simp: catalog_apply_def catalog_Create_def catalog_Update_def catalog_Delete_def
      with_store_def split: option.splits sum.splits)

lemma catalog_Get_builtin: "cat_scenarios c i \<noteq> None \<Longrightarrow> catalog_Get c i \<noteq> None"
  by (auto simp: catalog_Get_def GetForTenant_def split: option.splits)

text \<open>
  The built-in scenarios cannot be lost: after any history of creations, updates and deletions on a catalog,
  with or without a store, each of the five identifiers still names a scenario.
\<close>

theorem builtins_survive:
  assumes "i \<in> {''standby'', ''patrol'', ''navigation'', ''mall_assistant'', ''navigate_to_store''}"
  shows "catalog_Get (fold catalog_apply as (NewCatalogWithStore st)) i \<noteq> None
    \<and> catalog_Get (fold catalog_apply as NewCatalog) i \<noteq> None"
proof -
  have b: "cat_scenarios (fold catalog_apply as c) = cat_scenarios c" for c
    by (induction as arbitrary: c) (simp_all add: catalog_apply_builtins)
  have "registerDefaults i \<noteq> None" using assms by (auto simp: registerDefaults_def)
  then show ?thesis
    by (intro conjI catalog_Get_builtin) (simp_all add: b NewCatalog_def NewCatalogWithStore_def)
qed

theorem builtins_survive_witness:
  "catalog_Get (fold catalog_apply [OpDelete ''patrol'', OpDelete ''patrol''] (NewCatalogWithStore scenarios_NewMemoryStore)) ''patrol'' \<noteq> None"
  using builtins_survive [of "''patrol''" "[OpDelete ''patrol'', OpDelete ''patrol'']" scenarios_NewMemoryStore]
  by simp

end
