(* ===== verification/Bus.thy ===== *)
theory Bus
  imports Hal
begin

text \<open>
  The telemetry bus, \<^verbatim>\<open>pkg/telemetry/bus.go\<close>, as far as the platform's own code goes: the topic
  of a message and the JSON encoding that may fail. The NATS connection behind it is third-party
  code: whether a publication succeeds is an argument of the operations, and what was
  published is the list of commands in order of publication.
\<close>

type_synonym outbox = "Command list"

definition TopicTelemetryPrefix :: string where
  "TopicTelemetryPrefix = ''telemetry.robots''"

definition TopicCommandsPrefix :: string where
  "TopicCommandsPrefix = ''commands.robots''"

definition command_topic :: "Command \<Rightarrow> string" where
  "command_topic cmd = TopicCommandsPrefix @ ''.'' @ c_RobotID cmd"

text \<open>
  \<^verbatim>\<open>json.Marshal(cmd)\<close> fails exactly when the raw payload is not valid JSON; \<open>nats_ok\<close> is
  whether \<^verbatim>\<open>nc.Publish\<close> returns no error.
\<close>

definition marshal_ok :: "Command \<Rightarrow> bool" where
  "marshal_ok cmd = (case c_Payload cmd of RawInvalid _ \<Rightarrow> False | _ \<Rightarrow> True)"

definition PublishCommand :: "bool \<Rightarrow> Command \<Rightarrow> outbox \<Rightarrow> bool \<times> outbox" where
  "PublishCommand nats_ok cmd out =
     (if marshal_ok cmd \<and> nats_ok then (True, out @ [cmd]) else (False, out))"

text \<open>The subscription \<^verbatim>\<open>commands.robots.>\<close>: one or more tokens below the prefix.\<close>

definition all_commands_match :: "string \<Rightarrow> bool" where
  "all_commands_match topic \<longleftrightarrow>
     take (length TopicCommandsPrefix + 1) topic = TopicCommandsPrefix @ ''.''
     \<and> drop (length TopicCommandsPrefix + 1) topic \<noteq> []"

lemma PublishCommand_out:
  "PublishCommand ok cmd out = (b, out') \<Longrightarrow> out' = (if b then out @ [cmd] else out)"
  by (auto simp: PublishCommand_def split: if_splits)

lemma PublishCommand_set:
  "set (snd (PublishCommand ok cmd out)) \<subseteq> insert cmd (set out)"
  by (auto simp: PublishCommand_def)

lemma command_topic_match: "c_RobotID cmd \<noteq> [] \<Longrightarrow> all_commands_match (command_topic cmd)"
  by (simp add: all_commands_match_def command_topic_def)

end
