(* ===== verification/Audit_Log.thy ===== *)
theory Audit_Log
  imports Go_Json
begin

text \<open>
  The audit log, \<^verbatim>\<open>pkg/control-plane/audit\<close>, with its in-memory store. \<^verbatim>\<open>Details\<close> is text; it is
  kept as what produced it, the JSON value that was marshalled or the text that was concatenated.
  The identifiers that \<^verbatim>\<open>uuid.New()\<close> draws are arguments.
\<close>

datatype details = NoDetails | DetJson json | DetText string

record Entry =
  a_ID :: string
  a_Actor :: string
  a_Action :: string
  a_Resource :: string
  a_ResourceID :: string
  a_Timestamp :: time
  a_Details :: details
  a_TenantID :: string

record AuditFilters =
  f_RobotID :: string
  f_TenantID :: string
  f_Actor :: string
  f_Action :: string
  f_From :: "time option"
  f_To :: "time option"
  f_Limit :: int
  f_Offset :: int

type_synonym audit_log = "Entry list"

definition audit_Append :: "time \<Rightarrow> string \<Rightarrow> Entry \<Rightarrow> audit_log \<Rightarrow> audit_log" where
  "audit_Append now uuid e es =
     (let e1 = (if a_ID e = [] then e\<lparr>a_ID := uuid\<rparr> else e);
          e2 = (if time_IsZero (a_Timestamp e1) then e1\<lparr>a_Timestamp := now\<rparr> else e1)
      in es @ [e2])"

text \<open>The conditions of the loop of \<^verbatim>\<open>List\<close>, in its order.\<close>

definition audit_match :: "AuditFilters \<Rightarrow> Entry \<Rightarrow> bool" where
  "audit_match f e \<longleftrightarrow>
     \<not> (f_RobotID f \<noteq> [] \<and> (a_Resource e \<noteq> ''robot'' \<or> a_ResourceID e \<noteq> f_RobotID f))
     \<and> \<not> (f_Actor f \<noteq> [] \<and> a_Actor e \<noteq> f_Actor f)
     \<and> \<not> (f_Action f \<noteq> [] \<and> a_Action e \<noteq> f_Action f)
     \<and> \<not> (case f_From f of None \<Rightarrow> False | Some t \<Rightarrow> a_Timestamp e < t)
     \<and> \<not> (case f_To f of None \<Rightarrow> False | Some t \<Rightarrow> t < a_Timestamp e)"

text \<open>
  \<^verbatim>\<open>List\<close>: newest first, at most 1000 matches, then a window of \<^verbatim>\<open>limit\<close> entries from
  \<^verbatim>\<open>offset\<close>. A negative offset, or a window whose end lies before its start, makes the slice
  expression panic: \<open>None\<close>. The sum of offset and limit is a 64-bit \<^verbatim>\<open>int\<close>.
\<close>

definition audit_List :: "AuditFilters \<Rightarrow> audit_log \<Rightarrow> Entry list option" where
  "audit_List f es =
     (let result = take 1000 (filter (audit_match f) (rev es));
          n = int (length result);
          limit = (if 0 < f_Limit f then f_Limit f else 100);
          offset = f_Offset f
      in if offset \<ge> n then Some []
         else let e = int64 (offset + limit); stop = (if e > n then n else e)
              in if offset < 0 \<or> stop < offset then None
                 else Some (take (nat (stop - offset)) (drop (nat offset) result)))"

lemma audit_Append_length [simp]: "length (audit_Append now uuid e es) = Suc (length es)"
  by (simp add: audit_Append_def Let_def)

lemma audit_Append_prefix: "take (length es) (audit_Append now uuid e es) = es"
  by (simp add: audit_Append_def Let_def)

lemma audit_List_subset:
  "audit_List f es = Some xs \<Longrightarrow> e \<in> set xs \<Longrightarrow> e \<in> set es \<and> audit_match f e"
proof -
  assume l: "audit_List f es = Some xs" and e: "e \<in> set xs"
  let ?r = "take 1000 (filter (audit_match f) (rev es))"
  from l e have "e \<in> set ?r"
    by (auto simp: audit_List_def Let_def split: if_splits dest!: in_set_takeD in_set_dropD)
  then show ?thesis by (auto dest: in_set_takeD)
qed

section \<open>Properties\<close>

text \<open>
  A page of the audit log: for a non-negative offset (and sums below the 64-bit bound) the listing
  never panics and returns the window of \<^verbatim>\<open>limit\<close> entries (100 by default) from \<^verbatim>\<open>offset\<close> in the newest-first
  sequence of the matching entries, of which at most 1000 are considered.
\<close>

theorem audit_List_window:
  assumes "0 \<le> f_Offset f" "f_Offset f + f_Limit f < 2 ^ 63" "f_Offset f + 100 < 2 ^ 63"
  shows "audit_List f es =
    Some (take (nat (if 0 < f_Limit f then f_Limit f else 100))
      (drop (nat (f_Offset f)) (take 1000 (filter (audit_match f) (rev es)))))"
proof -
  let ?r = "take 1000 (filter (audit_match f) (rev es))" and ?l = "if 0 < f_Limit f then f_Limit f else 100"
  have sum: "int64 (f_Offset f + ?l) = f_Offset f + ?l"
    by (rule int64_id) (use assms in auto)
  have cut: "take (nat (int (length ?r) - f_Offset f)) (drop (nat (f_Offset f)) ?r) =
      take (nat ?l) (drop (nat (f_Offset f)) ?r)" if "f_Offset f + ?l > int (length ?r)"
    using that assms(1) by (subst (1 2) take_all) auto
  have none: "int (length ?r) \<le> f_Offset f \<Longrightarrow> drop (nat (f_Offset f)) ?r = []"
    by simp
  show ?thesis unfolding audit_List_def Let_def sum
    using assms(1) cut none by (auto split: if_splits)
qed

definition audit_filters_all :: AuditFilters where
  "audit_filters_all = \<lparr>f_RobotID = [], f_TenantID = [], f_Actor = [], f_Action = [], f_From = None,
     f_To = None, f_Limit = 0, f_Offset = 0\<rparr>"

definition audit_entry :: "string \<Rightarrow> Entry" where
  "audit_entry tenant = \<lparr>a_ID = ''1'', a_Actor = ''console'', a_Action = ''command'', a_Resource = ''robot'',
     a_ResourceID = ''r1'', a_Timestamp = 1, a_Details = NoDetails, a_TenantID = tenant\<rparr>"

theorem audit_List_window_witness:
  "audit_List audit_filters_all [audit_entry ''a'', audit_entry ''b''] = Some [audit_entry ''b'', audit_entry ''a'']"
  using audit_List_window [of audit_filters_all "[audit_entry ''a'', audit_entry ''b'']"]
  by (simp add: audit_filters_all_def audit_match_def)

text \<open>
  The filter on the tenant has no effect in the in-memory log: two queries that differ only in it give the
  same entries, so that a listing for one tenant shows the entries of all of them.
\<close>

theorem audit_List_ignores_tenant: "audit_List (f\<lparr>f_TenantID := t\<rparr>) es = audit_List f es"
proof -
  have "audit_match (f\<lparr>f_TenantID := t\<rparr>) = audit_match f" by (rule ext) (simp add: audit_match_def)
  moreover have "f_Limit (f\<lparr>f_TenantID := t\<rparr>) = f_Limit f" "f_Offset (f\<lparr>f_TenantID := t\<rparr>) = f_Offset f"
    by simp_all
  ultimately show ?thesis by (simp only: audit_List_def)
qed

end
