(* ===== verification/Safety.thy ===== *)
theory Safety
  imports Bus Audit_Log
begin

text \<open>
  The Safety Supervisor: the command filter of the control plane
  (\<^verbatim>\<open>pkg/control-plane/arbiter/safety.go\<close>), its copy in the edge agent
  (\<^verbatim>\<open>pkg/edge/safety.go\<close>), and the Command Arbiter (\<^verbatim>\<open>arbiter.go\<close>) that applies the filter to
  every command on the bus.
\<close>

section \<open>The filter of the control plane\<close>

definition linearVelMin :: real where "linearVelMin = - 3 / 2"
definition linearVelMax :: real where "linearVelMax = 3 / 2"
definition angularVelMin :: real where "angularVelMin = - 2"
definition angularVelMax :: real where "angularVelMax = 2"

lemmas velocity_limits = linearVelMin_def linearVelMax_def angularVelMin_def angularVelMax_def

record CmdVel =
  cv_LinearX :: real
  cv_LinearY :: real
  cv_AngularZ :: real

definition cmd_vel_zero :: CmdVel where
  "cmd_vel_zero = \<lparr>cv_LinearX = 0, cv_LinearY = 0, cv_AngularZ = 0\<rparr>"

definition cmd_vel_fields :: "CmdVel struct_fields" where
  "cmd_vel_fields =
     [(''linear_x'', decode_float (\<lambda>v s. s\<lparr>cv_LinearX := v\<rparr>)),
      (''linear_y'', decode_float (\<lambda>v s. s\<lparr>cv_LinearY := v\<rparr>)),
      (''angular_z'', decode_float (\<lambda>v s. s\<lparr>cv_AngularZ := v\<rparr>))]"

definition validateCmdVelPayload :: "raw_message \<Rightarrow> bool" where
  "validateCmdVelPayload payload =
     (if payload = RawEmpty then False
      else let (ok, p) = unmarshal cmd_vel_fields payload cmd_vel_zero in
        if \<not> ok then False
        else if cv_LinearX p < linearVelMin \<or> cv_LinearX p > linearVelMax then False
        else if cv_LinearY p < linearVelMin \<or> cv_LinearY p > linearVelMax then False
        else if cv_AngularZ p < angularVelMin \<or> cv_AngularZ p > angularVelMax then False
        else True)"

record NavigateTo =
  nt_TargetCoordinates :: string
  nt_StoreName :: string

definition navigate_to_zero :: NavigateTo where
  "navigate_to_zero = \<lparr>nt_TargetCoordinates = [], nt_StoreName = []\<rparr>"

definition navigate_to_fields :: "NavigateTo struct_fields" where
  "navigate_to_fields =
     [(''target_coordinates'', decode_string (\<lambda>v s. s\<lparr>nt_TargetCoordinates := v\<rparr>)),
      (''store_name'', decode_string (\<lambda>v s. s\<lparr>nt_StoreName := v\<rparr>))]"

definition validateNavigateToPayload :: "raw_message \<Rightarrow> bool" where
  "validateNavigateToPayload payload =
     (if payload = RawEmpty then False
      else let (ok, p) = unmarshal navigate_to_fields payload navigate_to_zero in
        if \<not> ok then False else nt_TargetCoordinates p \<noteq> [])"

definition SafetyAllow :: "Command \<Rightarrow> bool" where
  "SafetyAllow cmd =
     (if c_Command cmd = ''safe_stop'' then True
      else if c_Command cmd = ''release_control'' then True
      else if c_Command cmd \<in> {''zero_mode'', ''stand_mode'', ''walk_mode''} then True
      else if c_Command cmd = ''cmd_vel'' then validateCmdVelPayload (c_Payload cmd)
      else if c_Command cmd = ''navigate_to'' then validateNavigateToPayload (c_Payload cmd)
      else False)"

section \<open>The filter of the edge agent\<close>

definition edge_validateCmdVelPayload :: "raw_message \<Rightarrow> bool" where
  "edge_validateCmdVelPayload payload =
     (if payload = RawEmpty then False
      else let (ok, p) = unmarshal cmd_vel_fields payload cmd_vel_zero in
        if \<not> ok then False
        else if cv_LinearX p < linearVelMin \<or> cv_LinearX p > linearVelMax then False
        else if cv_LinearY p < linearVelMin \<or> cv_LinearY p > linearVelMax then False
        else if cv_AngularZ p < angularVelMin \<or> cv_AngularZ p > angularVelMax then False
        else True)"

definition edge_SafetyAllow :: "Command \<Rightarrow> bool" where
  "edge_SafetyAllow cmd =
     (if c_Command cmd = ''safe_stop'' then True
      else if c_Command cmd = ''release_control'' then True
      else if c_Command cmd \<in> {''zero_mode'', ''stand_mode'', ''walk_mode''} then True
      else if c_Command cmd = ''cmd_vel'' then edge_validateCmdVelPayload (c_Payload cmd)
      else False)"

section \<open>The Command Arbiter\<close>

record arbiter_state =
  arb_bus :: outbox
  arb_audit :: "audit_log option"

definition nullIfEmpty :: "string \<Rightarrow> string" where
  "nullIfEmpty s = (if s = [] then ''system'' else s)"

definition arbiter_audit ::
  "time \<Rightarrow> string \<Rightarrow> Command \<Rightarrow> bool \<Rightarrow> arbiter_state \<Rightarrow> arbiter_state" where
  "arbiter_audit now uuid cmd allowed st =
     (case arb_audit st of
        None \<Rightarrow> st
      | Some es \<Rightarrow> st\<lparr>arb_audit := Some (audit_Append now uuid
          \<lparr>a_ID = [], a_Actor = nullIfEmpty (c_OperatorID cmd), a_Action = ''command'',
           a_Resource = ''robot'', a_ResourceID = c_RobotID cmd, a_Timestamp = now,
           a_Details = DetJson (JObj [(''allowed'', JBool allowed),
                                      (''command'', JStr (c_Command cmd))]),
           a_TenantID = []\<rparr> es)\<rparr>)"

definition handleCommand ::
  "(string \<Rightarrow> Robot option) \<Rightarrow> bool \<Rightarrow> time \<Rightarrow> string \<Rightarrow> Command \<Rightarrow> arbiter_state \<Rightarrow> arbiter_state"
where
  "handleCommand registry_Get nats_ok now uuid cmd st =
     (case registry_Get (c_RobotID cmd) of
        None \<Rightarrow> arbiter_audit now uuid cmd False st
      | Some robot \<Rightarrow>
          if \<not> SafetyAllow cmd then arbiter_audit now uuid cmd False st
          else let (ok, out) = PublishCommand nats_ok cmd (arb_bus st) in
            if \<not> ok then arbiter_audit now uuid cmd False st
            else arbiter_audit now uuid cmd True (st\<lparr>arb_bus := out\<rparr>))"

section \<open>Properties\<close>

lemma validateCmdVelPayload_iff:
  "validateCmdVelPayload raw \<longleftrightarrow>
     (\<exists>p. unmarshal cmd_vel_fields raw cmd_vel_zero = (True, p)
        \<and> \<bar>cv_LinearX p\<bar> \<le> 3 / 2 \<and> \<bar>cv_LinearY p\<bar> \<le> 3 / 2 \<and> \<bar>cv_AngularZ p\<bar> \<le> 2)"
  by (cases "unmarshal cmd_vel_fields raw cmd_vel_zero")
    (auto simp: validateCmdVelPayload_def velocity_limits split: if_splits)

lemma validateNavigateToPayload_iff:
  "validateNavigateToPayload raw \<longleftrightarrow>
     (\<exists>p. unmarshal navigate_to_fields raw navigate_to_zero = (True, p)
        \<and> nt_TargetCoordinates p \<noteq> [])"
  by (cases "unmarshal navigate_to_fields raw navigate_to_zero")
    (auto simp: validateNavigateToPayload_def split: if_splits)

lemma edge_validate_eq: "edge_validateCmdVelPayload = validateCmdVelPayload"
  by (rule ext) (simp add: edge_validateCmdVelPayload_def validateCmdVelPayload_def)

lemma SafetyAllow_payload_valid: "SafetyAllow cmd \<Longrightarrow> c_Command cmd \<in> {''cmd_vel'', ''navigate_to''}
    \<Longrightarrow> marshal_ok cmd"
  by (auto simp: SafetyAllow_def marshal_ok_def validateCmdVelPayload_iff
      validateNavigateToPayload_iff split: raw_message.splits)

lemma SafetyAllow_safe_stop [simp]: "c_Command cmd = ''safe_stop'' \<Longrightarrow> SafetyAllow cmd"
  by (simp add: SafetyAllow_def)

lemma SafetyAllow_walk_mode [simp]: "c_Command cmd = ''walk_mode'' \<Longrightarrow> SafetyAllow cmd"
  by (simp add: SafetyAllow_def)

section \<open>What the filters guarantee\<close>

text \<open>
  C1. The safety filter, completely: a command is allowed exactly when it is one of the five mode commands,
  a \<^verbatim>\<open>cmd_vel\<close> whose payload decodes to velocities within the limits (1.5 m/s along both axes, 2 rad/s),
  or a \<^verbatim>\<open>navigate_to\<close> whose payload decodes to a non-empty target. Every other command is rejected.
\<close>

theorem SafetyAllow_iff:
  "SafetyAllow cmd \<longleftrightarrow>
     c_Command cmd \<in> {''safe_stop'', ''release_control'', ''zero_mode'', ''stand_mode'', ''walk_mode''}
     \<or> (c_Command cmd = ''cmd_vel'' \<and>
         (\<exists>p. unmarshal cmd_vel_fields (c_Payload cmd) cmd_vel_zero = (True, p)
            \<and> \<bar>cv_LinearX p\<bar> \<le> 3 / 2 \<and> \<bar>cv_LinearY p\<bar> \<le> 3 / 2 \<and> \<bar>cv_AngularZ p\<bar> \<le> 2))
     \<or> (c_Command cmd = ''navigate_to'' \<and>
         (\<exists>p. unmarshal navigate_to_fields (c_Payload cmd) navigate_to_zero = (True, p)
            \<and> nt_TargetCoordinates p \<noteq> []))"
  by (simp add: SafetyAllow_def validateCmdVelPayload_iff validateNavigateToPayload_iff)

text \<open>
  The filter of the edge agent, which says it mirrors the one of the control plane, allows exactly the
  commands that one allows, less every \<^verbatim>\<open>navigate_to\<close>.
\<close>

theorem edge_SafetyAllow_eq:
  "edge_SafetyAllow cmd \<longleftrightarrow> SafetyAllow cmd \<and> c_Command cmd \<noteq> ''navigate_to''"
  by (auto simp: edge_SafetyAllow_def SafetyAllow_def edge_validate_eq)

text \<open>A member's value as a number, as a client reads it that looks up the exact name.\<close>

fun json_number :: "json \<Rightarrow> real option" where
  "json_number (JInt i) = Some (of_int i)"
| "json_number (JFloat r) = Some r"
| "json_number _ = None"

definition read_member :: "(string \<times> json) list \<Rightarrow> string \<Rightarrow> real option" where
  "read_member kvs k = Option.bind (map_of (rev kvs) k) json_number"

lemma read_member_snoc:
  "read_member (kvs @ [(k, j)]) n = (if n = k then json_number j else read_member kvs n)"
  by (simp add: read_member_def)

definition exact_key :: "(string \<times> json) list \<Rightarrow> string \<Rightarrow> bool" where
  "exact_key kvs k \<longleftrightarrow> list_all (\<lambda>(k', v). EqualFold k k' \<longrightarrow> k' = k) kvs"

lemma decode_members_append:
  "decode_members fs (xs @ ys) s =
     (fst (decode_members fs xs s) \<and> fst (decode_members fs ys (snd (decode_members fs xs s))),
      snd (decode_members fs ys (snd (decode_members fs xs s))))"
  by (induction xs arbitrary: s) (auto simp: Let_def split: option.split prod.split)

lemma vel_keys_distinct:
  "\<not> EqualFold ''linear_x'' ''linear_y''" "\<not> EqualFold ''linear_x'' ''angular_z''"
  "\<not> EqualFold ''linear_y'' ''angular_z''"
  by (simp_all add: EqualFold_def ToLower_def lower_char_def)

lemma find_field_vel:
  "find_field cmd_vel_fields k =
     (if EqualFold ''linear_x'' k then Some (decode_float (\<lambda>v s. s\<lparr>cv_LinearX := v\<rparr>))
      else if EqualFold ''linear_y'' k then Some (decode_float (\<lambda>v s. s\<lparr>cv_LinearY := v\<rparr>))
      else if EqualFold ''angular_z'' k then Some (decode_float (\<lambda>v s. s\<lparr>cv_AngularZ := v\<rparr>))
      else None)"
  using vel_keys_distinct
  by (auto simp: find_field_def cmd_vel_fields_def dest: EqualFold_sym EqualFold_trans)

lemma decode_float_ok:
  assumes "fst (decode_float upd j s)"
  shows "decode_float upd j s = (True, case json_number j of None \<Rightarrow> s | Some v \<Rightarrow> upd v s)"
  using assms by (cases j) (auto split: if_splits)

text \<open>
  Decoding puts into each velocity the value of the member of that exact name, when no other
  member folds to the name.
\<close>

lemma decode_vel_exact:
  assumes "fst (decode_members cmd_vel_fields kvs cmd_vel_zero)"
    and "exact_key kvs ''linear_x''" "exact_key kvs ''linear_y''" "exact_key kvs ''angular_z''"
    and "\<forall>(k, v) \<in> set kvs. v \<noteq> JNull"
  shows "snd (decode_members cmd_vel_fields kvs cmd_vel_zero) =
    \<lparr>cv_LinearX = case read_member kvs ''linear_x'' of None \<Rightarrow> 0 | Some v \<Rightarrow> v,
     cv_LinearY = case read_member kvs ''linear_y'' of None \<Rightarrow> 0 | Some v \<Rightarrow> v,
     cv_AngularZ = case read_member kvs ''angular_z'' of None \<Rightarrow> 0 | Some v \<Rightarrow> v\<rparr>"
  using assms
proof (induction kvs rule: rev_induct)
  case Nil
  then show ?case by (simp add: read_member_def cmd_vel_zero_def)
next
  case (snoc kv kvs)
  obtain k j where kv: "kv = (k, j)" by fastforce
  let ?s = "snd (decode_members cmd_vel_fields kvs cmd_vel_zero)"
  have IH: "?s = \<lparr>cv_LinearX = case read_member kvs ''linear_x'' of None \<Rightarrow> 0 | Some v \<Rightarrow> v,
     cv_LinearY = case read_member kvs ''linear_y'' of None \<Rightarrow> 0 | Some v \<Rightarrow> v,
     cv_AngularZ = case read_member kvs ''angular_z'' of None \<Rightarrow> 0 | Some v \<Rightarrow> v\<rparr>"
    using snoc.prems by (intro snoc.IH) (auto simp: decode_members_append exact_key_def)
  have x: "EqualFold n k \<longleftrightarrow> k = n" if "n \<in> {''linear_x'', ''linear_y'', ''angular_z''}" for n
    using snoc.prems(2-4) that by (auto simp: exact_key_def kv)
  have ok: "fst (decode_members cmd_vel_fields [(k, j)] ?s)"
    using snoc.prems(1) by (simp add: decode_members_append kv)
  have j: "j \<noteq> JNull" using snoc.prems(5) by (simp add: kv)
  have num: "fst (decode_float upd j t) \<Longrightarrow> decode_float upd j t = (True, upd (the (json_number j)) t)
      \<and> json_number j = Some (the (json_number j))" for upd :: "real \<Rightarrow> CmdVel \<Rightarrow> CmdVel" and t
    using j by (cases j) (auto split: if_splits)
  note x' = x [of "''linear_x''", simplified] x [of "''linear_y''", simplified] x [of "''angular_z''", simplified]
  define t where "t = ?s"
  have *: "fst (decode_members cmd_vel_fields [(k, j)] t)
      \<Longrightarrow> snd (decode_members cmd_vel_fields [(k, j)] t) =
        (if k = ''linear_x'' then t\<lparr>cv_LinearX := the (json_number j)\<rparr>
         else if k = ''linear_y'' then t\<lparr>cv_LinearY := the (json_number j)\<rparr>
         else if k = ''angular_z'' then t\<lparr>cv_AngularZ := the (json_number j)\<rparr> else t)
      \<and> (k \<in> {''linear_x'', ''linear_y'', ''angular_z''} \<longrightarrow> json_number j = Some (the (json_number j)))"
    using num [of "\<lambda>v s. s\<lparr>cv_LinearX := v\<rparr>" t] num [of "\<lambda>v s. s\<lparr>cv_LinearY := v\<rparr>" t]
      num [of "\<lambda>v s. s\<lparr>cv_AngularZ := v\<rparr>" t]
    by (auto simp: find_field_vel x' split_beta Let_def split: if_splits)
  consider "k = ''linear_x''" | "k = ''linear_y''" | "k = ''angular_z''"
    | "k \<notin> {''linear_x'', ''linear_y'', ''angular_z''}" by blast
  then show ?case
    using * [unfolded t_def, OF ok] unfolding IH kv decode_members_append snd_conv
    by cases (auto simp: read_member_snoc simp del: decode_members.simps split: option.split)
qed

text \<open>
  The limits hold for what a robot adapter reads: when a \<^verbatim>\<open>cmd_vel\<close> is allowed and its payload has no
  member whose name only folds to one of the three names, the values under the exact names are within
  the limits.
\<close>

theorem cmd_vel_read_within_limits:
  assumes "SafetyAllow cmd" "c_Command cmd = ''cmd_vel''" "c_Payload cmd = RawJson (JObj kvs)"
    and "exact_key kvs ''linear_x''" "exact_key kvs ''linear_y''" "exact_key kvs ''angular_z''"
    and "list_all (\<lambda>(k, v). v \<noteq> JNull) kvs"
  shows "(case read_member kvs ''linear_x'' of None \<Rightarrow> True | Some v \<Rightarrow> \<bar>v\<bar> \<le> 3 / 2)
    \<and> (case read_member kvs ''linear_y'' of None \<Rightarrow> True | Some v \<Rightarrow> \<bar>v\<bar> \<le> 3 / 2)
    \<and> (case read_member kvs ''angular_z'' of None \<Rightarrow> True | Some v \<Rightarrow> \<bar>v\<bar> \<le> 2)"
proof -
  obtain p where p: "decode_members cmd_vel_fields kvs cmd_vel_zero = (True, p)"
    and lim: "\<bar>cv_LinearX p\<bar> \<le> 3 / 2" "\<bar>cv_LinearY p\<bar> \<le> 3 / 2" "\<bar>cv_AngularZ p\<bar> \<le> 2"
    using assms(1-3) by (auto simp: SafetyAllow_def validateCmdVelPayload_iff)
  have "\<forall>(k, v) \<in> set kvs. v \<noteq> JNull" using assms(7) by (simp add: list_all_iff)
  with decode_vel_exact [of kvs] assms(4-6) p have
    "p = \<lparr>cv_LinearX = case read_member kvs ''linear_x'' of None \<Rightarrow> 0 | Some v \<Rightarrow> v,
     cv_LinearY = case read_member kvs ''linear_y'' of None \<Rightarrow> 0 | Some v \<Rightarrow> v,
     cv_AngularZ = case read_member kvs ''angular_z'' of None \<Rightarrow> 0 | Some v \<Rightarrow> v\<rparr>" by simp
  with lim show ?thesis by (simp split: option.splits)
qed

definition cmd_vel_example :: "(string \<times> json) list \<Rightarrow> Command" where
  "cmd_vel_example kvs = \<lparr>c_RobotID = ''r1'', c_Command = ''cmd_vel'', c_Payload = RawJson (JObj kvs),
     c_Timestamp = 1, c_OperatorID = ''console''\<rparr>"

lemma lower_LX: "lower_char CHR ''L'' = CHR ''l''" "lower_char CHR ''X'' = CHR ''x''"
  by code_simp+

lemmas cmd_vel_eval = cmd_vel_example_def SafetyAllow_def validateCmdVelPayload_def find_field_vel
  cmd_vel_zero_def velocity_limits EqualFold_def ToLower_def lower_char_def float_finite_def

theorem cmd_vel_read_within_limits_witness:
  "SafetyAllow (cmd_vel_example [(''linear_x'', JInt 1), (''angular_z'', JInt (- 2))])
   \<and> \<bar>1 :: real\<bar> \<le> 3 / 2 \<and> read_member [(''linear_x'', JInt 1), (''angular_z'', JInt (- 2))] ''linear_x'' = Some 1"
proof -
  let ?kvs = "[(''linear_x'', JInt 1), (''angular_z'', JInt (- 2))]"
  have a: "SafetyAllow (cmd_vel_example ?kvs)" by (simp add: cmd_vel_eval)
  have r: "read_member ?kvs ''linear_x'' = Some 1" by (simp add: read_member_def)
  from cmd_vel_read_within_limits [OF a, of ?kvs] r a show ?thesis
    by (simp add: cmd_vel_example_def exact_key_def)
qed

text \<open>
  Without that condition they need not hold: the decoder matches names by case folding and lets the last
  match win, so that a payload is allowed whose member \<^verbatim>\<open>linear_x\<close>, the one the adapters read, is 100.
\<close>

theorem cmd_vel_folded_key_allowed:
  "SafetyAllow (cmd_vel_example [(''linear_x'', JInt 100), (''Linear_X'', JInt 0)])
   \<and> read_member [(''linear_x'', JInt 100), (''Linear_X'', JInt 0)] ''linear_x'' = Some 100"
  by (simp add: cmd_vel_example_def SafetyAllow_def validateCmdVelPayload_def find_field_vel
      cmd_vel_zero_def velocity_limits EqualFold_def ToLower_def lower_LX float_finite_def read_member_def)
    (simp add: lower_char_def)

text \<open>
  The arbiter forwards a command exactly when its robot is registered, the filter allows it and the bus
  takes it; it forwards it unchanged, and it records every decision, with its outcome, in the audit log.
\<close>

theorem handleCommand_decision:
  fixes ok now uuid reg st cmd
  defines "sent \<equiv> reg (c_RobotID cmd) \<noteq> None \<and> SafetyAllow cmd \<and> marshal_ok cmd \<and> ok"
  defines "st' \<equiv> handleCommand reg ok now uuid cmd st"
  shows "arb_bus st' = arb_bus st @ (if sent then [cmd] else [])
    \<and> (arb_audit st = None \<and> arb_audit st' = None
       \<or> (\<exists>es e. arb_audit st = Some es \<and> arb_audit st' = Some (es @ [e])
           \<and> a_ResourceID e = c_RobotID cmd \<and> a_Action e = ''command''
           \<and> a_Details e = DetJson (JObj [(''allowed'', JBool sent), (''command'', JStr (c_Command cmd))])))"
  unfolding st'_def sent_def
  by (cases "arb_audit st"; cases "reg (c_RobotID cmd)")
    (auto simp: handleCommand_def arbiter_audit_def audit_Append_def PublishCommand_def Let_def)

end
