(* ===== verification/Navigation.thy ===== *)
theory Navigation
  imports Safety Tasks
begin

text \<open>
  Running one navigation, \<^verbatim>\<open>internal/robot/navigation_executor.go\<close> and \<^verbatim>\<open>task_executor.go\<close>.

  \<^verbatim>\<open>Execute\<close> sends \<^verbatim>\<open>walk_mode\<close> and \<^verbatim>\<open>navigate_to\<close>, subscribes to the robot's telemetry and then
  waits in a \<^verbatim>\<open>select\<close>. What the goroutine may meet is a list of inputs: a telemetry message
  handled by the subscription's callback, a wake-up by the ticker at an instant, a wake-up because
  the context is done, a wake-up because the callback closed the channel \<^verbatim>\<open>done\<close>. The theorems
  hold for every such list, so for every interleaving; the result is \<open>None\<close> while the inputs
  have not made \<^verbatim>\<open>Execute\<close> return.
\<close>

record NavigationRequest =
  nr_RobotID :: string
  nr_TaskID :: string
  nr_TargetCoords :: string
  nr_StoreName :: string
  nr_DestNodeID :: string
  nr_OperatorID :: string
  nr_IsReturn :: bool
  nr_Timeout :: duration

record NavigationResult =
  nv_Success :: bool
  nv_Timeout :: bool
  nv_Cancelled :: bool
  nv_Reason :: string

definition nav_zero :: NavigationResult where
  "nav_zero = \<lparr>nv_Success = False, nv_Timeout = False, nv_Cancelled = False, nv_Reason = []\<rparr>"

definition nav_fail :: "string \<Rightarrow> NavigationResult" where
  "nav_fail reason = nav_zero\<lparr>nv_Reason := reason\<rparr>"

record NavigationExecutor =
  ne_arrivalThresholdM :: real
  ne_defaultTimeout :: duration

definition NewNavigationExecutor :: "real \<Rightarrow> duration \<Rightarrow> NavigationExecutor" where
  "NewNavigationExecutor arrivalThresholdM defaultTimeout =
     \<lparr>ne_arrivalThresholdM = (if arrivalThresholdM \<le> 0 then 1 else arrivalThresholdM),
      ne_defaultTimeout = (if defaultTimeout \<le> 0 then 120 * second else defaultTimeout)\<rparr>"

datatype nav_input =
    NavTelemetry Telemetry \<comment> \<open>the callback runs on a message\<close>
  | NavTick time \<comment> \<open>\<open>case <-ticker.C\<close>, with the value of the next \<open>time.Now()\<close>\<close>
  | NavCtxDone \<comment> \<open>\<open>case <-ctx.Done()\<close>\<close>
  | NavDone \<comment> \<open>\<open>case <-done\<close>, possible only once the callback has closed the channel\<close>

text \<open>The test at the head of the callback and of the ticker branch: a result has been recorded.\<close>

definition nav_decided :: "NavigationResult \<Rightarrow> bool" where
  "nav_decided r \<longleftrightarrow> nv_Success r \<or> nv_Timeout r \<or> nv_Cancelled r \<or> nv_Reason r \<noteq> []"

definition nav_callback :: "real \<Rightarrow> Telemetry \<Rightarrow> NavigationResult \<times> bool \<Rightarrow> NavigationResult \<times> bool" where
  "nav_callback threshold t st =
     (let (result, done) = st in
      if nav_decided result then (result, done)
      else if \<not> tm_Online t then (nav_fail ''robot offline'', True)
      else case tm_DistanceToTarget t of
          None \<Rightarrow> (result, done)
        | Some d \<Rightarrow> (if 0 \<le> d \<and> d < threshold then (nav_zero\<lparr>nv_Success := True\<rparr>, True)
                    else (result, done)))"

fun nav_loop :: "real \<Rightarrow> time \<Rightarrow> nav_input list \<Rightarrow> NavigationResult \<times> bool \<Rightarrow> NavigationResult option" where
  "nav_loop threshold deadline [] st = None"
| "nav_loop threshold deadline (NavTelemetry t # ins) st =
     nav_loop threshold deadline ins (nav_callback threshold t st)"
| "nav_loop threshold deadline (NavCtxDone # ins) st =
     Some (if \<not> nv_Success (fst st) \<and> \<not> nv_Timeout (fst st)
           then nav_zero\<lparr>nv_Cancelled := True, nv_Reason := ''context cancelled''\<rparr> else fst st)"
| "nav_loop threshold deadline (NavDone # ins) st =
     (if snd st then Some (fst st) else nav_loop threshold deadline ins st)"
| "nav_loop threshold deadline (NavTick now # ins) st =
     (if nav_decided (fst st) then Some (fst st)
      else if now > deadline
           then Some (nav_zero\<lparr>nv_Timeout := True, nv_Reason := ''navigation timeout''\<rparr>)
      else nav_loop threshold deadline ins st)"

text \<open>
  What one execution meets: the values of successive \<^verbatim>\<open>time.Now()\<close> calls, whether the two
  publications and the subscription succeed, and the inputs of the loop.
\<close>

record nav_env =
  nx_clock :: "nat \<Rightarrow> time"
  nx_walk_ok :: bool
  nx_nav_ok :: bool
  nx_sub_ok :: bool
  nx_inputs :: "nav_input list"

definition walk_command :: "time \<Rightarrow> NavigationRequest \<Rightarrow> Command" where
  "walk_command now req =
     \<lparr>c_RobotID = nr_RobotID req, c_Command = ''walk_mode'', c_Payload = RawEmpty,
      c_Timestamp = now, c_OperatorID = nr_OperatorID req\<rparr>"

definition navigate_payload :: "NavigationRequest \<Rightarrow> raw_message" where
  "navigate_payload req = RawJson (JObj
     ((if nr_DestNodeID req \<noteq> [] then [(''destination_node_id'', JStr (nr_DestNodeID req))] else [])
      @ [(''store_name'', JStr (nr_StoreName req)),
         (''target_coordinates'', JStr (nr_TargetCoords req))]))"

definition navigate_command :: "time \<Rightarrow> NavigationRequest \<Rightarrow> Command" where
  "navigate_command now req =
     \<lparr>c_RobotID = nr_RobotID req, c_Command = ''navigate_to'', c_Payload = navigate_payload req,
      c_Timestamp = now, c_OperatorID = nr_OperatorID req\<rparr>"

definition nav_Execute ::
  "NavigationExecutor \<Rightarrow> nav_env \<Rightarrow> NavigationRequest \<Rightarrow> outbox \<Rightarrow> (NavigationResult \<times> outbox) option" where
  "nav_Execute e env req out =
     (let timeout = (if nr_Timeout req \<le> 0 then ne_defaultTimeout e else nr_Timeout req);
          deadline = nx_clock env 0 + timeout;
          walkCmd = walk_command (nx_clock env 1) req;
          out1 = (if SafetyAllow walkCmd then snd (PublishCommand (nx_walk_ok env) walkCmd out) else out);
          navCmd = navigate_command (nx_clock env 2) req
      in if \<not> SafetyAllow navCmd then Some (nav_fail ''safety rejected navigate_to'', out1)
         else let (ok, out2) = PublishCommand (nx_nav_ok env) navCmd out1 in
           if \<not> ok then Some (nav_fail ''publish failed'', out1)
           else if \<not> nx_sub_ok env then Some (nav_fail ''subscribe failed'', out2)
           else map_option (\<lambda>r. (r, out2))
             (nav_loop (ne_arrivalThresholdM e) deadline (nx_inputs env) (nav_zero, False)))"

section \<open>Task executor\<close>

record TaskExecutionResult =
  tr_Handled :: bool
  tr_Success :: bool
  tr_Timeout :: bool
  tr_Cancelled :: bool
  tr_Reason :: string

record navPayload =
  np_TargetCoordinates :: string
  np_StoreName :: string
  np_TargetStore :: string
  np_DestinationNodeID :: string
  np_EstimatedDistance :: real

definition nav_payload_zero :: navPayload where
  "nav_payload_zero = \<lparr>np_TargetCoordinates = [], np_StoreName = [], np_TargetStore = [],
     np_DestinationNodeID = [], np_EstimatedDistance = 0\<rparr>"

definition nav_payload_fields :: "navPayload struct_fields" where
  "nav_payload_fields =
     [(''target_coordinates'', decode_string (\<lambda>v s. s\<lparr>np_TargetCoordinates := v\<rparr>)),
      (''store_name'', decode_string (\<lambda>v s. s\<lparr>np_StoreName := v\<rparr>)),
      (''target_store'', decode_string (\<lambda>v s. s\<lparr>np_TargetStore := v\<rparr>)),
      (''destination_node_id'', decode_string (\<lambda>v s. s\<lparr>np_DestinationNodeID := v\<rparr>)),
      (''estimated_distance'', decode_float (\<lambda>v s. s\<lparr>np_EstimatedDistance := v\<rparr>))]"

definition exec_result :: "NavigationResult \<Rightarrow> TaskExecutionResult" where
  "exec_result r = \<lparr>tr_Handled = True, tr_Success = nv_Success r, tr_Timeout = nv_Timeout r,
     tr_Cancelled = nv_Cancelled r, tr_Reason = nv_Reason r\<rparr>"

definition exec_missing :: TaskExecutionResult where
  "exec_missing = \<lparr>tr_Handled = True, tr_Success = False, tr_Timeout = False, tr_Cancelled = False,
     tr_Reason = ''missing target_coordinates''\<rparr>"

definition executeNavigateToStore ::
  "NavigationExecutor \<Rightarrow> nav_env \<Rightarrow> Task \<Rightarrow> outbox \<Rightarrow> (TaskExecutionResult \<times> outbox) option" where
  "executeNavigateToStore e env task out =
     (let p = unmarshal_lenient nav_payload_fields (k_Payload task) nav_payload_zero in
      if np_TargetCoordinates p = [] then Some (exec_missing, out)
      else let storeName = or_default (np_StoreName p) (np_TargetStore p);
               req = \<lparr>nr_RobotID = k_RobotID task, nr_TaskID = k_ID task,
                      nr_TargetCoords = np_TargetCoordinates p, nr_StoreName = storeName,
                      nr_DestNodeID = np_DestinationNodeID p, nr_OperatorID = k_OperatorID task,
                      nr_IsReturn = False, nr_Timeout = 30 * second\<rparr>
           in map_option (\<lambda>(r, o'). (exec_result r, o')) (nav_Execute e env req out))"

text \<open>The return journey decodes a struct with the one field \<^verbatim>\<open>target_coordinates\<close>.\<close>

definition return_payload_fields :: "navPayload struct_fields" where
  "return_payload_fields =
     [(''target_coordinates'', decode_string (\<lambda>v s. s\<lparr>np_TargetCoordinates := v\<rparr>))]"

definition executeNavigation ::
  "NavigationExecutor \<Rightarrow> nav_env \<Rightarrow> Task \<Rightarrow> outbox \<Rightarrow> (TaskExecutionResult \<times> outbox) option" where
  "executeNavigation e env task out =
     (let p = unmarshal_lenient return_payload_fields (k_Payload task) nav_payload_zero in
      if np_TargetCoordinates p = [] then Some (exec_missing, out)
      else let req = \<lparr>nr_RobotID = k_RobotID task, nr_TaskID = k_ID task,
                      nr_TargetCoords = np_TargetCoordinates p, nr_StoreName = [],
                      nr_DestNodeID = [], nr_OperatorID = k_OperatorID task,
                      nr_IsReturn = True, nr_Timeout = 60 * second\<rparr>
           in map_option (\<lambda>(r, o'). (exec_result r, o')) (nav_Execute e env req out))"

definition executor_ExecuteTask ::
  "NavigationExecutor \<Rightarrow> nav_env \<Rightarrow> Task \<Rightarrow> outbox \<Rightarrow> (TaskExecutionResult \<times> outbox) option" where
  "executor_ExecuteTask e env task out =
     (if k_ScenarioID task = ''navigate_to_store'' then executeNavigateToStore e env task out
      else if k_ScenarioID task = ''navigation'' then executeNavigation e env task out
      else Some (\<lparr>tr_Handled = False, tr_Success = False, tr_Timeout = False, tr_Cancelled = False,
                  tr_Reason = ''unsupported scenario''\<rparr>, out))"

section \<open>What the waiting loop decides\<close>

lemma nav_decided_simps [simp]:
  "\<not> nav_decided nav_zero"
  "nav_decided (nav_zero\<lparr>nv_Success := True\<rparr>)"
  "nav_decided (nav_fail (c # s))"
  by (simp_all add: nav_decided_def nav_zero_def nav_fail_def)

text \<open>A telemetry message that reports arrival.\<close>

definition arrival :: "real \<Rightarrow> Telemetry \<Rightarrow> bool" where
  "arrival threshold t \<longleftrightarrow> tm_Online t
     \<and> (\<exists>d. tm_DistanceToTarget t = Some d \<and> 0 \<le> d \<and> d < threshold)"

text \<open>Success needs a message that reported arrival among the inputs.\<close>

lemma nav_loop_success:
  "nav_loop th dl ins st = Some r \<Longrightarrow> nv_Success r \<Longrightarrow>
     nv_Success (fst st) \<or> (\<exists>t. NavTelemetry t \<in> set ins \<and> arrival th t)"
proof (induction th dl ins st rule: nav_loop.induct)
  case (2 th dl t ins st)
  from 2 have "nv_Success (fst (nav_callback th t st)) \<or> (\<exists>t. NavTelemetry t \<in> set ins \<and> arrival th t)"
    by simp
  moreover have "nv_Success (fst (nav_callback th t st)) \<Longrightarrow> nv_Success (fst st) \<or> arrival th t"
    by (auto simp: nav_callback_def arrival_def nav_fail_def nav_zero_def Let_def
        split: prod.splits if_splits option.splits)
  ultimately show ?case by auto
qed (auto simp: nav_zero_def split: if_splits)

text \<open>The outcomes are exclusive: success carries no reason, a timeout is never a success.\<close>

definition nav_result_wf :: "NavigationResult \<Rightarrow> bool" where
  "nav_result_wf r \<longleftrightarrow> (nv_Success r \<longrightarrow> \<not> nv_Timeout r \<and> \<not> nv_Cancelled r \<and> nv_Reason r = [])
     \<and> \<not> (nv_Timeout r \<and> nv_Cancelled r)"

lemma nav_result_wf_basic [simp]:
  "nav_result_wf nav_zero" "nav_result_wf (nav_fail s)" "nav_result_wf (nav_zero\<lparr>nv_Success := True\<rparr>)"
  "nav_result_wf (nav_zero\<lparr>nv_Timeout := True, nv_Reason := s\<rparr>)"
  "nav_result_wf (nav_zero\<lparr>nv_Cancelled := True, nv_Reason := s\<rparr>)"
  by (simp_all add: nav_result_wf_def nav_zero_def nav_fail_def)

lemma nav_callback_wf: "nav_result_wf (fst st) \<Longrightarrow> nav_result_wf (fst (nav_callback th t st))"
  by (auto simp: nav_callback_def Let_def split: prod.splits option.splits)

lemma nav_loop_wf: "nav_loop th dl ins st = Some r \<Longrightarrow> nav_result_wf (fst st) \<Longrightarrow> nav_result_wf r"
  by (induction th dl ins st rule: nav_loop.induct)
    (auto simp: nav_callback_wf split: if_splits)

text \<open>Once the ticker fires after the deadline, the loop has returned.\<close>

lemma nav_loop_returns:
  "NavTick now \<in> set ins \<Longrightarrow> dl < now \<Longrightarrow> \<exists>r. nav_loop th dl ins st = Some r"
  by (induction th dl ins st rule: nav_loop.induct) auto

lemma nav_callback_quiet:
  "\<not> nav_decided (fst st) \<Longrightarrow> tm_Online t \<Longrightarrow> \<not> arrival th t \<Longrightarrow> nav_callback th t st = st"
  by (auto simp: nav_callback_def arrival_def Let_def split: prod.splits option.splits)

text \<open>An undecided loop that meets no arrival, no offline message and no cancellation times out.\<close>

lemma nav_loop_timeout:
  assumes "\<And>t. NavTelemetry t \<in> set ins \<Longrightarrow> tm_Online t \<and> \<not> arrival th t"
    and "NavCtxDone \<notin> set ins" and "nav_loop th dl ins st = Some r"
    and "\<not> nav_decided (fst st)" and "\<not> snd st"
  shows "nv_Timeout r \<and> nv_Reason r = ''navigation timeout''"
  using assms
proof (induction th dl ins st rule: nav_loop.induct)
  case (2 th dl t ins st)
  then have "nav_callback th t st = st" by (intro nav_callback_quiet) auto
  with 2 show ?case by simp
qed (auto simp: nav_zero_def split: if_splits)

section \<open>Commands that an execution publishes\<close>

lemma navigate_payload_valid:
  "nr_TargetCoords req \<noteq> [] \<Longrightarrow> validateNavigateToPayload (navigate_payload req)"
  by (simp add: validateNavigateToPayload_iff navigate_payload_def navigate_to_fields_def
      navigate_to_zero_def find_field_def EqualFold_def ToLower_def lower_char_def)

lemma SafetyAllow_navigate:
  "nr_TargetCoords req \<noteq> [] \<Longrightarrow> SafetyAllow (navigate_command now req)"
  by (simp add: SafetyAllow_def navigate_command_def navigate_payload_valid)

lemma nav_Execute_out:
  assumes "nav_Execute e env req out = Some (r, out')"
  shows "\<exists>cs. out' = out @ cs \<and> (\<forall>c \<in> set cs. SafetyAllow c \<and> c_RobotID c = nr_RobotID req)"
proof -
  let ?w = "walk_command (nx_clock env 1) req" and ?n = "navigate_command (nx_clock env 2) req"
  have w: "SafetyAllow ?w" "c_RobotID ?w = nr_RobotID req" and n: "c_RobotID ?n = nr_RobotID req"
    by (simp_all add: walk_command_def navigate_command_def)
  have "out' \<in> {out, out @ [?w], out @ [?n], out @ [?w, ?n]} \<and> (SafetyAllow ?n \<or> out' \<in> {out, out @ [?w]})"
    using assms w
    by (auto simp: nav_Execute_def PublishCommand_def Let_def split: if_splits)
  with w n show ?thesis by auto
qed

lemma nav_Execute_wf: "nav_Execute e env req out = Some (r, out') \<Longrightarrow> nav_result_wf r"
  by (auto simp: nav_Execute_def PublishCommand_def Let_def split: if_splits intro: nav_loop_wf)

lemma executor_out:
  assumes "executor_ExecuteTask e env task out = Some (res, out')"
  shows "\<exists>cs. out' = out @ cs \<and> (\<forall>c \<in> set cs. SafetyAllow c \<and> c_RobotID c = k_RobotID task)"
  using assms
  by (auto simp: executor_ExecuteTask_def executeNavigateToStore_def executeNavigation_def Let_def
      split: if_splits dest!: nav_Execute_out)

section \<open>Termination\<close>

text \<open>
  The ticker keeps firing, so that some tick comes after the deadline; then an execution has
  returned. A task's deadline is at most a minute after its start.
\<close>

definition ticks_past :: "nav_env \<Rightarrow> duration \<Rightarrow> bool" where
  "ticks_past env d \<longleftrightarrow> list_ex (\<lambda>i. case i of NavTick now \<Rightarrow> nx_clock env 0 + d < now | _ \<Rightarrow> False) (nx_inputs env)"

lemma ticks_pastE:
  assumes "ticks_past env d"
  obtains now where "NavTick now \<in> set (nx_inputs env)" "nx_clock env 0 + d < now"
proof -
  obtain i where i: "i \<in> set (nx_inputs env)" "case i of NavTick now \<Rightarrow> nx_clock env 0 + d < now | _ \<Rightarrow> False"
    using assms by (auto simp: ticks_past_def list_ex_iff)
  show thesis by (cases i) (use i that in auto)
qed

lemma nav_Execute_returns:
  assumes "ticks_past env d" "0 < nr_Timeout req" "nr_Timeout req \<le> d"
  shows "nav_Execute e env req out \<noteq> None"
proof -
  obtain now where n: "NavTick now \<in> set (nx_inputs env)" "nx_clock env 0 + d < now"
    using assms(1) by (rule ticks_pastE)
  have "nx_clock env 0 + nr_Timeout req < now" using n(2) assms(3) by simp
  then obtain r where "nav_loop (ne_arrivalThresholdM e) (nx_clock env 0 + nr_Timeout req)
      (nx_inputs env) (nav_zero, False) = Some r"
    using nav_loop_returns [OF n(1)] by blast
  then show ?thesis using assms(2) by (simp add: nav_Execute_def Let_def split: prod.split)
qed

lemma executor_returns:
  assumes "ticks_past env (60 * second)"
  shows "executor_ExecuteTask e env task out \<noteq> None"
  using nav_Execute_returns [OF assms]
  by (simp add: executor_ExecuteTask_def executeNavigateToStore_def executeNavigation_def Let_def
      second_def del: not_None_eq)

section \<open>Properties\<close>

text \<open>
  C17. A navigation reports success only after a telemetry message of an online robot within the arrival
  threshold of its target, whatever the interleaving of messages, ticks and cancellations.
\<close>

theorem nav_Execute_success:
  assumes "nav_Execute e env req out = Some (r, out')" "nv_Success r"
  shows "\<exists>t d. NavTelemetry t \<in> set (nx_inputs env) \<and> tm_Online t
    \<and> tm_DistanceToTarget t = Some d \<and> 0 \<le> d \<and> d < ne_arrivalThresholdM e"
proof -
  have "\<exists>dl. nav_loop (ne_arrivalThresholdM e) dl (nx_inputs env) (nav_zero, False) = Some r"
    using assms by (auto simp: nav_Execute_def PublishCommand_def nav_fail_def nav_zero_def Let_def
        split: if_splits)
  with nav_loop_success assms(2) have "\<exists>t. NavTelemetry t \<in> set (nx_inputs env) \<and> arrival (ne_arrivalThresholdM e) t"
    by (fastforce simp: nav_zero_def)
  then show ?thesis by (auto simp: arrival_def)
qed

definition nav_example_telemetry :: "real \<Rightarrow> Telemetry" where
  "nav_example_telemetry d = \<lparr>tm_RobotID = ''r1'', tm_Timestamp = 2, tm_Online = True, tm_ActuatorStatus = ''enabled'',
     tm_MockMode = False, tm_IMU = None, tm_JointStates = [], tm_CurrentTask = [], tm_Position = [],
     tm_TargetPosition = [], tm_DistanceToTarget = Some d\<rparr>"

definition nav_example_env :: "nav_input list \<Rightarrow> nav_env" where
  "nav_example_env ins = \<lparr>nx_clock = (\<lambda>n. 1), nx_walk_ok = True, nx_nav_ok = True, nx_sub_ok = True, nx_inputs = ins\<rparr>"

definition nav_example_req :: NavigationRequest where
  "nav_example_req = \<lparr>nr_RobotID = ''r1'', nr_TaskID = ''t1'', nr_TargetCoords = ''4,2'', nr_StoreName = ''Nike'',
     nr_DestNodeID = [], nr_OperatorID = ''console'', nr_IsReturn = False, nr_Timeout = 30 * second\<rparr>"

lemmas nav_example_defs = nav_example_telemetry_def nav_example_env_def nav_example_req_def

lemma nav_example_run:
  assumes "nav_loop 1 (1 + 30 * second) ins (nav_zero, False) = Some r"
  shows "\<exists>out. nav_Execute (NewNavigationExecutor 1 0) (nav_example_env ins) nav_example_req [] = Some (r, out)"
  using assms SafetyAllow_navigate [of nav_example_req] marshal_ok_def
  by (auto simp: nav_Execute_def nav_example_env_def nav_example_req_def NewNavigationExecutor_def
      PublishCommand_def marshal_ok_def navigate_command_def walk_command_def navigate_payload_def Let_def second_def)

theorem nav_Execute_success_witness:
  "\<exists>t d. NavTelemetry t \<in> {NavTelemetry (nav_example_telemetry 5), NavTelemetry (nav_example_telemetry (1 / 2)), NavDone}
    \<and> tm_Online t \<and> tm_DistanceToTarget t = Some d \<and> 0 \<le> d \<and> d < 1"
proof -
  let ?ins = "[NavTelemetry (nav_example_telemetry 5), NavTelemetry (nav_example_telemetry (1 / 2)), NavDone]"
  have "nav_loop 1 (1 + 30 * second) ?ins (nav_zero, False) = Some (nav_zero\<lparr>nv_Success := True\<rparr>)"
    by (simp add: nav_callback_def nav_example_telemetry_def)
  from nav_example_run [OF this] obtain out where "nav_Execute (NewNavigationExecutor 1 0)
      (nav_example_env ?ins) nav_example_req [] = Some (nav_zero\<lparr>nv_Success := True\<rparr>, out)" by blast
  from nav_Execute_success [OF this] show ?thesis
    by (auto simp: NewNavigationExecutor_def nav_example_env_def)
qed

text \<open>
  C18. A navigation with a positive timeout returns when the ticker fires after its deadline, whatever else happens. Its result is a timeout, and not a success,
  if moreover the command was published and the telemetry subscribed to, the request names target coordinates, the context is not done,
  and every telemetry message finds the robot online and not arrived.
\<close>

theorem nav_Execute_timeout:
  assumes "ticks_past env (nr_Timeout req)" "0 < nr_Timeout req"
  shows "\<exists>r out'. nav_Execute e env req out = Some (r, out') \<and> nav_result_wf r
    \<and> ((nx_nav_ok env \<and> nx_sub_ok env \<and> nr_TargetCoords req \<noteq> [] \<and> NavCtxDone \<notin> set (nx_inputs env)
        \<and> list_all (\<lambda>i. case i of NavTelemetry t \<Rightarrow> tm_Online t \<and> \<not> arrival (ne_arrivalThresholdM e) t | _ \<Rightarrow> True)
            (nx_inputs env))
       \<longrightarrow> nv_Timeout r \<and> \<not> nv_Success r)"
proof -
  obtain r out' where r: "nav_Execute e env req out = Some (r, out')"
    using nav_Execute_returns [OF assms order.refl] by fastforce
  have wf: "nav_result_wf r" using nav_Execute_wf [OF r] .
  have "nv_Timeout r" if ok: "nx_nav_ok env" "nx_sub_ok env" "nr_TargetCoords req \<noteq> []"
    and c: "NavCtxDone \<notin> set (nx_inputs env)"
    and q: "list_all (\<lambda>i. case i of NavTelemetry t \<Rightarrow> tm_Online t \<and> \<not> arrival (ne_arrivalThresholdM e) t | _ \<Rightarrow> True) (nx_inputs env)"
  proof -
    have "marshal_ok (navigate_command now req)" for now
      by (simp add: marshal_ok_def navigate_command_def navigate_payload_def)
    then have l: "nav_loop (ne_arrivalThresholdM e) (nx_clock env 0 + nr_Timeout req) (nx_inputs env) (nav_zero, False) = Some r"
      using r ok assms(2) by (auto simp: nav_Execute_def PublishCommand_def SafetyAllow_navigate Let_def split: if_splits)
    have "tm_Online t \<and> \<not> arrival (ne_arrivalThresholdM e) t" if "NavTelemetry t \<in> set (nx_inputs env)" for t
      using q that by (fastforce simp: list_all_iff)
    from nav_loop_timeout [OF this c l] show ?thesis by simp
  qed
  with wf have "nx_nav_ok env \<and> nx_sub_ok env \<and> nr_TargetCoords req \<noteq> [] \<and> NavCtxDone \<notin> set (nx_inputs env)
      \<and> list_all (\<lambda>i. case i of NavTelemetry t \<Rightarrow> tm_Online t \<and> \<not> arrival (ne_arrivalThresholdM e) t | _ \<Rightarrow> True) (nx_inputs env)
      \<longrightarrow> nv_Timeout r \<and> \<not> nv_Success r" by (auto simp: nav_result_wf_def)
  with r wf show ?thesis by blast
qed

theorem nav_Execute_timeout_witness:
  "\<exists>r out'. nav_Execute (NewNavigationExecutor 1 0)
     (nav_example_env [NavTelemetry (nav_example_telemetry 5), NavTick (2 + 30 * second)]) nav_example_req [] = Some (r, out')
     \<and> nv_Timeout r \<and> \<not> nv_Success r"
proof -
  let ?env = "nav_example_env [NavTelemetry (nav_example_telemetry 5), NavTick (2 + 30 * second)]"
  have "ticks_past ?env (nr_Timeout nav_example_req)" "0 < nr_Timeout nav_example_req"
    by (simp_all add: ticks_past_def nav_example_env_def nav_example_req_def second_def)
  from nav_Execute_timeout [OF this, of "NewNavigationExecutor 1 0" "[]"] show ?thesis
    by (auto simp: nav_example_env_def nav_example_req_def nav_example_telemetry_def arrival_def NewNavigationExecutor_def)
qed

end
