(* ===== verification/Robot_State.thy ===== *)
theory Robot_State
  imports Prelude
begin

text \<open>
  The operational state of a robot, \<^verbatim>\<open>internal/robot/state_machine.go\<close> and \<^verbatim>\<open>state_manager.go\<close>:
  the states, the permitted transitions, and the manager that keeps one context per robot and
  applies a transition only when it is permitted.
\<close>

datatype RobotState =
    StateIdle | StateGreetingVisitor | StateProcessingRequest | StatePlanningRoute
  | StateNavigating | StateArrived | StateReturning | StateError

fun state_string :: "RobotState \<Rightarrow> string" where
  "state_string StateIdle = ''IDLE''"
| "state_string StateGreetingVisitor = ''GREETING_VISITOR''"
| "state_string StateProcessingRequest = ''PROCESSING_REQUEST''"
| "state_string StatePlanningRoute = ''PLANNING_ROUTE''"
| "state_string StateNavigating = ''NAVIGATING_TO_STORE''"
| "state_string StateArrived = ''ARRIVED_AT_DESTINATION''"
| "state_string StateReturning = ''RETURNING_TO_BASE''"
| "state_string StateError = ''ERROR_STATE''"

record RobotContext =
  rc_RobotID :: string
  rc_CurrentState :: RobotState
  rc_PreviousState :: RobotState
  rc_CurrentTaskID :: string
  rc_TargetStore :: string
  rc_DestinationNode :: string
  rc_TargetCoords :: string
  rc_StatusMessage :: string
  rc_UpdatedAt :: time

definition CanTransition :: "RobotState \<Rightarrow> RobotState \<Rightarrow> bool" where
  "CanTransition fromState toState =
     (if toState = StateError then True
      else case fromState of
        StateIdle \<Rightarrow> toState = StateGreetingVisitor \<or> toState = StateNavigating \<or> toState = StateReturning
      | StateGreetingVisitor \<Rightarrow> toState = StateProcessingRequest
      | StateProcessingRequest \<Rightarrow> toState = StatePlanningRoute
      | StatePlanningRoute \<Rightarrow> toState = StateNavigating
      | StateNavigating \<Rightarrow> toState = StateArrived \<or> toState = StateIdle
      | StateArrived \<Rightarrow> toState = StateReturning \<or> toState = StateIdle
      | StateReturning \<Rightarrow> toState = StateIdle
      | StateError \<Rightarrow> toState = StateReturning \<or> toState = StateIdle)"

definition IsExecutionState :: "RobotState \<Rightarrow> bool" where
  "IsExecutionState s = (case s of
     StateIdle \<Rightarrow> True | StateNavigating \<Rightarrow> True | StateArrived \<Rightarrow> True | StateReturning \<Rightarrow> True
   | StateError \<Rightarrow> True | _ \<Rightarrow> False)"

type_synonym state_manager = "RobotContext gomap"

definition sm_NewStateManager :: state_manager where
  "sm_NewStateManager = Map.empty"

definition sm_Get :: "state_manager \<Rightarrow> string \<Rightarrow> RobotContext option" where
  "sm_Get m robotID = m robotID"

text \<open>\<^verbatim>\<open>Set\<close> takes a pointer and does nothing for \<^verbatim>\<open>nil\<close>.\<close>

definition sm_Set :: "time \<Rightarrow> RobotContext option \<Rightarrow> state_manager \<Rightarrow> state_manager" where
  "sm_Set now ctx m =
     (case ctx of None \<Rightarrow> m | Some c \<Rightarrow> m(rc_RobotID c \<mapsto> c\<lparr>rc_UpdatedAt := now\<rparr>))"

text \<open>
  A first transition of an unknown robot creates its context, in the idle state, even when the
  transition itself is then refused.
\<close>

definition sm_Transition ::
  "time \<Rightarrow> string \<Rightarrow> RobotState \<Rightarrow> string \<Rightarrow> string \<Rightarrow> string \<Rightarrow> string \<Rightarrow> string
   \<Rightarrow> state_manager \<Rightarrow> bool \<times> state_manager" where
  "sm_Transition now robotID toState taskID targetStore destNode targetCoords statusMsg m =
     (let (ctx, m1) = (case m robotID of
          Some c \<Rightarrow> (c, m)
        | None \<Rightarrow>
            (let c = \<lparr>rc_RobotID = robotID, rc_CurrentState = StateIdle,
                      rc_PreviousState = StateIdle, rc_CurrentTaskID = taskID,
                      rc_TargetStore = targetStore, rc_DestinationNode = destNode,
                      rc_TargetCoords = targetCoords, rc_StatusMessage = statusMsg,
                      rc_UpdatedAt = now\<rparr>
             in (c, m(robotID \<mapsto> c))))
      in if \<not> CanTransition (rc_CurrentState ctx) toState then (False, m1)
         else (True, m1(robotID \<mapsto>
           ctx\<lparr>rc_PreviousState := rc_CurrentState ctx, rc_CurrentState := toState,
               rc_CurrentTaskID := taskID, rc_TargetStore := targetStore,
               rc_DestinationNode := destNode, rc_TargetCoords := targetCoords,
               rc_StatusMessage := statusMsg, rc_UpdatedAt := now\<rparr>)))"

definition sm_GetOrCreate :: "time \<Rightarrow> string \<Rightarrow> state_manager \<Rightarrow> RobotContext \<times> state_manager" where
  "sm_GetOrCreate now robotID m =
     (case m robotID of
        Some c \<Rightarrow> (c, m)
      | None \<Rightarrow>
          (let c = \<lparr>rc_RobotID = robotID, rc_CurrentState = StateIdle,
                    rc_PreviousState = StateIdle, rc_CurrentTaskID = [], rc_TargetStore = [],
                    rc_DestinationNode = [], rc_TargetCoords = [], rc_StatusMessage = [],
                    rc_UpdatedAt = now\<rparr>
           in (c, m(robotID \<mapsto> c))))"

definition sm_List :: "string list \<Rightarrow> state_manager \<Rightarrow> RobotContext list" where
  "sm_List ks m = go_values m ks"

section \<open>The abstract state machine\<close>

text \<open>What the manager shows of a robot: its state, idle when it is unknown.\<close>

definition abs_state :: "state_manager \<Rightarrow> string \<Rightarrow> RobotState" where
  "abs_state m r = (case m r of None \<Rightarrow> StateIdle | Some c \<Rightarrow> rc_CurrentState c)"

text \<open>A step of the abstract machine: one robot moves along a permitted edge.\<close>

inductive sm_step :: "(string \<Rightarrow> RobotState) \<Rightarrow> (string \<Rightarrow> RobotState) \<Rightarrow> bool" where
  move: "CanTransition (f r) t \<Longrightarrow> sm_step f (f(r := t))"

inductive_cases sm_stepE: "sm_step f g"

lemma sm_Transition_fst:
  "fst (sm_Transition now r t tid ts dn tc msg m) \<longleftrightarrow> CanTransition (abs_state m r) t"
  by (simp add: sm_Transition_def abs_state_def Let_def split: option.split)

lemma sm_Transition_abs:
  "abs_state (snd (sm_Transition now r t tid ts dn tc msg m)) =
     (if CanTransition (abs_state m r) t then (abs_state m)(r := t) else abs_state m)"
  by (rule ext) (auto simp: sm_Transition_def abs_state_def Let_def split: option.splits)

lemma sm_GetOrCreate_abs: "abs_state (snd (sm_GetOrCreate now r m)) = abs_state m"
  by (rule ext) (auto simp: sm_GetOrCreate_def abs_state_def Let_def split: option.splits)

lemma sm_Transition_other:
  "r' \<noteq> r \<Longrightarrow> snd (sm_Transition now r t tid ts dn tc msg m) r' = m r'"
  by (auto simp: sm_Transition_def Let_def split: option.splits)

text \<open>The calls of a client, and the managers it can bring about from an empty one.\<close>

inductive sm_reachable :: "state_manager \<Rightarrow> bool" where
  new: "sm_reachable sm_NewStateManager"
| transition: "sm_reachable m \<Longrightarrow> sm_reachable (snd (sm_Transition now r t tid ts dn tc msg m))"
| get_or_create: "sm_reachable m \<Longrightarrow> sm_reachable (snd (sm_GetOrCreate now r m))"

text \<open>Every recorded step is a permitted one, and a context is filed under its own robot.\<close>

definition ctx_wf :: "string \<Rightarrow> RobotContext \<Rightarrow> bool" where
  "ctx_wf r c \<longleftrightarrow> rc_RobotID c = r
     \<and> (rc_PreviousState c = StateIdle \<and> rc_CurrentState c = StateIdle
        \<or> CanTransition (rc_PreviousState c) (rc_CurrentState c))"

definition sm_wf :: "state_manager \<Rightarrow> bool" where
  "sm_wf m \<longleftrightarrow> (\<forall>r c. m r = Some c \<longrightarrow> ctx_wf r c)"

lemma sm_wf_Transition:
  assumes "sm_wf m" shows "sm_wf (snd (sm_Transition now r t tid ts dn tc msg m))"
proof (cases "m r")
  case None
  with assms show ?thesis by (auto simp: sm_Transition_def sm_wf_def ctx_wf_def Let_def)
next
  case (Some c)
  with assms have "ctx_wf r c" by (simp add: sm_wf_def)
  with assms Some show ?thesis by (auto simp: sm_Transition_def sm_wf_def ctx_wf_def Let_def)
qed

lemma sm_wf_GetOrCreate: "sm_wf m \<Longrightarrow> sm_wf (snd (sm_GetOrCreate now r m))"
  by (auto simp: sm_GetOrCreate_def sm_wf_def ctx_wf_def Let_def split: option.splits)

lemma sm_reachable_wf: "sm_reachable m \<Longrightarrow> sm_wf m"
proof (induction rule: sm_reachable.induct)
  case new
  show ?case by (simp add: sm_wf_def sm_NewStateManager_def)
qed (simp_all add: sm_wf_Transition sm_wf_GetOrCreate)

lemma sm_Transition_step:
  assumes "sm_Transition now r t tid ts dn tc msg m = (b, m')"
  shows "(b \<and> sm_step (abs_state m) (abs_state m')) \<or> (\<not> b \<and> abs_state m' = abs_state m)"
proof -
  have b: "b \<longleftrightarrow> CanTransition (abs_state m r) t"
    using sm_Transition_fst [of now r t tid ts dn tc msg m] assms by simp
  have m': "abs_state m' = (if CanTransition (abs_state m r) t then (abs_state m)(r := t) else abs_state m)"
    using sm_Transition_abs [of now r t tid ts dn tc msg m] assms by simp
  from b m' show ?thesis by (auto intro: sm_step.move)
qed

text \<open>Facts about the graph of states that the engine relies on.\<close>

lemma CanTransition_error [simp]: "CanTransition s StateError"
  by (simp add: CanTransition_def)

lemma CanTransition_to_navigating: "CanTransition s StateNavigating \<longleftrightarrow> s = StateIdle \<or> s = StatePlanningRoute"
  by (cases s) (auto simp: CanTransition_def)

lemma CanTransition_to_arrived: "CanTransition s StateArrived \<longleftrightarrow> s = StateNavigating"
  by (cases s) (auto simp: CanTransition_def)

lemma CanTransition_to_returning:
  "CanTransition s StateReturning \<longleftrightarrow> s = StateIdle \<or> s = StateArrived \<or> s = StateError"
  by (cases s) (auto simp: CanTransition_def)

lemma CanTransition_to_idle:
  "CanTransition s StateIdle \<longleftrightarrow> s \<in> {StateNavigating, StateArrived, StateReturning, StateError}"
  by (cases s) (auto simp: CanTransition_def)

lemmas CanTransition_to = CanTransition_to_navigating CanTransition_to_arrived
  CanTransition_to_returning CanTransition_to_idle

section \<open>Properties\<close>

text \<open>
  The manager refines the abstract state machine: a transition is accepted exactly along an edge of the
  graph of states, it then moves that one robot along the edge, and a refused call changes no robot's state.
\<close>

theorem sm_Transition_refines:
  "fst (sm_Transition now r t tid ts dn tc msg m) = CanTransition (abs_state m r) t
   \<and> (if CanTransition (abs_state m r) t
      then sm_step (abs_state m) (abs_state (snd (sm_Transition now r t tid ts dn tc msg m)))
        \<and> abs_state (snd (sm_Transition now r t tid ts dn tc msg m)) = (abs_state m)(r := t)
      else abs_state (snd (sm_Transition now r t tid ts dn tc msg m)) = abs_state m)"
  using sm_Transition_step [of now r t tid ts dn tc msg m]
  by (auto simp: sm_Transition_fst sm_Transition_abs intro: sm_step.move)

text \<open>
  In every manager that calls can bring about, each context is filed under its own robot, and the
  previous and the current state it records are joined by an edge of the graph (or both are idle).
\<close>

theorem sm_reachable_contexts:
  assumes "sm_reachable m" "m r = Some c"
  shows "rc_RobotID c = r \<and> (rc_PreviousState c = StateIdle \<and> rc_CurrentState c = StateIdle
    \<or> CanTransition (rc_PreviousState c) (rc_CurrentState c))"
  using sm_reachable_wf [OF assms(1)] assms(2) by (simp add: sm_wf_def ctx_wf_def)

theorem sm_reachable_contexts_witness:
  "\<exists>c. snd (sm_Transition 1 ''r1'' StateNavigating ''t1'' [] [] [] [] sm_NewStateManager) ''r1'' = Some c
    \<and> rc_RobotID c = ''r1'' \<and> CanTransition (rc_PreviousState c) (rc_CurrentState c)"
proof -
  let ?m = "snd (sm_Transition 1 ''r1'' StateNavigating ''t1'' [] [] [] [] sm_NewStateManager)"
  obtain c where c: "?m ''r1'' = Some c" "rc_CurrentState c = StateNavigating"
    by (simp add: sm_Transition_def sm_NewStateManager_def CanTransition_def Let_def)
  have "sm_reachable ?m" by (intro sm_reachable.intros)
  from sm_reachable_contexts [OF this c(1)] c show ?thesis by auto
qed

text \<open>States from which a state can be reached by accepted transitions.\<close>

inductive state_path :: "RobotState \<Rightarrow> RobotState \<Rightarrow> bool" where
  path_refl: "state_path s s"
| path_step: "CanTransition s t \<Longrightarrow> state_path t u \<Longrightarrow> state_path s u"

text \<open>
  No state is a dead end: from every state some accepted transitions lead back to idle, and from idle
  every state can be reached.
\<close>

theorem state_path_idle: "state_path s StateIdle \<and> state_path StateIdle s"
proof
  have err: "state_path StateError StateIdle" by (rule path_step [OF _ path_refl]) (simp add: CanTransition_to)
  show "state_path s StateIdle" by (rule path_step [OF CanTransition_error err])
  have g: "CanTransition StateIdle StateGreetingVisitor" "CanTransition StateGreetingVisitor StateProcessingRequest"
    "CanTransition StateProcessingRequest StatePlanningRoute" "CanTransition StateIdle StateNavigating"
    "CanTransition StateNavigating StateArrived" "CanTransition StateIdle StateReturning"
    by (simp_all add: CanTransition_def)
  show "state_path StateIdle s"
    by (cases s) (meson g CanTransition_error state_path.intros)+
qed

end
