(* ===== verification/Robot_Engine.thy ===== *)
theory Robot_Engine
  imports Navigation Robot_State
begin

text \<open>
  The Robot Execution Engine, \<^verbatim>\<open>internal/robot/execution_engine.go\<close> and \<^verbatim>\<open>events.go\<close>: it moves the
  robot's state, runs the navigation, announces the outcome, and writes the task's final status.
  While the navigation runs, other goroutines may write the task store; what they do is the
  argument \<open>interfere\<close>.
\<close>

section \<open>Events\<close>

datatype event_value = EvStr string | EvFloat real | EvTime time

type_synonym event_data = "(string \<times> event_value) list"
type_synonym lifecycle_event = "string \<times> event_data"

definition StateChangedPayload :: "time \<Rightarrow> string \<Rightarrow> RobotState \<Rightarrow> RobotState \<Rightarrow> string \<Rightarrow> event_data" where
  "StateChangedPayload now robotID state previousState taskID =
     [(''robot_id'', EvStr robotID), (''state'', EvStr (state_string state)),
      (''previous_state'', EvStr (state_string previousState)), (''task_id'', EvStr taskID),
      (''timestamp'', EvTime now)]"

definition NavigationStartedPayload :: "time \<Rightarrow> string \<Rightarrow> string \<Rightarrow> string \<Rightarrow> string \<Rightarrow> event_data" where
  "NavigationStartedPayload now robotID taskID destination targetStore =
     [(''robot_id'', EvStr robotID), (''task_id'', EvStr taskID),
      (''destination'', EvStr destination), (''target_store'', EvStr targetStore),
      (''timestamp'', EvTime now)]"

definition NavigationProgressPayload :: "time \<Rightarrow> string \<Rightarrow> string \<Rightarrow> real \<Rightarrow> event_data" where
  "NavigationProgressPayload now robotID taskID distanceRemaining =
     [(''robot_id'', EvStr robotID), (''task_id'', EvStr taskID),
      (''distance_remaining'', EvFloat distanceRemaining), (''timestamp'', EvTime now)]"

definition NavigationCompletedPayload :: "time \<Rightarrow> string \<Rightarrow> string \<Rightarrow> string \<Rightarrow> event_data" where
  "NavigationCompletedPayload now robotID taskID destination =
     [(''robot_id'', EvStr robotID), (''task_id'', EvStr taskID),
      (''destination'', EvStr destination), (''timestamp'', EvTime now)]"

definition NavigationFailedPayload :: "time \<Rightarrow> string \<Rightarrow> string \<Rightarrow> string \<Rightarrow> event_data" where
  "NavigationFailedPayload now robotID taskID reason =
     [(''robot_id'', EvStr robotID), (''task_id'', EvStr taskID), (''reason'', EvStr reason),
      (''timestamp'', EvTime now)]"

definition RobotReturningToBasePayload :: "time \<Rightarrow> string \<Rightarrow> string \<Rightarrow> event_data" where
  "RobotReturningToBasePayload now robotID taskID =
     [(''robot_id'', EvStr robotID), (''task_id'', EvStr taskID), (''timestamp'', EvTime now)]"

definition RobotIdlePayload :: "time \<Rightarrow> string \<Rightarrow> event_data" where
  "RobotIdlePayload now robotID = [(''robot_id'', EvStr robotID), (''timestamp'', EvTime now)]"

section \<open>The engine\<close>

text \<open>Which optional collaborators are configured, and the treatment of timeouts.\<close>

record EngineConfig =
  ec_broadcaster :: bool
  ec_taskStore :: bool
  ec_onTaskCompleted :: bool
  ec_timeoutAsCompletion :: bool
  ec_nav :: NavigationExecutor

record engine_state =
  en_ctxs :: state_manager
  en_bus :: outbox
  en_events :: "lifecycle_event list"
  en_completed :: "(string \<times> string \<times> string) list"
  en_tasks :: task_store

text \<open>One value of the clock serves for the instants within one stretch of code.\<close>

definition engine_broadcast :: "EngineConfig \<Rightarrow> string \<Rightarrow> event_data \<Rightarrow> engine_state \<Rightarrow> engine_state" where
  "engine_broadcast cfg eventType data st =
     (if ec_broadcaster cfg then st\<lparr>en_events := en_events st @ [(eventType, data)]\<rparr> else st)"

definition engine_emitTaskCompleted ::
  "EngineConfig \<Rightarrow> string \<Rightarrow> string \<Rightarrow> string \<Rightarrow> engine_state \<Rightarrow> engine_state" where
  "engine_emitTaskCompleted cfg taskID robotID status st =
     (if ec_onTaskCompleted cfg
      then st\<lparr>en_completed := en_completed st @ [(taskID, robotID, status)]\<rparr> else st)"

definition safe_stop_command :: "time \<Rightarrow> string \<Rightarrow> string \<Rightarrow> Command" where
  "safe_stop_command now robotID operatorID =
     \<lparr>c_RobotID = robotID, c_Command = ''safe_stop'', c_Payload = RawEmpty, c_Timestamp = now,
      c_OperatorID = operatorID\<rparr>"

definition engine_sendSafeStop :: "bool \<Rightarrow> time \<Rightarrow> string \<Rightarrow> string \<Rightarrow> engine_state \<Rightarrow> engine_state" where
  "engine_sendSafeStop nats_ok now robotID operatorID st =
     (let cmd = safe_stop_command now robotID operatorID in
      if SafetyAllow cmd then st\<lparr>en_bus := snd (PublishCommand nats_ok cmd (en_bus st))\<rparr> else st)"

definition engine_transition ::
  "time \<Rightarrow> string \<Rightarrow> RobotState \<Rightarrow> string \<Rightarrow> string \<Rightarrow> string \<Rightarrow> string \<Rightarrow> string \<Rightarrow> engine_state \<Rightarrow> engine_state" where
  "engine_transition now robotID toState taskID targetStore destNode targetCoords msg st =
     st\<lparr>en_ctxs := snd (sm_Transition now robotID toState taskID targetStore destNode targetCoords msg
          (en_ctxs st))\<rparr>"

definition engine_finish :: "EngineConfig \<Rightarrow> time \<Rightarrow> string \<Rightarrow> Status \<Rightarrow> engine_state \<Rightarrow> engine_state" where
  "engine_finish cfg now taskID status st =
     (if ec_taskStore cfg
      then st\<lparr>en_tasks := tasks_UpdateStatusAndCompletedAt now taskID status now (en_tasks st)\<rparr> else st)"

definition engine_success :: "EngineConfig \<Rightarrow> TaskExecutionResult \<Rightarrow> bool" where
  "engine_success cfg result \<longleftrightarrow> tr_Success result \<or> (tr_Timeout result \<and> ec_timeoutAsCompletion cfg)"

definition fail_status :: "TaskExecutionResult \<Rightarrow> Status" where
  "fail_status result = (if tr_Cancelled result then StatusCancelled else StatusFailed)"

definition handleNavigateToStoreResult ::
  "EngineConfig \<Rightarrow> time \<Rightarrow> bool \<Rightarrow> string \<Rightarrow> string \<Rightarrow> string \<Rightarrow> string \<Rightarrow> TaskExecutionResult
   \<Rightarrow> engine_state \<Rightarrow> engine_state" where
  "handleNavigateToStoreResult cfg now stop_ok robotID taskID targetStore dest result st =
     (if engine_success cfg result
      then (let st1 = engine_transition now robotID StateArrived taskID targetStore [] dest ''arrived'' st;
                st2 = engine_broadcast cfg ''robot_state_changed''
                        (StateChangedPayload now robotID StateArrived StateNavigating taskID) st1;
                st3 = engine_broadcast cfg ''navigation_completed''
                        (NavigationCompletedPayload now robotID taskID dest) st2;
                st4 = engine_emitTaskCompleted cfg taskID robotID (status_string StatusCompleted) st3
            in engine_finish cfg now taskID StatusCompleted st4)
      else (let st1 = engine_transition now robotID StateError taskID targetStore [] dest (tr_Reason result) st;
                st2 = engine_broadcast cfg ''robot_state_changed''
                        (StateChangedPayload now robotID StateError StateNavigating taskID) st1;
                st3 = engine_broadcast cfg ''navigation_failed''
                        (NavigationFailedPayload now robotID taskID (tr_Reason result)) st2;
                st4 = engine_sendSafeStop stop_ok now robotID [] st3;
                status = fail_status result;
                st5 = engine_emitTaskCompleted cfg taskID robotID (status_string status) st4
            in engine_finish cfg now taskID status st5))"

definition handleNavigationResult ::
  "EngineConfig \<Rightarrow> time \<Rightarrow> bool \<Rightarrow> string \<Rightarrow> string \<Rightarrow> TaskExecutionResult \<Rightarrow> engine_state \<Rightarrow> engine_state" where
  "handleNavigationResult cfg now stop_ok robotID taskID result st =
     (if engine_success cfg result
      then (let st1 = engine_transition now robotID StateIdle taskID [] [] [] ''idle'' st;
                st2 = engine_broadcast cfg ''robot_state_changed''
                        (StateChangedPayload now robotID StateIdle StateReturning taskID) st1;
                st3 = engine_broadcast cfg ''robot_idle'' (RobotIdlePayload now robotID) st2;
                st4 = engine_emitTaskCompleted cfg taskID robotID (status_string StatusCompleted) st3
            in engine_finish cfg now taskID StatusCompleted st4)
      else (let st1 = engine_transition now robotID StateError taskID [] [] [] (tr_Reason result) st;
                st2 = engine_broadcast cfg ''robot_state_changed''
                        (StateChangedPayload now robotID StateError StateReturning taskID) st1;
                st3 = engine_broadcast cfg ''navigation_failed''
                        (NavigationFailedPayload now robotID taskID (tr_Reason result)) st2;
                st4 = engine_sendSafeStop stop_ok now robotID [] st3;
                status = fail_status result;
                st5 = engine_emitTaskCompleted cfg taskID robotID (status_string status) st4
            in engine_finish cfg now taskID status st5))"

text \<open>What the engine meets while it runs one task.\<close>

record engine_env =
  ee_nav :: nav_env
  ee_start :: time
  ee_end :: time
  ee_stop_ok :: bool
  ee_interfere :: "task_store \<Rightarrow> task_store"

definition engine_payload_fields :: "navPayload struct_fields" where
  "engine_payload_fields =
     [(''target_coordinates'', decode_string (\<lambda>v s. s\<lparr>np_TargetCoordinates := v\<rparr>)),
      (''store_name'', decode_string (\<lambda>v s. s\<lparr>np_StoreName := v\<rparr>)),
      (''target_store'', decode_string (\<lambda>v s. s\<lparr>np_TargetStore := v\<rparr>)),
      (''destination_node_id'', decode_string (\<lambda>v s. s\<lparr>np_DestinationNodeID := v\<rparr>))]"

text \<open>Blocking call of the task executor; \<open>None\<close> while the navigation has not returned.\<close>

definition engine_run ::
  "EngineConfig \<Rightarrow> engine_env \<Rightarrow> Task \<Rightarrow> engine_state \<Rightarrow> (TaskExecutionResult \<times> engine_state) option" where
  "engine_run cfg env task st =
     map_option (\<lambda>(res, out). (res, st\<lparr>en_bus := out, en_tasks := ee_interfere env (en_tasks st)\<rparr>))
       (executor_ExecuteTask (ec_nav cfg) (ee_nav env) task (en_bus st))"

definition store_payload :: "Task \<Rightarrow> navPayload" where
  "store_payload task = unmarshal_lenient engine_payload_fields (k_Payload task) nav_payload_zero"

definition target_store :: "Task \<Rightarrow> string" where
  "target_store task = or_default (np_StoreName (store_payload task)) (np_TargetStore (store_payload task))"

definition store_start :: "EngineConfig \<Rightarrow> time \<Rightarrow> Task \<Rightarrow> engine_state \<Rightarrow> engine_state" where
  "store_start cfg now task st =
     (let p = store_payload task;
          st1 = engine_transition now (k_RobotID task) StateNavigating (k_ID task) (target_store task)
                  (np_DestinationNodeID p) (np_TargetCoordinates p) ''navigating'' st;
          st2 = engine_broadcast cfg ''robot_state_changed''
                  (StateChangedPayload now (k_RobotID task) StateNavigating StateIdle (k_ID task)) st1
      in engine_broadcast cfg ''navigation_started''
           (NavigationStartedPayload now (k_RobotID task) (k_ID task) (np_TargetCoordinates p)
              (target_store task)) st2)"

definition ExecuteNavigateToStore ::
  "EngineConfig \<Rightarrow> engine_env \<Rightarrow> Task \<Rightarrow> engine_state \<Rightarrow> (bool \<times> engine_state) option" where
  "ExecuteNavigateToStore cfg env task st =
     (case engine_run cfg env task (store_start cfg (ee_start env) task st) of
        None \<Rightarrow> None
      | Some (result, st1) \<Rightarrow>
          if \<not> tr_Handled result then Some (False, st1)
          else Some (True, handleNavigateToStoreResult cfg (ee_end env) (ee_stop_ok env)
                 (k_RobotID task) (k_ID task) (target_store task)
                 (np_TargetCoordinates (store_payload task)) result st1))"

definition return_start :: "EngineConfig \<Rightarrow> time \<Rightarrow> Task \<Rightarrow> engine_state \<Rightarrow> engine_state" where
  "return_start cfg now task st =
     (let st1 = engine_transition now (k_RobotID task) StateReturning (k_ID task) [] [] []
                  ''returning to base'' st;
          st2 = engine_broadcast cfg ''robot_state_changed''
                  (StateChangedPayload now (k_RobotID task) StateReturning StateArrived (k_ID task)) st1
      in engine_broadcast cfg ''robot_returning_to_base''
           (RobotReturningToBasePayload now (k_RobotID task) (k_ID task)) st2)"

definition ExecuteReturnToBase ::
  "EngineConfig \<Rightarrow> engine_env \<Rightarrow> Task \<Rightarrow> engine_state \<Rightarrow> (bool \<times> engine_state) option" where
  "ExecuteReturnToBase cfg env task st =
     (case engine_run cfg env task (return_start cfg (ee_start env) task st) of
        None \<Rightarrow> None
      | Some (result, st1) \<Rightarrow>
          if \<not> tr_Handled result then Some (False, st1)
          else Some (True, handleNavigationResult cfg (ee_end env) (ee_stop_ok env)
                 (k_RobotID task) (k_ID task) result st1))"

definition ExecuteTaskEntry ::
  "EngineConfig \<Rightarrow> engine_env \<Rightarrow> Task \<Rightarrow> engine_state \<Rightarrow> (bool \<times> engine_state) option" where
  "ExecuteTaskEntry cfg env task st =
     (if k_ScenarioID task = ''navigate_to_store'' then ExecuteNavigateToStore cfg env task st
      else if k_ScenarioID task = ''navigation'' then ExecuteReturnToBase cfg env task st
      else Some (False, st))"

text \<open>The older entry point, which neither moves the state nor announces the start.\<close>

definition engine_ExecuteTask ::
  "EngineConfig \<Rightarrow> engine_env \<Rightarrow> Task \<Rightarrow> engine_state \<Rightarrow> (bool \<times> engine_state) option" where
  "engine_ExecuteTask cfg env task st =
     (case engine_run cfg env task st of
        None \<Rightarrow> None
      | Some (result, st1) \<Rightarrow>
          if \<not> tr_Handled result then Some (False, st1)
          else let targetStore = target_store task; dest = np_TargetCoordinates (store_payload task)
               in if k_ScenarioID task = ''navigate_to_store''
                  then Some (True, handleNavigateToStoreResult cfg (ee_end env) (ee_stop_ok env)
                               (k_RobotID task) (k_ID task) targetStore dest result st1)
                  else if k_ScenarioID task = ''navigation''
                  then Some (True, handleNavigationResult cfg (ee_end env) (ee_stop_ok env)
                               (k_RobotID task) (k_ID task) result st1)
                  else Some (False, st1))"

record RobotStateResponse =
  rs_RobotID :: string
  rs_State :: string
  rs_CurrentTask :: string
  rs_Destination :: string
  rs_TargetStore :: string
  rs_StatusMessage :: string

definition GetRobotState :: "state_manager \<Rightarrow> string \<Rightarrow> RobotStateResponse" where
  "GetRobotState m robotID =
     (case sm_Get m robotID of
        None \<Rightarrow> \<lparr>rs_RobotID = robotID, rs_State = state_string StateIdle, rs_CurrentTask = [],
                rs_Destination = [], rs_TargetStore = [], rs_StatusMessage = ''idle''\<rparr>
      | Some c \<Rightarrow> \<lparr>rs_RobotID = rc_RobotID c, rs_State = state_string (rc_CurrentState c),
                  rs_CurrentTask = rc_CurrentTaskID c, rs_Destination = rc_TargetCoords c,
                  rs_TargetStore = rc_TargetStore c, rs_StatusMessage = rc_StatusMessage c\<rparr>)"

section \<open>Frame facts of the helpers\<close>

lemma engine_frames [simp]:
  "en_ctxs (engine_broadcast cfg e d st) = en_ctxs st"
  "en_bus (engine_broadcast cfg e d st) = en_bus st"
  "en_tasks (engine_broadcast cfg e d st) = en_tasks st"
  "en_completed (engine_broadcast cfg e d st) = en_completed st"
  "en_ctxs (engine_emitTaskCompleted cfg t r s st) = en_ctxs st"
  "en_bus (engine_emitTaskCompleted cfg t r s st) = en_bus st"
  "en_tasks (engine_emitTaskCompleted cfg t r s st) = en_tasks st"
  "en_events (engine_emitTaskCompleted cfg t r s st) = en_events st"
  "en_ctxs (engine_sendSafeStop ok now r op st) = en_ctxs st"
  "en_tasks (engine_sendSafeStop ok now r op st) = en_tasks st"
  "en_completed (engine_sendSafeStop ok now r op st) = en_completed st"
  "en_bus (engine_transition now r tos t a b c msg st) = en_bus st"
  "en_tasks (engine_transition now r tos t a b c msg st) = en_tasks st"
  "en_completed (engine_transition now r tos t a b c msg st) = en_completed st"
  "en_ctxs (engine_finish cfg now t stat st) = en_ctxs st"
  "en_bus (engine_finish cfg now t stat st) = en_bus st"
  "en_completed (engine_finish cfg now t stat st) = en_completed st"
  by (simp_all add: engine_broadcast_def engine_emitTaskCompleted_def engine_sendSafeStop_def
      engine_transition_def engine_finish_def Let_def)

lemma engine_transition_ctxs:
  "abs_state (en_ctxs (engine_transition now r t tid ts dn tc msg st)) =
     (if CanTransition (abs_state (en_ctxs st) r) t then (abs_state (en_ctxs st))(r := t)
      else abs_state (en_ctxs st))"
  by (simp add: engine_transition_def sm_Transition_abs)

lemma engine_sendSafeStop_bus:
  "en_bus (engine_sendSafeStop ok now r op st) =
     (if ok then en_bus st @ [safe_stop_command now r op] else en_bus st)"
  by (simp add: engine_sendSafeStop_def PublishCommand_def safe_stop_command_def marshal_ok_def)

lemma engine_finish_tasks:
  "ec_taskStore cfg \<Longrightarrow> en_tasks (engine_finish cfg now t s st) =
     tasks_UpdateStatusAndCompletedAt now t s now (en_tasks st)"
  by (simp add: engine_finish_def)

lemma engine_emit_completed:
  "ec_onTaskCompleted cfg \<Longrightarrow>
     en_completed (engine_emitTaskCompleted cfg t r s st) = en_completed st @ [(t, r, s)]"
  by (simp add: engine_emitTaskCompleted_def)

text \<open>The final status the engine gives to a handled task.\<close>

definition final_status :: "EngineConfig \<Rightarrow> TaskExecutionResult \<Rightarrow> Status" where
  "final_status cfg result = (if engine_success cfg result then StatusCompleted else fail_status result)"

lemma handle_results_tasks:
  assumes "ec_taskStore cfg"
  shows "en_tasks (handleNavigateToStoreResult cfg now ok r t ts d res st) =
      tasks_UpdateStatusAndCompletedAt now t (final_status cfg res) now (en_tasks st)"
    and "en_tasks (handleNavigationResult cfg now ok r t res st) =
      tasks_UpdateStatusAndCompletedAt now t (final_status cfg res) now (en_tasks st)"
  using assms
  by (simp_all add: handleNavigateToStoreResult_def handleNavigationResult_def final_status_def
      engine_finish_tasks Let_def)

lemma handle_results_bus:
  "en_bus (handleNavigateToStoreResult cfg now ok r t ts d res st) =
     (if \<not> engine_success cfg res \<and> ok then en_bus st @ [safe_stop_command now r []] else en_bus st)"
  "en_bus (handleNavigationResult cfg now ok r t res st) =
     (if \<not> engine_success cfg res \<and> ok then en_bus st @ [safe_stop_command now r []] else en_bus st)"
  by (simp_all add: handleNavigateToStoreResult_def handleNavigationResult_def
      engine_sendSafeStop_bus Let_def)

lemma handle_results_completed:
  assumes "ec_onTaskCompleted cfg"
  shows "en_completed (handleNavigateToStoreResult cfg now ok r t ts d res st) =
      en_completed st @ [(t, r, status_string (final_status cfg res))]"
    and "en_completed (handleNavigationResult cfg now ok r t res st) =
      en_completed st @ [(t, r, status_string (final_status cfg res))]"
  using assms
  by (simp_all add: handleNavigateToStoreResult_def handleNavigationResult_def final_status_def
      engine_emit_completed Let_def)

lemma handle_store_state:
  "abs_state (en_ctxs (handleNavigateToStoreResult cfg now ok r t ts d res st)) =
     (if engine_success cfg res
      then (if abs_state (en_ctxs st) r = StateNavigating
            then (abs_state (en_ctxs st))(r := StateArrived) else abs_state (en_ctxs st))
      else (abs_state (en_ctxs st))(r := StateError))"
  by (simp add: handleNavigateToStoreResult_def Let_def engine_transition_ctxs CanTransition_to)

lemma handle_return_state:
  "abs_state (en_ctxs (handleNavigationResult cfg now ok r t res st)) =
     (if engine_success cfg res
      then (if abs_state (en_ctxs st) r \<in> {StateNavigating, StateArrived, StateReturning, StateError}
            then (abs_state (en_ctxs st))(r := StateIdle) else abs_state (en_ctxs st))
      else (abs_state (en_ctxs st))(r := StateError))"
  by (simp add: handleNavigationResult_def Let_def engine_transition_ctxs CanTransition_to)

lemma start_frames:
  "en_bus (store_start cfg now task st) = en_bus st"
  "en_tasks (store_start cfg now task st) = en_tasks st"
  "en_completed (store_start cfg now task st) = en_completed st"
  "en_bus (return_start cfg now task st) = en_bus st"
  "en_tasks (return_start cfg now task st) = en_tasks st"
  "en_completed (return_start cfg now task st) = en_completed st"
  by (simp_all add: store_start_def return_start_def Let_def)

lemma start_states:
  "abs_state (en_ctxs (store_start cfg now task st)) =
     (if abs_state (en_ctxs st) (k_RobotID task) \<in> {StateIdle, StatePlanningRoute}
      then (abs_state (en_ctxs st))(k_RobotID task := StateNavigating) else abs_state (en_ctxs st))"
  "abs_state (en_ctxs (return_start cfg now task st)) =
     (if abs_state (en_ctxs st) (k_RobotID task) \<in> {StateIdle, StateArrived, StateError}
      then (abs_state (en_ctxs st))(k_RobotID task := StateReturning) else abs_state (en_ctxs st))"
  by (simp_all add: store_start_def return_start_def Let_def engine_transition_ctxs CanTransition_to)

lemma engine_run_Some:
  "engine_run cfg env task st = Some (res, st') \<Longrightarrow>
     \<exists>out. executor_ExecuteTask (ec_nav cfg) (ee_nav env) task (en_bus st) = Some (res, out)
       \<and> st' = st\<lparr>en_bus := out, en_tasks := ee_interfere env (en_tasks st)\<rparr>"
  by (auto simp: engine_run_def)

text \<open>
  A handled task, in one view: the result of the executor, and what the engine makes of it.
\<close>

lemma ExecuteTaskEntry_cases:
  assumes "ExecuteTaskEntry cfg env task st = Some (True, st')"
  obtains (store) res out st3 ts d
    where "k_ScenarioID task = ''navigate_to_store''"
      "executor_ExecuteTask (ec_nav cfg) (ee_nav env) task (en_bus st) = Some (res, out)"
      "tr_Handled res"
      "en_bus st3 = out" "en_tasks st3 = ee_interfere env (en_tasks st)"
      "en_completed st3 = en_completed st"
      "abs_state (en_ctxs st3) = (if abs_state (en_ctxs st) (k_RobotID task) \<in> {StateIdle, StatePlanningRoute}
         then (abs_state (en_ctxs st))(k_RobotID task := StateNavigating) else abs_state (en_ctxs st))"
      "st' = handleNavigateToStoreResult cfg (ee_end env) (ee_stop_ok env) (k_RobotID task)
         (k_ID task) ts d res st3"
  | (return) res out st3
    where "k_ScenarioID task = ''navigation''"
      "executor_ExecuteTask (ec_nav cfg) (ee_nav env) task (en_bus st) = Some (res, out)"
      "tr_Handled res"
      "en_bus st3 = out" "en_tasks st3 = ee_interfere env (en_tasks st)"
      "en_completed st3 = en_completed st"
      "abs_state (en_ctxs st3) = (if abs_state (en_ctxs st) (k_RobotID task) \<in> {StateIdle, StateArrived, StateError}
         then (abs_state (en_ctxs st))(k_RobotID task := StateReturning) else abs_state (en_ctxs st))"
      "st' = handleNavigationResult cfg (ee_end env) (ee_stop_ok env) (k_RobotID task)
         (k_ID task) res st3"
proof (cases "k_ScenarioID task = ''navigate_to_store''")
  case True
  let ?s0 = "store_start cfg (ee_start env) task st"
  from assms True obtain res st3 where run: "engine_run cfg env task ?s0 = Some (res, st3)"
    and h: "tr_Handled res"
    and st': "st' = handleNavigateToStoreResult cfg (ee_end env) (ee_stop_ok env) (k_RobotID task)
      (k_ID task) (target_store task) (np_TargetCoordinates (store_payload task)) res st3"
    by (auto simp: ExecuteTaskEntry_def ExecuteNavigateToStore_def split: option.splits if_splits)
  from engine_run_Some [OF run] obtain out
    where ex: "executor_ExecuteTask (ec_nav cfg) (ee_nav env) task (en_bus ?s0) = Some (res, out)"
      and st3: "st3 = ?s0\<lparr>en_bus := out, en_tasks := ee_interfere env (en_tasks ?s0)\<rparr>" by blast
  show ?thesis
    by (rule store [OF True _ h _ _ _ _ st']) (use ex st3 in \<open>simp_all add: start_frames start_states\<close>)
next
  case False
  let ?s0 = "return_start cfg (ee_start env) task st"
  from assms False obtain res st3 where sc: "k_ScenarioID task = ''navigation''"
    and run: "engine_run cfg env task ?s0 = Some (res, st3)" and h: "tr_Handled res"
    and st': "st' = handleNavigationResult cfg (ee_end env) (ee_stop_ok env) (k_RobotID task)
      (k_ID task) res st3"
    by (auto simp: ExecuteTaskEntry_def ExecuteReturnToBase_def split: option.splits if_splits)
  from engine_run_Some [OF run] obtain out
    where ex: "executor_ExecuteTask (ec_nav cfg) (ee_nav env) task (en_bus ?s0) = Some (res, out)"
      and st3: "st3 = ?s0\<lparr>en_bus := out, en_tasks := ee_interfere env (en_tasks ?s0)\<rparr>" by blast
  show ?thesis
    by (rule return [OF sc _ h _ _ _ _ st']) (use ex st3 in \<open>simp_all add: start_frames start_states\<close>)
qed

lemma ExecuteTaskEntry_returns:
  assumes "ticks_past (ee_nav env) (60 * second)"
  shows "ExecuteTaskEntry cfg env task st \<noteq> None"
proof -
  have "engine_run cfg env task st1 \<noteq> None" for st1
    using executor_returns [OF assms] by (simp add: engine_run_def)
  from this [of "store_start cfg (ee_start env) task st"]
    this [of "return_start cfg (ee_start env) task st"] show ?thesis
    by (auto simp: ExecuteTaskEntry_def ExecuteNavigateToStore_def ExecuteReturnToBase_def
        split: option.split)
qed

section \<open>Properties\<close>

text \<open>
  C16. Every task that the engine handles gets exactly one outcome, the same in the completion callback and in
  the task store; unless the outcome is completed, the robot is left in the error state and, when the bus
  takes it, the last command it is sent is the emergency stop.
\<close>

theorem ExecuteTaskEntry_outcome:
  assumes "ExecuteTaskEntry cfg env task st = Some (True, st')" "ec_taskStore cfg" "ec_onTaskCompleted cfg"
  shows "\<exists>status. status \<in> {StatusCompleted, StatusFailed, StatusCancelled}
    \<and> en_completed st' = en_completed st @ [(k_ID task, k_RobotID task, status_string status)]
    \<and> en_tasks st' = tasks_UpdateStatusAndCompletedAt (ee_end env) (k_ID task) status (ee_end env)
        (ee_interfere env (en_tasks st))
    \<and> (status = StatusCompleted
       \<or> abs_state (en_ctxs st') (k_RobotID task) = StateError
         \<and> (\<not> ee_stop_ok env \<or> last (en_bus st') = safe_stop_command (ee_end env) (k_RobotID task) []))"
proof -
  have t: "final_status cfg res \<in> {StatusCompleted, StatusFailed, StatusCancelled}"
    and s: "final_status cfg res \<noteq> StatusCompleted \<Longrightarrow> \<not> engine_success cfg res" for res
    by (auto simp: final_status_def fail_status_def)
  from assms(1) show ?thesis
  proof (cases rule: ExecuteTaskEntry_cases)
    case (store res out st3 ts d)
    show ?thesis using t [of res] s [of res]
      by (intro exI [of _ "final_status cfg res"])
        (auto simp: store(5,6,8) handle_results_tasks assms handle_results_completed handle_results_bus handle_store_state)
  next
    case (return res out st3)
    show ?thesis using t [of res] s [of res]
      by (intro exI [of _ "final_status cfg res"])
        (auto simp: return(5,6,8) handle_results_tasks assms handle_results_completed handle_results_bus handle_return_state)
  qed
qed

definition engine_example_task :: "string \<Rightarrow> Task" where
  "engine_example_task scenario = \<lparr>k_ID = ''t1'', k_RobotID = ''r1'', k_TenantID = ''default'', k_Type = ''scenario'',
     k_ScenarioID = scenario, k_Payload = RawJson (JObj [(''target_coordinates'', JStr ''4,2'')]),
     k_Status = StatusRunning, k_CreatedAt = 1, k_UpdatedAt = 1, k_CompletedAt = None, k_OperatorID = ''console''\<rparr>"

definition engine_example_env :: "nav_input list \<Rightarrow> engine_env" where
  "engine_example_env ins = \<lparr>ee_nav = nav_example_env ins, ee_start = 1, ee_end = 3, ee_stop_ok = True,
     ee_interfere = (\<lambda>s. s)\<rparr>"

definition engine_example_cfg :: EngineConfig where
  "engine_example_cfg = \<lparr>ec_broadcaster = True, ec_taskStore = True, ec_onTaskCompleted = True,
     ec_timeoutAsCompletion = False, ec_nav = NewNavigationExecutor 1 0\<rparr>"

definition engine_example_state :: "RobotState \<Rightarrow> engine_state" where
  "engine_example_state s = \<lparr>en_ctxs = [''r1'' \<mapsto> \<lparr>rc_RobotID = ''r1'', rc_CurrentState = s, rc_PreviousState = s,
       rc_CurrentTaskID = [], rc_TargetStore = [], rc_DestinationNode = [], rc_TargetCoords = [],
       rc_StatusMessage = [], rc_UpdatedAt = 1\<rparr>],
     en_bus = [], en_events = [], en_completed = [], en_tasks = Map.empty\<rparr>"

definition arrived_inputs :: "nav_input list" where
  "arrived_inputs = [NavTelemetry (nav_example_telemetry (1 / 2)), NavDone]"

lemma engine_example_handled:
  "map_option fst (ExecuteTaskEntry engine_example_cfg (engine_example_env [NavCtxDone])
     (engine_example_task ''navigate_to_store'') (engine_example_state StateIdle)) = Some True"
  by code_simp

theorem ExecuteTaskEntry_outcome_witness:
  "\<exists>st' status. ExecuteTaskEntry engine_example_cfg (engine_example_env [NavCtxDone])
      (engine_example_task ''navigate_to_store'') (engine_example_state StateIdle) = Some (True, st')
    \<and> en_completed st' = [(''t1'', ''r1'', status_string status)]"
proof -
  obtain st' where st': "ExecuteTaskEntry engine_example_cfg (engine_example_env [NavCtxDone])
      (engine_example_task ''navigate_to_store'') (engine_example_state StateIdle) = Some (True, st')"
    using engine_example_handled by auto
  show ?thesis using ExecuteTaskEntry_outcome [OF st'] st'
    by (auto simp: engine_example_cfg_def engine_example_state_def engine_example_task_def)
qed

text \<open>
  A completed journey moves the robot as the state machine describes: a journey to a store that starts in
  the idle (or planning) state ends in the arrived state, a return that starts in idle, arrived or error ends in idle.
\<close>

theorem completed_journey_states:
  assumes "ExecuteTaskEntry cfg env task st = Some (True, st')" "ec_onTaskCompleted cfg"
    and "last (en_completed st') = (k_ID task, k_RobotID task, status_string StatusCompleted)"
  shows "(k_ScenarioID task = ''navigate_to_store''
      \<and> abs_state (en_ctxs st) (k_RobotID task) \<in> {StateIdle, StatePlanningRoute}
      \<longrightarrow> abs_state (en_ctxs st') (k_RobotID task) = StateArrived)
    \<and> (k_ScenarioID task = ''navigation''
      \<and> abs_state (en_ctxs st) (k_RobotID task) \<in> {StateIdle, StateArrived, StateError}
      \<longrightarrow> abs_state (en_ctxs st') (k_RobotID task) = StateIdle)"
proof -
  have s: "engine_success cfg res" if "status_string (final_status cfg res) = status_string StatusCompleted" for res
    using status_string_inj [OF that] by (auto simp: final_status_def fail_status_def split: if_splits)
  from assms(1) show ?thesis
  proof (cases rule: ExecuteTaskEntry_cases)
    case (store res out st3 ts d)
    then show ?thesis using s [of res] assms(2,3)
      by (auto simp: handle_results_completed handle_store_state)
  next
    case (return res out st3)
    then show ?thesis using s [of res] assms(2,3)
      by (auto simp: handle_results_completed handle_return_state)
  qed
qed

lemma engine_example_arrives:
  "map_option (\<lambda>(h, st). (h, en_completed st)) (ExecuteTaskEntry engine_example_cfg (engine_example_env arrived_inputs)
     (engine_example_task ''navigate_to_store'') (engine_example_state StateIdle))
   = Some (True, [(''t1'', ''r1'', ''completed'')])"
  by code_simp

theorem completed_journey_states_witness:
  "\<exists>st'. ExecuteTaskEntry engine_example_cfg (engine_example_env arrived_inputs)
      (engine_example_task ''navigate_to_store'') (engine_example_state StateIdle) = Some (True, st')
    \<and> abs_state (en_ctxs st') ''r1'' = StateArrived"
proof -
  obtain st' where st': "ExecuteTaskEntry engine_example_cfg (engine_example_env arrived_inputs)
      (engine_example_task ''navigate_to_store'') (engine_example_state StateIdle) = Some (True, st')"
    and c: "en_completed st' = [(''t1'', ''r1'', ''completed'')]"
    using engine_example_arrives by auto
  show ?thesis using completed_journey_states [OF st'] st' c
    by (auto simp: engine_example_cfg_def engine_example_state_def engine_example_task_def abs_state_def)
qed

text \<open>
  A robot in the error state stays there when its next journey to a store succeeds: the transition to
  navigating is refused and ignored, the task is completed, and the state still reads error.
\<close>

theorem error_state_survives_journey:
  assumes "ExecuteTaskEntry cfg env task st = Some (True, st')"
    and "k_ScenarioID task = ''navigate_to_store''" "abs_state (en_ctxs st) (k_RobotID task) = StateError"
  shows "abs_state (en_ctxs st') (k_RobotID task) = StateError"
  using assms(1)
proof (cases rule: ExecuteTaskEntry_cases)
  case (store res out st3 ts d)
  then show ?thesis using assms(3) by (auto simp: handle_store_state)
qed (use assms(2) in simp)

lemma engine_example_error:
  "map_option (\<lambda>(h, st). (h, en_completed st)) (ExecuteTaskEntry engine_example_cfg (engine_example_env arrived_inputs)
     (engine_example_task ''navigate_to_store'') (engine_example_state StateError))
   = Some (True, [(''t1'', ''r1'', ''completed'')])"
  by code_simp

theorem error_state_survives_journey_witness:
  "\<exists>st'. ExecuteTaskEntry engine_example_cfg (engine_example_env arrived_inputs)
      (engine_example_task ''navigate_to_store'') (engine_example_state StateError) = Some (True, st')
    \<and> en_completed st' = [(''t1'', ''r1'', ''completed'')] \<and> abs_state (en_ctxs st') ''r1'' = StateError"
proof -
  obtain st' where st': "ExecuteTaskEntry engine_example_cfg (engine_example_env arrived_inputs)
      (engine_example_task ''navigate_to_store'') (engine_example_state StateError) = Some (True, st')"
    and c: "en_completed st' = [(''t1'', ''r1'', ''completed'')]"
    using engine_example_error by auto
  show ?thesis using error_state_survives_journey [OF st'] st' c
    by (auto simp: engine_example_state_def engine_example_task_def abs_state_def)
qed

end
