(* ===== verification/Task_Runner.thy ===== *)
theory Task_Runner
  imports Registry Coordinator Scenarios Robot_Engine
begin

text \<open>
  The Task Runner, \<^verbatim>\<open>pkg/control-plane/tasks/runner.go\<close>: one call of \<^verbatim>\<open>runOne\<close> takes the first
  pending task, claims it, and delegates it or runs its scenario step by step.

  The runner shares the task store, the clock and the context with other goroutines. Before each
  of its interactions with them (numbered by \<open>w_tick\<close>) it meets what they did since the last
  one: time that passed, writes to the task store, a failing store or bus, a context that is done.
  All this is the environment; the theorems quantify over it, so they hold for every interleaving.
  Zones are written by the runner only.
\<close>

datatype runner_event =
    TaskStarted string string string string
  | TaskCompleted string string string
  | ZoneAcquired string string string
  | ZoneReleased string string string
  | MallSpawned string string string string \<comment> \<open>\<open>go mallAssistantRunner.Run(...)\<close>\<close>

record world =
  w_now :: time
  w_tick :: nat
  w_tasks :: task_store
  w_zones :: zone_store
  w_bus :: outbox
  w_log :: "runner_event list"
  w_ctxs :: state_manager
  w_events :: "lifecycle_event list"

record runner_env =
  re_delay :: "nat \<Rightarrow> nat"
  re_tasks :: "nat \<Rightarrow> task_store \<Rightarrow> task_store"
  re_order :: "nat \<Rightarrow> task_store \<Rightarrow> string list"
  re_fail :: "nat \<Rightarrow> bool"
  re_done :: "nat \<Rightarrow> bool"
  re_pub :: "nat \<Rightarrow> bool"
  re_registry :: "nat \<Rightarrow> string \<Rightarrow> Robot option"
  re_catalog :: Catalog

text \<open>The optional collaborators; the engine is the interface \<^verbatim>\<open>ExecutionEngine\<close>.\<close>

type_synonym exec_engine = "Task \<Rightarrow> world \<Rightarrow> (bool \<times> world) option"

record RunnerConfig =
  rn_coordinator :: bool
  rn_mall :: bool
  rn_engine :: "exec_engine option"
  rn_onTaskCompleted :: bool
  rn_onTaskStarted :: bool
  rn_onZoneAcquired :: bool
  rn_onZoneReleased :: bool

definition sync :: "runner_env \<Rightarrow> world \<Rightarrow> world" where
  "sync env w = w\<lparr>w_now := w_now w + int (re_delay env (w_tick w)),
                  w_tasks := re_tasks env (w_tick w) (w_tasks w),
                  w_tick := Suc (w_tick w)\<rparr>"

text \<open>The number of the interaction that \<open>sync\<close> has just begun.\<close>

definition here :: "world \<Rightarrow> nat" where
  "here w = w_tick w - 1"

definition log_if :: "bool \<Rightarrow> runner_event \<Rightarrow> world \<Rightarrow> world" where
  "log_if b e w = (if b then w\<lparr>w_log := w_log w @ [e]\<rparr> else w)"

definition emitTaskCompleted :: "RunnerConfig \<Rightarrow> Task \<Rightarrow> Status \<Rightarrow> world \<Rightarrow> world" where
  "emitTaskCompleted cfg task status w =
     log_if (rn_onTaskCompleted cfg) (TaskCompleted (k_ID task) (k_RobotID task) (status_string status)) w"

text \<open>\<^verbatim>\<open>_ = r.taskStore.UpdateStatusAndCompletedAt(...)\<close> and \<^verbatim>\<open>r.emitTaskCompleted(...)\<close>.\<close>

definition finish :: "RunnerConfig \<Rightarrow> runner_env \<Rightarrow> Task \<Rightarrow> Status \<Rightarrow> world \<Rightarrow> world" where
  "finish cfg env task status w =
     (let w1 = sync env w;
          w2 = (if re_fail env (here w1) then w1
                else w1\<lparr>w_tasks := tasks_UpdateStatusAndCompletedAt (w_now w1) (k_ID task) status
                          (w_now w1) (w_tasks w1)\<rparr>)
      in emitTaskCompleted cfg task status w2)"

definition publish :: "runner_env \<Rightarrow> Command \<Rightarrow> world \<Rightarrow> bool \<times> world" where
  "publish env cmd w =
     (let w1 = sync env w; (ok, out) = PublishCommand (re_pub env (here w1)) cmd (w_bus w1)
      in (ok, w1\<lparr>w_bus := out\<rparr>))"

definition sendSafeStop :: "runner_env \<Rightarrow> Task \<Rightarrow> world \<Rightarrow> world" where
  "sendSafeStop env task w =
     (let cmd = safe_stop_command (w_now w) (k_RobotID task) (k_OperatorID task)
      in if SafetyAllow cmd then snd (publish env cmd w) else w)"

definition cancel_exit :: "RunnerConfig \<Rightarrow> runner_env \<Rightarrow> Task \<Rightarrow> world \<Rightarrow> world" where
  "cancel_exit cfg env task w = sendSafeStop env task (finish cfg env task StatusCancelled w)"

text \<open>\<^verbatim>\<open>t, _ := r.taskStore.Get(task.ID); t != nil && t.Status == StatusCancelled\<close>.\<close>

definition sees_cancelled :: "runner_env \<Rightarrow> Task \<Rightarrow> world \<Rightarrow> bool" where
  "sees_cancelled env task w \<longleftrightarrow> \<not> re_fail env (here w) \<and>
     (case tasks_Get (w_tasks w) (k_ID task) of None \<Rightarrow> False | Some t \<Rightarrow> k_Status t = StatusCancelled)"

section \<open>One step of a scenario\<close>

record taskPayload =
  tp_DurationSec :: int
  tp_LinearX :: real
  tp_LinearY :: real
  tp_AngularZ :: real
  tp_ZoneID :: string
  tp_TargetCoordinates :: string
  tp_StoreName :: string

definition task_payload_zero :: taskPayload where
  "task_payload_zero = \<lparr>tp_DurationSec = 0, tp_LinearX = 0, tp_LinearY = 0, tp_AngularZ = 0,
     tp_ZoneID = [], tp_TargetCoordinates = [], tp_StoreName = []\<rparr>"

definition task_payload_fields :: "taskPayload struct_fields" where
  "task_payload_fields =
     [(''duration_sec'', decode_int (\<lambda>v s. s\<lparr>tp_DurationSec := v\<rparr>)),
      (''linear_x'', decode_float (\<lambda>v s. s\<lparr>tp_LinearX := v\<rparr>)),
      (''linear_y'', decode_float (\<lambda>v s. s\<lparr>tp_LinearY := v\<rparr>)),
      (''angular_z'', decode_float (\<lambda>v s. s\<lparr>tp_AngularZ := v\<rparr>)),
      (''zone_id'', decode_string (\<lambda>v s. s\<lparr>tp_ZoneID := v\<rparr>)),
      (''target_coordinates'', decode_string (\<lambda>v s. s\<lparr>tp_TargetCoordinates := v\<rparr>)),
      (''store_name'', decode_string (\<lambda>v s. s\<lparr>tp_StoreName := v\<rparr>))]"

definition task_payload :: "Task \<Rightarrow> taskPayload" where
  "task_payload task =
     (let p = unmarshal_lenient task_payload_fields (k_Payload task) task_payload_zero
      in if tp_DurationSec p \<le> 0 then p\<lparr>tp_DurationSec := 30\<rparr> else p)"

definition step_payload :: "Task \<Rightarrow> taskPayload \<Rightarrow> ScenarioStep \<Rightarrow> raw_message" where
  "step_payload task p step =
     (let payload = ss_Payload step;
          payload1 = (if ss_Payload step = RawEmpty \<and> ss_Command step = ''cmd_vel''
            then (if k_Payload task \<noteq> RawEmpty then k_Payload task
                  else RawJson (JObj [(''angular_z'', num_json (tp_AngularZ p)),
                         (''linear_x'', num_json (tp_LinearX p)), (''linear_y'', num_json (tp_LinearY p))]))
            else payload)
      in if ss_Payload step = RawEmpty \<and> ss_Command step = ''navigate_to'' \<and> k_Payload task \<noteq> RawEmpty
         then k_Payload task else payload1)"

definition step_duration :: "taskPayload \<Rightarrow> ScenarioStep \<Rightarrow> int" where
  "step_duration p step =
     (if ss_DurationSec step = - 1
      then (if tp_DurationSec p \<le> 0 \<and> ss_Command step = ''navigate_to'' then 30 else tp_DurationSec p)
      else ss_DurationSec step)"

definition step_command :: "time \<Rightarrow> Task \<Rightarrow> taskPayload \<Rightarrow> ScenarioStep \<Rightarrow> Command" where
  "step_command now task p step =
     \<lparr>c_RobotID = k_RobotID task, c_Command = ss_Command step, c_Payload = step_payload task p step,
      c_Timestamp = now, c_OperatorID = k_OperatorID task\<rparr>"

text \<open>
  The polling loop that holds a step until its deadline. The flag tells whether the run was
  cancelled. Each round sleeps for half a second, so the loop ends.
\<close>

function hold_loop :: "RunnerConfig \<Rightarrow> runner_env \<Rightarrow> Task \<Rightarrow> time \<Rightarrow> world \<Rightarrow> bool \<times> world" where
  "hold_loop cfg env task deadline w =
     (if w_now w < deadline
      then (let w1 = sync env w in
            if re_done env (here w1) then (True, cancel_exit cfg env task w1)
            else if sees_cancelled env task w1 then (True, cancel_exit cfg env task w1)
            else hold_loop cfg env task deadline (w1\<lparr>w_now := w_now w1 + 500 * millisecond\<rparr>))
      else (False, w))"
  by pat_completeness auto
termination
  by (relation "measure (\<lambda>(cfg, env, task, deadline, w). nat (deadline - w_now w))")
    (auto simp: sync_def millisecond_def)

declare hold_loop.simps [simp del]

text \<open>
  \<^verbatim>\<open>time.Duration(durationSec) * time.Second\<close> is a product of 64-bit integers; the instant
  \<^verbatim>\<open>time.Now().Add(d)\<close> is exact here.
\<close>

definition hold_deadline :: "time \<Rightarrow> int \<Rightarrow> time" where
  "hold_deadline now durationSec = now + int64 (durationSec * second)"

definition hold :: "RunnerConfig \<Rightarrow> runner_env \<Rightarrow> Task \<Rightarrow> int \<Rightarrow> world \<Rightarrow> bool \<times> world" where
  "hold cfg env task durationSec w =
     (if durationSec > 0 then hold_loop cfg env task (hold_deadline (w_now w) durationSec) w
      else (False, w))"

fun run_steps ::
  "RunnerConfig \<Rightarrow> runner_env \<Rightarrow> Task \<Rightarrow> taskPayload \<Rightarrow> ScenarioStep list \<Rightarrow> world \<Rightarrow> world" where
  "run_steps cfg env task p [] w = finish cfg env task StatusCompleted w"
| "run_steps cfg env task p (step # steps) w =
     (let w1 = sync env w in
      if re_done env (here w1) then cancel_exit cfg env task w1
      else if sees_cancelled env task w1 then cancel_exit cfg env task w1
      else let cmd = step_command (w_now w1) task p step in
        if \<not> SafetyAllow cmd then finish cfg env task StatusFailed w1
        else let (ok, w2) = publish env cmd w1 in
          if \<not> ok then finish cfg env task StatusFailed w2
          else let (cancelled, w3) = hold cfg env task (step_duration p step) w2 in
            if cancelled then w3 else run_steps cfg env task p steps w3)"

section \<open>One iteration of the runner\<close>

definition release_zone :: "RunnerConfig \<Rightarrow> Task \<Rightarrow> string \<Rightarrow> world \<Rightarrow> world" where
  "release_zone cfg task zone w =
     (let w1 = log_if (rn_onZoneReleased cfg) (ZoneReleased (k_RobotID task) zone (k_ID task)) w
      in w1\<lparr>w_zones := snd (ReleaseZone (k_RobotID task) zone (w_zones w1))\<rparr>)"

text \<open>The steps of the scenario, inside a zone when the task names one; the release is deferred.\<close>

definition run_scenario ::
  "RunnerConfig \<Rightarrow> runner_env \<Rightarrow> Task \<Rightarrow> taskPayload \<Rightarrow> Scenario \<Rightarrow> world \<Rightarrow> world" where
  "run_scenario cfg env task p scenario w =
     (if rn_coordinator cfg \<and> tp_ZoneID p \<noteq> []
         \<and> (k_ScenarioID task = ''patrol'' \<or> k_ScenarioID task = ''navigation'')
      then (let (ok, zones) = AcquireZone (w_now w) (k_RobotID task) (tp_ZoneID p) (w_zones w) in
            if \<not> ok then finish cfg env task StatusFailed w
            else let w1 = log_if (rn_onZoneAcquired cfg)
                            (ZoneAcquired (k_RobotID task) (tp_ZoneID p) (k_ID task))
                            (w\<lparr>w_zones := zones\<rparr>)
                 in release_zone cfg task (tp_ZoneID p)
                      (run_steps cfg env task p (sc_Steps scenario) w1))
      else run_steps cfg env task p (sc_Steps scenario) w)"

definition emitTaskStarted :: "RunnerConfig \<Rightarrow> Task \<Rightarrow> taskPayload \<Rightarrow> world \<Rightarrow> world" where
  "emitTaskStarted cfg task p w = log_if (rn_onTaskStarted cfg)
     (TaskStarted (k_ID task) (k_RobotID task) (k_ScenarioID task) (tp_ZoneID p)) w"

text \<open>\<open>None\<close>: the engine has not returned.\<close>

definition run_claimed ::
  "RunnerConfig \<Rightarrow> runner_env \<Rightarrow> Task \<Rightarrow> Scenario \<Rightarrow> world \<Rightarrow> world option" where
  "run_claimed cfg env task scenario w =
     (let p = task_payload task;
          w1 = emitTaskStarted cfg task p w
      in if k_ScenarioID task = ''mall_assistant'' \<and> rn_mall cfg
         then Some (w1\<lparr>w_log := w_log w1 @
                [MallSpawned (k_ID task) (k_RobotID task) (or_default (k_TenantID task) ''default'')
                   (or_default (k_OperatorID task) ''console'')]\<rparr>)
         else case rn_engine cfg of
             None \<Rightarrow> Some (run_scenario cfg env task p scenario w1)
           | Some exec \<Rightarrow>
               if k_ScenarioID task = ''navigate_to_store''
                  \<or> k_ScenarioID task = ''navigation'' \<and> tp_TargetCoordinates p \<noteq> []
               then (case exec (task\<lparr>k_Status := StatusRunning\<rparr>) w1 of
                       None \<Rightarrow> None
                     | Some (handled, w2) \<Rightarrow>
                         if handled then Some w2
                         else Some (run_scenario cfg env task p scenario w2))
               else Some (run_scenario cfg env task p scenario w1))"

definition runOne :: "RunnerConfig \<Rightarrow> runner_env \<Rightarrow> world \<Rightarrow> world option" where
  "runOne cfg env w =
     (let w1 = sync env w;
          pending = tasks_List (re_order env (here w1) (w_tasks w1)) pending_filter (w_tasks w1)
      in if re_fail env (here w1) \<or> pending = [] then Some w1
         else let task = hd pending; w2 = sync env w1;
                  hasRunning = HasRunningForRobot (re_order env (here w2) (w_tasks w2))
                                 (k_RobotID task) (w_tasks w2)
              in if re_fail env (here w2) \<or> hasRunning then Some w2
                 else let w3 = sync env w2 in
                   if re_registry env (here w3) (k_RobotID task) = None then Some w3
                   else case catalog_Get (re_catalog env) (k_ScenarioID task) of
                       None \<Rightarrow> Some (finish cfg env task StatusFailed w3)
                     | Some scenario \<Rightarrow>
                         let w4 = sync env w3; robot = re_registry env (here w4) (k_RobotID task) in
                         if \<not> HasCapability robot (sc_RequiredCapabilities scenario)
                         then Some (finish cfg env task StatusFailed w4)
                         else let w5 = sync env w4 in
                           if re_fail env (here w5) then Some w5
                           else run_claimed cfg env task scenario
                                  (w5\<lparr>w_tasks := tasks_UpdateStatus (w_now w5) (k_ID task)
                                        StatusRunning (w_tasks w5)\<rparr>))"

section \<open>What the pieces do to the world\<close>

lemma sync_frames [simp]:
  "w_zones (sync env w) = w_zones w" "w_bus (sync env w) = w_bus w" "w_log (sync env w) = w_log w"
  "w_ctxs (sync env w) = w_ctxs w" "w_events (sync env w) = w_events w"
  "w_tasks (sync env w) = re_tasks env (w_tick w) (w_tasks w)"
  "w_tick (sync env w) = Suc (w_tick w)"
  "w_now (sync env w) = w_now w + int (re_delay env (w_tick w))"
  by (simp_all add: sync_def)

lemma here_sync [simp]: "here (sync env w) = w_tick w"
  by (simp add: here_def)

lemma log_if_frames [simp]:
  "w_zones (log_if b e w) = w_zones w" "w_bus (log_if b e w) = w_bus w"
  "w_tasks (log_if b e w) = w_tasks w" "w_now (log_if b e w) = w_now w"
  "w_tick (log_if b e w) = w_tick w"
  "w_log (log_if b e w) = w_log w @ (if b then [e] else [])"
  by (simp_all add: log_if_def)

lemma finish_frames [simp]:
  "w_zones (finish cfg env task st w) = w_zones w"
  "w_bus (finish cfg env task st w) = w_bus w"
  "w_tick (finish cfg env task st w) = Suc (w_tick w)"
  "w_tasks (finish cfg env task st w) =
     (if re_fail env (w_tick w) then re_tasks env (w_tick w) (w_tasks w)
      else tasks_UpdateStatusAndCompletedAt (w_now (sync env w)) (k_ID task) st (w_now (sync env w))
             (re_tasks env (w_tick w) (w_tasks w)))"
  "w_log (finish cfg env task st w) = w_log w @ (if rn_onTaskCompleted cfg
     then [TaskCompleted (k_ID task) (k_RobotID task) (status_string st)] else [])"
  by (simp_all add: finish_def emitTaskCompleted_def Let_def)

lemma publish_frames [simp]:
  "w_zones (snd (publish env cmd w)) = w_zones w"
  "w_tasks (snd (publish env cmd w)) = re_tasks env (w_tick w) (w_tasks w)"
  "w_log (snd (publish env cmd w)) = w_log w"
  "w_tick (snd (publish env cmd w)) = Suc (w_tick w)"
  "fst (publish env cmd w) \<longleftrightarrow> marshal_ok cmd \<and> re_pub env (w_tick w)"
  "w_bus (snd (publish env cmd w)) =
     w_bus w @ (if marshal_ok cmd \<and> re_pub env (w_tick w) then [cmd] else [])"
  by (simp_all add: publish_def PublishCommand_def Let_def split: prod.splits)

lemma emitTaskStarted_frames [simp]:
  "w_zones (emitTaskStarted cfg task p w) = w_zones w" "w_bus (emitTaskStarted cfg task p w) = w_bus w"
  "w_tasks (emitTaskStarted cfg task p w) = w_tasks w"
  by (simp_all add: emitTaskStarted_def)

lemma safe_stop_fields [simp]:
  "c_RobotID (safe_stop_command now r op) = r" "c_Command (safe_stop_command now r op) = ''safe_stop''"
  "marshal_ok (safe_stop_command now r op)"
  by (simp_all add: safe_stop_command_def marshal_ok_def)

lemma sendSafeStop_publish:
  "sendSafeStop env task w =
     snd (publish env (safe_stop_command (w_now w) (k_RobotID task) (k_OperatorID task)) w)"
  by (simp add: sendSafeStop_def Let_def)

lemma step_command_RobotID [simp]: "c_RobotID (step_command now task p step) = k_RobotID task"
  by (simp add: step_command_def)

text \<open>One round of the polling loop that saw no cancellation.\<close>

definition slept :: "runner_env \<Rightarrow> world \<Rightarrow> world" where
  "slept env w = (sync env w)\<lparr>w_now := w_now (sync env w) + 500 * millisecond\<rparr>"

lemma hold_loop_unfold:
  "hold_loop cfg env task deadline w =
     (if w_now w < deadline
      then if re_done env (w_tick w) \<or> sees_cancelled env task (sync env w)
           then (True, cancel_exit cfg env task (sync env w))
           else hold_loop cfg env task deadline (slept env w)
      else (False, w))"
  by (subst hold_loop.simps) (simp add: Let_def slept_def)

lemma hold_loop_induct [case_names 1]:
  assumes "\<And>w. (w_now w < deadline \<Longrightarrow> \<not> re_done env (w_tick w)
      \<Longrightarrow> \<not> sees_cancelled env task (sync env w) \<Longrightarrow> P (slept env w)) \<Longrightarrow> P w"
  shows "P w"
proof (induction w rule: measure_induct_rule [where f = "\<lambda>w. nat (deadline - w_now w)"])
  case (less w)
  show ?case by (rule assms, rule less) (simp add: slept_def millisecond_def)
qed

text \<open>One step of the scenario, by the ways it can end.\<close>

lemma run_steps_Cons:
  "run_steps cfg env task p (step # steps) w =
     (let w1 = sync env w; cmd = step_command (w_now w1) task p step; w2 = snd (publish env cmd w1) in
      if re_done env (w_tick w) \<or> sees_cancelled env task w1 then cancel_exit cfg env task w1
      else if \<not> SafetyAllow cmd then finish cfg env task StatusFailed w1
      else if \<not> fst (publish env cmd w1) then finish cfg env task StatusFailed w2
      else if fst (hold cfg env task (step_duration p step) w2)
           then snd (hold cfg env task (step_duration p step) w2)
           else run_steps cfg env task p steps (snd (hold cfg env task (step_duration p step) w2)))"
  by (simp add: Let_def split_beta)

declare run_steps.simps(2) [simp del]

text \<open>
  A property of the world that the runner's basic actions keep is kept by a whole run. The
  hypotheses of the locale are the actions: meeting the environment, sleeping, writing a final
  status, and publishing a command that the safety filter allows, addressed to the task's robot.
\<close>

locale runner_invariant =
  fixes cfg :: RunnerConfig and env :: runner_env and task :: Task and I :: "world \<Rightarrow> bool"
  assumes I_sync: "I w \<Longrightarrow> I (sync env w)"
    and I_sleep: "I w \<Longrightarrow> I (w\<lparr>w_now := t\<rparr>)"
    and I_finish: "I w \<Longrightarrow> terminal st \<Longrightarrow> I (finish cfg env task st w)"
    and I_publish: "I w \<Longrightarrow> SafetyAllow cmd \<Longrightarrow> c_RobotID cmd = k_RobotID task
      \<Longrightarrow> I (snd (publish env cmd w))"
begin

lemma I_cancel_exit: "I w \<Longrightarrow> I (cancel_exit cfg env task w)"
  by (simp add: cancel_exit_def sendSafeStop_publish I_finish I_publish)

lemma I_hold_loop: "I w \<Longrightarrow> I (snd (hold_loop cfg env task deadline w))"
proof (induction w rule: hold_loop_induct [where env = env and task = task and deadline = deadline])
  case (1 w)
  then show ?case
    by (subst hold_loop_unfold) (auto simp: slept_def I_sync I_sleep I_cancel_exit)
qed

lemma I_hold: "I w \<Longrightarrow> I (snd (hold cfg env task d w))"
  by (simp add: hold_def I_hold_loop)

lemma I_run_steps: "I w \<Longrightarrow> I (run_steps cfg env task p steps w)"
proof (induction steps arbitrary: w)
  case (Cons step steps)
  let ?w1 = "sync env w" and ?w2 = "snd (publish env (step_command (w_now (sync env w)) task p step) (sync env w))"
  have w1: "I ?w1" using Cons.prems by (rule I_sync)
  have w2: "SafetyAllow (step_command (w_now ?w1) task p step) \<Longrightarrow> I ?w2"
    by (rule I_publish [OF w1]) simp_all
  show ?case unfolding run_steps_Cons Let_def
    using w1 w2 by (simp add: I_cancel_exit I_finish I_hold Cons.IH)
qed (simp add: I_finish)

end

section \<open>Invariants of a run\<close>

text \<open>What has been added to the bus is allowed and addressed to one robot.\<close>

definition safe_extension :: "string \<Rightarrow> outbox \<Rightarrow> outbox \<Rightarrow> bool" where
  "safe_extension robot out out' \<longleftrightarrow>
     (\<exists>cs. out' = out @ cs \<and> (\<forall>c \<in> set cs. SafetyAllow c \<and> c_RobotID c = robot))"

lemma safe_extension_refl [simp]: "safe_extension r out out"
  by (simp add: safe_extension_def)

lemma safe_extension_trans: "safe_extension r a b \<Longrightarrow> safe_extension r b c \<Longrightarrow> safe_extension r a c"
  by (fastforce simp: safe_extension_def)

lemma safe_extension_snoc: "safe_extension r a b \<Longrightarrow> SafetyAllow c \<Longrightarrow> c_RobotID c = r \<Longrightarrow> safe_extension r a (b @ [c])"
  by (auto simp: safe_extension_def)

interpretation inv_bus: runner_invariant cfg env task "\<lambda>w. safe_extension (k_RobotID task) out (w_bus w)"
  for cfg env task out
  by unfold_locales (simp_all add: safe_extension_snoc)

interpretation inv_zones: runner_invariant cfg env task "\<lambda>w. w_zones w = z" for cfg env task z
  by unfold_locales simp_all

definition lawful_env :: "runner_env \<Rightarrow> bool" where
  "lawful_env env \<longleftrightarrow> (\<forall>n. lawful (re_tasks env n))"

lemma lawful_env_write: "lawful_env env \<Longrightarrow> others_write s (re_tasks env n s)"
  by (simp add: lawful_env_def lawful_def)

lemma one_running_end:
  "terminal st \<Longrightarrow> one_running s \<Longrightarrow> one_running (tasks_UpdateStatusAndCompletedAt now i st c s)"
  by (rule one_running_finish) auto

interpretation inv_one: runner_invariant cfg env task
    "\<lambda>w. lawful_env env \<longrightarrow> one_running (w_tasks w)" for cfg env task
  by unfold_locales
    (auto intro: others_write_one_running [OF lawful_env_write] one_running_end)

interpretation inv_dom: runner_invariant cfg env task
    "\<lambda>w. lawful_env env \<longrightarrow> i \<in> dom (w_tasks w)" for cfg env task i
  by unfold_locales (simp_all del: domIff add: others_write_dom [OF lawful_env_write])

text \<open>
  The run of the steps leaves the task in a final status: the last write of the runner succeeds,
  and the others never undo it.
\<close>

lemma finish_ends:
  "\<not> re_fail env (w_tick w) \<Longrightarrow> lawful_env env \<Longrightarrow> terminal st \<Longrightarrow> k_ID task \<in> dom (w_tasks w)
    \<Longrightarrow> ended (w_tasks (finish cfg env task st w)) (k_ID task)"
  by (simp del: domIff add: finish_ended others_write_dom [OF lawful_env_write])

lemma publish_ended:
  "lawful_env env \<Longrightarrow> ended (w_tasks w) i \<Longrightarrow> ended (w_tasks (snd (publish env cmd w))) i"
  by (simp add: others_write_ended [OF lawful_env_write])

lemma cancel_exit_ends:
  "\<forall>n. \<not> re_fail env n \<Longrightarrow> lawful_env env \<Longrightarrow> k_ID task \<in> dom (w_tasks w)
    \<Longrightarrow> ended (w_tasks (cancel_exit cfg env task w)) (k_ID task)"
  by (simp del: domIff finish_frames publish_frames
      add: cancel_exit_def sendSafeStop_publish publish_ended finish_ends)

lemma hold_loop_cancelled_ends:
  assumes "\<forall>n. \<not> re_fail env n" "lawful_env env"
  shows "k_ID task \<in> dom (w_tasks w) \<Longrightarrow> fst (hold_loop cfg env task deadline w)
    \<Longrightarrow> ended (w_tasks (snd (hold_loop cfg env task deadline w))) (k_ID task)"
proof (induction w rule: hold_loop_induct [where env = env and task = task and deadline = deadline])
  case (1 w)
  have d: "k_ID task \<in> dom (w_tasks (sync env w))"
    using 1(2) inv_dom.I_sync assms(2) by blast
  then have "k_ID task \<in> dom (w_tasks (slept env w))" by (simp add: slept_def)
  with 1 d show ?case
    by (auto simp: hold_loop_unfold [of cfg env task deadline w] cancel_exit_ends assms
        simp del: sync_frames domIff split: if_splits)
qed

lemma run_steps_ends:
  assumes "\<forall>n. \<not> re_fail env n" "lawful_env env"
  shows "k_ID task \<in> dom (w_tasks w) \<Longrightarrow> ended (w_tasks (run_steps cfg env task p steps w)) (k_ID task)"
proof (induction steps arbitrary: w)
  case Nil
  then show ?case by (simp del: domIff finish_frames add: finish_ends assms)
next
  case (Cons step steps)
  let ?cmd = "step_command (w_now (sync env w)) task p step"
  let ?w2 = "snd (publish env ?cmd (sync env w))"
  let ?h = "hold cfg env task (step_duration p step) ?w2"
  have w1: "k_ID task \<in> dom (w_tasks (sync env w))" using Cons.prems inv_dom.I_sync assms(2) by blast
  then have w2: "k_ID task \<in> dom (w_tasks ?w2)"
    by (simp add: others_write_dom [OF lawful_env_write [OF assms(2)]] del: domIff)
  then have w3: "k_ID task \<in> dom (w_tasks (snd ?h))" using inv_dom.I_hold assms(2) by blast
  have h: "fst ?h \<Longrightarrow> ended (w_tasks (snd ?h)) (k_ID task)"
    using hold_loop_cancelled_ends [OF assms w2] by (simp add: hold_def split: if_splits)
  show ?case unfolding run_steps_Cons Let_def
    using assms w1 w2 w3 h Cons.IH
    by (simp del: domIff finish_frames sync_frames publish_frames add: cancel_exit_ends finish_ends)
qed

section \<open>The scenario in its zone\<close>

lemma release_zone_frames [simp]:
  "w_bus (release_zone cfg task z w) = w_bus w" "w_tasks (release_zone cfg task z w) = w_tasks w"
  "w_zones (release_zone cfg task z w) = snd (ReleaseZone (k_RobotID task) z (w_zones w))"
  by (simp_all add: release_zone_def Let_def)

lemma run_scenario_cases:
  obtains (steps) "run_scenario cfg env task p sc w = run_steps cfg env task p (sc_Steps sc) w"
  | (occupied) "run_scenario cfg env task p sc w = finish cfg env task StatusFailed w"
  | (zone) w1 zones where "AcquireZone (w_now w) (k_RobotID task) (tp_ZoneID p) (w_zones w) = (True, zones)"
      "w_tasks w1 = w_tasks w" "w_bus w1 = w_bus w" "w_zones w1 = zones"
      "run_scenario cfg env task p sc w =
         release_zone cfg task (tp_ZoneID p) (run_steps cfg env task p (sc_Steps sc) w1)"
proof -
  let ?z = "AcquireZone (w_now w) (k_RobotID task) (tp_ZoneID p) (w_zones w)"
  let ?w1 = "log_if (rn_onZoneAcquired cfg) (ZoneAcquired (k_RobotID task) (tp_ZoneID p) (k_ID task))
    (w\<lparr>w_zones := snd ?z\<rparr>)"
  let ?c = "rn_coordinator cfg \<and> tp_ZoneID p \<noteq> []
    \<and> (k_ScenarioID task = ''patrol'' \<or> k_ScenarioID task = ''navigation'')"
  consider "\<not> ?c" | "?c" "\<not> fst ?z" | "?c" "fst ?z" by blast
  then show thesis
  proof cases
    case 1
    then show thesis by (intro steps) (simp only: run_scenario_def if_False)
  next
    case 2
    then show thesis by (intro occupied) (simp add: run_scenario_def split_beta)
  next
    case 3
    show thesis
      by (rule zone [of "snd ?z" ?w1]) (use 3 in \<open>simp_all add: run_scenario_def split_beta prod_eq_iff\<close>)
  qed
qed

lemma run_scenario_bus: "safe_extension (k_RobotID task) (w_bus w) (w_bus (run_scenario cfg env task p sc w))"
  by (cases rule: run_scenario_cases [of cfg env task p sc w])
    (metis inv_bus.I_run_steps inv_bus.I_finish terminal_simps(2) safe_extension_refl release_zone_frames(1))+

lemma run_scenario_one:
  "lawful_env env \<Longrightarrow> one_running (w_tasks w) \<Longrightarrow> one_running (w_tasks (run_scenario cfg env task p sc w))"
  by (cases rule: run_scenario_cases [of cfg env task p sc w])
    (metis inv_one.I_run_steps inv_one.I_finish terminal_simps(2) release_zone_frames(2))+

lemma run_scenario_ends:
  "\<forall>n. \<not> re_fail env n \<Longrightarrow> lawful_env env \<Longrightarrow> k_ID task \<in> dom (w_tasks w)
    \<Longrightarrow> ended (w_tasks (run_scenario cfg env task p sc w)) (k_ID task)"
  by (cases rule: run_scenario_cases [of cfg env task p sc w])
    (metis run_steps_ends finish_ends terminal_simps(2) release_zone_frames(2))+

lemma run_scenario_zones: "w_zones (run_scenario cfg env task p sc w) = w_zones w"
proof (cases rule: run_scenario_cases [of cfg env task p sc w])
  case (zone w1 zones)
  have "w_zones (run_steps cfg env task p (sc_Steps sc) w1) = zones"
    by (rule inv_zones.I_run_steps [OF zone(4)])
  then show ?thesis using release_after_acquire_locks [OF zone(1)] by (simp add: zone(5))
next
  case steps
  then show ?thesis by (simp add: inv_zones.I_run_steps)
qed simp

section \<open>The engine behind the runner\<close>

text \<open>
  The contract of \<^verbatim>\<open>ExecutionEngine\<close>. \<open>calm\<close>: the engine has a task store, and the other goroutines
  write to it lawfully while it runs.
\<close>

locale execution_engine =
  fixes exec :: exec_engine and calm :: bool
  assumes exec_bus: "exec task w = Some (h, w') \<Longrightarrow> safe_extension (k_RobotID task) (w_bus w) (w_bus w')"
    and exec_zones: "exec task w = Some (h, w') \<Longrightarrow> w_zones w' = w_zones w"
    and exec_one: "exec task w = Some (h, w') \<Longrightarrow> calm \<Longrightarrow> one_running (w_tasks w) \<Longrightarrow> one_running (w_tasks w')"
    and exec_dom: "exec task w = Some (h, w') \<Longrightarrow> calm \<Longrightarrow> i \<in> dom (w_tasks w) \<Longrightarrow> i \<in> dom (w_tasks w')"
    and exec_ends: "exec task w = Some (True, w') \<Longrightarrow> calm \<Longrightarrow> k_ID task \<in> dom (w_tasks w)
      \<Longrightarrow> ended (w_tasks w') (k_ID task)"
begin

text \<open>How a claimed task goes on.\<close>

lemma run_claimed_cases:
  assumes "run_claimed cfg env task sc w = Some w'" "rn_engine cfg = None \<or> rn_engine cfg = Some exec"
  obtains (mall) "k_ScenarioID task = ''mall_assistant''" "rn_mall cfg"
      "w_tasks w' = w_tasks w" "w_bus w' = w_bus w" "w_zones w' = w_zones w"
  | (scenario) w1 where "w_tasks w1 = w_tasks w" "w_bus w1 = w_bus w" "w_zones w1 = w_zones w"
      "w' = run_scenario cfg env task (task_payload task) sc w1"
  | (engine) w1 where "w_tasks w1 = w_tasks w" "w_bus w1 = w_bus w" "w_zones w1 = w_zones w"
      "exec (task\<lparr>k_Status := StatusRunning\<rparr>) w1 = Some (True, w')"
  | (unhandled) w1 w2 where "w_tasks w1 = w_tasks w" "w_bus w1 = w_bus w" "w_zones w1 = w_zones w"
      "exec (task\<lparr>k_Status := StatusRunning\<rparr>) w1 = Some (False, w2)"
      "w' = run_scenario cfg env task (task_payload task) sc w2"
proof -
  note fr = emitTaskStarted_frames(3,2,1) [of cfg task "task_payload task" w]
  show thesis using assms
    by (auto simp: run_claimed_def Let_def split: if_splits option.splits
        intro: mall scenario [OF fr] engine [OF fr] unhandled [OF fr])
qed

lemma run_claimed_bus:
  assumes "run_claimed cfg env task sc w = Some w'" "rn_engine cfg = None \<or> rn_engine cfg = Some exec"
  shows "safe_extension (k_RobotID task) (w_bus w) (w_bus w')"
  using assms
proof (cases rule: run_claimed_cases)
  case (engine w1)
  with exec_bus [OF engine(4)] show ?thesis by simp
next
  case (unhandled w1 w2)
  have "safe_extension (k_RobotID task) (w_bus w2) (w_bus w')" by (simp add: unhandled(5) run_scenario_bus)
  with exec_bus [OF unhandled(4)] unhandled(2) show ?thesis by (auto intro: safe_extension_trans)
next
  case (scenario w1)
  then show ?thesis by (metis run_scenario_bus)
qed simp

lemma run_claimed_zones:
  assumes "run_claimed cfg env task sc w = Some w'" "rn_engine cfg = None \<or> rn_engine cfg = Some exec"
  shows "w_zones w' = w_zones w"
  using assms by (cases rule: run_claimed_cases) (auto simp: run_scenario_zones dest!: exec_zones)

lemma run_claimed_one:
  assumes "run_claimed cfg env task sc w = Some w'" "rn_engine cfg = None \<or> rn_engine cfg = Some exec"
    and "calm" "lawful_env env" "one_running (w_tasks w)"
  shows "one_running (w_tasks w')"
  using assms(1,2)
  by (cases rule: run_claimed_cases) (use assms(3-) in \<open>auto simp: run_scenario_one dest!: exec_one\<close>)

lemma run_claimed_ends:
  assumes "run_claimed cfg env task sc w = Some w'" "rn_engine cfg = None \<or> rn_engine cfg = Some exec"
    and "calm" "lawful_env env" "\<forall>n. \<not> re_fail env n" "k_ID task \<in> dom (w_tasks w)"
    and "\<not> (k_ScenarioID task = ''mall_assistant'' \<and> rn_mall cfg)"
  shows "ended (w_tasks w') (k_ID task)"
  using assms(1,2)
proof (cases rule: run_claimed_cases)
  case (engine w1)
  with exec_ends [OF engine(4)] assms(3,6) show ?thesis by simp
next
  case (unhandled w1 w2)
  have "k_ID task \<in> dom (w_tasks w2)" using exec_dom [OF unhandled(4)] unhandled(1) assms(3,6) by simp
  then show ?thesis unfolding unhandled(5) by (intro run_scenario_ends assms)
next
  case (scenario w1)
  then show ?thesis using run_scenario_ends [OF assms(5,4)] assms(6) by simp
qed (use assms(7) in simp)

end

text \<open>
  The Robot Execution Engine on the runner's world; \<open>eenv w\<close> is what it meets when it starts in \<open>w\<close>.
  Its callback on completion is the runner's.
\<close>

definition engine_view :: "world \<Rightarrow> engine_state" where
  "engine_view w = \<lparr>en_ctxs = w_ctxs w, en_bus = w_bus w, en_events = w_events w,
     en_completed = [], en_tasks = w_tasks w\<rparr>"

definition engine_exec :: "EngineConfig \<Rightarrow> (world \<Rightarrow> engine_env) \<Rightarrow> exec_engine" where
  "engine_exec ec eenv task w =
     (case ExecuteTaskEntry ec (eenv w) task (engine_view w) of
        None \<Rightarrow> None
      | Some (handled, st) \<Rightarrow> Some (handled,
          w\<lparr>w_now := ee_end (eenv w), w_ctxs := en_ctxs st, w_bus := en_bus st,
            w_events := en_events st, w_tasks := en_tasks st,
            w_log := w_log w @ map (\<lambda>(t, r, s). TaskCompleted t r s) (en_completed st)\<rparr>))"

lemma engine_view_simps [simp]:
  "en_bus (engine_view w) = w_bus w" "en_tasks (engine_view w) = w_tasks w"
  "en_completed (engine_view w) = []" "en_ctxs (engine_view w) = w_ctxs w"
  by (simp_all add: engine_view_def)

text \<open>A task the engine does not handle leaves store and bus alone.\<close>

lemma ExecuteTaskEntry_unhandled:
  "ExecuteTaskEntry ec env task st = Some (False, st') \<Longrightarrow> st' = st"
  by (auto simp: ExecuteTaskEntry_def ExecuteNavigateToStore_def ExecuteReturnToBase_def engine_run_def
      executor_ExecuteTask_def executeNavigateToStore_def executeNavigation_def exec_result_def
      exec_missing_def Let_def split: if_splits option.splits)

lemma ExecuteTaskEntry_bus:
  assumes "ExecuteTaskEntry ec env task st = Some (h, st')"
  shows "safe_extension (k_RobotID task) (en_bus st) (en_bus st')"
proof (cases h)
  case False
  with ExecuteTaskEntry_unhandled [of ec env task st st'] assms show ?thesis by simp
next
  case True
  have stop: "safe_extension (k_RobotID task) out (out @ [safe_stop_command now (k_RobotID task) []])" for out now
    by (simp add: safe_extension_snoc)
  from assms True have "ExecuteTaskEntry ec env task st = Some (True, st')" by simp
  then show ?thesis
  proof (cases rule: ExecuteTaskEntry_cases)
    case (store res out st3 ts d)
    have "safe_extension (k_RobotID task) (en_bus st) out"
      using executor_out [OF store(2)] by (simp add: safe_extension_def)
    with stop store(4,8) show ?thesis by (auto simp: handle_results_bus intro: safe_extension_trans)
  next
    case (return res out st3)
    have "safe_extension (k_RobotID task) (en_bus st) out"
      using executor_out [OF return(2)] by (simp add: safe_extension_def)
    with stop return(4,8) show ?thesis by (auto simp: handle_results_bus intro: safe_extension_trans)
  qed
qed

lemma ExecuteTaskEntry_tasks:
  assumes "ExecuteTaskEntry ec env task st = Some (True, st')" "ec_taskStore ec"
  shows "\<exists>status. terminal status \<and> en_tasks st' =
    tasks_UpdateStatusAndCompletedAt (ee_end env) (k_ID task) status (ee_end env)
      (ee_interfere env (en_tasks st))"
proof -
  have t: "terminal (final_status ec res)" for res
    by (simp add: final_status_def fail_status_def)
  from assms(1) show ?thesis
    by (cases rule: ExecuteTaskEntry_cases) (use t handle_results_tasks [OF assms(2)] in auto)
qed

definition engine_calm :: "EngineConfig \<Rightarrow> (world \<Rightarrow> engine_env) \<Rightarrow> bool" where
  "engine_calm ec eenv \<longleftrightarrow> ec_taskStore ec \<and> (\<forall>w. lawful (ee_interfere (eenv w)))"

lemma engine_exec_tasks:
  assumes "engine_exec ec eenv task w = Some (h, w')" "engine_calm ec eenv"
  shows "\<exists>s status now. others_write (w_tasks w) s \<and> terminal status \<and>
    w_tasks w' = (if h then tasks_UpdateStatusAndCompletedAt now (k_ID task) status now s else w_tasks w)"
proof -
  from assms(1) obtain st where st: "ExecuteTaskEntry ec (eenv w) task (engine_view w) = Some (h, st)"
    and w': "w_tasks w' = en_tasks st" by (auto simp: engine_exec_def split: option.splits)
  have ow: "others_write (w_tasks w) (ee_interfere (eenv w) (w_tasks w))"
    using assms(2) by (simp add: engine_calm_def lawful_def)
  show ?thesis
  proof (cases h)
    case True
    with ExecuteTaskEntry_tasks [of ec "eenv w" task "engine_view w" st] st assms(2)
    show ?thesis unfolding w' engine_calm_def using ow by auto
  next
    case False
    with ExecuteTaskEntry_unhandled [of ec "eenv w" task "engine_view w" st] st
    have "w_tasks w' = w_tasks w" by (simp add: w')
    with False ow terminal_simps(1) show ?thesis by metis
  qed
qed

interpretation robot_engine: execution_engine "engine_exec ec eenv" "engine_calm ec eenv" for ec eenv
proof (unfold_locales, goal_cases)
  case (1 task w h w')
  then show ?case using ExecuteTaskEntry_bus [of ec "eenv w" task "engine_view w" h]
    by (auto simp: engine_exec_def split: option.splits)
next
  case (2 task w h w')
  then show ?case by (auto simp: engine_exec_def split: option.splits)
next
  case (3 task w h w')
  then show ?case using engine_exec_tasks [OF 3(1,2)]
    by (metis one_running_end others_write_one_running)
next
  case (4 task w h w' i)
  then show ?case using engine_exec_tasks [OF 4(1,2)] by (metis others_write_dom tasks_dom(2))
next
  case (5 task w w')
  then show ?case using engine_exec_tasks [OF 5(1,2)] by (metis finish_ended others_write_dom)
qed

section \<open>One iteration\<close>

definition claim :: "Task \<Rightarrow> world \<Rightarrow> world" where
  "claim task w = w\<lparr>w_tasks := tasks_UpdateStatus (w_now w) (k_ID task) StatusRunning (w_tasks w)\<rparr>"

lemma claim_frames [simp]:
  "w_bus (claim task w) = w_bus w" "w_zones (claim task w) = w_zones w"
  "dom (w_tasks (claim task w)) = dom (w_tasks w)"
  by (simp_all add: claim_def)

definition syncs :: "runner_env \<Rightarrow> nat \<Rightarrow> world \<Rightarrow> world" where
  "syncs env n w = (sync env ^^ n) w"

lemma syncs_frames [simp]:
  "w_bus (syncs env n w) = w_bus w" "w_zones (syncs env n w) = w_zones w"
  "w_tick (syncs env n w) = w_tick w + n"
  by (induction n) (simp_all add: syncs_def)

lemma syncs_one: "lawful_env env \<Longrightarrow> one_running (w_tasks w) \<Longrightarrow> one_running (w_tasks (syncs env n w))"
  by (induction n) (simp_all add: syncs_def others_write_one_running [OF lawful_env_write])

lemma syncs_add: "syncs env (m + n) w = syncs env n (syncs env m w)"
  by (simp add: syncs_def funpow_add add.commute [of m n])

text \<open>The pending tasks the iteration sees, in the order of the listing.\<close>

definition pending_of :: "runner_env \<Rightarrow> world \<Rightarrow> Task list" where
  "pending_of env w = (let w1 = sync env w in
     tasks_List (re_order env (here w1) (w_tasks w1)) pending_filter (w_tasks w1))"

lemma runOne_cases:
  assumes "runOne cfg env w = Some w'"
  obtains (idle) n where "w' = syncs env n w"
  | (rejected) n where "pending_of env w \<noteq> []"
      "w' = finish cfg env (hd (pending_of env w)) StatusFailed (syncs env n w)"
  | (claimed) scenario where "pending_of env w \<noteq> []"
      "\<not> HasRunningForRobot (re_order env (Suc (w_tick w)) (w_tasks (syncs env 2 w)))
           (k_RobotID (hd (pending_of env w))) (w_tasks (syncs env 2 w))"
      "catalog_Get (re_catalog env) (k_ScenarioID (hd (pending_of env w))) = Some scenario"
      "HasCapability (re_registry env (w_tick w + 3) (k_RobotID (hd (pending_of env w))))
         (sc_RequiredCapabilities scenario)"
      "run_claimed cfg env (hd (pending_of env w)) scenario
         (claim (hd (pending_of env w)) (syncs env 5 w)) = Some w'"
proof -
  let ?task = "hd (pending_of env w)"
  have u: "syncs env 1 w = sync env w" "syncs env 2 w = sync env (sync env w)"
    "syncs env 3 w = sync env (sync env (sync env w))"
    "syncs env 4 w = sync env (sync env (sync env (sync env w)))"
    "syncs env 5 w = sync env (sync env (sync env (sync env (sync env w))))"
    by (simp_all add: syncs_def eval_nat_numeral)
  show thesis using assms unfolding runOne_def Let_def
    by (auto simp: u claim_def pending_of_def Let_def eval_nat_numeral split: if_splits option.splits
        intro: idle [of 1, unfolded u] idle [of 2, unfolded u] idle [of 3, unfolded u]
          idle [of 5, unfolded u] rejected [of 3, unfolded u] rejected [of 4, unfolded u]
          claimed [unfolded u claim_def])
qed

section \<open>The outcome of the steps\<close>

text \<open>
  How a run of the steps may end, given what it has published: all the steps in order; a prefix of
  them; or a prefix and the emergency stop.
\<close>

definition steps_outcome :: "Task \<Rightarrow> ScenarioStep list \<Rightarrow> Status \<Rightarrow> Command list \<Rightarrow> bool" where
  "steps_outcome task steps status cs \<longleftrightarrow>
     (status = StatusCompleted \<and> map c_Command cs = map ss_Command steps)
     \<or> (status = StatusFailed \<and> (\<exists>k < length steps. map c_Command cs = map ss_Command (take k steps)))
     \<or> (status = StatusCancelled \<and> (\<exists>k \<le> length steps. \<exists>now front.
          cs = front @ [safe_stop_command now (k_RobotID task) (k_OperatorID task)]
          \<and> map c_Command front = map ss_Command (take k steps)))"

lemma steps_outcome_Cons:
  "steps_outcome task steps status cs \<Longrightarrow> c_Command c = ss_Command step
    \<Longrightarrow> steps_outcome task (step # steps) status (c # cs)"
  unfolding steps_outcome_def by (elim disjE conjE exE) (auto 0 3 intro!: exI [of _ "Suc _"] exI [of _ "c # _"])

text \<open>The world of a run differs from the first one by an outcome on the bus and one event.\<close>

definition run_reports :: "Task \<Rightarrow> ScenarioStep list \<Rightarrow> world \<Rightarrow> world \<Rightarrow> bool" where
  "run_reports task steps w w' \<longleftrightarrow> (\<exists>status cs. steps_outcome task steps status cs
     \<and> w_bus w' = w_bus w @ cs
     \<and> w_log w' = w_log w @ [TaskCompleted (k_ID task) (k_RobotID task) (status_string status)])"

lemma run_reportsI:
  "steps_outcome task steps status cs \<Longrightarrow> w_bus w' = w_bus w @ cs
    \<Longrightarrow> w_log w' = w_log w @ [TaskCompleted (k_ID task) (k_RobotID task) (status_string status)]
    \<Longrightarrow> run_reports task steps w w'"
  by (auto simp: run_reports_def)

definition cancel_reports :: "Task \<Rightarrow> world \<Rightarrow> world \<Rightarrow> bool" where
  "cancel_reports task w w' \<longleftrightarrow>
     (\<exists>now. w_bus w' = w_bus w @ [safe_stop_command now (k_RobotID task) (k_OperatorID task)])
     \<and> w_log w' = w_log w @ [TaskCompleted (k_ID task) (k_RobotID task) (status_string StatusCancelled)]"

lemma cancel_exit_reports:
  "rn_onTaskCompleted cfg \<Longrightarrow> \<forall>n. re_pub env n \<Longrightarrow> w_bus w1 = w_bus w \<Longrightarrow> w_log w1 = w_log w
    \<Longrightarrow> cancel_reports task w (cancel_exit cfg env task w1)"
  by (auto simp: cancel_reports_def cancel_exit_def sendSafeStop_publish)

lemma cancel_run_reports: "cancel_reports task w w' \<Longrightarrow> run_reports task steps w w'"
  unfolding cancel_reports_def
  by (elim conjE exE, rule run_reportsI [where status = StatusCancelled])
    (auto simp: steps_outcome_def intro!: exI [of _ "0::nat"])

lemma hold_loop_reports:
  assumes "rn_onTaskCompleted cfg" "\<forall>n. re_pub env n"
  shows "if fst (hold_loop cfg env task deadline w)
    then cancel_reports task w (snd (hold_loop cfg env task deadline w))
    else w_bus (snd (hold_loop cfg env task deadline w)) = w_bus w
      \<and> w_log (snd (hold_loop cfg env task deadline w)) = w_log w
      \<and> deadline \<le> w_now (snd (hold_loop cfg env task deadline w))"
proof (induction w rule: hold_loop_induct [where env = env and task = task and deadline = deadline])
  case (1 w)
  have s: "w_bus (slept env w) = w_bus w" "w_log (slept env w) = w_log w"
    "w_bus (sync env w) = w_bus w" "w_log (sync env w) = w_log w" by (simp_all add: slept_def)
  show ?case
  proof (cases "w_now w < deadline \<and> \<not> re_done env (w_tick w) \<and> \<not> sees_cancelled env task (sync env w)")
    case True
    then show ?thesis using 1 s
      by (simp add: hold_loop_unfold [of cfg env task deadline w] cancel_reports_def split: if_splits)
  next
    case False
    then show ?thesis using cancel_exit_reports [OF assms s(3,4)]
      by (auto simp: hold_loop_unfold [of cfg env task deadline w])
  qed
qed

lemma hold_reports:
  assumes "rn_onTaskCompleted cfg" "\<forall>n. re_pub env n"
  shows "if fst (hold cfg env task d w) then cancel_reports task w (snd (hold cfg env task d w))
    else w_bus (snd (hold cfg env task d w)) = w_bus w \<and> w_log (snd (hold cfg env task d w)) = w_log w"
  using hold_loop_reports [OF assms, of task "hold_deadline (w_now w) d" w]
  by (simp add: hold_def split: if_splits)

lemma run_steps_reports:
  assumes "rn_onTaskCompleted cfg" "\<forall>n. re_pub env n"
  shows "run_reports task steps w (run_steps cfg env task p steps w)"
proof (induction steps arbitrary: w)
  case Nil
  show ?case using assms by (intro run_reportsI [where status = StatusCompleted and cs = "[]"])
      (auto simp: steps_outcome_def)
next
  case (Cons step steps)
  let ?cmd = "step_command (w_now (sync env w)) task p step"
  let ?w2 = "snd (publish env ?cmd (sync env w))"
  let ?h = "hold cfg env task (step_duration p step) ?w2"
  have cmd: "c_Command ?cmd = ss_Command step" by (simp add: step_command_def)
  have failed: "run_reports task (step # steps) w (finish cfg env task StatusFailed w1)"
    if "w_bus w1 = w_bus w" "w_log w1 = w_log w" for w1
    by (rule run_reportsI [where status = StatusFailed and cs = "[]"])
      (use assms that in \<open>auto simp: steps_outcome_def\<close>)
  have later: "run_reports task (step # steps) w w'"
    if "fst (publish env ?cmd (sync env w))" "run_reports task steps ?w2 w'" for w'
  proof -
    from that(2) obtain status cs where o: "steps_outcome task steps status cs"
      and w': "w_bus w' = w_bus ?w2 @ cs"
        "w_log w' = w_log ?w2 @ [TaskCompleted (k_ID task) (k_RobotID task) (status_string status)]"
      by (auto simp: run_reports_def)
    show ?thesis
      by (rule run_reportsI [OF steps_outcome_Cons [OF o cmd]]) (use w' that(1) in simp_all)
  qed
  note hold = hold_reports [OF assms, of task "step_duration p step" ?w2]
  have rest: "run_reports task steps ?w2 (run_steps cfg env task p steps (snd ?h))" if "\<not> fst ?h"
    using Cons.IH [of "snd ?h"] hold that by (simp add: run_reports_def)
  have stop: "run_reports task steps ?w2 (snd ?h)" if "fst ?h"
    using hold that by (simp add: cancel_run_reports)
  have cancel: "run_reports task (step # steps) w (cancel_exit cfg env task (sync env w))"
    by (rule cancel_run_reports, rule cancel_exit_reports [OF assms]) simp_all
  have unsent: "run_reports task (step # steps) w (finish cfg env task StatusFailed ?w2)"
    if "\<not> fst (publish env ?cmd (sync env w))"
    by (rule failed) (use that in simp_all)
  show ?case unfolding run_steps_Cons Let_def
    using later stop rest cancel unsent failed [of "sync env w"]
    by (simp del: sync_frames(6-) publish_frames finish_frames split: if_splits)
qed

end
