(* ===== verification/Runner_Correct.thy ===== *)
theory Runner_Correct
  imports Task_Runner
begin

text \<open>
  What an iteration of the Task Runner guarantees, for every interleaving with the other goroutines:
  the properties of \<^verbatim>\<open>runOne\<close>, and concrete runs that show their hypotheses can hold.
\<close>

text \<open>The engine is absent, or it is the Robot Execution Engine.\<close>

definition engine_configured :: "RunnerConfig \<Rightarrow> EngineConfig \<Rightarrow> (world \<Rightarrow> engine_env) \<Rightarrow> bool" where
  "engine_configured cfg ec eenv \<longleftrightarrow> rn_engine cfg = None \<or> rn_engine cfg = Some (engine_exec ec eenv)"

text \<open>The two listings of an iteration range over the whole store.\<close>

definition fair_order :: "runner_env \<Rightarrow> world \<Rightarrow> bool" where
  "fair_order env w \<longleftrightarrow>
     go_range (w_tasks (syncs env 1 w)) (re_order env (w_tick w) (w_tasks (syncs env 1 w)))
     \<and> go_range (w_tasks (syncs env 2 w)) (re_order env (Suc (w_tick w)) (w_tasks (syncs env 2 w)))"

lemma syncs_1 [simp]: "syncs env (Suc 0) w = sync env w"
  by (simp add: syncs_def)

lemma syncs_Suc: "syncs env (Suc n) w = sync env (syncs env n w)"
  by (simp add: syncs_def)

lemma pending_head:
  assumes "fair_order env w" "pending_of env w \<noteq> []" "keyed (w_tasks (syncs env 1 w))"
  shows "w_tasks (syncs env 1 w) (k_ID (hd (pending_of env w))) = Some (hd (pending_of env w))"
    and "k_Status (hd (pending_of env w)) = StatusPending"
proof -
  let ?t = "hd (pending_of env w)"
  have "?t \<in> set (pending_of env w)" using assms(2) by simp
  then have "(\<exists>i. w_tasks (syncs env 1 w) i = Some ?t) \<and> k_Status ?t = StatusPending"
    using assms(1) by (simp add: pending_of_def fair_order_def tasks_List_in pending_match Let_def)
  then show "w_tasks (syncs env 1 w) (k_ID ?t) = Some ?t" "k_Status ?t = StatusPending"
    using assms(3) by (auto simp: keyed_def)
qed

lemma syncs_keyed: "lawful_env env \<Longrightarrow> keyed (w_tasks w) \<Longrightarrow> keyed (w_tasks (syncs env n w))"
  by (induction n) (simp_all add: syncs_def others_write_keyed [OF lawful_env_write])

lemma syncs_later:
  assumes "lawful_env env" "w_tasks (syncs env m w) i = Some t" "m \<le> n"
  shows "\<exists>t'. w_tasks (syncs env n w) i = Some t' \<and> k_RobotID t' = k_RobotID t"
  using assms(3)
proof (induction n rule: dec_induct)
  case base
  then show ?case using assms(2) by simp
next
  case (step n)
  then obtain t' where "w_tasks (syncs env n w) i = Some t'" "k_RobotID t' = k_RobotID t" by blast
  then show ?case
    using others_write_Some [OF lawful_env_write [OF assms(1)], of "w_tasks (syncs env n w)" i t']
    by (auto simp: syncs_Suc)
qed

lemma syncs_running:
  assumes "lawful_env env" "m \<le> n"
  shows "running_tasks (w_tasks (syncs env n w)) r \<subseteq> running_tasks (w_tasks (syncs env m w)) r"
  using assms(2)
proof (induction n rule: dec_induct)
  case (step n)
  then show ?case
    using others_write_running [OF lawful_env_write [OF assms(1)], of _ "w_tasks (syncs env n w)" r]
    by (auto simp: syncs_Suc)
qed simp

lemma claim_one_running:
  assumes "lawful_env env" "fair_order env w" "keyed (w_tasks w)" "one_running (w_tasks w)"
    and "pending_of env w \<noteq> []"
    and "\<not> HasRunningForRobot (re_order env (Suc (w_tick w)) (w_tasks (syncs env 2 w)))
           (k_RobotID (hd (pending_of env w))) (w_tasks (syncs env 2 w))"
  shows "one_running (w_tasks (claim (hd (pending_of env w)) (syncs env 5 w)))"
proof -
  let ?t = "hd (pending_of env w)"
  note k = pending_head [OF assms(2,5) syncs_keyed [OF assms(1,3)]]
  obtain t' where t': "w_tasks (syncs env 5 w) (k_ID ?t) = Some t'" "k_RobotID t' = k_RobotID ?t"
    using syncs_later [OF assms(1) k(1), of 5] by auto
  have "running_tasks (w_tasks (syncs env 2 w)) (k_RobotID ?t) = {}"
    using assms(2,6) by (simp add: fair_order_def HasRunningForRobot_iff)
  then have "running_tasks (w_tasks (syncs env 5 w)) (k_RobotID t') = {}"
    using syncs_running [OF assms(1), of 2 5 w "k_RobotID ?t"] t'(2) by simp
  with one_running_start [OF syncs_one [OF assms(1,4)] t'(1)] show ?thesis by (simp add: claim_def)
qed

text \<open>An engine whose waits end; without an engine the iteration always returns.\<close>

definition engine_ticks :: "(world \<Rightarrow> engine_env) \<Rightarrow> bool" where
  "engine_ticks eenv \<longleftrightarrow> (\<forall>w. ticks_past (ee_nav (eenv w)) (60 * second))"

lemma engine_exec_returns: "engine_ticks eenv \<Longrightarrow> engine_exec ec eenv task w \<noteq> None"
  using ExecuteTaskEntry_returns [of "eenv w" ec task "engine_view w"]
  by (auto simp: engine_exec_def engine_ticks_def split: option.split)

lemma run_claimed_returns:
  "engine_configured cfg ec eenv \<Longrightarrow> engine_ticks eenv \<Longrightarrow> run_claimed cfg env task sc w \<noteq> None"
  using engine_exec_returns [of eenv ec "task\<lparr>k_Status := StatusRunning\<rparr>"
      "emitTaskStarted cfg task (task_payload task) w"]
  by (auto simp: run_claimed_def engine_configured_def Let_def split: option.splits)

lemma runOne_returns:
  "engine_configured cfg ec eenv \<Longrightarrow> engine_ticks eenv \<Longrightarrow> runOne cfg env w \<noteq> None"
  by (simp add: runOne_def Let_def run_claimed_returns del: not_None_eq split: option.split)

section \<open>Concrete runs\<close>

definition demo_robot :: Robot where
  "demo_robot = \<lparr>r_ID = ''r1'', r_Vendor = ''v'', r_Model = ''m'', r_AdapterEndpoint = [],
     r_TenantID = ''default'', r_EdgeID = [], r_Location = [], r_Capabilities = [CapStand, CapWalk, CapNavigation],
     r_CreatedAt = 1, r_UpdatedAt = 1\<rparr>"

definition demo_task :: Task where
  "demo_task = \<lparr>k_ID = ''t1'', k_RobotID = ''r1'', k_TenantID = ''default'', k_Type = ''scenario'',
     k_ScenarioID = ''standby'', k_Payload = RawEmpty, k_Status = StatusPending, k_CreatedAt = 1,
     k_UpdatedAt = 1, k_CompletedAt = None, k_OperatorID = ''console''\<rparr>"

definition demo_world :: world where
  "demo_world = \<lparr>w_now = 1, w_tick = 0, w_tasks = [''t1'' \<mapsto> demo_task], w_zones = NewCoordinator,
     w_bus = [], w_log = [], w_ctxs = Map.empty, w_events = []\<rparr>"

text \<open>Other goroutines that do nothing but run \<open>f\<close> before the access with number 4, the claim.\<close>

definition demo_env :: "(task_store \<Rightarrow> task_store) \<Rightarrow> runner_env" where
  "demo_env f = \<lparr>re_delay = (\<lambda>n. 0), re_tasks = (\<lambda>n s. if n = 4 then f s else s),
     re_order = (\<lambda>n s. [''t1'']), re_fail = (\<lambda>n. False), re_done = (\<lambda>n. False), re_pub = (\<lambda>n. True),
     re_registry = (\<lambda>n r. if r = ''r1'' then Some demo_robot else None),
     re_catalog = NewCatalog\<rparr>"

text \<open>A navigation that arrives on its first telemetry message.\<close>

definition demo_nav_task :: Task where
  "demo_nav_task = demo_task\<lparr>k_ScenarioID := ''navigate_to_store'',
     k_Payload := RawJson (JObj [(''target_coordinates'', JStr ''4,2''), (''store_name'', JStr ''Nike'')])\<rparr>"

definition demo_telemetry :: "real \<Rightarrow> Telemetry" where
  "demo_telemetry d = \<lparr>tm_RobotID = ''r1'', tm_Timestamp = 2, tm_Online = True, tm_ActuatorStatus = ''enabled'',
     tm_MockMode = False, tm_IMU = None, tm_JointStates = [], tm_CurrentTask = [], tm_Position = [],
     tm_TargetPosition = [], tm_DistanceToTarget = Some d\<rparr>"

definition demo_eenv :: "world \<Rightarrow> engine_env" where
  "demo_eenv w = \<lparr>ee_nav = \<lparr>nx_clock = (\<lambda>n. 1), nx_walk_ok = True, nx_nav_ok = True, nx_sub_ok = True,
       nx_inputs = [NavTelemetry (demo_telemetry 5), NavTelemetry (demo_telemetry (1 / 2)), NavDone,
         NavTick (2 + 60 * second)]\<rparr>,
     ee_start = 1, ee_end = 3, ee_stop_ok = True, ee_interfere = (\<lambda>s. s)\<rparr>"

definition demo_ec :: EngineConfig where
  "demo_ec = \<lparr>ec_broadcaster = True, ec_taskStore = True, ec_onTaskCompleted = True,
     ec_timeoutAsCompletion = False, ec_nav = NewNavigationExecutor 1 (120 * second)\<rparr>"

definition demo_cfg :: RunnerConfig where
  "demo_cfg = \<lparr>rn_coordinator = True, rn_mall = False, rn_engine = Some (engine_exec demo_ec demo_eenv), rn_onTaskCompleted = True,
     rn_onTaskStarted = True, rn_onZoneAcquired = True, rn_onZoneReleased = True\<rparr>"

definition demo_nav_world :: world where
  "demo_nav_world = demo_world\<lparr>w_tasks := [''t1'' \<mapsto> demo_nav_task]\<rparr>"

lemmas demo_defs = demo_robot_def demo_task_def demo_world_def demo_nav_world_def
  demo_nav_task_def demo_env_def demo_cfg_def

lemmas runner_eval = demo_defs run_steps_Cons Let_def sync_def here_def sees_cancelled_def publish_def
  PublishCommand_def marshal_ok_def hold_def step_duration_def step_command_def step_payload_def
  task_payload_def finish_def emitTaskCompleted_def emitTaskStarted_def log_if_def SafetyAllow_def
  tasks_Get_def unmarshal_lenient_def task_payload_zero_def standby_scenario_def runOne_def
  run_claimed_def run_scenario_def tasks_List_def task_match_def pending_filter_def
  HasRunningForRobot_def catalog_Get_def GetForTenant_def NewCatalog_def registerDefaults_def
  HasCapability_def cap_defs tasks_UpdateStatus_def tasks_UpdateStatusAndCompletedAt_def

lemma demo_config:
  "engine_configured demo_cfg demo_ec demo_eenv" "engine_ticks demo_eenv" "engine_calm demo_ec demo_eenv"
  "lawful_env (demo_env (\<lambda>s. s))" "\<not> re_fail (demo_env f) n"
  by (simp_all add: engine_configured_def demo_cfg_def engine_ticks_def ticks_past_def demo_eenv_def
      engine_calm_def demo_ec_def lawful_env_def demo_env_def)

lemma demo_stores:
  "fair_order (demo_env (\<lambda>s. s)) demo_world" "fair_order (demo_env (\<lambda>s. s)) demo_nav_world"
  "keyed (w_tasks demo_world)" "keyed (w_tasks demo_nav_world)" "one_running (w_tasks demo_world)"
  by (auto simp: fair_order_def go_range_def keyed_def one_running_def running_tasks_def demo_defs
      syncs_def eval_nat_numeral sync_def split: if_splits)

section \<open>Properties of an iteration\<close>

text \<open>
  C2. Every command that an iteration of the runner publishes, on whatever path (steps, engine,
  emergency stop), has passed the safety filter and is addressed to the robot of the first
  pending task; when no task is pending, nothing is published.
\<close>

theorem runOne_commands_safe:
  assumes "runOne cfg env w = Some w'" "engine_configured cfg ec eenv"
  shows "\<exists>cs. w_bus w' = w_bus w @ cs
    \<and> (\<forall>c \<in> set cs. SafetyAllow c \<and> pending_of env w \<noteq> [] \<and> c_RobotID c = k_RobotID (hd (pending_of env w)))"
  using assms(1)
proof (cases rule: runOne_cases)
  case (claimed sc)
  with robot_engine.run_claimed_bus [OF claimed(5), of ec eenv] assms(2) show ?thesis
    by (simp add: engine_configured_def safe_extension_def)
qed simp_all

theorem runOne_commands_safe_witness:
  "\<exists>w'. runOne demo_cfg (demo_env (\<lambda>s. s)) demo_nav_world = Some w'
    \<and> map c_Command (w_bus w') = [''walk_mode'', ''navigate_to'']
    \<and> (\<exists>cs. w_bus w' = w_bus demo_nav_world @ cs
      \<and> (\<forall>c \<in> set cs. SafetyAllow c \<and> pending_of (demo_env (\<lambda>s. s)) demo_nav_world \<noteq> []
        \<and> c_RobotID c = k_RobotID (hd (pending_of (demo_env (\<lambda>s. s)) demo_nav_world))))"
proof -
  have e: "map_option (\<lambda>w. map c_Command (w_bus w)) (runOne demo_cfg (demo_env (\<lambda>s. s)) demo_nav_world)
      = Some [''walk_mode'', ''navigate_to'']" by code_simp
  then obtain w' where w': "runOne demo_cfg (demo_env (\<lambda>s. s)) demo_nav_world = Some w'" by blast
  with e runOne_commands_safe [OF w' demo_config(1)] show ?thesis by simp
qed

text \<open>
  C3. Exclusive execution: if no robot has two running tasks before an iteration, none has after it,
  although the check for a running task and the claim of the task are separate accesses to the store.
\<close>

theorem runOne_one_running:
  assumes "runOne cfg env w = Some w'" "engine_configured cfg ec eenv"
    and "lawful_env env" "engine_calm ec eenv" "fair_order env w"
    and "keyed (w_tasks w)" "one_running (w_tasks w)"
  shows "one_running (w_tasks w')"
  using assms(1)
proof (cases rule: runOne_cases)
  case (idle n)
  with syncs_one [OF assms(3,7)] show ?thesis by simp
next
  case (rejected n)
  with inv_one.I_finish syncs_one [OF assms(3,7)] terminal_simps(2) assms(3) show ?thesis by metis
next
  case (claimed sc)
  have "one_running (w_tasks (claim (hd (pending_of env w)) (syncs env 5 w)))"
    by (rule claim_one_running [OF assms(3,5,6,7) claimed(1,2)])
  with robot_engine.run_claimed_one [OF claimed(5) _ assms(4,3)] assms(2) show ?thesis
    by (simp add: engine_configured_def)
qed

theorem runOne_one_running_witness:
  "\<exists>w'. runOne demo_cfg (demo_env (\<lambda>s. s)) demo_world = Some w' \<and> one_running (w_tasks w')"
proof -
  obtain w' where w': "runOne demo_cfg (demo_env (\<lambda>s. s)) demo_world = Some w'"
    using runOne_returns [OF demo_config(1,2)] by blast
  with runOne_one_running [OF w' demo_config(1,4,3) demo_stores(1,3,5)] show ?thesis by blast
qed

text \<open>
  C5. Zones do not leak: an iteration that returns leaves the table of zone locks as it found it,
  on every path, failed and cancelled runs included.
\<close>

theorem runOne_zones:
  assumes "runOne cfg env w = Some w'" "engine_configured cfg ec eenv"
  shows "w_zones w' = w_zones w"
  using assms(1)
proof (cases rule: runOne_cases)
  case (claimed sc)
  with robot_engine.run_claimed_zones [OF claimed(5), of ec eenv] assms(2) show ?thesis
    by (simp add: engine_configured_def)
qed simp_all

theorem runOne_zones_witness:
  "\<exists>w'. runOne demo_cfg (demo_env (\<lambda>s. s)) demo_world = Some w' \<and> w_zones w' = w_zones demo_world"
proof -
  obtain w' where w': "runOne demo_cfg (demo_env (\<lambda>s. s)) demo_world = Some w'"
    using runOne_returns [OF demo_config(1,2)] by blast
  with runOne_zones [OF w' demo_config(1)] show ?thesis by blast
qed

text \<open>The iteration when nothing keeps it from taking up the first pending task.\<close>

lemma runOne_progress:
  fixes env w defines "t \<equiv> hd (pending_of env w)"
  assumes "\<forall>n. \<not> re_fail env n" "pending_of env w \<noteq> []"
    and "\<not> HasRunningForRobot (re_order env (Suc (w_tick w)) (w_tasks (syncs env 2 w)))
      (k_RobotID t) (w_tasks (syncs env 2 w))"
    and "\<forall>n. re_registry env n (k_RobotID t) \<noteq> None"
  shows "runOne cfg env w =
    (case catalog_Get (re_catalog env) (k_ScenarioID t) of
       None \<Rightarrow> Some (finish cfg env t StatusFailed (syncs env 3 w))
     | Some sc \<Rightarrow>
         if HasCapability (re_registry env (w_tick w + 3) (k_RobotID t)) (sc_RequiredCapabilities sc)
         then run_claimed cfg env t sc (claim t (syncs env 5 w))
         else Some (finish cfg env t StatusFailed (syncs env 4 w)))"
proof -
  have u: "syncs env 2 w = sync env (sync env w)" "syncs env 3 w = sync env (sync env (sync env w))"
    "syncs env 4 w = sync env (sync env (sync env (sync env w)))"
    "syncs env 5 w = sync env (sync env (sync env (sync env (sync env w))))"
    by (simp_all add: syncs_def eval_nat_numeral)
  have n: "w_tick w + 3 = Suc (Suc (Suc (w_tick w)))" by simp
  show ?thesis using assms(2-) unfolding runOne_def Let_def t_def
    by (simp add: u n claim_def pending_of_def Let_def del: not_None_eq split: option.split)
qed

text \<open>
  C4. Progress: an iteration returns, and the first pending task has then ended, with a final status and an instant of completion,
  when the following holds. The task store files tasks under their identifiers, its statements succeed, the listings range over the whole store, and other goroutines write lawfully;
  the robot of the task is registered throughout and has no running task when the iteration looks; the engine is absent, or is the Robot
  Execution Engine with the task store, a clock that ticks past the deadline of its navigations, and lawful writers beside it; and the task
  is not one for the mall assistant where an assistant is configured, for such a task is handed over and left running.
\<close>

theorem runOne_completes:
  fixes env w defines "t \<equiv> hd (pending_of env w)"
  assumes cfg: "engine_configured cfg ec eenv" "engine_ticks eenv" "engine_calm ec eenv"
    and env: "lawful_env env" "\<forall>n. \<not> re_fail env n" "fair_order env w"
    and store: "keyed (w_tasks w)"
    and task: "pending_of env w \<noteq> []" "\<not> (k_ScenarioID t = ''mall_assistant'' \<and> rn_mall cfg)"
      "running_tasks (w_tasks (syncs env 2 w)) (k_RobotID t) = {}"
    and robot: "\<forall>n. re_registry env n (k_RobotID t) \<noteq> None"
  shows "\<exists>w'. runOne cfg env w = Some w' \<and> ended (w_tasks w') (k_ID t)"
proof -
  obtain w' where w': "runOne cfg env w = Some w'" using runOne_returns [OF cfg(1,2)] by blast
  note k = pending_head [OF env(3) task(1) syncs_keyed [OF env(1) store]]
  have dom: "k_ID t \<in> dom (w_tasks (syncs env n w))" if "1 \<le> n" for n
    using syncs_later [OF env(1) k(1) that] by (auto simp: t_def)
  have nr: "\<not> HasRunningForRobot (re_order env (Suc (w_tick w)) (w_tasks (syncs env 2 w)))
      (k_RobotID t) (w_tasks (syncs env 2 w))"
    using env(3) task(3) by (simp add: fair_order_def HasRunningForRobot_iff)
  note run = runOne_progress [OF env(2) task(1) nr [unfolded t_def] robot [unfolded t_def], of cfg, folded t_def]
  have fin: "ended (w_tasks (finish cfg env t StatusFailed (syncs env n w))) (k_ID t)" if "1 \<le> n" for n
    by (rule finish_ends) (use env dom [OF that] in simp_all)
  have claimed: "ended (w_tasks w') (k_ID t)"
    if "run_claimed cfg env t sc (claim t (syncs env 5 w)) = Some w'" for sc
    using robot_engine.run_claimed_ends [OF that _ cfg(3) env(1,2) _ task(2)] dom [of 5] cfg(1)
    by (simp add: engine_configured_def del: domIff)
  have "ended (w_tasks w') (k_ID t)"
    using w' unfolding run by (auto intro: fin claimed simp del: finish_frames split: option.splits if_splits)
  with w' show ?thesis by blast
qed

theorem runOne_completes_witness:
  "\<exists>w'. runOne demo_cfg (demo_env (\<lambda>s. s)) demo_nav_world = Some w' \<and> ended (w_tasks w') ''t1''"
proof -
  have p: "pending_of (demo_env (\<lambda>s. s)) demo_nav_world = [demo_nav_task]"
    by (simp add: pending_of_def demo_defs sync_def here_def tasks_List_def task_match_def pending_filter_def)
  have r: "running_tasks (w_tasks (syncs (demo_env (\<lambda>s. s)) 2 demo_nav_world)) ''r1'' = {}"
    by (auto simp: running_tasks_def demo_defs syncs_def eval_nat_numeral sync_def)
  have f: "k_ID demo_nav_task = ''t1''" "k_RobotID demo_nav_task = ''r1''"
    "k_ScenarioID demo_nav_task = ''navigate_to_store''" by (simp_all add: demo_defs)
  show ?thesis
    using runOne_completes [OF demo_config(1-4) _ demo_stores(2,4)] demo_config(5) p r f
    by (simp add: demo_env_def)
qed

text \<open>
  C6. The run of a scenario publishes its steps faithfully and announces exactly one outcome: completed
  after all the steps in their order, failed after a proper prefix of them, cancelled after a prefix
  followed by the emergency stop.
\<close>

theorem run_steps_outcome:
  assumes "rn_onTaskCompleted cfg" "\<forall>n. re_pub env n"
  shows "\<exists>status cs. w_bus (run_steps cfg env task p steps w) = w_bus w @ cs
    \<and> w_log (run_steps cfg env task p steps w) =
        w_log w @ [TaskCompleted (k_ID task) (k_RobotID task) (status_string status)]
    \<and> (status = StatusCompleted \<and> map c_Command cs = map ss_Command steps
       \<or> status = StatusFailed \<and> (\<exists>k < length steps. map c_Command cs = map ss_Command (take k steps))
       \<or> status = StatusCancelled \<and> (\<exists>k \<le> length steps. \<exists>now front.
           cs = front @ [safe_stop_command now (k_RobotID task) (k_OperatorID task)]
           \<and> map c_Command front = map ss_Command (take k steps)))"
  using run_steps_reports [OF assms, of task steps w p]
  unfolding run_reports_def steps_outcome_def by blast

theorem run_steps_outcome_witness:
  "\<exists>status cs. w_bus (run_steps demo_cfg (demo_env (\<lambda>s. s)) demo_task (task_payload demo_task)
        (sc_Steps standby_scenario) demo_world) = w_bus demo_world @ cs
      \<and> status = StatusCompleted \<and> map c_Command cs = [''stand_mode'']"
proof -
  let ?w = "run_steps demo_cfg (demo_env (\<lambda>s. s)) demo_task (task_payload demo_task)
    (sc_Steps standby_scenario) demo_world"
  have c: "rn_onTaskCompleted demo_cfg" "\<forall>n. re_pub (demo_env (\<lambda>s. s)) n" by (simp_all add: demo_defs)
  have l: "w_log ?w = [TaskCompleted ''t1'' ''r1'' ''completed'']" by (simp add: runner_eval)
  from run_steps_outcome [OF c, of demo_task "task_payload demo_task" "sc_Steps standby_scenario" demo_world]
  obtain status cs where b: "w_bus ?w = w_bus demo_world @ cs"
    and s: "w_log ?w = w_log demo_world @ [TaskCompleted (k_ID demo_task) (k_RobotID demo_task) (status_string status)]"
    and o: "steps_outcome demo_task (sc_Steps standby_scenario) status cs"
    unfolding steps_outcome_def by blast
  have "status_string status = status_string StatusCompleted" using s l by (simp add: demo_world_def)
  then have "status = StatusCompleted" by (rule status_string_inj)
  with b o show ?thesis by (auto simp: steps_outcome_def standby_scenario_def)
qed

text \<open>
  A step is held for its duration: for every duration up to 9223372036 seconds, a hold that is not
  cancelled ends only after that time, and it always ends (the loop is a total function).
\<close>

theorem hold_waits:
  assumes "0 < d" "d \<le> 9223372036" "hold cfg env task d w = (False, w')"
  shows "w_now w + d * second \<le> w_now w'"
proof -
  have "hold_deadline (w_now w) d = w_now w + d * second"
    using assms(1,2) by (simp add: hold_deadline_def int64_id second_def)
  moreover have "fst (hold_loop cfg env task dl w) \<or> dl \<le> w_now (snd (hold_loop cfg env task dl w))" for dl w
  proof (induction w rule: hold_loop_induct [where env = env and task = task and deadline = dl])
    case (1 w)
    then show ?case by (auto simp: hold_loop_unfold [of cfg env task dl w])
  qed
  ultimately show ?thesis using assms(1,3) by (metis hold_def fst_conv snd_conv)
qed

theorem hold_waits_witness:
  "w_now demo_world + 1 * second \<le> w_now (snd (hold demo_cfg (demo_env (\<lambda>s. s)) demo_task 1 demo_world))"
proof -
  have "\<not> fst (hold demo_cfg (demo_env (\<lambda>s. s)) demo_task 1 demo_world)" by code_simp
  then show ?thesis
    using hold_waits [of 1 demo_cfg "demo_env (\<lambda>s. s)" demo_task demo_world] by (simp add: prod_eq_iff)
qed

text \<open>
  Above that bound the product of the duration and \<^verbatim>\<open>time.Second\<close> overflows an \<^verbatim>\<open>int64\<close>: a step of
  9223372037 seconds is not held at all, whatever the environment.
\<close>

theorem hold_overflow: "hold cfg env task 9223372037 w = (False, w)"
proof -
  have "int64 (9223372037 * second) = - 9223372036709551616"
    by (simp add: int64_signed_take_bit second_def signed_take_bit_eq_if_negative bit_iff_odd)
  then show ?thesis by (simp add: hold_def hold_deadline_def hold_loop_unfold)
qed

text \<open>The steps of a scenario begin with the publication of the first one, when nothing stands in its way.\<close>

lemma run_steps_first:
  fixes cfg env task p step w
  defines "cmd \<equiv> step_command (w_now (sync env w)) task p step"
  assumes "\<not> re_done env (w_tick w)" "\<not> sees_cancelled env task (sync env w)"
    and "SafetyAllow cmd" "marshal_ok cmd" "re_pub env (Suc (w_tick w))"
  shows "\<exists>cs. w_bus (run_steps cfg env task p (step # steps) w) = w_bus w @ cmd # cs"
proof -
  let ?w2 = "snd (publish env cmd (sync env w))"
  have ok: "fst (publish env cmd (sync env w))" using assms(5,6) by simp
  have bus: "w_bus ?w2 = w_bus w @ [cmd]" using assms(5,6) by simp
  have "safe_extension (k_RobotID task) (w_bus ?w2) (w_bus (run_steps cfg env task p (step # steps) w))"
    unfolding run_steps_Cons Let_def cmd_def [symmetric] using assms(2-4) ok
    by (simp add: inv_bus.I_hold inv_bus.I_run_steps del: publish_frames sync_frames)
  then show ?thesis unfolding bus by (auto simp: safe_extension_def)
qed

text \<open>
  C19. A cancellation can be lost: whenever the first pending task is cancelled after the iteration has listed it and before the
  iteration claims it (the status in the store is cancelled at the claim), the claim sets the status to running over it;
  and if the task runs the steps of its scenario, without a zone, and nobody cancels it a second time, the robot is sent the first step.
  (The iteration gets as far as the claim: the store does not fail, the robot is registered and free, the scenario is known and
  the robot has its capabilities.)
\<close>

theorem runOne_loses_cancel:
  fixes env w defines "t \<equiv> hd (pending_of env w)" and "v \<equiv> claim (hd (pending_of env w)) (syncs env 5 w)"
  assumes store: "\<forall>n. \<not> re_fail env n" "fair_order env w"
    and task: "pending_of env w \<noteq> []" "running_tasks (w_tasks (syncs env 2 w)) (k_RobotID t) = {}"
    and robot: "\<forall>n. re_registry env n (k_RobotID t) \<noteq> None"
    and scenario: "catalog_Get (re_catalog env) (k_ScenarioID t) = Some sc" "sc_Steps sc = step # steps"
      "HasCapability (re_registry env (w_tick w + 3) (k_RobotID t)) (sc_RequiredCapabilities sc)"
    and cancelled: "w_tasks (syncs env 5 w) (k_ID t) = Some t'" "k_Status t' = StatusCancelled"
    and direct: "k_ScenarioID t \<notin> {''mall_assistant'', ''navigate_to_store'', ''navigation''}" "tp_ZoneID (task_payload t) = []"
    and again: "map_option k_Status (re_tasks env (w_tick w + 5) (w_tasks v) (k_ID t)) = Some StatusRunning" "\<not> re_done env (w_tick w + 5)"
    and bus: "re_pub env (w_tick w + 6)" "SafetyAllow (step_command (w_now (sync env v)) t (task_payload t) step)"
      "marshal_ok (step_command (w_now (sync env v)) t (task_payload t) step)"
  shows "map_option k_Status (w_tasks v (k_ID t)) = Some StatusRunning
    \<and> (\<exists>w' cs. runOne cfg env w = Some w' \<and> w_bus w' = w_bus w @ step_command (w_now (sync env v)) t (task_payload t) step # cs)"
proof -
  let ?v = "emitTaskStarted cfg t (task_payload t) v"
  let ?c = "step_command (w_now (sync env v)) t (task_payload t) step"
  have nr: "\<not> HasRunningForRobot (re_order env (Suc (w_tick w)) (w_tasks (syncs env 2 w))) (k_RobotID t) (w_tasks (syncs env 2 w))"
    using store(2) task(2) by (simp add: fair_order_def HasRunningForRobot_iff)
  have "runOne cfg env w = run_claimed cfg env t sc v"
    using runOne_progress [OF store(1) task(1) nr [unfolded t_def] robot [unfolded t_def], of cfg] scenario
    by (simp add: t_def v_def)
  then have run: "runOne cfg env w = Some (run_steps cfg env t (task_payload t) (step # steps) ?v)"
    using direct scenario(2) by (simp add: run_claimed_def run_scenario_def Let_def split: option.split)
  have v: "w_tick v = w_tick w + 5" "w_bus v = w_bus w" by (simp_all add: v_def claim_def)
  have frame: "w_tick ?v = w_tick w + 5" "w_bus ?v = w_bus w" "w_now ?v = w_now v"
    "w_tasks (sync env ?v) = re_tasks env (w_tick w + 5) (w_tasks v)"
    by (simp_all add: emitTaskStarted_def v)
  have "\<not> sees_cancelled env t (sync env ?v)"
    using again(1) unfolding sees_cancelled_def frame(4) tasks_Get_def by (auto split: option.split)
  then have "\<exists>cs. w_bus (run_steps cfg env t (task_payload t) (step # steps) ?v) = w_bus ?v @ ?c # cs"
    using run_steps_first [of env ?v t "task_payload t" step cfg steps] again(2) bus(2,3) bus(1) [unfolded add.commute [of "w_tick w"]]
    by (simp add: frame v)
  moreover have "map_option k_Status (w_tasks v (k_ID t)) = Some StatusRunning"
    using cancelled(1) by (simp add: v_def t_def claim_def tasks_UpdateStatus_def)
  ultimately show ?thesis using run unfolding frame(2) v(2) by blast
qed

theorem runOne_loses_cancel_witness:
  defines "env \<equiv> demo_env (tasks_UpdateStatus 1 ''t1'' StatusCancelled)"
  shows "map_option k_Status (w_tasks (syncs env 5 demo_world) ''t1'') = Some StatusCancelled
    \<and> (\<exists>w' c cs. runOne demo_cfg env demo_world = Some w' \<and> w_bus w' = c # cs \<and> c_Command c = ''stand_mode'')"
proof -
  let ?step = "\<lparr>ss_Command = ''stand_mode'', ss_Payload = RawEmpty, ss_DurationSec = 0\<rparr>"
  let ?t = "demo_task\<lparr>k_Status := StatusCancelled, k_UpdatedAt := 1\<rparr>"
  have p: "hd (pending_of env demo_world) = demo_task" "pending_of env demo_world \<noteq> []"
    by (simp_all add: env_def pending_of_def demo_defs sync_def here_def tasks_List_def task_match_def pending_filter_def)
  have fair: "fair_order env demo_world" and free: "running_tasks (w_tasks (syncs env 2 demo_world)) ''r1'' = {}"
    by (auto simp: env_def fair_order_def go_range_def running_tasks_def demo_defs syncs_def eval_nat_numeral sync_def split: if_splits)
  have f: "k_ID demo_task = ''t1''" "k_RobotID demo_task = ''r1''" "k_ScenarioID demo_task = ''standby''" "w_tick demo_world = 0"
    "w_bus demo_world = []"
    by (simp_all add: demo_task_def demo_world_def)
  have env: "\<not> re_fail env n" "re_registry env n ''r1'' = Some demo_robot" "re_catalog env = NewCatalog" "\<not> re_done env n"
    "re_pub env n" "re_tasks env 5 s = s" for n s
    by (simp_all add: env_def demo_env_def)
  have s5: "w_tasks (syncs env 5 demo_world) ''t1'' = Some ?t"
    by (simp add: env_def demo_defs syncs_def eval_nat_numeral sync_def tasks_UpdateStatus_def)
  have sc: "catalog_Get NewCatalog ''standby'' = Some standby_scenario" "sc_Steps standby_scenario = [?step]"
    "HasCapability (Some demo_robot) (sc_RequiredCapabilities standby_scenario)" "tp_ZoneID (task_payload demo_task) = []"
    by (simp_all add: catalog_Get_def GetForTenant_def NewCatalog_def registerDefaults_def standby_scenario_def HasCapability_def
        cap_defs demo_robot_def demo_task_def task_payload_def unmarshal_lenient_def task_payload_zero_def)
  have cmd: "SafetyAllow (step_command now demo_task p ?step)" "marshal_ok (step_command now demo_task p ?step)"
    "c_Command (step_command now demo_task p ?step) = ''stand_mode''" for now p
    by (simp_all add: step_command_def SafetyAllow_def marshal_ok_def step_payload_def)
  have again: "map_option k_Status (w_tasks (claim demo_task (syncs env 5 demo_world)) ''t1'') = Some StatusRunning"
    using s5 by (simp add: claim_def tasks_UpdateStatus_def f)
  have "map_option k_Status (w_tasks (syncs env 5 demo_world) ''t1'') = Some StatusCancelled" using s5 by simp
  moreover note runOne_loses_cancel [where env = env and w = demo_world and sc = standby_scenario and step = ?step and steps = "[]"
      and t' = ?t and cfg = demo_cfg, unfolded p(1) f, OF _ fair p(2) free]
  ultimately show ?thesis using env sc cmd again s5 by fastforce
qed

text \<open>
  The steps of the built-in standby and patrol scenarios always pass the safety filter, whatever the task
  and its payload, so that such a task never fails for safety.
\<close>

theorem builtin_steps_allowed:
  assumes "step \<in> set (sc_Steps standby_scenario) \<or> step \<in> set (sc_Steps patrol_scenario)"
  shows "SafetyAllow (step_command now task p step)"
  using assms
  by (auto simp: standby_scenario_def patrol_scenario_def step_command_def step_payload_def vel_json_def
      SafetyAllow_def validateCmdVelPayload_iff find_field_vel EqualFold_def ToLower_def lower_char_def
      cmd_vel_zero_def float_finite_def float_0_3_def)

theorem builtin_steps_allowed_witness:
  "SafetyAllow (step_command 1 demo_task (task_payload demo_task) (hd (sc_Steps patrol_scenario)))"
  by (rule builtin_steps_allowed) (simp add: patrol_scenario_def)

end
