(* ===== verification/Escort.thy ===== *)
theory Escort
  imports Mall_Assistant Runner_Correct
begin

text \<open>
  The mall assistant beside the task runner (theories \<open>Mall_Assistant\<close> and \<open>Runner_Correct\<close>): the journey the assistant creates
  and waits for is a pending task of a robot that has a running task, the assistant's own.
\<close>

section \<open>The runner keeps the assistant's robot for the assistant\<close>

text \<open>The other goroutines leave the task \<open>i\<close> alone while the runner works.\<close>

definition leaves :: "string \<Rightarrow> runner_env \<Rightarrow> bool" where
  "leaves i env \<longleftrightarrow> (\<forall>n s. re_tasks env n s i = s i)"

interpretation inv_task: runner_invariant cfg env task
    "\<lambda>w. leaves i env \<and> i \<noteq> k_ID task \<longrightarrow> w_tasks w i = x" for cfg env task i x
  by unfold_locales (auto simp: leaves_def tasks_UpdateStatusAndCompletedAt_def split: option.split)

lemma run_scenario_task:
  assumes "leaves i env" "i \<noteq> k_ID task"
  shows "w_tasks (run_scenario cfg env task p sc w) i = w_tasks w i"
proof (cases rule: run_scenario_cases [of cfg env task p sc w])
  case steps
  then show ?thesis using inv_task.I_run_steps [of i env task w "w_tasks w i" cfg p "sc_Steps sc"] assms by simp
next
  case occupied
  then show ?thesis using inv_task.I_finish [of i env task w "w_tasks w i" StatusFailed cfg] assms by simp
next
  case (zone w1 zones)
  then show ?thesis using inv_task.I_run_steps [of i env task w1 "w_tasks w i" cfg p "sc_Steps sc"] assms by simp
qed

definition engine_leaves :: "string \<Rightarrow> EngineConfig \<Rightarrow> (world \<Rightarrow> engine_env) \<Rightarrow> bool" where
  "engine_leaves i ec eenv \<longleftrightarrow> ec_taskStore ec \<and> (\<forall>w s. ee_interfere (eenv w) s i = s i)"

lemma engine_exec_task:
  assumes "engine_exec ec eenv task w = Some (b, w')" "engine_leaves i ec eenv" "i \<noteq> k_ID task"
  shows "w_tasks w' i = w_tasks w i"
proof -
  from assms(1) obtain st where st: "ExecuteTaskEntry ec (eenv w) task (engine_view w) = Some (b, st)"
    and w': "w_tasks w' = en_tasks st" by (auto simp: engine_exec_def split: option.splits)
  show ?thesis
  proof (cases b)
    case True
    with ExecuteTaskEntry_tasks [of ec "eenv w" task "engine_view w" st] st assms(2,3) show ?thesis
      by (auto simp: w' engine_leaves_def tasks_UpdateStatusAndCompletedAt_def split: option.split)
  next
    case False
    with ExecuteTaskEntry_unhandled [of ec "eenv w" task "engine_view w" st] st show ?thesis by (simp add: w')
  qed
qed

lemma run_claimed_task:
  assumes "run_claimed cfg env task sc w = Some w'" "rn_engine cfg = None \<or> rn_engine cfg = Some (engine_exec ec eenv)"
    and "leaves i env" "engine_leaves i ec eenv" "i \<noteq> k_ID task"
  shows "w_tasks w' i = w_tasks w i"
  using assms(1,2)
proof (cases rule: robot_engine.run_claimed_cases)
  case (scenario w1)
  then show ?thesis using run_scenario_task [OF assms(3,5)] by simp
next
  case (engine w1)
  then show ?thesis using engine_exec_task [OF engine(4) assms(4)] assms(5) by simp
next
  case (unhandled w1 w2)
  then show ?thesis
    using engine_exec_task [OF unhandled(4) assms(4)] run_scenario_task [OF assms(3,5)] assms(5) by simp
qed simp

lemma syncs_leaves: "leaves i env \<Longrightarrow> w_tasks (syncs env n w) i = w_tasks w i"
  by (induction n) (simp_all add: syncs_def leaves_def)

text \<open>An iteration that finds the robot of the first pending task busy does nothing.\<close>

lemma runOne_busy:
  assumes "pending_of env w = [] \<or> HasRunningForRobot (re_order env (Suc (w_tick w)) (w_tasks (syncs env 2 w)))
      (k_RobotID (hd (pending_of env w))) (w_tasks (syncs env 2 w))"
  shows "\<exists>n. runOne cfg env w = Some (syncs env n w)"
proof -
  have u: "syncs env 1 w = sync env w" "syncs env 2 w = sync env (sync env w)"
    by (simp_all add: syncs_def eval_nat_numeral)
  have "runOne cfg env w = Some (syncs env 1 w) \<or> runOne cfg env w = Some (syncs env 2 w)"
    using assms unfolding u runOne_def Let_def pending_of_def by (auto simp: Let_def)
  then show ?thesis by blast
qed

text \<open>
  C32. While a task of a robot is running, the runner does not touch the robot's other tasks: whatever else is pending,
  an iteration leaves both as they are. So the journey that the mall assistant creates and waits for is not started
  while the assistant, whose own task is running, waits.
\<close>

theorem runOne_leaves_waiting:
  assumes "runOne cfg env w = Some w'" "rn_engine cfg = None \<or> rn_engine cfg = Some (engine_exec ec eenv)"
    and "fair_order env w" "lawful_env env" "keyed (w_tasks w)"
    and "leaves a env" "leaves b env" "engine_leaves a ec eenv" "engine_leaves b ec eenv"
    and a: "w_tasks w a = Some ta" "k_Status ta = StatusRunning" and b: "w_tasks w b = Some tb" "k_RobotID tb = k_RobotID ta"
  shows "w_tasks w' a = Some ta \<and> w_tasks w' b = Some tb"
proof -
  let ?task = "hd (pending_of env w)"
  show ?thesis
  proof (cases "pending_of env w = [] \<or> k_RobotID ?task = k_RobotID ta")
    case True
    have "w_tasks (syncs env 2 w) a = Some ta" using syncs_leaves [OF assms(6)] a by simp
    then have "running_tasks (w_tasks (syncs env 2 w)) (k_RobotID ta) \<noteq> {}" using a(2) by (auto simp: running_tasks_def)
    then have "HasRunningForRobot (re_order env (Suc (w_tick w)) (w_tasks (syncs env 2 w))) (k_RobotID ta) (w_tasks (syncs env 2 w))"
      using assms(3) HasRunningForRobot_iff by (simp add: fair_order_def)
    with True have "\<exists>n. runOne cfg env w = Some (syncs env n w)" by (intro runOne_busy) auto
    with assms(1) a b show ?thesis using syncs_leaves [OF assms(6)] syncs_leaves [OF assms(7)] by auto
  next
    case False
    have "w_tasks (syncs env 1 w) (k_ID ?task) = Some ?task"
      by (rule pending_head [OF assms(3) _ syncs_keyed [OF assms(4,5)]]) (use False in simp)
    then have ne: "a \<noteq> k_ID ?task" "b \<noteq> k_ID ?task"
      using False a b syncs_leaves [OF assms(6), of 1 w] syncs_leaves [OF assms(7), of 1 w] by auto
    have fin: "w_tasks (finish cfg env ?task StatusFailed w1) i = w_tasks w1 i" if "leaves i env" "i \<noteq> k_ID ?task" for i w1
      using inv_task.I_finish [of i env ?task w1 "w_tasks w1 i" StatusFailed cfg] that by simp
    have "w_tasks w' i = w_tasks w i" if i: "leaves i env" "i \<noteq> k_ID ?task" "engine_leaves i ec eenv" for i
      using assms(1)
    proof (cases rule: runOne_cases)
      case (idle n)
      then show ?thesis using syncs_leaves [OF i(1)] by simp
    next
      case (rejected n)
      show ?thesis unfolding rejected(2) fin [OF i(1,2)] by (rule syncs_leaves [OF i(1)])
    next
      case (claimed scenario)
      have "w_tasks w' i = w_tasks (claim ?task (syncs env 5 w)) i"
        by (rule run_claimed_task [OF claimed(5) assms(2) i(1,3,2)])
      then show ?thesis using i(2) syncs_leaves [OF i(1)]
        by (simp add: claim_def tasks_UpdateStatus_def split: option.split)
    qed
    then show ?thesis using a b assms(6-9) ne by simp
  qed
qed

section \<open>Witness\<close>

text \<open>A robot whose assistant is running while the journey it created is pending.\<close>

definition escort_world :: world where
  "escort_world = demo_world\<lparr>w_tasks := [''t1'' \<mapsto> demo_nav_task,
     ''a'' \<mapsto> demo_task\<lparr>k_ID := ''a'', k_ScenarioID := ''mall_assistant'', k_Status := StatusRunning\<rparr>]\<rparr>"

definition escort_env :: runner_env where
  "escort_env = (demo_env (\<lambda>s. s))\<lparr>re_order := (\<lambda>n s. [''t1'', ''a''])\<rparr>"

theorem runOne_leaves_waiting_witness:
  "\<exists>w'. runOne demo_cfg escort_env escort_world = Some w'
    \<and> w_tasks w' ''a'' = Some (demo_task\<lparr>k_ID := ''a'', k_ScenarioID := ''mall_assistant'', k_Status := StatusRunning\<rparr>)
    \<and> w_tasks w' ''t1'' = Some demo_nav_task"
proof -
  have e: "w_tasks (syncs escort_env n w) = w_tasks w" for n w
    by (induction n) (simp_all add: syncs_def escort_env_def demo_env_def)
  have o: "re_order escort_env n s = [''t1'', ''a'']" for n s by (simp add: escort_env_def)
  have t: "w_tasks escort_world = [''t1'' \<mapsto> demo_nav_task,
     ''a'' \<mapsto> demo_task\<lparr>k_ID := ''a'', k_ScenarioID := ''mall_assistant'', k_Status := StatusRunning\<rparr>]"
    by (simp add: escort_world_def)
  have fair: "fair_order escort_env escort_world"
    unfolding fair_order_def e t o by (auto simp: go_range_def)
  have lawful: "lawful_env escort_env" "leaves i escort_env" for i
    by (simp_all add: lawful_env_def escort_env_def demo_env_def leaves_def)
  have keyed: "keyed (w_tasks escort_world)"
    by (auto simp: keyed_def t demo_task_def demo_nav_task_def split: if_splits)
  have eng: "engine_leaves i demo_ec demo_eenv" for i by (simp add: engine_leaves_def demo_ec_def demo_eenv_def)
  obtain w' where w': "runOne demo_cfg escort_env escort_world = Some w'"
    using runOne_returns [OF demo_config(1,2), of escort_env escort_world] by auto
  have "w_tasks w' ''a'' = Some (demo_task\<lparr>k_ID := ''a'', k_ScenarioID := ''mall_assistant'', k_Status := StatusRunning\<rparr>)
      \<and> w_tasks w' ''t1'' = Some demo_nav_task"
    by (rule runOne_leaves_waiting [OF w' demo_config(1) [unfolded engine_configured_def] fair lawful(1) keyed lawful(2) lawful(2) eng eng])
      (simp_all add: t demo_task_def demo_nav_task_def)
  with w' show ?thesis by blast
qed

end
