(* ===== verification/Auth.thy ===== *)
theory Auth
  imports Prelude
begin

text \<open>
  Authentication and authorisation, \<^verbatim>\<open>pkg/control-plane/auth\<close>: claims and roles, the check of a JWT,
  the check of an API key against its row, the middleware that authenticates a request
  (\<^verbatim>\<open>MiddlewareWithAPIKeysAndOAuth\<close>) and the one that checks its roles (\<^verbatim>\<open>RequireRole\<close>).

  The JWT library, SHA-256, the SQL query and the OAuth validator are outside: they are arguments.
  A handler is a function from the claims in the request's context to its result; a middleware
  either calls it or answers itself (\<open>Denied\<close>, with the status and text of \<^verbatim>\<open>http.Error\<close>).
\<close>

text \<open>The registered claims the code reads, and its own.\<close>

record Claims =
  cl_Subject :: string
  cl_Issuer :: string
  cl_Audience :: "string list"
  cl_Roles :: "string list"
  cl_Role :: string
  cl_TenantID :: string

definition GetRoles :: "Claims \<Rightarrow> string list" where
  "GetRoles c = (if cl_Roles c \<noteq> [] then cl_Roles c else if cl_Role c \<noteq> [] then [cl_Role c] else [])"

definition RoleOperator :: string where "RoleOperator = ''operator''"
definition RoleAdministrator :: string where "RoleAdministrator = ''administrator''"
definition RoleViewer :: string where "RoleViewer = ''viewer''"
definition RoleSystem :: string where "RoleSystem = ''system''"

lemmas role_defs = RoleOperator_def RoleAdministrator_def RoleViewer_def RoleSystem_def

fun has_role :: "string list \<Rightarrow> string \<Rightarrow> bool" where
  "has_role [] r = False"
| "has_role (ur # urs) r = (EqualFold ur r \<or> has_role urs r)"

fun hasAnyRole :: "string list \<Rightarrow> string list \<Rightarrow> bool" where
  "hasAnyRole userRoles [] = False"
| "hasAnyRole userRoles (r # required) = (has_role userRoles r \<or> hasAnyRole userRoles required)"

datatype 'a outcome = Denied int string | Served 'a

text \<open>\<open>unsafe\<close>: whether \<^verbatim>\<open>ALLOW_UNSAFE_NO_AUTH\<close> is \<^verbatim>\<open>true\<close>.\<close>

definition RequireRole :: "bool \<Rightarrow> string list \<Rightarrow> (Claims option \<Rightarrow> 'a outcome) \<Rightarrow> Claims option \<Rightarrow> 'a outcome" where
  "RequireRole unsafe roles next claims =
     (case claims of
        None \<Rightarrow> (if unsafe then next claims else Denied 401 ''missing authorization'')
      | Some c \<Rightarrow> (if \<not> hasAnyRole (GetRoles c) roles then Denied 403 ''forbidden'' else next claims))"

section \<open>JSON Web Tokens\<close>

datatype auth_error = SignatureInvalid | InvalidClaims | OtherError string

datatype signing_method = SigningMethodRSA | SigningMethodHMAC | OtherMethod

datatype 'k jwt_key = RSAKey 'k | HMACKey string

text \<open>
  \<^verbatim>\<open>jwt.ParseWithClaims(token, claims, keyFunc)\<close> is an argument \<open>jwt\<close>: from the function that chooses the
  key for a signing method and the text of the token to an error or the claims with \<^verbatim>\<open>token.Valid\<close>;
  \<open>pem\<close> is \<^verbatim>\<open>jwt.ParseRSAPublicKeyFromPEM\<close>.
\<close>

type_synonym 'k key_func = "signing_method \<Rightarrow> auth_error + 'k jwt_key"
type_synonym 'k jwt_parser = "'k key_func \<Rightarrow> string \<Rightarrow> auth_error + Claims \<times> bool"

definition rsa_key_func :: "(string \<Rightarrow> auth_error + 'k) \<Rightarrow> string \<Rightarrow> 'k key_func" where
  "rsa_key_func pem publicKeyPEM meth =
     (if meth \<noteq> SigningMethodRSA then Inl SignatureInvalid
      else case pem publicKeyPEM of Inl e \<Rightarrow> Inl e | Inr k \<Rightarrow> Inr (RSAKey k))"

definition hmac_key_func :: "string \<Rightarrow> 'k key_func" where
  "hmac_key_func secret meth =
     (if meth \<noteq> SigningMethodHMAC then Inl SignatureInvalid else Inr (HMACKey secret))"

text \<open>An error, or the claims; \<open>Inr None\<close> is \<^verbatim>\<open>nil, nil\<close>.\<close>

definition parseJWT ::
  "'k jwt_parser \<Rightarrow> (string \<Rightarrow> auth_error + 'k) \<Rightarrow> string \<Rightarrow> string \<Rightarrow> string \<Rightarrow> string \<Rightarrow> string
   \<Rightarrow> auth_error + Claims option" where
  "parseJWT jwt pem tokenStr secret publicKeyPEM issuer audience =
     (let kf = (if publicKeyPEM \<noteq> [] then rsa_key_func pem publicKeyPEM else hmac_key_func secret) in
      case jwt kf tokenStr of
        Inl e \<Rightarrow> Inl e
      | Inr (claims, valid) \<Rightarrow>
          if \<not> valid then Inr None
          else if issuer \<noteq> [] \<and> cl_Issuer claims \<noteq> issuer then Inl InvalidClaims
          else if audience \<noteq> [] \<and> audience \<notin> set (cl_Audience claims) then Inl InvalidClaims
          else Inr (Some claims))"

section \<open>API keys\<close>

record api_key_row =
  ak_name :: string
  ak_roles :: string
  ak_tenant_id :: "string option"
  ak_expires_at :: "time option"

text \<open>
  \<^verbatim>\<open>SQLAPIKeyStore.Validate\<close>: \<open>sha256\<close> is the hexadecimal digest, \<open>query\<close> the row with a given digest
  (\<open>None\<close> for \<^verbatim>\<open>sql.ErrNoRows\<close>) or another error.
\<close>

definition Validate ::
  "(string \<Rightarrow> string) \<Rightarrow> (string \<Rightarrow> auth_error + api_key_row option) \<Rightarrow> time \<Rightarrow> string \<Rightarrow> auth_error + Claims option" where
  "Validate sha256 query now key =
     (if key = [] then Inr None
      else case query (sha256 key) of
          Inl e \<Rightarrow> Inl e
        | Inr None \<Rightarrow> Inr None
        | Inr (Some row) \<Rightarrow>
            if (case ak_expires_at row of None \<Rightarrow> False | Some t \<Rightarrow> t < now) then Inr None
            else Inr (Some
              \<lparr>cl_Subject = ''apikey:'' @ ak_name row, cl_Issuer = [], cl_Audience = [],
               cl_Roles = map TrimSpace (str_split CHR '','' (ak_roles row)), cl_Role = [],
               cl_TenantID = (case ak_tenant_id row of None \<Rightarrow> [] | Some t \<Rightarrow> t)\<rparr>))"

section \<open>The authenticating middleware\<close>

record 'k auth_config =
  ac_secret :: string
  ac_publicKeyPEM :: string
  ac_issuer :: string
  ac_audience :: string
  ac_unsafe :: bool
  ac_jwt :: "'k jwt_parser"
  ac_pem :: "string \<Rightarrow> auth_error + 'k"
  ac_apiKeyStore :: "(string \<Rightarrow> auth_error + Claims option) option"
  ac_oauthValidator :: "(string \<Rightarrow> auth_error + Claims option) option"

record credentials =
  cr_Authorization :: string
  cr_XAPIKey :: string
  cr_isGET :: bool
  cr_query_api_key :: string

definition AuthConfigured :: "'k auth_config \<Rightarrow> bool" where
  "AuthConfigured cfg \<longleftrightarrow> ac_secret cfg \<noteq> [] \<or> ac_publicKeyPEM cfg \<noteq> []
     \<or> ac_apiKeyStore cfg \<noteq> None \<or> ac_oauthValidator cfg \<noteq> None"

definition bearer_prefix :: string where
  "bearer_prefix = ''Bearer ''"

definition api_key_of :: "credentials \<Rightarrow> string" where
  "api_key_of cr = (if cr_XAPIKey cr = [] \<and> cr_isGET cr then cr_query_api_key cr else cr_XAPIKey cr)"

text \<open>The claims of a bearer token: the JWT first, the OAuth validator when that gave none.\<close>

definition bearer_claims :: "'k auth_config \<Rightarrow> string \<Rightarrow> auth_error + Claims option" where
  "bearer_claims cfg tokenStr =
     (let r1 = (if ac_secret cfg \<noteq> [] \<or> ac_publicKeyPEM cfg \<noteq> []
                then parseJWT (ac_jwt cfg) (ac_pem cfg) tokenStr (ac_secret cfg) (ac_publicKeyPEM cfg)
                       (ac_issuer cfg) (ac_audience cfg)
                else Inr None)
      in case r1 of
           Inr (Some c) \<Rightarrow> r1
         | _ \<Rightarrow> (case ac_oauthValidator cfg of None \<Rightarrow> r1 | Some v \<Rightarrow> v tokenStr))"

definition MiddlewareWithAPIKeysAndOAuth ::
  "'k auth_config \<Rightarrow> credentials \<Rightarrow> (Claims option \<Rightarrow> 'a outcome) \<Rightarrow> 'a outcome" where
  "MiddlewareWithAPIKeysAndOAuth cfg cr next =
     (if \<not> AuthConfigured cfg
      then (if ac_unsafe cfg then next None else Denied 401 ''missing authorization'')
      else
        let authz = cr_Authorization cr; apiKey = api_key_of cr in
        if take (length bearer_prefix) authz = bearer_prefix
        then (case bearer_claims cfg (drop (length bearer_prefix) authz) of
                Inr (Some c) \<Rightarrow> next (Some c)
              | _ \<Rightarrow> Denied 401 ''invalid token'')
        else (case (apiKey \<noteq> [], ac_apiKeyStore cfg) of
                (True, Some validate) \<Rightarrow>
                  (case validate apiKey of
                     Inl _ \<Rightarrow> Denied 500 ''internal error''
                   | Inr None \<Rightarrow> Denied 401 ''invalid api key''
                   | Inr (Some c) \<Rightarrow> next (Some c))
              | _ \<Rightarrow> Denied 401 ''missing authorization''))"

section \<open>Who reaches a handler\<close>

lemma has_role_iff: "has_role urs r \<longleftrightarrow> (\<exists>ur \<in> set urs. EqualFold ur r)"
  by (induction urs) auto

lemma hasAnyRole_iff: "hasAnyRole urs rs \<longleftrightarrow> (\<exists>r \<in> set rs. \<exists>ur \<in> set urs. EqualFold ur r)"
  by (induction rs) (auto simp: has_role_iff)

text \<open>
  What authenticates a caller as \<open>c\<close>, said without the order of the code: a bearer token that the JWT check or,
  failing that, the OAuth validator accepts, or, without a bearer token, an API key the store accepts.
\<close>

inductive authenticates :: "'k auth_config \<Rightarrow> credentials \<Rightarrow> Claims \<Rightarrow> bool" for cfg cr where
  by_jwt: "\<lbrakk>cr_Authorization cr = bearer_prefix @ tok; ac_secret cfg \<noteq> [] \<or> ac_publicKeyPEM cfg \<noteq> [];
     parseJWT (ac_jwt cfg) (ac_pem cfg) tok (ac_secret cfg) (ac_publicKeyPEM cfg) (ac_issuer cfg)
       (ac_audience cfg) = Inr (Some c)\<rbrakk> \<Longrightarrow> authenticates cfg cr c"
| by_oauth: "\<lbrakk>cr_Authorization cr = bearer_prefix @ tok;
     (ac_secret cfg = [] \<and> ac_publicKeyPEM cfg = []) \<or>
       (\<forall>c'. parseJWT (ac_jwt cfg) (ac_pem cfg) tok (ac_secret cfg) (ac_publicKeyPEM cfg) (ac_issuer cfg)
          (ac_audience cfg) \<noteq> Inr (Some c'));
     ac_oauthValidator cfg = Some v; v tok = Inr (Some c)\<rbrakk> \<Longrightarrow> authenticates cfg cr c"
| by_api_key: "\<lbrakk>\<forall>tok. cr_Authorization cr \<noteq> bearer_prefix @ tok; api_key_of cr \<noteq> [];
     ac_apiKeyStore cfg = Some v; v (api_key_of cr) = Inr (Some c)\<rbrakk> \<Longrightarrow> authenticates cfg cr c"

lemma bearer_split:
  "take (length bearer_prefix) s = bearer_prefix \<longleftrightarrow> s = bearer_prefix @ drop (length bearer_prefix) s"
  by (metis append_eq_conv_conj append_take_drop_id)

lemma bearer_claims_iff:
  assumes "cr_Authorization cr = bearer_prefix @ tok"
  shows "bearer_claims cfg tok = Inr (Some c) \<longleftrightarrow> authenticates cfg cr c"
  using assms
  by (auto simp: bearer_claims_def Let_def authenticates.simps split: sum.splits option.splits if_splits)

lemma middleware_served:
  assumes "AuthConfigured cfg"
  shows "MiddlewareWithAPIKeysAndOAuth cfg cr next = Served x \<longleftrightarrow>
    (\<exists>c. authenticates cfg cr c \<and> next (Some c) = Served x)"
proof (cases "\<exists>tok. cr_Authorization cr = bearer_prefix @ tok")
  case True
  then obtain tok where tok: "cr_Authorization cr = bearer_prefix @ tok" by blast
  then have "MiddlewareWithAPIKeysAndOAuth cfg cr next =
      (case bearer_claims cfg tok of Inr (Some c) \<Rightarrow> next (Some c) | _ \<Rightarrow> Denied 401 ''invalid token'')"
    using assms by (simp add: MiddlewareWithAPIKeysAndOAuth_def)
  then show ?thesis
    by (auto simp: bearer_claims_iff [OF tok, symmetric] split: sum.splits option.splits)
next
  case False
  then have nb: "take (length bearer_prefix) (cr_Authorization cr) \<noteq> bearer_prefix"
    using bearer_split by metis
  show ?thesis using False assms nb
    by (auto simp: MiddlewareWithAPIKeysAndOAuth_def authenticates.simps Let_def
        split: sum.splits option.splits bool.splits)
qed

text \<open>The middlewares never give two identities to the same credentials.\<close>

lemma authenticates_unique: "authenticates cfg cr c \<Longrightarrow> authenticates cfg cr c' \<Longrightarrow> c = c'"
proof (cases "\<exists>tok. cr_Authorization cr = bearer_prefix @ tok")
  case True
  then obtain tok where "cr_Authorization cr = bearer_prefix @ tok" by blast
  from bearer_claims_iff [OF this, of cfg] show "authenticates cfg cr c \<Longrightarrow> authenticates cfg cr c' \<Longrightarrow> c = c'"
    by (metis option.inject sum.inject(2))
next
  case False
  then show "authenticates cfg cr c \<Longrightarrow> authenticates cfg cr c' \<Longrightarrow> c = c'"
    by (auto simp: authenticates.simps)
qed

lemma guarded_served:
  "MiddlewareWithAPIKeysAndOAuth cfg cr (RequireRole (ac_unsafe cfg) roles (\<lambda>claims. Served (h claims))) = Served x \<longleftrightarrow>
     (if AuthConfigured cfg
      then \<exists>c. authenticates cfg cr c \<and> hasAnyRole (GetRoles c) roles \<and> x = h (Some c)
      else ac_unsafe cfg \<and> x = h None)"
proof (cases "AuthConfigured cfg")
  case True
  then show ?thesis by (auto simp: middleware_served RequireRole_def)
next
  case False
  then show ?thesis by (auto simp: MiddlewareWithAPIKeysAndOAuth_def RequireRole_def)
qed

section \<open>Properties\<close>

text \<open>
  C12. Nobody reaches a handler without authentication and a role: on a server with an authentication
  mechanism, a handler behind both middlewares runs exactly for callers that present a valid token or API
  key and whose claims have one of the required roles, and it gets their claims; on a server without one
  it runs, without claims, exactly when \<^verbatim>\<open>ALLOW_UNSAFE_NO_AUTH\<close> is set.
\<close>

theorem guarded_handler_served:
  "MiddlewareWithAPIKeysAndOAuth cfg cr (RequireRole (ac_unsafe cfg) roles (\<lambda>claims. Served (h claims))) = Served x \<longleftrightarrow>
     (if AuthConfigured cfg
      then \<exists>c. authenticates cfg cr c \<and> hasAnyRole (GetRoles c) roles \<and> x = h (Some c)
      else ac_unsafe cfg \<and> x = h None)"
  by (rule guarded_served)

end
