(* ===== verification/OAuth.thy ===== *)
theory OAuth
  imports Auth
begin

text \<open>
  The OAuth server, \<^verbatim>\<open>pkg/control-plane/oauth\<close>: the SQL stores of clients, codes and tokens, the authorization
  endpoint, the token endpoint with its two grants, revocation, and the validation of an access token
  that the authenticating middleware calls.

  A table is the list of its rows. A query for one row meets the first that fits; an insertion fails when the
  primary key or a \<^verbatim>\<open>UNIQUE\<close> column of the migrations is taken; a deletion removes every row that fits.
  Whether the \<open>n\<close>-th statement of a handler is carried out at all is \<open>ox_db env n\<close>, and instants, UUIDs and
  random bytes come from the same record. \<open>sha\<close> is SHA-256; no property assumes that it has no collisions.
  The location of a redirect is kept as the URI and the parameters set on it.
\<close>

section \<open>Clients, codes, tokens and their rows\<close>

record Client =
  oc_ID :: string
  oc_ClientID :: string
  oc_ClientSecretHash :: string
  oc_RedirectURIs :: "string list"
  oc_Scopes :: "string list"
  oc_TenantID :: string
  oc_CreatedAt :: time
  oc_UpdatedAt :: time

record AuthCode =
  ad_ID :: string
  ad_CodeHash :: string
  ad_ClientID :: string
  ad_TenantID :: string
  ad_Scopes :: "string list"
  ad_RedirectURI :: string
  ad_ExpiresAt :: time
  ad_CreatedAt :: time

record Token =
  tk_ID :: string
  tk_AccessTokenHash :: string
  tk_RefreshTokenHash :: string
  tk_ClientID :: string
  tk_TenantID :: string
  tk_Scopes :: "string list"
  tk_ExpiresAt :: time
  tk_CreatedAt :: time

record client_row =
  cw_id :: string
  cw_client_id :: string
  cw_client_secret_hash :: string
  cw_redirect_uris :: string
  cw_scopes :: string
  cw_tenant_id :: string
  cw_created_at :: time
  cw_updated_at :: time

record code_row =
  kw_id :: string
  kw_code_hash :: string
  kw_client_id :: string
  kw_tenant_id :: string
  kw_scopes :: string
  kw_redirect_uri :: string
  kw_expires_at :: time
  kw_created_at :: time

record token_row =
  tw_id :: string
  tw_access_token_hash :: string
  tw_refresh_token_hash :: "string option"
  tw_client_id :: string
  tw_tenant_id :: string
  tw_scopes :: string
  tw_expires_at :: time
  tw_created_at :: time

record oauth_state =
  od_clients :: "client_row list"
  od_codes :: "code_row list"
  od_tokens :: "token_row list"

datatype sql_error = SqlError

text \<open>A column that holds a list: joined when written, split and trimmed when read.\<close>

definition read_list :: "char \<Rightarrow> string \<Rightarrow> string list" where
  "read_list sep s = map TrimSpace (str_split sep s)"

section \<open>The SQL stores\<close>

definition client_of_row :: "client_row \<Rightarrow> Client" where
  "client_of_row w =
     \<lparr>oc_ID = cw_id w, oc_ClientID = cw_client_id w, oc_ClientSecretHash = cw_client_secret_hash w,
      oc_RedirectURIs = read_list CHR '','' (cw_redirect_uris w), oc_Scopes = read_list CHR '' '' (cw_scopes w),
      oc_TenantID = cw_tenant_id w, oc_CreatedAt = cw_created_at w, oc_UpdatedAt = cw_updated_at w\<rparr>"

definition GetByClientID :: "bool \<Rightarrow> string \<Rightarrow> oauth_state \<Rightarrow> sql_error + Client option" where
  "GetByClientID ok clientID d =
     (if \<not> ok then Inl SqlError
      else Inr (map_option client_of_row (find (\<lambda>w. cw_client_id w = clientID) (od_clients d))))"

text \<open>The listing leaves the digest of the secret out; newest first.\<close>

definition clients_List :: "bool \<Rightarrow> string \<Rightarrow> oauth_state \<Rightarrow> sql_error + Client list" where
  "clients_List ok tenantID d =
     (if \<not> ok then Inl SqlError
      else Inr (map (\<lambda>w. (client_of_row w)\<lparr>oc_ClientSecretHash := []\<rparr>)
        (sort_key (\<lambda>w. - cw_created_at w)
          (filter (\<lambda>w. tenantID = [] \<or> cw_tenant_id w = tenantID) (od_clients d)))))"

definition clients_Create :: "bool \<Rightarrow> time \<Rightarrow> string \<Rightarrow> Client \<Rightarrow> oauth_state \<Rightarrow> sql_error option \<times> Client \<times> oauth_state" where
  "clients_Create ok now uuid c d =
     (let c1 = c\<lparr>oc_ID := or_default (oc_ID c) uuid, oc_CreatedAt := now, oc_UpdatedAt := now\<rparr>;
          w = \<lparr>cw_id = oc_ID c1, cw_client_id = oc_ClientID c1, cw_client_secret_hash = oc_ClientSecretHash c1,
               cw_redirect_uris = str_join CHR '','' (oc_RedirectURIs c1), cw_scopes = str_join CHR '' '' (oc_Scopes c1),
               cw_tenant_id = oc_TenantID c1, cw_created_at = oc_CreatedAt c1, cw_updated_at = oc_UpdatedAt c1\<rparr>
      in if \<not> ok \<or> list_ex (\<lambda>v. cw_id v = cw_id w \<or> cw_client_id v = cw_client_id w) (od_clients d)
         then (Some SqlError, c1, d)
         else (None, c1, d\<lparr>od_clients := od_clients d @ [w]\<rparr>))"

definition clients_Update :: "bool \<Rightarrow> time \<Rightarrow> Client \<Rightarrow> oauth_state \<Rightarrow> sql_error option \<times> oauth_state" where
  "clients_Update ok now c d =
     (if \<not> ok then (Some SqlError, d)
      else (None, d\<lparr>od_clients := map (\<lambda>w. if cw_client_id w = oc_ClientID c
               then w\<lparr>cw_redirect_uris := str_join CHR '','' (oc_RedirectURIs c), cw_scopes := str_join CHR '' '' (oc_Scopes c),
                      cw_tenant_id := oc_TenantID c, cw_updated_at := now\<rparr>
               else w) (od_clients d)\<rparr>))"

definition clients_Delete :: "bool \<Rightarrow> string \<Rightarrow> oauth_state \<Rightarrow> sql_error option \<times> oauth_state" where
  "clients_Delete ok clientID d =
     (if \<not> ok then (Some SqlError, d)
      else (None, d\<lparr>od_clients := filter (\<lambda>w. cw_client_id w \<noteq> clientID) (od_clients d)\<rparr>))"

definition code_of_row :: "code_row \<Rightarrow> AuthCode" where
  "code_of_row w =
     \<lparr>ad_ID = kw_id w, ad_CodeHash = kw_code_hash w, ad_ClientID = kw_client_id w, ad_TenantID = kw_tenant_id w,
      ad_Scopes = read_list CHR '' '' (kw_scopes w), ad_RedirectURI = kw_redirect_uri w,
      ad_ExpiresAt = kw_expires_at w, ad_CreatedAt = kw_created_at w\<rparr>"

definition codes_Create :: "bool \<Rightarrow> time \<Rightarrow> string \<Rightarrow> AuthCode \<Rightarrow> oauth_state \<Rightarrow> sql_error option \<times> oauth_state" where
  "codes_Create ok now uuid c d =
     (let w = \<lparr>kw_id = or_default (ad_ID c) uuid, kw_code_hash = ad_CodeHash c, kw_client_id = ad_ClientID c,
               kw_tenant_id = ad_TenantID c, kw_scopes = str_join CHR '' '' (ad_Scopes c),
               kw_redirect_uri = ad_RedirectURI c, kw_expires_at = ad_ExpiresAt c, kw_created_at = now\<rparr>
      in if \<not> ok \<or> list_ex (\<lambda>v. kw_id v = kw_id w \<or> kw_code_hash v = kw_code_hash w) (od_codes d)
         then (Some SqlError, d)
         else (None, d\<lparr>od_codes := od_codes d @ [w]\<rparr>))"

definition GetByCodeHash :: "bool \<Rightarrow> string \<Rightarrow> oauth_state \<Rightarrow> sql_error + AuthCode option" where
  "GetByCodeHash ok h d =
     (if \<not> ok then Inl SqlError
      else Inr (map_option code_of_row (find (\<lambda>w. kw_code_hash w = h) (od_codes d))))"

text \<open>The callers drop the error of a deletion.\<close>

definition codes_Delete :: "bool \<Rightarrow> string \<Rightarrow> oauth_state \<Rightarrow> oauth_state" where
  "codes_Delete ok h d =
     (if \<not> ok then d else d\<lparr>od_codes := filter (\<lambda>w. kw_code_hash w \<noteq> h) (od_codes d)\<rparr>)"

definition oauth_nullIfEmpty :: "string \<Rightarrow> string option" where
  "oauth_nullIfEmpty s = (if s = [] then None else Some s)"

definition token_of_row :: "token_row \<Rightarrow> Token" where
  "token_of_row w =
     \<lparr>tk_ID = tw_id w, tk_AccessTokenHash = tw_access_token_hash w,
      tk_RefreshTokenHash = (case tw_refresh_token_hash w of None \<Rightarrow> [] | Some h \<Rightarrow> h),
      tk_ClientID = tw_client_id w, tk_TenantID = tw_tenant_id w, tk_Scopes = read_list CHR '' '' (tw_scopes w),
      tk_ExpiresAt = tw_expires_at w, tk_CreatedAt = tw_created_at w\<rparr>"

definition tokens_Create :: "bool \<Rightarrow> time \<Rightarrow> string \<Rightarrow> Token \<Rightarrow> oauth_state \<Rightarrow> sql_error option \<times> oauth_state" where
  "tokens_Create ok now uuid t d =
     (let w = \<lparr>tw_id = or_default (tk_ID t) uuid, tw_access_token_hash = tk_AccessTokenHash t,
               tw_refresh_token_hash = oauth_nullIfEmpty (tk_RefreshTokenHash t), tw_client_id = tk_ClientID t,
               tw_tenant_id = tk_TenantID t, tw_scopes = str_join CHR '' '' (tk_Scopes t),
               tw_expires_at = tk_ExpiresAt t, tw_created_at = now\<rparr>
      in if \<not> ok \<or> list_ex (\<lambda>v. tw_id v = tw_id w \<or> tw_access_token_hash v = tw_access_token_hash w) (od_tokens d)
         then (Some SqlError, d)
         else (None, d\<lparr>od_tokens := od_tokens d @ [w]\<rparr>))"

definition getByHash :: "bool \<Rightarrow> (token_row \<Rightarrow> string option) \<Rightarrow> string \<Rightarrow> oauth_state \<Rightarrow> sql_error + Token option" where
  "getByHash ok col h d =
     (if \<not> ok then Inl SqlError
      else Inr (map_option token_of_row (find (\<lambda>w. col w = Some h) (od_tokens d))))"

definition GetByAccessTokenHash :: "bool \<Rightarrow> string \<Rightarrow> oauth_state \<Rightarrow> sql_error + Token option" where
  "GetByAccessTokenHash ok h d = getByHash ok (\<lambda>w. Some (tw_access_token_hash w)) h d"

definition GetByRefreshTokenHash :: "bool \<Rightarrow> string \<Rightarrow> oauth_state \<Rightarrow> sql_error + Token option" where
  "GetByRefreshTokenHash ok h d = getByHash ok tw_refresh_token_hash h d"

definition DeleteByAccessToken :: "bool \<Rightarrow> string \<Rightarrow> oauth_state \<Rightarrow> oauth_state" where
  "DeleteByAccessToken ok h d =
     (if \<not> ok then d else d\<lparr>od_tokens := filter (\<lambda>w. tw_access_token_hash w \<noteq> h) (od_tokens d)\<rparr>)"

section \<open>The server\<close>

record oauth_server =
  og_baseURL :: string
  og_accessTTL :: duration

text \<open>\<^verbatim>\<open>strings.TrimSuffix(baseURL, "/")\<close> drops one slash.\<close>

definition oauth_NewServer :: "string \<Rightarrow> oauth_server" where
  "oauth_NewServer baseURL =
     \<lparr>og_baseURL = (if baseURL \<noteq> [] \<and> last baseURL = CHR ''/'' then butlast baseURL else baseURL),
      og_accessTTL = 7200 * second\<rparr>"

record oauth_env =
  ox_db :: "nat \<Rightarrow> bool"
  ox_now :: "nat \<Rightarrow> time"
  ox_uuid :: string
  ox_random :: "nat \<Rightarrow> 8 word list"
  ox_url_ok :: "string \<Rightarrow> bool" \<comment> \<open>whether \<^verbatim>\<open>url.Parse\<close> takes a URI\<close>

datatype oauth_reply =
    OAuthError int string string
  | Redirect string "(string \<times> string) list"
  | TokenReply string string int string string
  | HttpError int string
  | HttpStatus int
  | Panicked

definition HashSHA256 :: "(string \<Rightarrow> 8 word list) \<Rightarrow> string \<Rightarrow> string" where
  "HashSHA256 sha s = hex_EncodeToString (sha s)"

text \<open>The \<^verbatim>\<open>n\<close> bytes are what \<^verbatim>\<open>rand.Read\<close> wrote.\<close>

definition randomToken :: "8 word list \<Rightarrow> string" where
  "randomToken b = hex_EncodeToString b"

definition parseScopes :: "string \<Rightarrow> string list" where
  "parseScopes s =
     (if s = [] then [] else filter (\<lambda>p. p \<noteq> []) (map TrimSpace (str_split CHR '' '' s)))"

fun containsScope :: "string list \<Rightarrow> string \<Rightarrow> bool" where
  "containsScope [] s = False"
| "containsScope (sc # scopes) s = (sc = s \<or> containsScope scopes s)"

record authorize_query =
  aq_client_id :: string
  aq_redirect_uri :: string
  aq_response_type :: string
  aq_scope :: string
  aq_state :: string

definition HandleAuthorize ::
  "(string \<Rightarrow> 8 word list) \<Rightarrow> oauth_env \<Rightarrow> authorize_query \<Rightarrow> oauth_state \<Rightarrow> oauth_reply \<times> oauth_state" where
  "HandleAuthorize sha env q d =
     (let clientID = aq_client_id q; redirectURI = aq_redirect_uri q in
      if clientID = [] \<or> redirectURI = [] \<or> aq_response_type q \<noteq> ''code''
      then (OAuthError 400 ''invalid_request'' ''client_id, redirect_uri, response_type=code required'', d)
      else case GetByClientID (ox_db env 0) clientID d of
          Inr (Some client) \<Rightarrow>
            if \<not> list_ex (\<lambda>u. u = redirectURI) (oc_RedirectURIs client)
            then (OAuthError 400 ''invalid_request'' ''redirect_uri not allowed'', d)
            else
              let asked = parseScopes (aq_scope q);
                  scopes = (if asked = [] then oc_Scopes client else asked)
              in if list_ex (\<lambda>sc. \<not> containsScope (oc_Scopes client) sc) scopes
                 then (OAuthError 400 ''invalid_scope'' ''scope not allowed'', d)
                 else
                   let code = randomToken (ox_random env 0);
                       authCode = \<lparr>ad_ID = [], ad_CodeHash = HashSHA256 sha code, ad_ClientID = clientID,
                         ad_TenantID = oc_TenantID client, ad_Scopes = scopes, ad_RedirectURI = redirectURI,
                         ad_ExpiresAt = ox_now env 0 + 600 * second, ad_CreatedAt = 0\<rparr>
                   in case codes_Create (ox_db env 1) (ox_now env 1) (ox_uuid env) authCode d of
                        (Some e, d1) \<Rightarrow> (OAuthError 500 ''server_error'' ''failed to create code'', d1)
                      | (None, d1) \<Rightarrow>
                          if \<not> ox_url_ok env redirectURI then (Panicked, d1)
                          else (Redirect redirectURI ((''code'', code) # (if aq_state q \<noteq> [] then [(''state'', aq_state q)] else [])), d1)
        | _ \<Rightarrow> (OAuthError 401 ''invalid_client'' ''client not found'', d))"

record token_form =
  tf_method :: string
  tf_grant_type :: string
  tf_client_id :: string
  tf_client_secret :: string
  tf_code :: string
  tf_redirect_uri :: string
  tf_refresh_token :: string

text \<open>
  What the switch over the grant types leaves to the rest of \<^verbatim>\<open>HandleToken\<close>: the tenant, the scopes and, for
  a code, the digest it deletes next. Nothing keeps another request from running between the two halves.
\<close>

record grant =
  gt_tenantID :: string
  gt_scopes :: "string list"
  gt_codeHash :: "string option"

definition code_grant ::
  "(string \<Rightarrow> 8 word list) \<Rightarrow> oauth_env \<Rightarrow> token_form \<Rightarrow> oauth_state \<Rightarrow> (oauth_reply + grant) \<times> oauth_state" where
  "code_grant sha env f d =
     (if tf_code f = [] \<or> tf_redirect_uri f = []
      then (Inl (OAuthError 400 ''invalid_request'' ''code and redirect_uri required''), d)
      else let codeHash = HashSHA256 sha (tf_code f) in
        case GetByCodeHash (ox_db env 1) codeHash d of
          Inr (Some authCode) \<Rightarrow>
            if ad_ClientID authCode \<noteq> tf_client_id f
            then (Inl (OAuthError 400 ''invalid_grant'' ''code client mismatch''), d)
            else if ad_RedirectURI authCode \<noteq> tf_redirect_uri f
            then (Inl (OAuthError 400 ''invalid_grant'' ''redirect_uri mismatch''), d)
            else if ad_ExpiresAt authCode < ox_now env 0
            then (Inl (OAuthError 400 ''invalid_grant'' ''code expired''), codes_Delete (ox_db env 2) codeHash d)
            else (Inr \<lparr>gt_tenantID = ad_TenantID authCode, gt_scopes = ad_Scopes authCode, gt_codeHash = Some codeHash\<rparr>, d)
        | _ \<Rightarrow> (Inl (OAuthError 400 ''invalid_grant'' ''invalid or expired code''), d))"

definition refresh_grant ::
  "(string \<Rightarrow> 8 word list) \<Rightarrow> oauth_env \<Rightarrow> token_form \<Rightarrow> oauth_state \<Rightarrow> (oauth_reply + grant) \<times> oauth_state" where
  "refresh_grant sha env f d =
     (if tf_refresh_token f = []
      then (Inl (OAuthError 400 ''invalid_request'' ''refresh_token required''), d)
      else case GetByRefreshTokenHash (ox_db env 1) (HashSHA256 sha (tf_refresh_token f)) d of
          Inr (Some tok) \<Rightarrow>
            if tk_ClientID tok \<noteq> tf_client_id f
            then (Inl (OAuthError 400 ''invalid_grant'' ''token client mismatch''), d)
            else (Inr \<lparr>gt_tenantID = tk_TenantID tok, gt_scopes = tk_Scopes tok, gt_codeHash = None\<rparr>, d)
        | _ \<Rightarrow> (Inl (OAuthError 400 ''invalid_grant'' ''invalid refresh token''), d))"

definition token_begin ::
  "(string \<Rightarrow> 8 word list) \<Rightarrow> oauth_env \<Rightarrow> token_form \<Rightarrow> oauth_state \<Rightarrow> (oauth_reply + grant) \<times> oauth_state" where
  "token_begin sha env f d =
     (if tf_method f \<noteq> ''POST'' then (Inl (OAuthError 405 ''invalid_request'' ''POST required''), d)
      else if tf_client_id f = [] \<or> tf_client_secret f = []
      then (Inl (OAuthError 401 ''invalid_client'' ''client_id and client_secret required''), d)
      else case GetByClientID (ox_db env 0) (tf_client_id f) d of
          Inr (Some client) \<Rightarrow>
            if HashSHA256 sha (tf_client_secret f) \<noteq> oc_ClientSecretHash client
            then (Inl (OAuthError 401 ''invalid_client'' ''invalid client_secret''), d)
            else if tf_grant_type f = ''authorization_code'' then code_grant sha env f d
            else if tf_grant_type f = ''refresh_token'' then refresh_grant sha env f d
            else (Inl (OAuthError 400 ''unsupported_grant_type'' ''authorization_code or refresh_token''), d)
        | _ \<Rightarrow> (Inl (OAuthError 401 ''invalid_client'' ''client not found''), d))"

definition token_finish ::
  "(string \<Rightarrow> 8 word list) \<Rightarrow> oauth_server \<Rightarrow> oauth_env \<Rightarrow> token_form \<Rightarrow> grant \<Rightarrow> oauth_state \<Rightarrow> oauth_reply \<times> oauth_state" where
  "token_finish sha srv env f g d =
     (let d0 = (case gt_codeHash g of None \<Rightarrow> d | Some h \<Rightarrow> codes_Delete (ox_db env 2) h d);
          accessToken = randomToken (ox_random env 0);
          refreshTokenNew = randomToken (ox_random env 1);
          token = \<lparr>tk_ID = [], tk_AccessTokenHash = HashSHA256 sha accessToken,
            tk_RefreshTokenHash = HashSHA256 sha refreshTokenNew, tk_ClientID = tf_client_id f,
            tk_TenantID = gt_tenantID g, tk_Scopes = gt_scopes g, tk_ExpiresAt = ox_now env 1 + og_accessTTL srv, tk_CreatedAt = 0\<rparr>
      in case tokens_Create (ox_db env 3) (ox_now env 2) (ox_uuid env) token d0 of
           (Some e, d1) \<Rightarrow> (OAuthError 500 ''server_error'' ''failed to create token'', d1)
         | (None, d1) \<Rightarrow> (TokenReply accessToken ''Bearer'' (og_accessTTL srv div second) refreshTokenNew
               (str_join CHR '' '' (gt_scopes g)), d1))"

definition HandleToken ::
  "(string \<Rightarrow> 8 word list) \<Rightarrow> oauth_server \<Rightarrow> oauth_env \<Rightarrow> token_form \<Rightarrow> oauth_state \<Rightarrow> oauth_reply \<times> oauth_state" where
  "HandleToken sha srv env f d =
     (case token_begin sha env f d of
        (Inl e, d1) \<Rightarrow> (e, d1)
      | (Inr g, d1) \<Rightarrow> token_finish sha srv env f g d1)"

definition HandleRevoke ::
  "(string \<Rightarrow> 8 word list) \<Rightarrow> oauth_env \<Rightarrow> string \<Rightarrow> string \<Rightarrow> string \<Rightarrow> oauth_state \<Rightarrow> oauth_reply \<times> oauth_state" where
  "HandleRevoke sha env meth token hint d =
     (if meth \<noteq> ''POST'' then (HttpError 405 ''Method Not Allowed'', d)
      else if token = [] then (HttpStatus 200, d)
      else let h = HashSHA256 sha token in
        if hint = ''refresh_token''
        then (case GetByRefreshTokenHash (ox_db env 0) h d of
                Inr (Some tok) \<Rightarrow> (HttpStatus 200, DeleteByAccessToken (ox_db env 1) (tk_AccessTokenHash tok) d)
              | _ \<Rightarrow> (HttpStatus 200, d))
        else (HttpStatus 200, DeleteByAccessToken (ox_db env 0) h d))"

definition ValidateAccessToken ::
  "(string \<Rightarrow> 8 word list) \<Rightarrow> oauth_env \<Rightarrow> string \<Rightarrow> oauth_state \<Rightarrow> Claims option \<times> oauth_state" where
  "ValidateAccessToken sha env accessToken d =
     (if accessToken = [] then (None, d)
      else let h = HashSHA256 sha accessToken in
        case GetByAccessTokenHash (ox_db env 0) h d of
          Inr (Some tok) \<Rightarrow>
            if tk_ExpiresAt tok < ox_now env 0 then (None, DeleteByAccessToken (ox_db env 1) h d)
            else (Some \<lparr>cl_Subject = ''oauth:'' @ tk_ClientID tok, cl_Issuer = [], cl_Audience = [],
                    cl_Roles = [RoleOperator], cl_Role = [], cl_TenantID = tk_TenantID tok\<rparr>, d)
        | _ \<Rightarrow> (None, d))"

section \<open>Columns that hold lists\<close>

text \<open>The scopes the server hands on: at least one, each without a space.\<close>

definition scopes_ok :: "string list \<Rightarrow> bool" where
  "scopes_ok ss \<longleftrightarrow> ss \<noteq> [] \<and> (\<forall>s \<in> set ss. CHR '' '' \<notin> set s \<and> TrimSpace s = s)"

lemma read_list_ok: "scopes_ok (read_list CHR '' '' s)"
  using set_TrimSpace by (auto simp: scopes_ok_def read_list_def dest!: str_split_free)

lemma read_list_join: "ss \<noteq> [] \<Longrightarrow> \<forall>s \<in> set ss. sep \<notin> set s \<and> TrimSpace s = s \<Longrightarrow> read_list sep (str_join sep ss) = ss"
  by (simp add: read_list_def str_split_join map_idI)

lemma scopes_roundtrip: "scopes_ok ss \<Longrightarrow> read_list CHR '' '' (str_join CHR '' '' ss) = ss"
  by (simp add: scopes_ok_def read_list_join)

lemma parseScopes_ok: "parseScopes s \<noteq> [] \<Longrightarrow> scopes_ok (parseScopes s)"
  using set_TrimSpace by (auto simp: scopes_ok_def parseScopes_def split: if_splits dest!: str_split_free)

lemma containsScope_iff: "containsScope scopes s \<longleftrightarrow> s \<in> set scopes"
  by (induction scopes) auto

section \<open>What each operation does to the tables\<close>

lemmas sql_defs = GetByClientID_def GetByCodeHash_def GetByAccessTokenHash_def GetByRefreshTokenHash_def getByHash_def
  codes_Create_def codes_Delete_def tokens_Create_def DeleteByAccessToken_def
  clients_Create_def clients_Update_def clients_Delete_def

lemma GetByClientID_Some:
  "GetByClientID ok clientID d = Inr (Some c) \<longleftrightarrow>
     ok \<and> (\<exists>w. find (\<lambda>w. cw_client_id w = clientID) (od_clients d) = Some w \<and> c = client_of_row w)"
  by (auto simp: GetByClientID_def)

lemma find_Some_in: "find P xs = Some x \<Longrightarrow> x \<in> set xs \<and> P x"
  by (auto simp: find_Some_iff)

text \<open>The scopes a request of the authorization endpoint gets: those it names, or all of the client's.\<close>

definition scopes_for :: "authorize_query \<Rightarrow> Client \<Rightarrow> string list" where
  "scopes_for q c = (if parseScopes (aq_scope q) = [] then oc_Scopes c else parseScopes (aq_scope q))"

lemma scopes_for_ok: "scopes_ok (scopes_for q (client_of_row w))"
  using parseScopes_ok read_list_ok by (simp add: scopes_for_def client_of_row_def)

text \<open>When a client may have what it asks for.\<close>

definition may_authorize :: "authorize_query \<Rightarrow> Client \<Rightarrow> bool" where
  "may_authorize q c \<longleftrightarrow> aq_client_id q \<noteq> [] \<and> aq_redirect_uri q \<noteq> [] \<and> aq_response_type q = ''code''
     \<and> aq_redirect_uri q \<in> set (oc_RedirectURIs c) \<and> set (scopes_for q c) \<subseteq> set (oc_Scopes c)"

definition code_row_for :: "(string \<Rightarrow> 8 word list) \<Rightarrow> oauth_env \<Rightarrow> authorize_query \<Rightarrow> Client \<Rightarrow> code_row" where
  "code_row_for sha env q c =
     \<lparr>kw_id = ox_uuid env, kw_code_hash = HashSHA256 sha (randomToken (ox_random env 0)), kw_client_id = aq_client_id q,
      kw_tenant_id = oc_TenantID c, kw_scopes = str_join CHR '' '' (scopes_for q c), kw_redirect_uri = aq_redirect_uri q,
      kw_expires_at = ox_now env 0 + 600 * second, kw_created_at = ox_now env 1\<rparr>"

definition code_taken :: "code_row \<Rightarrow> oauth_state \<Rightarrow> bool" where
  "code_taken w d \<longleftrightarrow> (\<exists>v \<in> set (od_codes d). kw_id v = kw_id w \<or> kw_code_hash v = kw_code_hash w)"

lemma HandleAuthorize_grants:
  assumes "GetByClientID (ox_db env 0) (aq_client_id q) d = Inr (Some c)" "may_authorize q c"
    and "ox_db env 1" "\<not> code_taken (code_row_for sha env q c) d"
  shows "HandleAuthorize sha env q d =
    (if ox_url_ok env (aq_redirect_uri q)
     then Redirect (aq_redirect_uri q) ((''code'', randomToken (ox_random env 0)) # (if aq_state q \<noteq> [] then [(''state'', aq_state q)] else []))
     else Panicked, d\<lparr>od_codes := od_codes d @ [code_row_for sha env q c]\<rparr>)"
proof -
  have "scopes_for q c = (let asked = parseScopes (aq_scope q) in if asked = [] then oc_Scopes c else asked)"
    by (simp add: scopes_for_def Let_def)
  with assms show ?thesis
    unfolding HandleAuthorize_def Let_def scopes_for_def [symmetric]
    by (auto simp: may_authorize_def list_ex_iff containsScope_iff codes_Create_def Let_def or_default_def
        code_row_for_def code_taken_def)
qed

lemma HandleAuthorize_refuses:
  assumes "\<And>c. GetByClientID (ox_db env 0) (aq_client_id q) d = Inr (Some c) \<Longrightarrow>
    \<not> (may_authorize q c \<and> ox_db env 1 \<and> \<not> code_taken (code_row_for sha env q c) d)"
  shows "\<exists>status e m. HandleAuthorize sha env q d = (OAuthError status e m, d)"
proof (cases "\<exists>c. GetByClientID (ox_db env 0) (aq_client_id q) d = Inr (Some c)")
  case True
  then obtain c where c: "GetByClientID (ox_db env 0) (aq_client_id q) d = Inr (Some c)" by blast
  with assms [OF c] show ?thesis
    unfolding HandleAuthorize_def Let_def scopes_for_def [symmetric]
    by (auto simp: may_authorize_def list_ex_iff containsScope_iff codes_Create_def Let_def or_default_def
        code_row_for_def code_taken_def)
next
  case False
  then show ?thesis by (auto simp: HandleAuthorize_def Let_def split: sum.split option.split)
qed

lemma HandleAuthorize_cases:
  obtains (refused) status e m where "HandleAuthorize sha env q d = (OAuthError status e m, d)"
  | (granted) c r where "GetByClientID True (aq_client_id q) d = Inr (Some c)" "may_authorize q c"
      "HandleAuthorize sha env q d = (r, d\<lparr>od_codes := od_codes d @ [code_row_for sha env q c]\<rparr>)" "\<And>st e m. r \<noteq> OAuthError st e m"
proof (cases "\<exists>c. GetByClientID (ox_db env 0) (aq_client_id q) d = Inr (Some c) \<and> may_authorize q c \<and> ox_db env 1
    \<and> \<not> code_taken (code_row_for sha env q c) d")
  case True
  then obtain c where c: "GetByClientID (ox_db env 0) (aq_client_id q) d = Inr (Some c)" "may_authorize q c" "ox_db env 1"
    "\<not> code_taken (code_row_for sha env q c) d" by blast
  from c(1) have "GetByClientID True (aq_client_id q) d = Inr (Some c)" by (simp add: GetByClientID_Some)
  then show ?thesis using HandleAuthorize_grants [OF c] c(2) by (intro granted) (auto split: if_splits)
next
  case False
  then show ?thesis using HandleAuthorize_refuses [of env q d sha] refused by blast
qed

text \<open>The first half of the token endpoint grants what a code or a token of the same client holds, and changes no table then.\<close>

lemma token_begin_grant:
  assumes "token_begin sha env f d = (Inr g, d1)"
  shows "d1 = d"
    and "\<exists>w. find (\<lambda>w. cw_client_id w = tf_client_id f) (od_clients d) = Some w
           \<and> HashSHA256 sha (tf_client_secret f) = cw_client_secret_hash w"
    and "tf_grant_type f = ''authorization_code'' \<and>
           (\<exists>k. find (\<lambda>k. kw_code_hash k = HashSHA256 sha (tf_code f)) (od_codes d) = Some k \<and> kw_client_id k = tf_client_id f
              \<and> kw_redirect_uri k = tf_redirect_uri f \<and> ox_now env 0 \<le> kw_expires_at k
              \<and> g = \<lparr>gt_tenantID = kw_tenant_id k, gt_scopes = read_list CHR '' '' (kw_scopes k), gt_codeHash = Some (HashSHA256 sha (tf_code f))\<rparr>)
       \<or> tf_grant_type f = ''refresh_token'' \<and>
           (\<exists>t. find (\<lambda>t. tw_refresh_token_hash t = Some (HashSHA256 sha (tf_refresh_token f))) (od_tokens d) = Some t
              \<and> tw_client_id t = tf_client_id f
              \<and> g = \<lparr>gt_tenantID = tw_tenant_id t, gt_scopes = read_list CHR '' '' (tw_scopes t), gt_codeHash = None\<rparr>)"
  using assms
  by (auto simp: token_begin_def code_grant_def refresh_grant_def Let_def sql_defs client_of_row_def code_of_row_def token_of_row_def
      split: if_splits sum.splits option.splits)

lemma token_begin_error:
  "token_begin sha env f d = (Inl e, d1) \<Longrightarrow>
     (\<exists>status m1 m2. e = OAuthError status m1 m2) \<and> (d1 = d \<or> (\<exists>ok h. d1 = codes_Delete ok h d))"
  by (auto simp: token_begin_def code_grant_def refresh_grant_def Let_def split: if_splits sum.splits option.splits)

definition token_row_for :: "(string \<Rightarrow> 8 word list) \<Rightarrow> oauth_server \<Rightarrow> oauth_env \<Rightarrow> token_form \<Rightarrow> grant \<Rightarrow> token_row" where
  "token_row_for sha srv env f g =
     \<lparr>tw_id = ox_uuid env, tw_access_token_hash = HashSHA256 sha (randomToken (ox_random env 0)),
      tw_refresh_token_hash = oauth_nullIfEmpty (HashSHA256 sha (randomToken (ox_random env 1))), tw_client_id = tf_client_id f,
      tw_tenant_id = gt_tenantID g, tw_scopes = str_join CHR '' '' (gt_scopes g),
      tw_expires_at = ox_now env 1 + og_accessTTL srv, tw_created_at = ox_now env 2\<rparr>"

definition token_taken :: "token_row \<Rightarrow> oauth_state \<Rightarrow> bool" where
  "token_taken w d \<longleftrightarrow> (\<exists>v \<in> set (od_tokens d). tw_id v = tw_id w \<or> tw_access_token_hash v = tw_access_token_hash w)"

definition code_spent :: "oauth_env \<Rightarrow> grant \<Rightarrow> oauth_state \<Rightarrow> oauth_state" where
  "code_spent env g d = (case gt_codeHash g of None \<Rightarrow> d | Some h \<Rightarrow> codes_Delete (ox_db env 2) h d)"

lemma code_spent_simps [simp]:
  "od_clients (code_spent env g d) = od_clients d" "od_tokens (code_spent env g d) = od_tokens d"
  "set (od_codes (code_spent env g d)) \<subseteq> set (od_codes d)"
  "token_taken w (code_spent env g d) = token_taken w d"
  by (auto simp: code_spent_def codes_Delete_def token_taken_def split: option.split)

lemma token_finish_eq:
  "token_finish sha srv env f g d =
     (let w = token_row_for sha srv env f g; d0 = code_spent env g d in
      if \<not> ox_db env 3 \<or> token_taken w d
      then (OAuthError 500 ''server_error'' ''failed to create token'', d0)
      else (TokenReply (randomToken (ox_random env 0)) ''Bearer'' (og_accessTTL srv div second) (randomToken (ox_random env 1))
              (str_join CHR '' '' (gt_scopes g)), d0\<lparr>od_tokens := od_tokens d @ [w]\<rparr>))"
proof -
  have "od_tokens (code_spent env g d) = od_tokens d" by simp
  then show ?thesis
    unfolding token_finish_def code_spent_def [symmetric]
    by (auto simp: tokens_Create_def Let_def or_default_def token_row_for_def token_taken_def list_ex_iff)
qed

section \<open>Every accepted token goes back to an authorization\<close>

text \<open>
  The server with any number of requests in flight: the halves of \<^verbatim>\<open>HandleToken\<close> of different requests
  interleave, while \<^verbatim>\<open>HandleAuthorize\<close>, which reads the client and inserts the code in two statements,
  \<^verbatim>\<open>ValidateAccessToken\<close> and \<^verbatim>\<open>HandleRevoke\<close> are one step each; the log remembers each authorization with the client as it was registered then.
\<close>

record oauth_world =
  ow_data :: oauth_state
  ow_pending :: "(token_form \<times> grant) list"
  ow_log :: "(Client \<times> string list \<times> string) list"

inductive oauth_step :: "(string \<Rightarrow> 8 word list) \<Rightarrow> oauth_server \<Rightarrow> oauth_world \<Rightarrow> oauth_world \<Rightarrow> bool" for sha srv where
  refuse: "HandleAuthorize sha env q (ow_data w) = (OAuthError st e m, d) \<Longrightarrow> oauth_step sha srv w (w\<lparr>ow_data := d\<rparr>)"
| authorize: "\<lbrakk>HandleAuthorize sha env q (ow_data w) = (r, d); d \<noteq> ow_data w;
     GetByClientID True (aq_client_id q) (ow_data w) = Inr (Some c)\<rbrakk>
   \<Longrightarrow> oauth_step sha srv w (w\<lparr>ow_data := d, ow_log := (c, scopes_for q c, aq_redirect_uri q) # ow_log w\<rparr>)"
| begin_fails: "token_begin sha env f (ow_data w) = (Inl e, d) \<Longrightarrow> oauth_step sha srv w (w\<lparr>ow_data := d\<rparr>)"
| begin_grants: "token_begin sha env f (ow_data w) = (Inr g, d)
   \<Longrightarrow> oauth_step sha srv w (w\<lparr>ow_data := d, ow_pending := (f, g) # ow_pending w\<rparr>)"
| finish: "\<lbrakk>(f, g) \<in> set (ow_pending w); token_finish sha srv env f g (ow_data w) = (r, d)\<rbrakk>
   \<Longrightarrow> oauth_step sha srv w (w\<lparr>ow_data := d, ow_pending := remove1 (f, g) (ow_pending w)\<rparr>)"
| revoke: "HandleRevoke sha env meth tok hint (ow_data w) = (r, d) \<Longrightarrow> oauth_step sha srv w (w\<lparr>ow_data := d\<rparr>)"
| validate: "ValidateAccessToken sha env tok (ow_data w) = (c, d) \<Longrightarrow> oauth_step sha srv w (w\<lparr>ow_data := d\<rparr>)"
| create_client: "clients_Create ok now uuid c (ow_data w) = (e, c', d) \<Longrightarrow> oauth_step sha srv w (w\<lparr>ow_data := d\<rparr>)"
| update_client: "clients_Update ok now c (ow_data w) = (e, d) \<Longrightarrow> oauth_step sha srv w (w\<lparr>ow_data := d\<rparr>)"
| delete_client: "clients_Delete ok cid (ow_data w) = (e, d) \<Longrightarrow> oauth_step sha srv w (w\<lparr>ow_data := d\<rparr>)"

inductive oauth_reach :: "(string \<Rightarrow> 8 word list) \<Rightarrow> oauth_server \<Rightarrow> oauth_world \<Rightarrow> bool" for sha srv where
  start: "od_codes d = [] \<Longrightarrow> od_tokens d = [] \<Longrightarrow> oauth_reach sha srv \<lparr>ow_data = d, ow_pending = [], ow_log = []\<rparr>"
| step: "oauth_reach sha srv w \<Longrightarrow> oauth_step sha srv w w' \<Longrightarrow> oauth_reach sha srv w'"

text \<open>The log has an authorization of this client for this tenant and these scopes, which the client was registered for.\<close>

definition granted :: "(Client \<times> string list \<times> string) list \<Rightarrow> string \<Rightarrow> string \<Rightarrow> string list \<Rightarrow> bool" where
  "granted hist cid tenant scopes \<longleftrightarrow> (\<exists>(c, ss, uri) \<in> set hist. oc_ClientID c = cid \<and> oc_TenantID c = tenant \<and> ss = scopes
     \<and> set ss \<subseteq> set (oc_Scopes c) \<and> uri \<in> set (oc_RedirectURIs c))"

lemma granted_Cons: "granted hist cid tenant scopes \<Longrightarrow> granted (x # hist) cid tenant scopes"
  by (auto simp: granted_def)

definition code_granted :: "(Client \<times> string list \<times> string) list \<Rightarrow> code_row \<Rightarrow> bool" where
  "code_granted hist k \<longleftrightarrow> granted hist (kw_client_id k) (kw_tenant_id k) (read_list CHR '' '' (kw_scopes k))"

definition token_granted :: "(Client \<times> string list \<times> string) list \<Rightarrow> token_row \<Rightarrow> bool" where
  "token_granted hist t \<longleftrightarrow> granted hist (tw_client_id t) (tw_tenant_id t) (read_list CHR '' '' (tw_scopes t))"

definition pending_granted :: "(Client \<times> string list \<times> string) list \<Rightarrow> token_form \<times> grant \<Rightarrow> bool" where
  "pending_granted hist p \<longleftrightarrow> granted hist (tf_client_id (fst p)) (gt_tenantID (snd p)) (gt_scopes (snd p)) \<and> scopes_ok (gt_scopes (snd p))"

definition provenance :: "oauth_world \<Rightarrow> bool" where
  "provenance w \<longleftrightarrow> list_all (code_granted (ow_log w)) (od_codes (ow_data w))
     \<and> list_all (token_granted (ow_log w)) (od_tokens (ow_data w)) \<and> list_all (pending_granted (ow_log w)) (ow_pending w)"

lemma provenance_subset:
  assumes "provenance w" "set (od_codes d) \<subseteq> set (od_codes (ow_data w))" "set (od_tokens d) \<subseteq> set (od_tokens (ow_data w))"
  shows "provenance (w\<lparr>ow_data := d\<rparr>)"
  using assms by (auto simp: provenance_def list_all_iff)

lemma provenance_log:
  "provenance w \<Longrightarrow> provenance (w\<lparr>ow_log := x # ow_log w\<rparr>)"
  by (auto simp: provenance_def list_all_iff code_granted_def token_granted_def pending_granted_def intro: granted_Cons)

lemma provenance_authorize:
  assumes "provenance w" "HandleAuthorize sha env q (ow_data w) = (r, d)" "d \<noteq> ow_data w"
    and "GetByClientID True (aq_client_id q) (ow_data w) = Inr (Some c)"
  shows "provenance (w\<lparr>ow_data := d, ow_log := (c, scopes_for q c, aq_redirect_uri q) # ow_log w\<rparr>)"
proof (cases rule: HandleAuthorize_cases [of sha env q "ow_data w", case_names refused granted])
  case (refused status e m)
  with assms show ?thesis by simp
next
  case (granted c' r')
  then have d: "d = (ow_data w)\<lparr>od_codes := od_codes (ow_data w) @ [code_row_for sha env q c]\<rparr>" and m: "may_authorize q c"
    using assms by simp_all
  obtain row where row: "find (\<lambda>w. cw_client_id w = aq_client_id q) (od_clients (ow_data w)) = Some row" "c = client_of_row row"
    using assms(4) by (auto simp: GetByClientID_Some)
  then have id: "oc_ClientID c = aq_client_id q" using find_Some_in [OF row(1)] by (simp add: client_of_row_def)
  have "read_list CHR '' '' (kw_scopes (code_row_for sha env q c)) = scopes_for q c"
    using scopes_for_ok [of q row] row(2) by (simp add: code_row_for_def scopes_roundtrip)
  then have "code_granted ((c, scopes_for q c, aq_redirect_uri q) # ow_log w) (code_row_for sha env q c)"
    using m id by (simp add: code_granted_def granted_def code_row_for_def may_authorize_def)
  with provenance_log [OF assms(1), of "(c, scopes_for q c, aq_redirect_uri q)"] show ?thesis
    by (simp add: provenance_def d)
qed

lemma provenance_begin:
  assumes "provenance w" "token_begin sha env f (ow_data w) = (Inr g, d)"
  shows "provenance (w\<lparr>ow_data := d, ow_pending := (f, g) # ow_pending w\<rparr>)"
proof -
  note b = token_begin_grant [OF assms(2)]
  have "pending_granted (ow_log w) (f, g)"
    using b(3) assms(1)
    by (auto simp: provenance_def list_all_iff pending_granted_def code_granted_def token_granted_def read_list_ok dest!: find_Some_in)
  then show ?thesis using assms(1) b(1) by (simp add: provenance_def)
qed

lemma provenance_finish:
  assumes "provenance w" "(f, g) \<in> set (ow_pending w)" "token_finish sha srv env f g (ow_data w) = (r, d)"
  shows "provenance (w\<lparr>ow_data := d, ow_pending := remove1 (f, g) (ow_pending w)\<rparr>)"
proof -
  have p: "pending_granted (ow_log w) (f, g)" using assms(1,2) by (auto simp: provenance_def list_all_iff)
  then have "token_granted (ow_log w) (token_row_for sha srv env f g)"
    by (simp add: pending_granted_def token_granted_def token_row_for_def scopes_roundtrip)
  moreover have "set (od_codes d) \<subseteq> set (od_codes (ow_data w))"
    "set (od_tokens d) \<subseteq> set (od_tokens (ow_data w)) \<union> {token_row_for sha srv env f g}"
    using assms(3) subsetD [OF code_spent_simps(3) [of env g "ow_data w"]] by (auto simp: token_finish_eq Let_def split: if_splits)
  ultimately show ?thesis
    using assms(1) set_remove1_subset [of "(f, g)" "ow_pending w"] by (auto simp: provenance_def list_all_iff)
qed

lemma oauth_tables_shrink:
  "token_begin sha env f d = (Inl e, d1) \<Longrightarrow> set (od_codes d1) \<subseteq> set (od_codes d) \<and> set (od_tokens d1) \<subseteq> set (od_tokens d)"
  "HandleRevoke sha env meth tok hint d = (r, d1) \<Longrightarrow> set (od_codes d1) \<subseteq> set (od_codes d) \<and> set (od_tokens d1) \<subseteq> set (od_tokens d)"
  "ValidateAccessToken sha env tok d = (c, d1) \<Longrightarrow> set (od_codes d1) \<subseteq> set (od_codes d) \<and> set (od_tokens d1) \<subseteq> set (od_tokens d)"
proof -
  show "set (od_codes d1) \<subseteq> set (od_codes d) \<and> set (od_tokens d1) \<subseteq> set (od_tokens d)" if "token_begin sha env f d = (Inl e, d1)"
    using token_begin_error [OF that] by (auto simp: codes_Delete_def split: if_splits)
qed (auto simp: HandleRevoke_def ValidateAccessToken_def DeleteByAccessToken_def Let_def
      split: if_splits sum.splits option.splits)

lemma provenance_step: "oauth_step sha srv w w' \<Longrightarrow> provenance w \<Longrightarrow> provenance w'"
proof (induction rule: oauth_step.induct)
  case (refuse env q w st e m d)
  then show ?case
    by (cases rule: HandleAuthorize_cases [of sha env q "ow_data w"]) (auto intro: provenance_subset)
next
  case (authorize env q w r d c)
  then show ?case by (intro provenance_authorize)
next
  case (begin_fails env f w e d)
  then show ?case using oauth_tables_shrink(1) by (intro provenance_subset) blast+
next
  case (begin_grants env f w g d)
  then show ?case by (intro provenance_begin)
next
  case (finish f g w env r d)
  then show ?case by (intro provenance_finish)
next
  case (revoke env meth tok hint w r d)
  then show ?case using oauth_tables_shrink(2) by (intro provenance_subset) blast+
next
  case (validate env tok w c d)
  then show ?case using oauth_tables_shrink(3) by (intro provenance_subset) blast+
qed (auto simp: clients_Create_def clients_Update_def clients_Delete_def Let_def split: if_splits intro!: provenance_subset)

lemma oauth_reach_provenance: "oauth_reach sha srv w \<Longrightarrow> provenance w"
proof (induction rule: oauth_reach.induct)
  case (start d)
  then show ?case by (simp add: provenance_def)
next
  case (step w w')
  then show ?case by (blast intro: provenance_step)
qed

section \<open>Properties\<close>

text \<open>A client with a redirect URI and two scopes; a digest that keeps the string as it is.\<close>

definition ascii_digest :: "string \<Rightarrow> 8 word list" where
  "ascii_digest s = map (\<lambda>c. of_nat (of_char c :: nat)) s"

definition example_client_row :: client_row where
  "example_client_row = \<lparr>cw_id = ''u'', cw_client_id = ''app'', cw_client_secret_hash = HashSHA256 ascii_digest ''k'',
     cw_redirect_uris = ''x:/cb'', cw_scopes = ''r w'', cw_tenant_id = ''acme'', cw_created_at = 1, cw_updated_at = 1\<rparr>"

definition example_oauth :: oauth_state where
  "example_oauth = \<lparr>od_clients = [example_client_row], od_codes = [], od_tokens = []\<rparr>"

definition example_oauth_env :: "nat \<Rightarrow> time \<Rightarrow> oauth_env" where
  "example_oauth_env i now = \<lparr>ox_db = (\<lambda>_. True), ox_now = (\<lambda>_. now), ox_uuid = replicate i CHR ''i'',
     ox_random = (\<lambda>n. [of_nat (16 * i + n)]), ox_url_ok = (\<lambda>_. True)\<rparr>"

definition example_query :: authorize_query where
  "example_query = \<lparr>aq_client_id = ''app'', aq_redirect_uri = ''x:/cb'', aq_response_type = ''code'', aq_scope = ''r'', aq_state = []\<rparr>"

definition example_form :: "string \<Rightarrow> string \<Rightarrow> token_form" where
  "example_form typ secret = \<lparr>tf_method = ''POST'', tf_grant_type = typ, tf_client_id = ''app'', tf_client_secret = ''k'',
     tf_code = secret, tf_redirect_uri = ''x:/cb'', tf_refresh_token = secret\<rparr>"

lemma example_authorize:
  "HandleAuthorize ascii_digest (example_oauth_env 1 0) example_query example_oauth =
     (Redirect ''x:/cb'' [(''code'', ''10'')],
      example_oauth\<lparr>od_codes := [\<lparr>kw_id = ''i'', kw_code_hash = ''3130'', kw_client_id = ''app'', kw_tenant_id = ''acme'', kw_scopes = ''r'',
        kw_redirect_uri = ''x:/cb'', kw_expires_at = 600 * second, kw_created_at = 0\<rparr>]\<rparr>)"
  by code_simp

text \<open>Who may have a token, said without the order of the checks.\<close>

definition client_proved :: "(string \<Rightarrow> 8 word list) \<Rightarrow> oauth_env \<Rightarrow> token_form \<Rightarrow> oauth_state \<Rightarrow> bool" where
  "client_proved sha env f d \<longleftrightarrow> tf_method f = ''POST'' \<and> tf_client_id f \<noteq> [] \<and> tf_client_secret f \<noteq> [] \<and> ox_db env 0 \<and>
     (case find (\<lambda>w. cw_client_id w = tf_client_id f) (od_clients d) of
        None \<Rightarrow> False | Some w \<Rightarrow> HashSHA256 sha (tf_client_secret f) = cw_client_secret_hash w)"

inductive entitled :: "(string \<Rightarrow> 8 word list) \<Rightarrow> oauth_env \<Rightarrow> token_form \<Rightarrow> oauth_state \<Rightarrow> grant \<Rightarrow> bool" for sha env f d where
  by_code: "\<lbrakk>tf_grant_type f = ''authorization_code''; tf_code f \<noteq> []; tf_redirect_uri f \<noteq> []; ox_db env 1;
     find (\<lambda>k. kw_code_hash k = HashSHA256 sha (tf_code f)) (od_codes d) = Some k; kw_client_id k = tf_client_id f;
     kw_redirect_uri k = tf_redirect_uri f; ox_now env 0 \<le> kw_expires_at k\<rbrakk>
   \<Longrightarrow> entitled sha env f d \<lparr>gt_tenantID = kw_tenant_id k, gt_scopes = read_list CHR '' '' (kw_scopes k),
         gt_codeHash = Some (HashSHA256 sha (tf_code f))\<rparr>"
| by_refresh: "\<lbrakk>tf_grant_type f = ''refresh_token''; tf_refresh_token f \<noteq> []; ox_db env 1;
     find (\<lambda>t. tw_refresh_token_hash t = Some (HashSHA256 sha (tf_refresh_token f))) (od_tokens d) = Some t;
     tw_client_id t = tf_client_id f\<rbrakk>
   \<Longrightarrow> entitled sha env f d \<lparr>gt_tenantID = tw_tenant_id t, gt_scopes = read_list CHR '' '' (tw_scopes t), gt_codeHash = None\<rparr>"

inductive_simps entitled_iff: "entitled sha env f d g"

lemma token_begin_iff: "fst (token_begin sha env f d) = Inr g \<longleftrightarrow> client_proved sha env f d \<and> entitled sha env f d g"
  by (auto simp: token_begin_def client_proved_def entitled_iff code_grant_def refresh_grant_def Let_def sql_defs
      client_of_row_def code_of_row_def token_of_row_def split: sum.splits option.splits)

lemma token_begin_Inr: "token_begin sha env f d = (Inr g, d1) \<longleftrightarrow> d1 = d \<and> client_proved sha env f d \<and> entitled sha env f d g"
  using token_begin_iff [of sha env f d g] token_begin_grant(1) [of sha env f d g]
  by (cases "token_begin sha env f d") auto

definition issues :: "oauth_reply \<Rightarrow> bool" where
  "issues r \<longleftrightarrow> (case r of TokenReply a ty n rt sc \<Rightarrow> True | _ \<Rightarrow> False)"

lemma token_finish_issues:
  "issues (fst (token_finish sha srv env f g d)) \<longleftrightarrow> ox_db env 3 \<and> \<not> token_taken (token_row_for sha srv env f g) d"
  by (simp add: token_finish_eq Let_def issues_def)

lemma HandleToken_cases:
  obtains (refused) e d1 where "token_begin sha env f d = (Inl e, d1)" "HandleToken sha srv env f d = (e, d1)" "\<not> issues e"
  | (granted) g where "client_proved sha env f d" "entitled sha env f d g"
      "HandleToken sha srv env f d = token_finish sha srv env f g d"
proof (cases "token_begin sha env f d")
  case (Pair r d1)
  show ?thesis
  proof (cases r)
    case (Inl e)
    with Pair token_begin_error [of sha env f d e d1] show ?thesis
      by (intro refused) (auto simp: HandleToken_def issues_def)
  next
    case (Inr g)
    with Pair show ?thesis using token_begin_Inr [of sha env f d g d1]
      by (intro granted) (auto simp: HandleToken_def)
  qed
qed

lemma code_find_new: "\<not> code_taken k d \<Longrightarrow> find (\<lambda>v. kw_code_hash v = kw_code_hash k) (od_codes d @ [k]) = Some k"
proof -
  have "(\<And>v. v \<in> set xs \<Longrightarrow> kw_code_hash v \<noteq> kw_code_hash k) \<Longrightarrow> find (\<lambda>v. kw_code_hash v = kw_code_hash k) (xs @ [k]) = Some k" for xs
    by (induction xs) auto
  then show "\<not> code_taken k d \<Longrightarrow> ?thesis" by (auto simp: code_taken_def)
qed

lemma token_find_new:
  "\<not> token_taken t d \<Longrightarrow> find (\<lambda>v. tw_access_token_hash v = tw_access_token_hash t) (od_tokens d @ [t]) = Some t"
proof -
  have "(\<And>v. v \<in> set xs \<Longrightarrow> tw_access_token_hash v \<noteq> tw_access_token_hash t) \<Longrightarrow>
      find (\<lambda>v. tw_access_token_hash v = tw_access_token_hash t) (xs @ [t]) = Some t" for xs
    by (induction xs) auto
  then show "\<not> token_taken t d \<Longrightarrow> ?thesis" by (auto simp: token_taken_def)
qed

definition claims_for :: "token_row \<Rightarrow> Claims" where
  "claims_for t = \<lparr>cl_Subject = ''oauth:'' @ tw_client_id t, cl_Issuer = [], cl_Audience = [], cl_Roles = [RoleOperator],
     cl_Role = [], cl_TenantID = tw_tenant_id t\<rparr>"

lemma ValidateAccessToken_eq:
  "ValidateAccessToken sha env a d =
     (case find (\<lambda>t. tw_access_token_hash t = HashSHA256 sha a) (od_tokens d) of
        Some t \<Rightarrow> if a = [] \<or> \<not> ox_db env 0 then (None, d)
                  else if tw_expires_at t < ox_now env 0 then (None, DeleteByAccessToken (ox_db env 1) (HashSHA256 sha a) d)
                  else (Some (claims_for t), d)
      | None \<Rightarrow> (None, d))"
  by (simp add: ValidateAccessToken_def Let_def GetByAccessTokenHash_def getByHash_def claims_for_def token_of_row_def
      split: option.split)

lemma randomToken_nonempty [simp]: "randomToken b \<noteq> [] \<longleftrightarrow> b \<noteq> []"
  by (cases b) (simp_all add: randomToken_def hex_EncodeToString_def)

text \<open>
  C29. The token endpoint answers with a token exactly when the caller proves to be the client with its secret,
  holds a grant (an unexpired code issued to this client for this redirect URI, or a refresh token of this
  client), and the new token can be stored.
\<close>

theorem HandleToken_issues_iff:
  "issues (fst (HandleToken sha srv env f d)) \<longleftrightarrow> client_proved sha env f d \<and> ox_db env 3
     \<and> (\<exists>g. entitled sha env f d g \<and> \<not> token_taken (token_row_for sha srv env f g) d)"
proof (cases rule: HandleToken_cases [of sha env f d srv, case_names refused granted])
  case (refused e d1)
  then show ?thesis using token_begin_Inr [of sha env f d] by auto
next
  case (granted g)
  then have "entitled sha env f d g' \<longleftrightarrow> g' = g" for g'
    using token_begin_iff [of sha env f d g] token_begin_iff [of sha env f d g'] by auto
  with granted(1,3) show ?thesis by (simp add: token_finish_issues)
qed

text \<open>
  A code is spent by the exchange: once a token has been issued for it and its row deleted, no request
  gets a token for the same code from the tables that are left.
\<close>

theorem code_spent_once:
  assumes "HandleToken sha srv env f d = (r, d1)" "issues r" "tf_grant_type f = ''authorization_code''" "ox_db env 2"
    and "tf_grant_type f' = ''authorization_code''" "tf_code f' = tf_code f"
  shows "\<not> issues (fst (HandleToken sha srv env' f' d1))"
proof -
  have "\<not> entitled sha env' f' d1 g" for g
  proof (cases rule: HandleToken_cases [of sha env f d srv, case_names refused granted])
    case (refused e d2)
    with assms show ?thesis by simp
  next
    case (granted g')
    then have "gt_codeHash g' = Some (HashSHA256 sha (tf_code f))" using assms(3) by (auto simp: entitled_iff)
    then have "od_codes d1 = filter (\<lambda>w. kw_code_hash w \<noteq> HashSHA256 sha (tf_code f)) (od_codes d)"
      using granted assms(1,2,4) by (auto simp: token_finish_eq Let_def issues_def code_spent_def codes_Delete_def split: if_splits)
    then show ?thesis using assms(5,6) by (auto simp: entitled_iff dest!: find_Some_in)
  qed
  then show ?thesis
    by (cases rule: HandleToken_cases [of sha env' f' d1 srv]) auto
qed

text \<open>
  C28. Whatever order requests arrive in and however the halves of token exchanges interleave (an authorization, a validation and a
  revocation being one step each): when an access
  token is accepted, its tenant and client are those of an authorization that was given to a registered
  client, for a redirect URI and scopes that were registered for it at that time.
\<close>

theorem oauth_claims_granted:
  assumes "oauth_reach sha srv w" "ValidateAccessToken sha env tok (ow_data w) = (Some claims, d)"
  shows "\<exists>(c, scopes, uri) \<in> set (ow_log w). cl_TenantID claims = oc_TenantID c \<and> cl_Subject claims = ''oauth:'' @ oc_ClientID c
    \<and> set scopes \<subseteq> set (oc_Scopes c) \<and> uri \<in> set (oc_RedirectURIs c)"
proof -
  from assms(2) obtain t where "t \<in> set (od_tokens (ow_data w))" "claims = claims_for t"
    by (auto simp: ValidateAccessToken_eq split: option.splits if_splits dest!: find_Some_in)
  with oauth_reach_provenance [OF assms(1)] have "token_granted (ow_log w) t" "claims = claims_for t"
    by (auto simp: provenance_def list_all_iff)
  then obtain c uri where "(c, read_list CHR '' '' (tw_scopes t), uri) \<in> set (ow_log w)" "oc_ClientID c = tw_client_id t"
    "oc_TenantID c = tw_tenant_id t" "set (read_list CHR '' '' (tw_scopes t)) \<subseteq> set (oc_Scopes c)" "uri \<in> set (oc_RedirectURIs c)"
    by (auto simp: token_granted_def granted_def)
  then show ?thesis using \<open>claims = claims_for t\<close> by (intro bexI [of _ "(c, _, uri)"]) (simp_all add: claims_for_def)
qed

text \<open>
  C30. The whole flow: a registered client that asks for a registered redirect URI and scopes is redirected with a
  code; exchanged within ten minutes with the client's secret, the code yields an access token; and until that
  token's life of \<^verbatim>\<open>accessTTL\<close> is over, a request that bears it reaches its handler with the claims of an operator of
  the client's tenant. This holds for every configuration of the middleware, with or without JWT, provided only that the JWT check, where
  it is configured, does not itself take the access token for a valid JWT: the middleware then asks the OAuth validator. (The
  statements of the database succeed, and the code, the token and its identifier are new and not empty.)
\<close>

theorem oauth_flow:
  assumes client: "find (\<lambda>w. cw_client_id w = aq_client_id q) (od_clients d) = Some w" "may_authorize q (client_of_row w)"
    and db: "\<And>n. ox_db e1 n" "\<And>n. ox_db e2 n" "\<And>n. ox_db e3 n" and url: "ox_url_ok e1 (aq_redirect_uri q)"
    and fresh: "\<not> code_taken (code_row_for sha e1 q (client_of_row w)) d"
    "\<And>v. v \<in> set (od_tokens d) \<Longrightarrow> tw_id v \<noteq> ox_uuid e2 \<and> tw_access_token_hash v \<noteq> HashSHA256 sha (randomToken (ox_random e2 0))"
    and random: "ox_random e1 0 \<noteq> []" "ox_random e2 0 \<noteq> []"
    and f: "f = \<lparr>tf_method = ''POST'', tf_grant_type = ''authorization_code'', tf_client_id = aq_client_id q, tf_client_secret = secret,
      tf_code = randomToken (ox_random e1 0), tf_redirect_uri = aq_redirect_uri q, tf_refresh_token = []\<rparr>"
    and secret: "secret \<noteq> []" "HashSHA256 sha secret = cw_client_secret_hash w"
    and times: "ox_now e2 0 \<le> ox_now e1 0 + 600 * second" "ox_now e3 0 \<le> ox_now e2 1 + og_accessTTL srv"
    and jwt: "(ac_secret cfg = [] \<and> ac_publicKeyPEM cfg = []) \<or>
      (\<forall>c'. parseJWT (ac_jwt cfg) (ac_pem cfg) (randomToken (ox_random e2 0)) (ac_secret cfg) (ac_publicKeyPEM cfg) (ac_issuer cfg)
        (ac_audience cfg) \<noteq> Inr (Some c'))"
  shows "\<exists>d1 d2 access rt sc claims.
    HandleAuthorize sha e1 q d =
      (Redirect (aq_redirect_uri q) ((''code'', tf_code f) # (if aq_state q \<noteq> [] then [(''state'', aq_state q)] else [])), d1)
    \<and> HandleToken sha srv e2 f d1 = (TokenReply access ''Bearer'' (og_accessTTL srv div second) rt sc, d2)
    \<and> cl_TenantID claims = cw_tenant_id w \<and> GetRoles claims = [RoleOperator]
    \<and> MiddlewareWithAPIKeysAndOAuth
        (cfg\<lparr>ac_oauthValidator := Some (\<lambda>tok. Inr (fst (ValidateAccessToken sha e3 tok d2)))\<rparr>)
        (cr\<lparr>cr_Authorization := bearer_prefix @ access\<rparr>) next = next (Some claims)"
proof -
  let ?c = "client_of_row w" let ?k = "code_row_for sha e1 q ?c"
  let ?d1 = "d\<lparr>od_codes := od_codes d @ [?k]\<rparr>"
  let ?g = "\<lparr>gt_tenantID = kw_tenant_id ?k, gt_scopes = read_list CHR '' '' (kw_scopes ?k), gt_codeHash = Some (HashSHA256 sha (tf_code f))\<rparr>"
  let ?t = "token_row_for sha srv e2 f ?g"
  let ?d2 = "(code_spent e2 ?g ?d1)\<lparr>od_tokens := od_tokens d @ [?t]\<rparr>"
  let ?a = "randomToken (ox_random e2 0)"
  have A: "HandleAuthorize sha e1 q d =
      (Redirect (aq_redirect_uri q) ((''code'', tf_code f) # (if aq_state q \<noteq> [] then [(''state'', aq_state q)] else [])), ?d1)"
    using HandleAuthorize_grants [of e1 q d ?c sha] client db(1) fresh(1) url f by (simp add: GetByClientID_Some)
  have "client_proved sha e2 f ?d1"
    using client secret db(2) f by (simp add: client_proved_def may_authorize_def)
  moreover have "entitled sha e2 f ?d1 ?g"
    using code_find_new [OF fresh(1)] f client(2) random(1) db(2) times(1)
    by (intro by_code) (simp_all add: code_row_for_def may_authorize_def)
  ultimately have "token_begin sha e2 f ?d1 = (Inr ?g, ?d1)" by (simp only: token_begin_Inr)
  moreover have free: "\<not> token_taken ?t d"
    using fresh(2) by (auto simp: token_taken_def token_row_for_def)
  ultimately have B: "HandleToken sha srv e2 f ?d1 = (TokenReply ?a ''Bearer'' (og_accessTTL srv div second) (randomToken (ox_random e2 1))
      (str_join CHR '' '' (gt_scopes ?g)), ?d2)"
    using db(2) by (simp add: HandleToken_def token_finish_eq Let_def token_taken_def)
  have "ValidateAccessToken sha e3 ?a ?d2 = (Some (claims_for ?t), ?d2)"
    using token_find_new [OF free] random(2) db(3) times(2) by (simp add: ValidateAccessToken_eq token_row_for_def)
  then have "MiddlewareWithAPIKeysAndOAuth
        (cfg\<lparr>ac_oauthValidator := Some (\<lambda>tok. Inr (fst (ValidateAccessToken sha e3 tok ?d2)))\<rparr>)
        (cr\<lparr>cr_Authorization := bearer_prefix @ ?a\<rparr>) next = next (Some (claims_for ?t))"
    using jwt by (auto simp: MiddlewareWithAPIKeysAndOAuth_def AuthConfigured_def bearer_claims_def Let_def split: sum.split option.split)
  moreover have "cl_TenantID (claims_for ?t) = cw_tenant_id w" "GetRoles (claims_for ?t) = [RoleOperator]"
    by (simp_all add: claims_for_def token_row_for_def code_row_for_def client_of_row_def GetRoles_def)
  ultimately show ?thesis using A B by blast
qed

text \<open>
  Two requests that bring the same code at the same time both get a token: each reads the code before the
  other deletes it, and nothing afterwards asks whether a row was deleted.
\<close>

theorem code_exchanged_twice:
  assumes "fst (token_begin sha e f d) = Inr g" "fst (token_begin sha e' f' d) = Inr g'"
    and "ox_db e 3" "ox_db e' 3" "\<not> token_taken (token_row_for sha srv e f g) d" "\<not> token_taken (token_row_for sha srv e' f' g') d"
    and "ox_uuid e \<noteq> ox_uuid e'" "HashSHA256 sha (randomToken (ox_random e 0)) \<noteq> HashSHA256 sha (randomToken (ox_random e' 0))"
  shows "issues (fst (token_finish sha srv e f g d))
    \<and> issues (fst (token_finish sha srv e' f' g' (snd (token_finish sha srv e f g d))))"
proof -
  have "\<not> token_taken (token_row_for sha srv e' f' g') (snd (token_finish sha srv e f g d))"
    using assms(3,5-8) by (auto simp: token_finish_eq Let_def token_taken_def token_row_for_def)
  then show ?thesis using assms(3-5) by (simp add: token_finish_issues)
qed

text \<open>
  Once an expired access token has been presented to the API, its refresh token is of no use any more: the
  validation deletes the row that holds both.
\<close>

theorem expired_use_ends_refresh:
  assumes "a \<noteq> []" "t \<in> set (od_tokens d)" "tw_access_token_hash t = HashSHA256 sha a"
    and "tw_refresh_token_hash t = Some (HashSHA256 sha rt)"
    and unique: "\<And>v. v \<in> set (od_tokens d) \<Longrightarrow> tw_access_token_hash v = tw_access_token_hash t
      \<or> tw_refresh_token_hash v = tw_refresh_token_hash t \<Longrightarrow> v = t"
    and "tw_expires_at t < ox_now env 0" "ox_db env 0" "ox_db env 1"
    and "tf_grant_type f = ''refresh_token''" "tf_refresh_token f = rt"
  shows "\<not> issues (fst (HandleToken sha srv env' f (snd (ValidateAccessToken sha env a d))))"
proof -
  have "find (\<lambda>t. tw_access_token_hash t = HashSHA256 sha a) (od_tokens d) = Some t"
  proof (cases "find (\<lambda>t. tw_access_token_hash t = HashSHA256 sha a) (od_tokens d)")
    case None
    then show ?thesis using assms(2,3) by (auto simp: find_None_iff)
  next
    case (Some v)
    then show ?thesis using unique [of v] assms(3) find_Some_in [OF Some] by simp
  qed
  then have d: "snd (ValidateAccessToken sha env a d) =
      d\<lparr>od_tokens := filter (\<lambda>w. tw_access_token_hash w \<noteq> HashSHA256 sha a) (od_tokens d)\<rparr>"
    using assms(1,6-8) by (simp add: ValidateAccessToken_eq DeleteByAccessToken_def)
  have "\<not> entitled sha env' f (snd (ValidateAccessToken sha env a d)) g" for g
    using assms(3,4,9,10) unique by (auto simp: entitled_iff d dest!: find_Some_in)
  then show ?thesis by (cases rule: HandleToken_cases [of sha env' f "snd (ValidateAccessToken sha env a d)" srv]) auto
qed

section \<open>Witnesses\<close>

definition example_srv :: oauth_server where
  "example_srv = oauth_NewServer ''h/''"

definition example_authorized :: oauth_state where
  "example_authorized = snd (HandleAuthorize ascii_digest (example_oauth_env 1 0) example_query example_oauth)"

definition example_issued :: oauth_state where
  "example_issued = snd (HandleToken ascii_digest example_srv (example_oauth_env 2 0) (example_form ''authorization_code'' ''10'') example_authorized)"

lemma example_exchange:
  "HandleToken ascii_digest example_srv (example_oauth_env 2 0) (example_form ''authorization_code'' ''10'') example_authorized
     = (TokenReply ''20'' ''Bearer'' 7200 ''21'' ''r'', example_issued)"
  by code_simp

theorem code_spent_once_witness:
  "\<not> issues (fst (HandleToken ascii_digest example_srv (example_oauth_env 3 0) (example_form ''authorization_code'' ''10'') example_issued))"
proof (rule code_spent_once [OF example_exchange])
  show "issues (TokenReply ''20'' ''Bearer'' 7200 ''21'' ''r'')" by (simp add: issues_def)
  show "ox_db (example_oauth_env 2 0) 2" by (simp add: example_oauth_env_def)
qed (simp_all add: example_form_def)

definition example_grant :: grant where
  "example_grant = \<lparr>gt_tenantID = ''acme'', gt_scopes = [''r''], gt_codeHash = Some ''3130''\<rparr>"

lemma example_begin:
  "token_begin ascii_digest (example_oauth_env 2 0) (example_form ''authorization_code'' ''10'') example_authorized = (Inr example_grant, example_authorized)"
  "token_begin ascii_digest (example_oauth_env 3 0) (example_form ''authorization_code'' ''10'') example_authorized = (Inr example_grant, example_authorized)"
  by code_simp+

theorem code_exchanged_twice_witness:
  "issues (fst (token_finish ascii_digest example_srv (example_oauth_env 2 0) (example_form ''authorization_code'' ''10'') example_grant example_authorized))
   \<and> issues (fst (token_finish ascii_digest example_srv (example_oauth_env 3 0) (example_form ''authorization_code'' ''10'') example_grant
       (snd (token_finish ascii_digest example_srv (example_oauth_env 2 0) (example_form ''authorization_code'' ''10'') example_grant example_authorized))))"
proof (rule code_exchanged_twice)
  show "fst (token_begin ascii_digest (example_oauth_env 2 0) (example_form ''authorization_code'' ''10'') example_authorized) = Inr example_grant"
    "fst (token_begin ascii_digest (example_oauth_env 3 0) (example_form ''authorization_code'' ''10'') example_authorized) = Inr example_grant"
    by (simp_all add: example_begin)
  have "od_tokens example_authorized = []" by code_simp
  then show "\<not> token_taken (token_row_for ascii_digest example_srv (example_oauth_env 2 0) (example_form ''authorization_code'' ''10'') example_grant) example_authorized"
    "\<not> token_taken (token_row_for ascii_digest example_srv (example_oauth_env 3 0) (example_form ''authorization_code'' ''10'') example_grant) example_authorized"
    by (simp_all add: token_taken_def)
  show "HashSHA256 ascii_digest (randomToken (ox_random (example_oauth_env 2 0) 0)) \<noteq>
      HashSHA256 ascii_digest (randomToken (ox_random (example_oauth_env 3 0) 0))" by code_simp
qed (simp_all add: example_oauth_env_def eval_nat_numeral)

lemma example_issued_tokens:
  "od_tokens example_issued = [\<lparr>tw_id = ''ii'', tw_access_token_hash = ''3230'', tw_refresh_token_hash = Some ''3231'', tw_client_id = ''app'',
     tw_tenant_id = ''acme'', tw_scopes = ''r'', tw_expires_at = 7200 * second, tw_created_at = 0\<rparr>]"
  "HashSHA256 ascii_digest ''20'' = ''3230''" "HashSHA256 ascii_digest ''21'' = ''3231''"
  by code_simp+

theorem expired_use_ends_refresh_witness:
  "issues (fst (HandleToken ascii_digest example_srv (example_oauth_env 4 (7201 * second)) (example_form ''refresh_token'' ''21'') example_issued))
   \<and> \<not> issues (fst (HandleToken ascii_digest example_srv (example_oauth_env 4 (7201 * second)) (example_form ''refresh_token'' ''21'')
         (snd (ValidateAccessToken ascii_digest (example_oauth_env 3 (7201 * second)) ''20'' example_issued))))"
proof
  show "\<not> issues (fst (HandleToken ascii_digest example_srv (example_oauth_env 4 (7201 * second)) (example_form ''refresh_token'' ''21'')
         (snd (ValidateAccessToken ascii_digest (example_oauth_env 3 (7201 * second)) ''20'' example_issued))))"
    by (rule expired_use_ends_refresh [of "''20''" "hd (od_tokens example_issued)"])
      (auto simp: example_issued_tokens example_oauth_env_def example_form_def second_def)
qed code_simp

lemma example_reach:
  "oauth_reach ascii_digest example_srv \<lparr>ow_data = example_issued, ow_pending = [],
     ow_log = [(client_of_row example_client_row, [''r''], ''x:/cb'')]\<rparr>"
proof -
  let ?e = "(client_of_row example_client_row, [''r''], ''x:/cb'')"
  have "oauth_reach ascii_digest example_srv \<lparr>ow_data = example_oauth, ow_pending = [], ow_log = []\<rparr>"
    by (rule start) (simp_all add: example_oauth_def)
  moreover have "oauth_step ascii_digest example_srv \<lparr>ow_data = example_oauth, ow_pending = [], ow_log = []\<rparr>
      \<lparr>ow_data = example_authorized, ow_pending = [], ow_log = [?e]\<rparr>"
  proof -
    have "d \<noteq> example_oauth" if "d = example_authorized" for d
      using example_authorize that by (auto simp: example_authorized_def example_oauth_def)
    moreover have "scopes_for example_query (client_of_row example_client_row) = [''r'']" by code_simp
    ultimately show ?thesis
      using authorize [of ascii_digest "example_oauth_env 1 0" example_query "\<lparr>ow_data = example_oauth, ow_pending = [], ow_log = []\<rparr>"
          "fst (HandleAuthorize ascii_digest (example_oauth_env 1 0) example_query example_oauth)" example_authorized
          "client_of_row example_client_row" example_srv]
      by (simp add: example_authorized_def GetByClientID_Some example_oauth_def example_query_def example_client_row_def)
  qed
  ultimately have "oauth_reach ascii_digest example_srv \<lparr>ow_data = example_authorized, ow_pending = [], ow_log = [?e]\<rparr>"
    by (rule oauth_reach.step)
  then have "oauth_reach ascii_digest example_srv \<lparr>ow_data = example_authorized,
      ow_pending = [(example_form ''authorization_code'' ''10'', example_grant)], ow_log = [?e]\<rparr>"
    by (rule oauth_reach.step)
      (use begin_grants [of ascii_digest _ _ "\<lparr>ow_data = example_authorized, ow_pending = [], ow_log = [?e]\<rparr>", simplified, OF example_begin(1)] in simp)
  then show ?thesis
    by (rule oauth_reach.step)
      (use finish [of "example_form ''authorization_code'' ''10''" example_grant "\<lparr>ow_data = example_authorized,
        ow_pending = [(example_form ''authorization_code'' ''10'', example_grant)], ow_log = [?e]\<rparr>" ascii_digest example_srv "example_oauth_env 2 0"
        "TokenReply ''20'' ''Bearer'' 7200 ''21'' ''r''" example_issued]
        example_exchange in \<open>simp add: HandleToken_def example_begin\<close>)
qed

theorem oauth_claims_granted_witness:
  "\<exists>(c, scopes, uri) \<in> {(client_of_row example_client_row, [''r''], ''x:/cb'')}. ''acme'' = oc_TenantID c \<and> ''oauth:app'' = ''oauth:'' @ oc_ClientID c
    \<and> set scopes \<subseteq> set (oc_Scopes c) \<and> uri \<in> set (oc_RedirectURIs c)"
proof -
  have "ValidateAccessToken ascii_digest (example_oauth_env 3 0) ''20'' example_issued =
      (Some (claims_for (hd (od_tokens example_issued))), example_issued)" by code_simp
  with oauth_claims_granted [OF example_reach, of "example_oauth_env 3 0" "''20''"] show ?thesis
    by (simp add: example_issued_tokens claims_for_def)
qed

definition no_jwt :: "unit auth_config" where
  "no_jwt = \<lparr>ac_secret = [], ac_publicKeyPEM = [], ac_issuer = [], ac_audience = [], ac_unsafe = False,
     ac_jwt = (\<lambda>_ _. Inl SignatureInvalid), ac_pem = (\<lambda>_. Inr ()), ac_apiKeyStore = None, ac_oauthValidator = None\<rparr>"

definition no_credentials :: credentials where
  "no_credentials = \<lparr>cr_Authorization = [], cr_XAPIKey = [], cr_isGET = True, cr_query_api_key = []\<rparr>"

text \<open>A middleware with a JWT secret, whose JWT library wants a dot in a token.\<close>

definition with_jwt :: "unit auth_config" where
  "with_jwt = no_jwt\<lparr>ac_secret := ''s'', ac_jwt := (\<lambda>kf tok. if CHR ''.'' \<in> set tok
     then Inr (\<lparr>cl_Subject = [], cl_Issuer = [], cl_Audience = [], cl_Roles = [], cl_Role = [], cl_TenantID = []\<rparr>, True) else Inl InvalidClaims)\<rparr>"

theorem oauth_flow_witness:
  "\<exists>d1 d2 access rt sc claims.
    HandleAuthorize ascii_digest (example_oauth_env 1 0) example_query example_oauth = (Redirect ''x:/cb'' [(''code'', ''10'')], d1)
    \<and> HandleToken ascii_digest example_srv (example_oauth_env 2 (599 * second)) ((example_form ''authorization_code'' ''10'')\<lparr>tf_refresh_token := []\<rparr>) d1
        = (TokenReply access ''Bearer'' 7200 rt sc, d2)
    \<and> cl_TenantID claims = ''acme'' \<and> GetRoles claims = [''operator'']
    \<and> MiddlewareWithAPIKeysAndOAuth
        (with_jwt\<lparr>ac_oauthValidator := Some (\<lambda>tok. Inr (fst (ValidateAccessToken ascii_digest (example_oauth_env 3 (7700 * second)) tok d2)))\<rparr>)
        (no_credentials\<lparr>cr_Authorization := bearer_prefix @ access\<rparr>) (\<lambda>c. Served (map_option cl_TenantID c)) = Served (Some (cl_TenantID claims))"
proof -
  have f: "(example_form ''authorization_code'' ''10'')\<lparr>tf_refresh_token := []\<rparr> =
      \<lparr>tf_method = ''POST'', tf_grant_type = ''authorization_code'', tf_client_id = aq_client_id example_query, tf_client_secret = ''k'',
       tf_code = randomToken (ox_random (example_oauth_env 1 0) 0), tf_redirect_uri = aq_redirect_uri example_query, tf_refresh_token = []\<rparr>"
    by code_simp
  have may: "may_authorize example_query (client_of_row example_client_row)" by code_simp
  have facts: "find (\<lambda>w. cw_client_id w = aq_client_id example_query) (od_clients example_oauth) = Some example_client_row"
    "od_codes example_oauth = []" "od_tokens example_oauth = []" "cw_tenant_id example_client_row = ''acme''"
    "HashSHA256 ascii_digest ''k'' = cw_client_secret_hash example_client_row" "og_accessTTL example_srv = 7200 * second"
    by code_simp+
  have env: "ox_db (example_oauth_env i t) n" "ox_url_ok (example_oauth_env i t) u" "ox_random (example_oauth_env i t) n \<noteq> []"
    "ox_now (example_oauth_env i t) n = t" for i t n u by (simp_all add: example_oauth_env_def)
  have "parseJWT (ac_jwt with_jwt) (ac_pem with_jwt) (randomToken (ox_random (example_oauth_env 2 (599 * second)) 0)) (ac_secret with_jwt)
      (ac_publicKeyPEM with_jwt) (ac_issuer with_jwt) (ac_audience with_jwt) = Inl InvalidClaims"
    by code_simp
  then have jwt: "\<forall>c'. parseJWT (ac_jwt with_jwt) (ac_pem with_jwt) (randomToken (ox_random (example_oauth_env 2 (599 * second)) 0))
      (ac_secret with_jwt) (ac_publicKeyPEM with_jwt) (ac_issuer with_jwt) (ac_audience with_jwt) \<noteq> Inr (Some c')"
    by simp
  note flow = oauth_flow [OF facts(1) may, of "example_oauth_env 1 0" "example_oauth_env 2 (599 * second)" "example_oauth_env 3 (7700 * second)"
      ascii_digest, OF env(1,1,1,2) _ _ env(3,3) f _ facts(5), of example_srv with_jwt no_credentials
      "\<lambda>c. Served (map_option cl_TenantID c)"]
  show ?thesis using flow [OF _ _ _ _ _ disjI2 [OF jwt]]
    by (simp add: code_taken_def facts env second_def RoleOperator_def example_form_def example_query_def)
qed

end
