(* ===== verification/Api_Keys.thy ===== *)
theory Api_Keys
  imports OAuth
begin

text \<open>
  API keys, \<^verbatim>\<open>pkg/control-plane/auth/apikey.go\<close>: the table \<^verbatim>\<open>api_keys\<close> with the operations that create, list and delete a
  key. \<open>Validate\<close> (theory \<open>Auth\<close>) reads a row of it, which \<open>key_query\<close> finds. The table is a list of rows as in
  theory \<open>OAuth\<close>; the text of an error of the database is an argument.
\<close>

record key_row =
  kr_id :: string
  kr_key_hash :: string
  kr_name :: string
  kr_roles :: string
  kr_tenant_id :: string
  kr_created_at :: time
  kr_expires_at :: "time option"

record CreateAPIKeyRequest =
  kq_Name :: string
  kq_Roles :: string
  kq_TenantID :: string

record CreateAPIKeyResponse =
  kp_ID :: string
  kp_Key :: string
  kp_Name :: string
  kp_Roles :: string
  kp_TenantID :: string
  kp_CreatedAt :: time

record APIKeyInfo =
  ki_ID :: string
  ki_Name :: string
  ki_Roles :: string
  ki_TenantID :: string
  ki_CreatedAt :: time

datatype key_error = KeyFieldsRequired | ErrAPIKeyNotFound | KeySqlError string

definition key_error_text :: "key_error \<Rightarrow> string" where
  "key_error_text e = (case e of KeyFieldsRequired \<Rightarrow> ''name and roles are required''
     | ErrAPIKeyNotFound \<Rightarrow> ''api key not found'' | KeySqlError m \<Rightarrow> m)"

definition key_query :: "key_row list \<Rightarrow> string \<Rightarrow> auth_error + api_key_row option" where
  "key_query d h = Inr (map_option (\<lambda>w. \<lparr>ak_name = kr_name w, ak_roles = kr_roles w, ak_tenant_id = Some (kr_tenant_id w),
     ak_expires_at = kr_expires_at w\<rparr>) (find (\<lambda>w. kr_key_hash w = h) d))"

text \<open>\<open>bytes\<close>: the sixteen random bytes.\<close>

definition raw_key :: "8 word list \<Rightarrow> string" where
  "raw_key bytes = ''sk-'' @ hex_EncodeToString bytes"

definition keys_Create ::
  "(string \<Rightarrow> 8 word list) \<Rightarrow> bool \<Rightarrow> string \<Rightarrow> 8 word list \<Rightarrow> string \<Rightarrow> time \<Rightarrow> CreateAPIKeyRequest \<Rightarrow> key_row list
   \<Rightarrow> (key_error + CreateAPIKeyResponse) \<times> key_row list" where
  "keys_Create sha ok msg bytes uuid now req d =
     (if kq_Name req = [] \<or> kq_Roles req = [] then (Inl KeyFieldsRequired, d)
      else let tenantID = or_default (kq_TenantID req) ''default'';
               rawKey = raw_key bytes;
               w = \<lparr>kr_id = ''key-'' @ uuid, kr_key_hash = hex_EncodeToString (sha rawKey), kr_name = kq_Name req,
                    kr_roles = kq_Roles req, kr_tenant_id = tenantID, kr_created_at = now, kr_expires_at = None\<rparr>
           in if \<not> ok \<or> list_ex (\<lambda>v. kr_id v = kr_id w \<or> kr_key_hash v = kr_key_hash w) d then (Inl (KeySqlError msg), d)
              else (Inr \<lparr>kp_ID = kr_id w, kp_Key = rawKey, kp_Name = kq_Name req, kp_Roles = kq_Roles req, kp_TenantID = tenantID,
                         kp_CreatedAt = now\<rparr>, d @ [w]))"

definition keys_List :: "bool \<Rightarrow> string \<Rightarrow> string \<Rightarrow> key_row list \<Rightarrow> key_error + APIKeyInfo list" where
  "keys_List ok msg tenantID d =
     (if \<not> ok then Inl (KeySqlError msg)
      else Inr (map (\<lambda>w. \<lparr>ki_ID = kr_id w, ki_Name = kr_name w, ki_Roles = kr_roles w, ki_TenantID = kr_tenant_id w,
                          ki_CreatedAt = kr_created_at w\<rparr>)
        (sort_key (\<lambda>w. - kr_created_at w) (filter (\<lambda>w. tenantID = [] \<or> kr_tenant_id w = tenantID) d))))"

definition keys_Delete :: "bool \<Rightarrow> string \<Rightarrow> string \<Rightarrow> string \<Rightarrow> key_row list \<Rightarrow> key_error option \<times> key_row list" where
  "keys_Delete ok msg i tenantID d =
     (if \<not> ok then (Some (KeySqlError msg), d)
      else let hit = (\<lambda>w. kr_id w = i \<and> (tenantID = [] \<or> kr_tenant_id w = tenantID))
           in (if list_ex hit d then None else Some ErrAPIKeyNotFound, filter (\<lambda>w. \<not> hit w) d))"

section \<open>Keys that are handed out are accepted\<close>

lemma key_find_new:
  "\<not> list_ex (\<lambda>v. kr_key_hash v = kr_key_hash w) d \<Longrightarrow> find (\<lambda>v. kr_key_hash v = kr_key_hash w) (d @ [w]) = Some w"
  by (induction d) auto

text \<open>The key of a reply is accepted afterwards, with the roles and the tenant it was created with, and never expires.\<close>

lemma created_key_valid:
  assumes "keys_Create sha ok msg bytes uuid now req d = (Inr resp, d')"
  shows "Validate (\<lambda>k. hex_EncodeToString (sha k)) (key_query d') now' (kp_Key resp) = Inr (Some
    \<lparr>cl_Subject = ''apikey:'' @ kq_Name req, cl_Issuer = [], cl_Audience = [],
     cl_Roles = map TrimSpace (str_split CHR '','' (kq_Roles req)), cl_Role = [],
     cl_TenantID = or_default (kq_TenantID req) ''default''\<rparr>)"
proof -
  let ?w = "\<lparr>kr_id = ''key-'' @ uuid, kr_key_hash = hex_EncodeToString (sha (raw_key bytes)), kr_name = kq_Name req,
     kr_roles = kq_Roles req, kr_tenant_id = or_default (kq_TenantID req) ''default'', kr_created_at = now, kr_expires_at = None\<rparr>"
  have c: "d' = d @ [?w]" "kp_Key resp = raw_key bytes" "\<not> list_ex (\<lambda>v. kr_key_hash v = kr_key_hash ?w) d"
    using assms by (auto simp: keys_Create_def Let_def list_ex_iff split: if_splits)
  have "find (\<lambda>v. kr_key_hash v = hex_EncodeToString (sha (raw_key bytes))) d' = Some ?w"
    using key_find_new [OF c(3)] c(1) by simp
  then show ?thesis by (simp add: Validate_def key_query_def c(2) raw_key_def)
qed

text \<open>A deleted key is not accepted any more.\<close>

lemma deleted_key_invalid:
  assumes "find (\<lambda>w. kr_key_hash w = hex_EncodeToString (sha k)) d = Some w"
    and "\<And>v. v \<in> set d \<Longrightarrow> kr_key_hash v = kr_key_hash w \<Longrightarrow> v = w"
    and "keys_Delete ok msg (kr_id w) [] d = (None, d')"
  shows "Validate (\<lambda>k. hex_EncodeToString (sha k)) (key_query d') now k = Inr None"
proof -
  have h: "kr_key_hash w = hex_EncodeToString (sha k)" using find_Some_in [OF assms(1)] by simp
  have "find (\<lambda>w. kr_key_hash w = hex_EncodeToString (sha k)) d' = None"
    using assms(2,3) h by (auto simp: keys_Delete_def Let_def find_None_iff split: if_splits)
  then show ?thesis by (simp add: Validate_def key_query_def)
qed

end
