(* ===== verification/Conversations.thy ===== *)
theory Conversations
  imports Mall_Service Store_Interface
begin

text \<open>
  Conversations, \<^verbatim>\<open>pkg/control-plane/conversations\<close>: the answers of the voice interface by intent, their in-memory store and
  catalog, and the filling of a template. A template's parameters are ranged over in an order that is an argument, and \<open>show_num\<close>
  is the text of a \<^verbatim>\<open>float64\<close> under \<^verbatim>\<open>%v\<close>.
\<close>

record Conversation =
  cn_ID :: string
  cn_Intent :: string
  cn_Name :: string
  cn_Description :: string
  cn_ResponseTemplate :: string
  cn_ResponseProviderURL :: string
  cn_SupportedLanguages :: "string list"
  cn_TenantID :: string

datatype conv_error = ConvNotFound | ConvAlreadyExists

record conv_store =
  cvs_byID :: "Conversation gomap"
  cvs_byIntent :: "string gomap"

definition convs_NewMemoryStore :: conv_store where
  "convs_NewMemoryStore = \<lparr>cvs_byID = Map.empty, cvs_byIntent = Map.empty\<rparr>"

definition convs_List :: "string list \<Rightarrow> conv_store \<Rightarrow> Conversation list" where
  "convs_List ks s = go_values (cvs_byID s) ks"

definition convs_ListByTenant :: "string list \<Rightarrow> string \<Rightarrow> conv_store \<Rightarrow> Conversation list" where
  "convs_ListByTenant ks tenantID s = convs_List ks s"

definition convs_Get :: "conv_store \<Rightarrow> string \<Rightarrow> Conversation option" where
  "convs_Get s i = cvs_byID s i"

definition convs_GetByTenant :: "conv_store \<Rightarrow> string \<Rightarrow> string \<Rightarrow> Conversation option" where
  "convs_GetByTenant s i tenantID = convs_Get s i"

text \<open>The scan, with the last shared match so far; a match of the tenant ends it.\<close>

fun intent_scan :: "string \<Rightarrow> string \<Rightarrow> Conversation option \<Rightarrow> Conversation list \<Rightarrow> Conversation option" where
  "intent_scan intent tenantID shared [] = shared"
| "intent_scan intent tenantID shared (c # cs) =
     (if cn_Intent c \<noteq> intent then intent_scan intent tenantID shared cs
      else if cn_TenantID c = tenantID \<and> tenantID \<noteq> [] then Some c
      else if cn_TenantID c = [] then intent_scan intent tenantID (Some c) cs
      else intent_scan intent tenantID shared cs)"

definition convs_GetByIntent :: "string list \<Rightarrow> conv_store \<Rightarrow> string \<Rightarrow> string \<Rightarrow> Conversation option" where
  "convs_GetByIntent ks s intent tenantID = intent_scan intent tenantID None (go_values (cvs_byID s) ks)"

definition convs_put :: "Conversation \<Rightarrow> conv_store \<Rightarrow> conv_store" where
  "convs_put c s = s\<lparr>cvs_byID := (cvs_byID s)(cn_ID c \<mapsto> c), cvs_byIntent := (cvs_byIntent s)(cn_Intent c \<mapsto> cn_ID c)\<rparr>"

definition convs_Create :: "Conversation \<Rightarrow> conv_store \<Rightarrow> conv_error + conv_store" where
  "convs_Create c s = (case cvs_byID s (cn_ID c) of Some _ \<Rightarrow> Inl ConvAlreadyExists | None \<Rightarrow> Inr (convs_put c s))"

definition convs_Update :: "Conversation \<Rightarrow> conv_store \<Rightarrow> conv_error + conv_store" where
  "convs_Update c s =
     (case cvs_byID s (cn_ID c) of
        None \<Rightarrow> Inl ConvNotFound
      | Some old \<Rightarrow> Inr (convs_put c (if cn_Intent old \<noteq> cn_Intent c
            then s\<lparr>cvs_byIntent := (cvs_byIntent s)(cn_Intent old := None)\<rparr> else s)))"

definition convs_remove :: "string \<Rightarrow> conv_store \<Rightarrow> conv_store" where
  "convs_remove i s = (case cvs_byID s i of
     None \<Rightarrow> s
   | Some c \<Rightarrow> s\<lparr>cvs_byID := (cvs_byID s)(i := None), cvs_byIntent := (cvs_byIntent s)(cn_Intent c := None)\<rparr>)"

definition convs_Delete :: "string \<Rightarrow> conv_store \<Rightarrow> conv_error + conv_store" where
  "convs_Delete i s = (case cvs_byID s i of None \<Rightarrow> Inl ConvNotFound | Some c \<Rightarrow> Inr (convs_remove i s))"

interpretation cnv: deletable_store convs_Get "\<lambda>now. convs_put" cn_ID "\<lambda>now c. c" convs_remove
  by unfold_locales (auto simp: convs_Get_def convs_put_def convs_remove_def split: option.split)

interpretation cnvl: listed_store convs_Get "\<lambda>now. convs_put" cn_ID "\<lambda>now c. c" convs_List
  by unfold_locales (simp add: convs_List_def convs_Get_def [abs_def])

section \<open>The catalog\<close>

text \<open>A catalog without a store is \<open>None\<close>.\<close>

type_synonym conv_catalog = "conv_store option"

definition convcat_GetForTenant :: "conv_catalog \<Rightarrow> string \<Rightarrow> string \<Rightarrow> conv_error + Conversation option" where
  "convcat_GetForTenant c i tenantID = (case c of None \<Rightarrow> Inl ConvNotFound | Some s \<Rightarrow> Inr (convs_GetByTenant s i tenantID))"

definition convcat_GetByIntent :: "string list \<Rightarrow> conv_catalog \<Rightarrow> string \<Rightarrow> string \<Rightarrow> conv_error + Conversation option" where
  "convcat_GetByIntent ks c intent tenantID =
     (case c of None \<Rightarrow> Inl ConvNotFound | Some s \<Rightarrow> Inr (convs_GetByIntent ks s intent tenantID))"

definition convcat_ListForTenant :: "string list \<Rightarrow> conv_catalog \<Rightarrow> string \<Rightarrow> Conversation list" where
  "convcat_ListForTenant ks c tenantID = (case c of None \<Rightarrow> [] | Some s \<Rightarrow> convs_ListByTenant ks tenantID s)"

definition convcat_Create :: "Conversation \<Rightarrow> conv_catalog \<Rightarrow> conv_error + conv_catalog" where
  "convcat_Create conv c = (case c of None \<Rightarrow> Inl ConvNotFound | Some s \<Rightarrow> map_sum id Some (convs_Create conv s))"

definition convcat_Update :: "Conversation \<Rightarrow> conv_catalog \<Rightarrow> conv_error + conv_catalog" where
  "convcat_Update conv c = (case c of None \<Rightarrow> Inl ConvNotFound | Some s \<Rightarrow> map_sum id Some (convs_Update conv s))"

definition convcat_Delete :: "string \<Rightarrow> conv_catalog \<Rightarrow> conv_error + conv_catalog" where
  "convcat_Delete i c = (case c of None \<Rightarrow> Inl ConvNotFound | Some s \<Rightarrow> map_sum id Some (convs_Delete i s))"

section \<open>Templates\<close>

text \<open>\<^verbatim>\<open>strings.ReplaceAll\<close> of a text that is not empty; \<open>skip\<close> is what is left of a match.\<close>

fun replace_from :: "string \<Rightarrow> string \<Rightarrow> nat \<Rightarrow> string \<Rightarrow> string" where
  "replace_from old new skip [] = []"
| "replace_from old new (Suc k) (c # cs) = replace_from old new k cs"
| "replace_from old new 0 (c # cs) =
     (if take (length old) (c # cs) = old then new @ replace_from old new (length old - 1) cs
      else c # replace_from old new 0 cs)"

definition ReplaceAll :: "string \<Rightarrow> string \<Rightarrow> string \<Rightarrow> string" where
  "ReplaceAll s old new = replace_from old new 0 s"

datatype intent_param = ParamStr string | ParamFloat real | ParamInt int | ParamOther string

definition show_int :: "int \<Rightarrow> string" where
  "show_int i = (if i < 0 then ''-'' @ show_nat (nat (- i)) else show_nat (nat i))"

fun param_text :: "(real \<Rightarrow> string) \<Rightarrow> intent_param \<Rightarrow> string" where
  "param_text show_num (ParamStr s) = s"
| "param_text show_num (ParamFloat x) = show_num x"
| "param_text show_num (ParamInt i) = show_int i"
| "param_text show_num (ParamOther t) = t"

definition placeholder :: "string \<Rightarrow> string" where
  "placeholder k = ''{{'' @ k @ ''}}''"

definition ResolveResponse :: "(real \<Rightarrow> string) \<Rightarrow> string list \<Rightarrow> string \<Rightarrow> intent_param gomap \<Rightarrow> string" where
  "ResolveResponse show_num ks template params =
     (if template = [] then []
      else foldl (\<lambda>result k. case params k of
          None \<Rightarrow> result
        | Some v \<Rightarrow> ReplaceAll result (placeholder k) (param_text show_num v)) template ks)"

section \<open>Lemmas\<close>

lemma intent_scan_None:
  "intent_scan intent t shared cs = None \<longleftrightarrow> shared = None \<and> (\<forall>c \<in> set cs. \<not> (cn_Intent c = intent \<and> (cn_TenantID c = t \<or> cn_TenantID c = [])))"
  by (induction intent t shared cs rule: intent_scan.induct) auto

lemma intent_scan_Some:
  "intent_scan intent t shared cs = Some c \<Longrightarrow>
     (c \<in> set cs \<and> cn_Intent c = intent \<and> (cn_TenantID c = t \<or> cn_TenantID c = []) \<or> shared = Some c)
     \<and> (t = [] \<or> (cn_TenantID c = t \<and> c \<in> set cs) \<or> (\<forall>x \<in> set cs. cn_Intent x = intent \<longrightarrow> cn_TenantID x \<noteq> t))"
  by (induction intent t shared cs rule: intent_scan.induct) (auto split: if_splits)

lemma replace_from_skip: "k \<le> length s \<Longrightarrow> replace_from old new k s = replace_from old new 0 (drop k s)"
proof (induction k arbitrary: s)
  case (Suc k)
  then show ?case by (cases s) auto
qed simp

lemma replace_from_plain:
  "old \<noteq> [] \<Longrightarrow> hd old \<notin> set a \<Longrightarrow> replace_from old new 0 (a @ s) = a @ replace_from old new 0 s"
proof (induction a)
  case (Cons c a)
  then have "take (length old) ((c # a) @ s) \<noteq> old" by (cases old) auto
  with Cons show ?case by simp
qed simp

lemma replace_from_match: "old \<noteq> [] \<Longrightarrow> replace_from old new 0 (old @ s) = new @ replace_from old new 0 s"
proof (cases old)
  case (Cons c cs)
  have "replace_from old new 0 (c # (cs @ s)) = new @ replace_from old new (length cs) (cs @ s)"
    using Cons by simp
  also have "replace_from old new (length cs) (cs @ s) = replace_from old new 0 s"
    using replace_from_skip [of "length cs" "cs @ s"] by simp
  finally show ?thesis using Cons by simp
qed simp

section \<open>Properties\<close>

text \<open>
  The answer to an intent is of that intent, and of the tenant or shared; one of the tenant comes before a shared one, and there
  is an answer exactly when the store has one, whatever the order of the map.
\<close>

theorem GetByIntent_spec:
  assumes "go_range (cvs_byID s) ks"
  shows "case convs_GetByIntent ks s intent t of
      None \<Rightarrow> (\<forall>i c. cvs_byID s i = Some c \<longrightarrow> cn_Intent c = intent \<longrightarrow> cn_TenantID c \<notin> {t, []})
    | Some c \<Rightarrow> (\<exists>i. cvs_byID s i = Some c) \<and> cn_Intent c = intent \<and> cn_TenantID c \<in> {t, []}
        \<and> (cn_TenantID c = t \<or> (\<forall>i x. cvs_byID s i = Some x \<longrightarrow> cn_Intent x = intent \<longrightarrow> cn_TenantID x \<noteq> t))"
proof (cases "convs_GetByIntent ks s intent t")
  case None
  then have "\<forall>c \<in> set (go_values (cvs_byID s) ks). cn_Intent c = intent \<longrightarrow> cn_TenantID c \<notin> {t, []}"
    unfolding convs_GetByIntent_def by (auto simp: intent_scan_None)
  with None go_range_values [OF assms] show ?thesis by auto
next
  case (Some c)
  note sc = intent_scan_Some [OF Some [unfolded convs_GetByIntent_def]]
  then have "c \<in> set (go_values (cvs_byID s) ks)" by auto
  with sc Some go_range_values [OF assms] show ?thesis by auto
qed

theorem GetByIntent_spec_witness:
  fixes c1 c2
  defines "conv i t \<equiv> \<lparr>cn_ID = i, cn_Intent = ''find_store'', cn_Name = [], cn_Description = [], cn_ResponseTemplate = [],
     cn_ResponseProviderURL = [], cn_SupportedLanguages = [], cn_TenantID = t\<rparr>"
  defines "s \<equiv> \<lparr>cvs_byID = [''a'' \<mapsto> conv ''a'' [], ''b'' \<mapsto> conv ''b'' ''acme''], cvs_byIntent = Map.empty\<rparr>"
  shows "convs_GetByIntent [''a'', ''b''] s ''find_store'' ''acme'' = Some (conv ''b'' ''acme'')
    \<and> cn_TenantID (conv ''b'' ''acme'') \<in> {''acme'', []}"
proof -
  have r: "go_range (cvs_byID s) [''a'', ''b'']" by (auto simp: go_range_def s_def)
  have g: "convs_GetByIntent [''a'', ''b''] s ''find_store'' ''acme'' = Some (conv ''b'' ''acme'')"
    by (simp add: convs_GetByIntent_def s_def conv_def)
  from GetByIntent_spec [OF r, of "''find_store''" "''acme''"] g show ?thesis by simp
qed

text \<open>A placeholder is filled with its value, and the text around it stays.\<close>

theorem ResolveResponse_fills:
  assumes "CHR ''{'' \<notin> set a" "CHR ''{'' \<notin> set b"
  shows "ResolveResponse show_num [k] (a @ placeholder k @ b) [k \<mapsto> v] = a @ param_text show_num v @ b"
proof -
  have p: "placeholder k \<noteq> []" "hd (placeholder k) = CHR ''{''" by (simp_all add: placeholder_def)
  have e: "replace_from (placeholder k) n 0 b = b" for n
    using replace_from_plain [OF p(1), of b n "[]"] p(2) assms(2) by simp
  show ?thesis
    using replace_from_plain [OF p(1), of a _ "placeholder k @ b"] replace_from_match [OF p(1), of _ b] p(2) assms(1) e p(1)
    by (simp add: ResolveResponse_def ReplaceAll_def)
qed

theorem ResolveResponse_fills_witness:
  "ResolveResponse (\<lambda>_. []) [''floor''] (''on '' @ placeholder ''floor'' @ ''.'') [''floor'' \<mapsto> ParamInt 2]
     = ''on '' @ param_text (\<lambda>_. []) (ParamInt 2) @ ''.''"
  by (rule ResolveResponse_fills) simp_all

text \<open>
  The parameters are filled in one after the other into the text so far, so that a value that looks like a placeholder is filled
  as well, or not, with the order of the map.
\<close>

theorem ResolveResponse_order:
  fixes params
  defines "params \<equiv> [''brand'' \<mapsto> ParamStr ''{{floor}}'', ''floor'' \<mapsto> ParamStr ''2'']"
  shows "go_range params [''brand'', ''floor''] \<and> go_range params [''floor'', ''brand'']
    \<and> ResolveResponse show_num [''brand'', ''floor''] ''{{brand}}'' params = ''2''
    \<and> ResolveResponse show_num [''floor'', ''brand''] ''{{brand}}'' params = ''{{floor}}''"
  by (auto simp: go_range_def params_def ResolveResponse_def ReplaceAll_def placeholder_def)

end
