(* ===== verification/Tenants.thy ===== *)
theory Tenants
  imports Go_Json Store_Interface
begin

text \<open>
  The tenants, \<^verbatim>\<open>pkg/control-plane/tenants\<close>: the in-memory store, which is created with the
  tenant \<^verbatim>\<open>default\<close>.
\<close>

record Tenant =
  tn_ID :: string
  tn_Name :: string
  tn_Config :: raw_message

type_synonym tenant_store = "Tenant gomap"

datatype tenant_error = TenantErrNotFound | TenantAlreadyExists

definition tenants_NewMemoryStore :: tenant_store where
  "tenants_NewMemoryStore =
     [''default'' \<mapsto> \<lparr>tn_ID = ''default'', tn_Name = ''Default'', tn_Config = RawEmpty\<rparr>]"

definition tenants_List :: "string list \<Rightarrow> tenant_store \<Rightarrow> Tenant list" where
  "tenants_List ks s = go_values s ks"

definition tenants_Get :: "tenant_store \<Rightarrow> string \<Rightarrow> Tenant option" where
  "tenants_Get s i = s i"

definition tenants_Create :: "Tenant \<Rightarrow> tenant_store \<Rightarrow> tenant_error + tenant_store" where
  "tenants_Create t s =
     (case s (tn_ID t) of
        Some _ \<Rightarrow> Inl TenantAlreadyExists
      | None \<Rightarrow> Inr (s(tn_ID t \<mapsto> t)))"

definition tenants_Update :: "Tenant \<Rightarrow> tenant_store \<Rightarrow> tenant_error + tenant_store" where
  "tenants_Update t s =
     (case s (tn_ID t) of
        None \<Rightarrow> Inl TenantErrNotFound
      | Some _ \<Rightarrow> Inr (s(tn_ID t \<mapsto> t)))"

definition tenants_Delete :: "string \<Rightarrow> tenant_store \<Rightarrow> tenant_error + tenant_store" where
  "tenants_Delete i s =
     (case s i of
        None \<Rightarrow> Inl TenantErrNotFound
      | Some _ \<Rightarrow> Inr (s(i := None)))"

lemma tenants_Create_Inr:
  "tenants_Create t s = Inr s' \<longleftrightarrow> s (tn_ID t) = None \<and> s' = s(tn_ID t \<mapsto> t)"
  by (auto simp: tenants_Create_def split: option.splits)

lemma tenants_Update_Inr:
  "tenants_Update t s = Inr s' \<longleftrightarrow> s (tn_ID t) \<noteq> None \<and> s' = s(tn_ID t \<mapsto> t)"
  by (auto simp: tenants_Update_def split: option.splits)

lemma tenants_Delete_Inr:
  "tenants_Delete i s = Inr s' \<longleftrightarrow> s i \<noteq> None \<and> s' = s(i := None)"
  by (auto simp: tenants_Delete_def split: option.splits)

lemmas tenants_Inr = tenants_Create_Inr tenants_Update_Inr tenants_Delete_Inr

text \<open>
  Successful writes of the store (creation of an absent tenant or update of a present one) follow
  the shared contract; no instant is recorded, so the stamp is the identity.
\<close>

definition tenants_put :: "time \<Rightarrow> Tenant \<Rightarrow> tenant_store \<Rightarrow> tenant_store" where
  "tenants_put now t s =
     (case tenants_Create t s of Inr s' \<Rightarrow> s'
      | Inl _ \<Rightarrow> (case tenants_Update t s of Inr s' \<Rightarrow> s' | Inl _ \<Rightarrow> s))"

definition tenants_remove :: "string \<Rightarrow> tenant_store \<Rightarrow> tenant_store" where
  "tenants_remove i s = (case tenants_Delete i s of Inr s' \<Rightarrow> s' | Inl _ \<Rightarrow> s)"

interpretation ten: deletable_store tenants_Get tenants_put tn_ID "\<lambda>now t. t" tenants_remove
  by unfold_locales
    (auto simp: tenants_Get_def tenants_put_def tenants_Create_def tenants_Update_def
      tenants_remove_def tenants_Delete_def split: option.splits sum.splits)

interpretation tenl: listed_store tenants_Get tenants_put tn_ID "\<lambda>now t. t" tenants_List
  by unfold_locales (simp add: tenants_List_def tenants_Get_def [abs_def])

end
