(* ===== verification/Edges.thy ===== *)
theory Edges
  imports Hal Store_Interface
begin

text \<open>
  The edge nodes and their command queues, \<^verbatim>\<open>pkg/control-plane/edges\<close>, in-memory store. Every
  queued command stays in the slice; being fetched marks it with the instant of the
  acknowledgement.
\<close>

record Edge =
  e_ID :: string
  e_LastHeartbeat :: time
  e_ConfigJSON :: string
  e_CreatedAt :: time
  e_UpdatedAt :: time

record pendingCommand =
  pc_id :: string
  pc_edgeID :: string
  pc_robotID :: string
  pc_cmd :: Command
  pc_createdAt :: time
  pc_ackedAt :: "time option"

record edge_store =
  es_edges :: "Edge gomap"
  es_cmds :: "pendingCommand list"

definition edges_NewMemoryStore :: edge_store where
  "edges_NewMemoryStore = \<lparr>es_edges = Map.empty, es_cmds = []\<rparr>"

definition edge_stamp :: "time \<Rightarrow> Edge \<Rightarrow> Edge" where
  "edge_stamp now e =
     (let e1 = e\<lparr>e_UpdatedAt := now\<rparr>
      in if time_IsZero (e_CreatedAt e1) then e1\<lparr>e_CreatedAt := now\<rparr> else e1)"

definition UpsertEdge :: "time \<Rightarrow> Edge \<Rightarrow> edge_store \<Rightarrow> edge_store" where
  "UpsertEdge now e s = s\<lparr>es_edges := (es_edges s)(e_ID e \<mapsto> edge_stamp now e)\<rparr>"

definition GetEdge :: "edge_store \<Rightarrow> string \<Rightarrow> Edge option" where
  "GetEdge s i = es_edges s i"

definition ListEdges :: "string list \<Rightarrow> edge_store \<Rightarrow> Edge list" where
  "ListEdges ks s = go_values (es_edges s) ks"

definition EnqueueCommand ::
  "time \<Rightarrow> string \<Rightarrow> string \<Rightarrow> string \<Rightarrow> Command \<Rightarrow> edge_store \<Rightarrow> edge_store" where
  "EnqueueCommand now uuid edgeID robotID cmd s =
     s\<lparr>es_cmds := es_cmds s @
        [\<lparr>pc_id = uuid, pc_edgeID = edgeID, pc_robotID = robotID, pc_cmd = cmd,
          pc_createdAt = now, pc_ackedAt = None\<rparr>]\<rparr>"

fun fetch_and_ack ::
  "time \<Rightarrow> string \<Rightarrow> pendingCommand list \<Rightarrow> Command list \<times> pendingCommand list" where
  "fetch_and_ack now edgeID [] = ([], [])"
| "fetch_and_ack now edgeID (p # ps) =
     (let (out, ps') = fetch_and_ack now edgeID ps in
      if pc_edgeID p = edgeID \<and> pc_ackedAt p = None
      then (pc_cmd p # out, p\<lparr>pc_ackedAt := Some now\<rparr> # ps')
      else (out, p # ps'))"

definition FetchAndAckPendingCommands ::
  "time \<Rightarrow> string \<Rightarrow> edge_store \<Rightarrow> Command list \<times> edge_store" where
  "FetchAndAckPendingCommands now edgeID s =
     (let (out, cmds) = fetch_and_ack now edgeID (es_cmds s) in (out, s\<lparr>es_cmds := cmds\<rparr>))"

text \<open>The abstract view of the store: one FIFO queue of commands per edge.\<close>

definition edge_queue :: "edge_store \<Rightarrow> string \<Rightarrow> Command list" where
  "edge_queue s edgeID =
     map pc_cmd (filter (\<lambda>p. pc_edgeID p = edgeID \<and> pc_ackedAt p = None) (es_cmds s))"

interpretation edg: keyed_store GetEdge UpsertEdge e_ID edge_stamp
  by unfold_locales (auto simp: GetEdge_def UpsertEdge_def edge_stamp_def Let_def)

interpretation edgl: listed_store GetEdge UpsertEdge e_ID edge_stamp ListEdges
  by unfold_locales (simp add: ListEdges_def GetEdge_def [abs_def])

text \<open>
  The queue interface of \<^verbatim>\<open>edges.Store\<close>: enqueueing appends to the queue of its edge only, and
  fetching hands over exactly that queue and leaves it empty.
\<close>

locale edge_queues =
  fixes queue :: "'s \<Rightarrow> string \<Rightarrow> 'c list"
    and enqueue :: "string \<Rightarrow> 'c \<Rightarrow> 's \<Rightarrow> 's"
    and fetch :: "string \<Rightarrow> 's \<Rightarrow> 'c list \<times> 's"
  assumes queue_enqueue: "queue (enqueue e c s) e' = queue s e' @ (if e = e' then [c] else [])"
    and fetch_result: "fst (fetch e s) = queue s e"
    and queue_fetch: "queue (snd (fetch e s)) e' = (if e = e' then [] else queue s e')"
begin

lemma fetch_twice: "fst (fetch e (snd (fetch e s))) = []"
  by (simp add: fetch_result queue_fetch)

lemma enqueue_list: "queue (fold (enqueue e) cs s) e = queue s e @ cs"
  by (induction cs arbitrary: s) (auto simp: queue_enqueue)

lemma fetch_fifo: "queue s e = [] \<Longrightarrow> fst (fetch e (fold (enqueue e) cs s)) = cs"
  by (simp add: fetch_result enqueue_list)

lemma fetch_other: "e \<noteq> e' \<Longrightarrow> fst (fetch e' (snd (fetch e s))) = fst (fetch e' s)"
  by (simp add: fetch_result queue_fetch)

end

lemma fetch_and_ack_out:
  "fst (fetch_and_ack now e ps) =
     map pc_cmd (filter (\<lambda>p. pc_edgeID p = e \<and> pc_ackedAt p = None) ps)"
  by (induction ps) (auto simp: Let_def split: prod.splits)

lemma fetch_and_ack_rest:
  "filter (\<lambda>p. pc_edgeID p = e' \<and> pc_ackedAt p = None) (snd (fetch_and_ack now e ps)) =
     (if e = e' then [] else filter (\<lambda>p. pc_edgeID p = e' \<and> pc_ackedAt p = None) ps)"
  by (induction ps) (auto simp: Let_def split: prod.splits)

lemma fetch_and_ack_length: "length (snd (fetch_and_ack now e ps)) = length ps"
  by (induction ps) (auto simp: Let_def split: prod.splits)

lemma FetchAndAck_eq:
  "FetchAndAckPendingCommands now e s =
     (fst (fetch_and_ack now e (es_cmds s)), s\<lparr>es_cmds := snd (fetch_and_ack now e (es_cmds s))\<rparr>)"
  by (simp add: FetchAndAckPendingCommands_def case_prod_beta)

interpretation eq: edge_queues edge_queue
  "\<lambda>e c. EnqueueCommand now uuid e rid c" "FetchAndAckPendingCommands now"
  for now uuid rid
  by unfold_locales
    (auto simp: edge_queue_def EnqueueCommand_def FetchAndAck_eq fetch_and_ack_out
      fetch_and_ack_rest)

section \<open>Properties\<close>

text \<open>Queueing a list of commands for a robot of an edge, with the instants and identifiers drawn for them.\<close>

definition enqueue_all :: "string \<Rightarrow> string \<Rightarrow> (time \<times> string \<times> Command) list \<Rightarrow> edge_store \<Rightarrow> edge_store" where
  "enqueue_all e rid xs s = fold (\<lambda>(now, uuid, c). EnqueueCommand now uuid e rid c) xs s"

lemma edge_queue_enqueue_all:
  "edge_queue (enqueue_all e rid xs s) e' = edge_queue s e' @ (if e = e' then map (snd \<circ> snd) xs else [])"
  by (induction xs arbitrary: s) (auto simp: enqueue_all_def eq.queue_enqueue)

text \<open>
  Edge queues deliver in order and once: a heartbeat hands over what was pending and everything queued
  since, in the order of queueing; fetching again gives nothing, and the queues of other edges are as before.
\<close>

theorem FetchAndAck_fifo_once:
  fixes e rid xs s now
  defines "s1 \<equiv> enqueue_all e rid xs s"
  defines "s2 \<equiv> snd (FetchAndAckPendingCommands now e s1)"
  shows "fst (FetchAndAckPendingCommands now e s1) = edge_queue s e @ map (snd \<circ> snd) xs
    \<and> fst (FetchAndAckPendingCommands now' e s2) = []
    \<and> (e' = e \<or> edge_queue s2 e' = edge_queue s e')"
  unfolding s2_def s1_def
  by (auto simp: eq.fetch_result eq.queue_fetch edge_queue_enqueue_all)

end
