(* ===== verification/Idempotency.thy ===== *)
theory Idempotency
  imports Prelude
begin

text \<open>
  Idempotency keys of commands, \<^verbatim>\<open>pkg/control-plane/commands/idempotency.go\<close>, in-memory store.
\<close>

record memoryEntry =
  me_robotID :: string
  me_createdAt :: time

type_synonym idem_store = "memoryEntry gomap"

definition Reserve :: "time \<Rightarrow> string \<Rightarrow> string \<Rightarrow> idem_store \<Rightarrow> bool \<times> idem_store" where
  "Reserve now k robotID s =
     (case s k of
        Some _ \<Rightarrow> (False, s)
      | None \<Rightarrow> (True, s(k \<mapsto> \<lparr>me_robotID = robotID, me_createdAt = now\<rparr>)))"

definition Cleanup :: "time \<Rightarrow> duration \<Rightarrow> idem_store \<Rightarrow> idem_store" where
  "Cleanup now olderThan s =
     (let cutoff = now - olderThan in
      (\<lambda>k. case s k of None \<Rightarrow> None
         | Some v \<Rightarrow> (if me_createdAt v < cutoff then None else Some v)))"

text \<open>The interface \<^verbatim>\<open>commands.Store\<close>: a key is granted once until it is cleaned up.\<close>

locale idempotency =
  fixes holds :: "'s \<Rightarrow> string \<Rightarrow> bool"
    and reserve :: "string \<Rightarrow> 's \<Rightarrow> bool \<times> 's"
    and cleanup :: "'s \<Rightarrow> 's"
  assumes reserve_iff: "fst (reserve k s) \<longleftrightarrow> \<not> holds s k"
    and holds_reserve: "holds (snd (reserve k s)) k' \<longleftrightarrow> k' = k \<or> holds s k'"
    and cleanup_only_drops: "holds (cleanup s) k \<Longrightarrow> holds s k"
begin

lemma reserve_once: "\<not> fst (reserve k (snd (reserve k s)))"
  by (simp add: reserve_iff holds_reserve)

lemma reserve_independent: "k \<noteq> k' \<Longrightarrow> fst (reserve k (snd (reserve k' s))) = fst (reserve k s)"
  by (simp add: reserve_iff holds_reserve)

lemma granted_at_most_once:
  "fst (reserve k s) \<Longrightarrow> \<not> fst (reserve k (fold (\<lambda>k' t. snd (reserve k' t)) ks (snd (reserve k s))))"
proof -
  have "holds t k \<Longrightarrow> holds (fold (\<lambda>k' t. snd (reserve k' t)) ks t) k" for t
    by (induction ks arbitrary: t) (auto simp: holds_reserve)
  then show ?thesis by (simp add: reserve_iff holds_reserve)
qed

end

interpretation idem: idempotency "\<lambda>s k. s k \<noteq> None" "\<lambda>k. Reserve now k rid" "Cleanup now' old"
  for now rid now' old
  by unfold_locales
    (auto simp: Reserve_def Cleanup_def Let_def split: option.splits if_splits)

text \<open>\<^verbatim>\<open>Cleanup\<close> keeps exactly the keys at least as young as the given age.\<close>

lemma Cleanup_get:
  "Cleanup now old s k = Some v \<longleftrightarrow> s k = Some v \<and> now - old \<le> me_createdAt v"
  by (auto simp: Cleanup_def Let_def split: option.splits if_splits)

section \<open>Properties\<close>

text \<open>A history of the store: reservations and cleanups, and the keys it granted.\<close>

datatype idem_op = OpReserve time string string | OpCleanup time duration

fun idem_apply :: "idem_op \<Rightarrow> idem_store \<Rightarrow> idem_store" where
  "idem_apply (OpReserve now k rid) s = snd (Reserve now k rid s)"
| "idem_apply (OpCleanup now old) s = Cleanup now old s"

definition idem_keeps :: "time \<Rightarrow> idem_op \<Rightarrow> bool" where
  "idem_keeps granted a \<longleftrightarrow> (case a of OpReserve _ _ _ \<Rightarrow> True | OpCleanup now old \<Rightarrow> now - old \<le> granted)"

lemma idem_entry_kept:
  "s k = Some v \<Longrightarrow> list_all (idem_keeps (me_createdAt v)) as \<Longrightarrow> fold idem_apply as s k = Some v"
proof (induction as arbitrary: s)
  case (Cons a as)
  have "idem_apply a s k = Some v"
    using Cons.prems by (cases a) (auto simp: Reserve_def idem_keeps_def Cleanup_get split: option.split)
  then show ?case using Cons by simp
qed simp

text \<open>
  A granted idempotency key stays taken, for every robot, through any history of reservations and of
  cleanups that do not reach back to the grant; after a cleanup that does, it can be granted again.
\<close>

theorem Reserve_once:
  assumes "Reserve now k rid s = (True, s')" "list_all (idem_keeps now) as"
  shows "\<not> fst (Reserve now' k rid' (fold idem_apply as s'))
    \<and> (now < t - old \<longrightarrow> fst (Reserve now' k rid' (Cleanup t old (fold idem_apply as s'))))"
proof -
  have "s' k = Some \<lparr>me_robotID = rid, me_createdAt = now\<rparr>"
    using assms(1) by (auto simp: Reserve_def split: option.splits)
  with idem_entry_kept [of s' k "\<lparr>me_robotID = rid, me_createdAt = now\<rparr>" as] assms(2)
  have k: "fold idem_apply as s' k = Some \<lparr>me_robotID = rid, me_createdAt = now\<rparr>" by simp
  show ?thesis using k by (auto simp: Reserve_def Cleanup_def Let_def)
qed

theorem Reserve_once_witness:
  "\<not> fst (Reserve 9 ''k'' ''r2'' (fold idem_apply [OpCleanup 8 5] (snd (Reserve 3 ''k'' ''r1'' Map.empty))))"
  using Reserve_once [of 3 "''k''" "''r1''" Map.empty "snd (Reserve 3 ''k'' ''r1'' Map.empty)" "[OpCleanup 8 5]"]
  by (simp add: Reserve_def idem_keeps_def)

end
