(* ===== verification/Orchestration.thy ===== *)
theory Orchestration
  imports Registry Scenarios Tasks
begin

text \<open>
  Multi-robot workflows, \<^verbatim>\<open>pkg/control-plane/orchestration\<close>: the catalog, the in-memory store of runs, and the
  runner, which gives every step of a workflow a robot and a task.

  A run of the runner is one transition of the two stores it writes. What it draws from outside is in \<open>orch_env\<close>: the
  instants and UUIDs, and the order of every ranging over the robots and the tasks. A nil dereference is a value.
\<close>

section \<open>Workflows and runs\<close>

record RobotSelector =
  sel_Capabilities :: "string list"
  sel_ZonePreference :: string

record WorkflowStep =
  ws_RobotID :: string
  ws_RobotSelector :: "RobotSelector option"
  ws_ScenarioID :: string
  ws_Payload :: raw_message
  ws_ZoneID :: string

record Workflow =
  wf_ID :: string
  wf_Name :: string
  wf_Description :: string
  wf_Steps :: "WorkflowStep list"

datatype WorkflowRunStatus = WorkflowRunPending | WorkflowRunRunning | WorkflowRunCompleted | WorkflowRunFailed | WorkflowRunCancelled

record WorkflowRunTask =
  wt_TaskID :: string
  wt_StepIndex :: nat

record WorkflowRun =
  wr_ID :: string
  wr_WorkflowID :: string
  wr_TenantID :: string
  wr_Status :: WorkflowRunStatus
  wr_CreatedAt :: time
  wr_UpdatedAt :: time
  wr_Tasks :: "WorkflowRunTask list"

section \<open>The catalog\<close>

type_synonym workflow_catalog = "Workflow gomap"

definition patrol_step :: "string \<Rightarrow> WorkflowStep" where
  "patrol_step zone = \<lparr>ws_RobotID = [], ws_RobotSelector = None, ws_ScenarioID = ''patrol'',
     ws_Payload = RawJson (JObj [(''duration_sec'', JInt 30), (''zone_id'', JStr zone)]), ws_ZoneID = zone\<rparr>"

definition patrol_zones_ABC :: Workflow where
  "patrol_zones_ABC = \<lparr>wf_ID = ''patrol_zones_ABC'',
     wf_Name = utf8 [208, 159, 208, 176, 209, 130, 209, 128, 209, 131, 208, 187, 209, 140] @ '' ''
       @ utf8 [208, 183, 208, 190, 208, 189] @ '' A, B, C'',
     wf_Description = ''3 '' @ utf8 [209, 128, 208, 190, 208, 177, 208, 190, 209, 130, 208, 176] @ '' ''
       @ utf8 [208, 191, 208, 176, 209, 130, 209, 128, 209, 131, 208, 187, 208, 184, 209, 128, 209, 131, 209, 142, 209, 130]
       @ '' '' @ utf8 [208, 183, 208, 190, 208, 189, 209, 139] @ '' A, B, C'',
     wf_Steps = [patrol_step ''A'', patrol_step ''B'', patrol_step ''C'']\<rparr>"

definition workflows_NewCatalog :: workflow_catalog where
  "workflows_NewCatalog = [''patrol_zones_ABC'' \<mapsto> patrol_zones_ABC]"

definition workflows_Get :: "workflow_catalog \<Rightarrow> string \<Rightarrow> Workflow option" where
  "workflows_Get c i = c i"

definition workflows_List :: "string list \<Rightarrow> workflow_catalog \<Rightarrow> Workflow list" where
  "workflows_List ks c = go_values c ks"

definition workflows_Register :: "Workflow \<Rightarrow> workflow_catalog \<Rightarrow> workflow_catalog" where
  "workflows_Register w c = c(wf_ID w \<mapsto> w)"

section \<open>The store of runs\<close>

type_synonym run_store = "WorkflowRun gomap"

definition run_stamp :: "time \<Rightarrow> WorkflowRun \<Rightarrow> WorkflowRun" where
  "run_stamp now run =
     (let r1 = run\<lparr>wr_UpdatedAt := now\<rparr>;
          r2 = (if time_IsZero (wr_CreatedAt r1) then r1\<lparr>wr_CreatedAt := now\<rparr> else r1)
      in r2\<lparr>wr_Tasks := []\<rparr>)"

definition runs_Create :: "time \<Rightarrow> WorkflowRun \<Rightarrow> run_store \<Rightarrow> run_store" where
  "runs_Create now run s = s(wr_ID run \<mapsto> run_stamp now run)"

definition runs_Get :: "run_store \<Rightarrow> string \<Rightarrow> WorkflowRun option" where
  "runs_Get s i = s i"

definition runs_List :: "string list \<Rightarrow> run_store \<Rightarrow> WorkflowRun list" where
  "runs_List ks s = go_values s ks"

definition runs_UpdateStatus :: "time \<Rightarrow> string \<Rightarrow> WorkflowRunStatus \<Rightarrow> run_store \<Rightarrow> run_store" where
  "runs_UpdateStatus now i status s =
     (case s i of None \<Rightarrow> s | Some r \<Rightarrow> s(i \<mapsto> r\<lparr>wr_Status := status, wr_UpdatedAt := now\<rparr>))"

definition UpdateTenantID :: "time \<Rightarrow> string \<Rightarrow> string \<Rightarrow> run_store \<Rightarrow> run_store" where
  "UpdateTenantID now i tenantID s =
     (case s i of None \<Rightarrow> s | Some r \<Rightarrow> s(i \<mapsto> r\<lparr>wr_TenantID := tenantID, wr_UpdatedAt := now\<rparr>))"

definition AddTask :: "time \<Rightarrow> string \<Rightarrow> string \<Rightarrow> nat \<Rightarrow> run_store \<Rightarrow> run_store" where
  "AddTask now i taskID stepIndex s =
     (case s i of None \<Rightarrow> s
      | Some r \<Rightarrow> s(i \<mapsto> r\<lparr>wr_Tasks := wr_Tasks r @ [\<lparr>wt_TaskID = taskID, wt_StepIndex = stepIndex\<rparr>], wr_UpdatedAt := now\<rparr>))"

lemma run_stamp_fields [simp]:
  "wr_ID (run_stamp now run) = wr_ID run" "wr_TenantID (run_stamp now run) = wr_TenantID run"
  "wr_Status (run_stamp now run) = wr_Status run" "wr_WorkflowID (run_stamp now run) = wr_WorkflowID run"
  "wr_Tasks (run_stamp now run) = []"
  by (simp_all add: run_stamp_def Let_def)

interpretation runs: keyed_store runs_Get runs_Create wr_ID run_stamp
  by unfold_locales (auto simp: runs_Get_def runs_Create_def)

interpretation runsl: listed_store runs_Get runs_Create wr_ID run_stamp runs_List
  by unfold_locales (simp add: runs_List_def runs_Get_def [abs_def])

section \<open>The choice of a robot\<close>

record orch_env =
  oe_now :: "nat \<Rightarrow> time"
  oe_run_id :: string
  oe_uuid :: "nat \<Rightarrow> string" \<comment> \<open>of the task of a step\<close>
  oe_robots :: "nat \<Rightarrow> string list"
  oe_tasks :: "nat \<Rightarrow> string list"

definition candidates :: "string list \<Rightarrow> string \<Rightarrow> registry \<Rightarrow> Robot list" where
  "candidates ks tenantID reg = (if tenantID \<noteq> [] then registry_ListByTenant ks tenantID reg else registry_List ks reg)"

definition first_free :: "string list \<Rightarrow> string list \<Rightarrow> string list \<Rightarrow> task_store \<Rightarrow> Robot list \<Rightarrow> string" where
  "first_free tks capabilities used ts robots =
     (case find (\<lambda>robot. \<not> List.member used (r_ID robot) \<and> HasCapability (Some robot) capabilities
                   \<and> \<not> HasRunningForRobot tks (r_ID robot) ts) robots of
        None \<Rightarrow> [] | Some robot \<Rightarrow> r_ID robot)"

definition resolveSelector :: "string list \<Rightarrow> string list \<Rightarrow> registry \<Rightarrow> task_store \<Rightarrow> RobotSelector \<Rightarrow> string list \<Rightarrow> string \<Rightarrow> string" where
  "resolveSelector ks tks reg ts sel used tenantID =
     first_free tks (sel_Capabilities sel) used ts (candidates ks tenantID reg)"

definition pickAvailableRobot :: "string list \<Rightarrow> string list \<Rightarrow> registry \<Rightarrow> Catalog \<Rightarrow> task_store \<Rightarrow> string \<Rightarrow> string list \<Rightarrow> string \<Rightarrow> string" where
  "pickAvailableRobot ks tks reg cat ts scenarioID used tenantID =
     (case catalog_Get cat scenarioID of
        None \<Rightarrow> []
      | Some scenario \<Rightarrow> first_free tks (sc_RequiredCapabilities scenario) used ts (candidates ks tenantID reg))"

text \<open>The robot of a step, empty if there is none; the two searches of step \<open>i\<close> range in orders of their own.\<close>

definition step_robot :: "orch_env \<Rightarrow> registry \<Rightarrow> Catalog \<Rightarrow> task_store \<Rightarrow> string \<Rightarrow> string list \<Rightarrow> nat \<Rightarrow> WorkflowStep \<Rightarrow> string" where
  "step_robot env reg cat ts tenantID used i step =
     (let r0 = ws_RobotID step;
          r1 = (case ws_RobotSelector step of
                  Some sel \<Rightarrow> if r0 = [] then resolveSelector (oe_robots env (2 * i)) (oe_tasks env i) reg ts sel used tenantID else r0
                | None \<Rightarrow> r0);
          r2 = (if r1 = []
                then pickAvailableRobot (oe_robots env (2 * i + 1)) (oe_tasks env i) reg cat ts (ws_ScenarioID step) used tenantID
                else r1)
      in if r2 \<noteq> [] \<and> tenantID \<noteq> []
         then (case registry_Get reg r2 of
                 Some robot \<Rightarrow> if r_TenantID robot \<noteq> tenantID then [] else r2
               | None \<Rightarrow> r2)
         else r2)"

section \<open>The runner\<close>

record orch =
  or_runs :: run_store
  or_tasks :: task_store

definition workflow_task :: "string \<Rightarrow> string \<Rightarrow> WorkflowStep \<Rightarrow> string \<Rightarrow> Robot \<Rightarrow> Task" where
  "workflow_task uuid operatorID step robotID robot =
     \<lparr>k_ID = uuid, k_RobotID = robotID,
      k_TenantID = (if r_TenantID robot = [] then ''default'' else r_TenantID robot), k_Type = ''scenario'',
      k_ScenarioID = ws_ScenarioID step,
      k_Payload = (if ws_Payload step = RawEmpty \<and> ws_ZoneID step \<noteq> []
                   then RawJson (JObj [(''zone_id'', JStr (ws_ZoneID step))]) else ws_Payload step),
      k_Status = StatusPending, k_CreatedAt = 0, k_UpdatedAt = 0, k_CompletedAt = None, k_OperatorID = operatorID\<rparr>"

definition run_failed :: "time \<Rightarrow> string \<Rightarrow> orch \<Rightarrow> orch" where
  "run_failed now runID w = w\<lparr>or_runs := runs_UpdateStatus now runID WorkflowRunFailed (or_runs w)\<rparr>"

text \<open>
  \<^verbatim>\<open>for i, step := range wf.Steps\<close>, with the tenant of the local \<^verbatim>\<open>run\<close>, the task IDs so far and the robots used.
  \<open>None\<close>: \<^verbatim>\<open>robot.TenantID\<close> is read through a nil pointer.
\<close>

fun run_workflow_steps :: "orch_env \<Rightarrow> registry \<Rightarrow> Catalog \<Rightarrow> string \<Rightarrow> string \<Rightarrow> nat \<Rightarrow> WorkflowStep list \<Rightarrow> string
    \<Rightarrow> string list \<Rightarrow> string list \<Rightarrow> orch \<Rightarrow> string list option \<times> orch" where
  "run_workflow_steps env reg cat operatorID tenantID i [] runTenant taskIDs used w = (Some taskIDs, w)"
| "run_workflow_steps env reg cat operatorID tenantID i (step # steps) runTenant taskIDs used w =
     (let runID = oe_run_id env;
          failed = (Some taskIDs, run_failed (oe_now env (3 * i + 1)) runID w);
          robotID = step_robot env reg cat (or_tasks w) tenantID used i step
      in if robotID = [] then failed
         else case catalog_Get cat (ws_ScenarioID step) of
             None \<Rightarrow> failed
           | Some scenario \<Rightarrow>
               if \<not> HasCapability (registry_Get reg robotID) (sc_RequiredCapabilities scenario) then failed
               else if HasRunningForRobot (oe_tasks env i) robotID (or_tasks w) then failed
               else case registry_Get reg robotID of
                   None \<Rightarrow> (None, w)
                 | Some robot \<Rightarrow>
                     let tenant = (if r_TenantID robot = [] then ''default'' else r_TenantID robot);
                         runTenant1 = (if runTenant = [] then tenant else runTenant);
                         w1 = (if runTenant = []
                               then w\<lparr>or_runs := UpdateTenantID (oe_now env (3 * i + 1)) runID tenant (or_runs w)\<rparr> else w);
                         t = workflow_task (oe_uuid env i) operatorID step robotID robot;
                         w2 = w1\<lparr>or_tasks := tasks_Create (oe_now env (3 * i + 2)) t (or_tasks w1)\<rparr>;
                         w3 = w2\<lparr>or_runs := AddTask (oe_now env (3 * i + 3)) runID (k_ID t) i (or_runs w2)\<rparr>
                     in run_workflow_steps env reg cat operatorID tenantID (Suc i) steps runTenant1 (taskIDs @ [k_ID t])
                          (robotID # used) w3)"

record RunResult =
  rr_WorkflowRunID :: string
  rr_TaskIDs :: "string list"

datatype run_error = ErrWorkflowNotFound | NilDereference

definition new_run :: "string \<Rightarrow> string \<Rightarrow> WorkflowRun" where
  "new_run uuid workflowID = \<lparr>wr_ID = uuid, wr_WorkflowID = workflowID, wr_TenantID = [], wr_Status = WorkflowRunRunning,
     wr_CreatedAt = 0, wr_UpdatedAt = 0, wr_Tasks = []\<rparr>"

definition Run :: "orch_env \<Rightarrow> workflow_catalog \<Rightarrow> registry \<Rightarrow> Catalog \<Rightarrow> string \<Rightarrow> string \<Rightarrow> string \<Rightarrow> orch
    \<Rightarrow> (run_error + RunResult) \<times> orch" where
  "Run env wfs reg cat workflowID operatorID tenantID w =
     (case workflows_Get wfs workflowID of
        None \<Rightarrow> (Inl ErrWorkflowNotFound, w)
      | Some flow \<Rightarrow>
          let run = new_run (oe_run_id env) workflowID;
              w1 = w\<lparr>or_runs := runs_Create (oe_now env 0) run (or_runs w)\<rparr>
          in case run_workflow_steps env reg cat operatorID tenantID 0 (wf_Steps flow) (wr_TenantID run) [] [] w1 of
               (None, w2) \<Rightarrow> (Inl NilDereference, w2)
             | (Some taskIDs, w2) \<Rightarrow> (Inr \<lparr>rr_WorkflowRunID = wr_ID run, rr_TaskIDs = taskIDs\<rparr>, w2))"

section \<open>What a run does\<close>

text \<open>
  The robot of a step, as the operator may rely on it: what the code checks of every robot. The capabilities of a selector are
  another matter (\<open>selector_met\<close>).
\<close>

definition suitable :: "registry \<Rightarrow> Catalog \<Rightarrow> string \<Rightarrow> task_store \<Rightarrow> WorkflowStep \<Rightarrow> Robot \<Rightarrow> bool" where
  "suitable reg cat tenantID ts step robot \<longleftrightarrow>
     reg (r_ID robot) = Some robot \<and> (tenantID \<noteq> [] \<longrightarrow> r_TenantID robot = tenantID)
     \<and> (ws_RobotID step \<noteq> [] \<longrightarrow> r_ID robot = ws_RobotID step)
     \<and> running_tasks ts (r_ID robot) = {}
     \<and> (\<exists>sc. catalog_Get cat (ws_ScenarioID step) = Some sc \<and> HasCapability (Some robot) (sc_RequiredCapabilities sc))"

text \<open>The tasks of the steps from number \<open>i\<close> on.\<close>

fun give_tasks :: "orch_env \<Rightarrow> string \<Rightarrow> nat \<Rightarrow> (WorkflowStep \<times> Robot) list \<Rightarrow> task_store \<Rightarrow> task_store" where
  "give_tasks env operatorID i [] ts = ts"
| "give_tasks env operatorID i ((step, robot) # ps) ts = give_tasks env operatorID (Suc i) ps
     (tasks_Create (oe_now env (3 * i + 2)) (workflow_task (oe_uuid env i) operatorID step (r_ID robot) robot) ts)"

text \<open>No robot that has a step is chosen again; only a step that names its robot may repeat one.\<close>

fun fresh_picks :: "string list \<Rightarrow> (WorkflowStep \<times> Robot) list \<Rightarrow> bool" where
  "fresh_picks used [] = True"
| "fresh_picks used ((step, robot) # ps) =
     ((ws_RobotID step = [] \<longrightarrow> r_ID robot \<notin> set used) \<and> fresh_picks (r_ID robot # used) ps)"

text \<open>
  What a \<^verbatim>\<open>robot_selector\<close> is worth: the robot of its step has the capabilities it asks for, or no robot of the tenant that has them
  is idle and not yet in use. In the latter case the code falls back on a robot for the scenario, whatever the selector says.
\<close>

definition no_match :: "registry \<Rightarrow> string \<Rightarrow> task_store \<Rightarrow> string list \<Rightarrow> string list \<Rightarrow> bool" where
  "no_match reg tenantID ts used caps \<longleftrightarrow> (\<forall>i robot. reg i = Some robot \<longrightarrow> (tenantID \<noteq> [] \<longrightarrow> r_TenantID robot = tenantID)
     \<longrightarrow> HasCapability (Some robot) caps \<longrightarrow> i \<in> set used \<or> running_tasks ts i \<noteq> {})"

definition selector_met :: "registry \<Rightarrow> string \<Rightarrow> task_store \<Rightarrow> string list \<Rightarrow> WorkflowStep \<Rightarrow> Robot \<Rightarrow> bool" where
  "selector_met reg tenantID ts used step robot \<longleftrightarrow>
     (case ws_RobotSelector step of
        None \<Rightarrow> True
      | Some sel \<Rightarrow> ws_RobotID step \<noteq> [] \<or> HasCapability (Some robot) (sel_Capabilities sel)
          \<or> no_match reg tenantID ts used (sel_Capabilities sel))"

fun selectors_met :: "registry \<Rightarrow> string \<Rightarrow> task_store \<Rightarrow> string list \<Rightarrow> (WorkflowStep \<times> Robot) list \<Rightarrow> bool" where
  "selectors_met reg tenantID ts used [] = True"
| "selectors_met reg tenantID ts used ((step, robot) # ps) =
     (selector_met reg tenantID ts used step robot \<and> selectors_met reg tenantID ts (r_ID robot # used) ps)"

lemma selectors_met_cong:
  assumes "running_tasks ts' = running_tasks ts"
  shows "selectors_met reg tenantID ts' used ps \<longleftrightarrow> selectors_met reg tenantID ts used ps"
proof (induction ps arbitrary: used)
  case (Cons p ps)
  have "no_match reg tenantID ts' u caps \<longleftrightarrow> no_match reg tenantID ts u caps" for u caps
    by (simp add: no_match_def assms)
  with Cons.IH show ?case by (cases p) (simp add: selector_met_def cong: option.case_cong)
qed simp

text \<open>The searches range over the whole registry, in which no robot is filed under the empty identifier.\<close>

definition robots_met :: "orch_env \<Rightarrow> registry \<Rightarrow> bool" where
  "robots_met env reg \<longleftrightarrow> reg [] = None \<and> (\<forall>n i. reg i \<noteq> None \<longrightarrow> i \<in> set (oe_robots env n))"

text \<open>The orders in which the tasks are ranged over meet the running ones.\<close>

definition running_met :: "orch_env \<Rightarrow> task_store \<Rightarrow> bool" where
  "running_met env ts \<longleftrightarrow> (\<forall>n i t. ts i = Some t \<longrightarrow> k_Status t = StatusRunning \<longrightarrow> i \<in> set (oe_tasks env n))"

definition uuids_fresh :: "orch_env \<Rightarrow> nat \<Rightarrow> task_store \<Rightarrow> bool" where
  "uuids_fresh env i ts \<longleftrightarrow> inj (oe_uuid env) \<and> (\<forall>j \<ge> i. ts (oe_uuid env j) = None)"

definition given :: "orch_env \<Rightarrow> string \<Rightarrow> string \<Rightarrow> nat \<Rightarrow> WorkflowStep \<Rightarrow> Robot \<Rightarrow> orch \<Rightarrow> orch" where
  "given env operatorID runTenant i step robot w =
     (let tenant = or_default (r_TenantID robot) ''default'';
          t = workflow_task (oe_uuid env i) operatorID step (r_ID robot) robot;
          runs = (if runTenant = [] then UpdateTenantID (oe_now env (3 * i + 1)) (oe_run_id env) tenant (or_runs w) else or_runs w)
      in \<lparr>or_runs = AddTask (oe_now env (3 * i + 3)) (oe_run_id env) (oe_uuid env i) i runs,
          or_tasks = tasks_Create (oe_now env (3 * i + 2)) t (or_tasks w)\<rparr>)"

lemma workflow_task_fields [simp]:
  "k_ID (workflow_task u op step rid robot) = u" "k_RobotID (workflow_task u op step rid robot) = rid"
  "k_Status (workflow_task u op step rid robot) = StatusPending"
  by (simp_all add: workflow_task_def)

lemma HasRunning_met: "running_met env ts \<Longrightarrow> HasRunningForRobot (oe_tasks env n) r ts \<longleftrightarrow> running_tasks ts r \<noteq> {}"
  unfolding HasRunningForRobot_def list_ex_iff running_tasks_def running_met_def in_go_values Bex_def by blast

lemma candidates_registered:
  "robot \<in> set (candidates ks tenantID reg) \<Longrightarrow> \<exists>i. reg i = Some robot"
  by (auto simp: candidates_def registry_ListByTenant_def registry_List_def in_go_values split: if_splits)

lemma first_free_found:
  assumes "first_free tks caps used ts robots \<noteq> []"
  shows "\<exists>robot \<in> set robots. r_ID robot = first_free tks caps used ts robots \<and> r_ID robot \<notin> set used"
proof -
  let ?P = "\<lambda>robot. \<not> List.member used (r_ID robot) \<and> HasCapability (Some robot) caps \<and> \<not> HasRunningForRobot tks (r_ID robot) ts"
  obtain robot where r: "find ?P robots = Some robot" using assms by (auto simp: first_free_def split: option.splits)
  then have "robot \<in> set robots" "?P robot" by (auto simp: find_Some_iff)
  with r show ?thesis by (intro bexI [of _ robot]) (auto simp: first_free_def)
qed

text \<open>Robots are filed under their identifiers.\<close>

definition robots_keyed :: "registry \<Rightarrow> bool" where
  "robots_keyed reg \<longleftrightarrow> (\<forall>i robot. reg i = Some robot \<longrightarrow> r_ID robot = i)"

lemma search_found:
  assumes "robots_keyed reg" "first_free tks caps used ts (candidates ks tenantID reg) \<noteq> []"
  shows "\<exists>robot. reg (first_free tks caps used ts (candidates ks tenantID reg)) = Some robot
    \<and> first_free tks caps used ts (candidates ks tenantID reg) \<notin> set used"
proof -
  obtain robot where r: "robot \<in> set (candidates ks tenantID reg)" "r_ID robot = first_free tks caps used ts (candidates ks tenantID reg)"
    "r_ID robot \<notin> set used" using first_free_found [OF assms(2)] by blast
  from candidates_registered [OF r(1)] assms(1) have "reg (r_ID robot) = Some robot" by (auto simp: robots_keyed_def)
  with r show ?thesis by auto
qed

lemma search_spec:
  assumes "robots_keyed reg" "reg [] = None" "\<forall>i. reg i \<noteq> None \<longrightarrow> i \<in> set ks" "running_met env ts"
  defines "rid \<equiv> \<lambda>caps used tenantID n. first_free (oe_tasks env n) caps used ts (candidates ks tenantID reg)"
  shows "rid caps used tenantID n = [] \<Longrightarrow> no_match reg tenantID ts used caps"
    and "rid caps used tenantID n \<noteq> [] \<Longrightarrow> HasCapability (reg (rid caps used tenantID n)) caps"
proof -
  let ?P = "\<lambda>robot. \<not> List.member used (r_ID robot) \<and> HasCapability (Some robot) caps \<and> \<not> HasRunningForRobot (oe_tasks env n) (r_ID robot) ts"
  have found: "robot \<in> set (candidates ks tenantID reg) \<and> ?P robot \<and> reg (r_ID robot) = Some robot \<and> rid caps used tenantID n = r_ID robot"
    if "find ?P (candidates ks tenantID reg) = Some robot" for robot
  proof -
    from that have "robot \<in> set (candidates ks tenantID reg)" "?P robot" by (auto simp: find_Some_iff)
    with that candidates_registered [of robot] assms(1) show ?thesis
      by (fastforce simp: robots_keyed_def rid_def first_free_def)
  qed
  show "HasCapability (reg (rid caps used tenantID n)) caps" if "rid caps used tenantID n \<noteq> []"
  proof (cases "find ?P (candidates ks tenantID reg)")
    case None
    with that show ?thesis by (simp add: rid_def first_free_def)
  next
    case (Some robot)
    from found [OF Some] show ?thesis by simp
  qed
  show "no_match reg tenantID ts used caps" if "rid caps used tenantID n = []"
  proof (cases "find ?P (candidates ks tenantID reg)")
    case None
    have "robot \<in> set (candidates ks tenantID reg)" if "reg i = Some robot" "tenantID \<noteq> [] \<longrightarrow> r_TenantID robot = tenantID" for i robot
      using that assms(3) by (auto simp: candidates_def registry_ListByTenant_def registry_List_def in_go_values)
    with None show ?thesis
      using assms(1) by (fastforce simp: no_match_def find_None_iff HasRunning_met [OF assms(4)] robots_keyed_def)
  next
    case (Some robot)
    from found [OF Some] that have "reg (r_ID robot) = Some robot" "r_ID robot = []" by auto
    with assms(2) show ?thesis by (metis option.distinct(1))
  qed
qed

lemma step_robot_selector:
  assumes "robots_keyed reg" "robots_met env reg" "running_met env ts"
    and "step_robot env reg cat ts tenantID used i step = rid" "rid \<noteq> []" "reg rid = Some robot"
  shows "selector_met reg tenantID ts used step robot"
proof (cases "ws_RobotID step = []")
  case True
  show ?thesis
  proof (cases "ws_RobotSelector step")
    case (Some sel)
    let ?r = "resolveSelector (oe_robots env (2 * i)) (oe_tasks env i) reg ts sel used tenantID"
    note s = search_spec [OF assms(1) _ _ assms(3), of "oe_robots env (2 * i)" i "sel_Capabilities sel" used tenantID]
    have "?r = [] \<Longrightarrow> no_match reg tenantID ts used (sel_Capabilities sel)" "?r \<noteq> [] \<Longrightarrow> HasCapability (reg ?r) (sel_Capabilities sel)"
      using s assms(2) by (auto simp: resolveSelector_def robots_met_def)
    moreover have "rid = ?r" if "?r \<noteq> []"
      using assms(4,5) that True Some by (auto simp: step_robot_def Let_def split: if_splits option.splits)
    ultimately show ?thesis using assms(6) Some by (cases "?r = []") (auto simp: selector_met_def)
  qed (simp add: selector_met_def)
qed (simp add: selector_met_def split: option.split)

lemma step_robot_found:
  assumes "robots_keyed reg" "step_robot env reg cat ts tenantID used i step = rid" "rid \<noteq> []"
  shows "ws_RobotID step \<noteq> [] \<longrightarrow> rid = ws_RobotID step"
    and "ws_RobotID step = [] \<longrightarrow> reg rid \<noteq> None \<and> rid \<notin> set used"
    and "reg rid = Some robot \<Longrightarrow> tenantID \<noteq> [] \<Longrightarrow> r_TenantID robot = tenantID"
proof -
  note sf = search_found [OF assms(1)]
  show "ws_RobotID step \<noteq> [] \<longrightarrow> rid = ws_RobotID step"
    using assms(2,3) by (auto simp: step_robot_def Let_def split: if_splits option.splits)
  show "reg rid = Some robot \<Longrightarrow> tenantID \<noteq> [] \<Longrightarrow> r_TenantID robot = tenantID"
    using assms(2,3) by (auto simp: step_robot_def Let_def registry_Get_def split: if_splits option.splits)
  show "ws_RobotID step = [] \<longrightarrow> reg rid \<noteq> None \<and> rid \<notin> set used"
  proof
    assume e: "ws_RobotID step = []"
    obtain tks caps ks where "rid = first_free tks caps used ts (candidates ks tenantID reg)"
      using assms(2,3) e
      by (auto simp: step_robot_def Let_def resolveSelector_def pickAvailableRobot_def split: if_splits option.splits)
    with sf [of tks caps used ts ks tenantID] assms(3) show "reg rid \<noteq> None \<and> rid \<notin> set used" by auto
  qed
qed

lemma workflow_step_cases:
  assumes "robots_keyed reg" "running_met env (or_tasks w)"
  obtains (failed) "run_workflow_steps env reg cat op tenantID i (step # steps) rt ids used w =
      (Some ids, run_failed (oe_now env (3 * i + 1)) (oe_run_id env) w)"
  | (crash) "run_workflow_steps env reg cat op tenantID i (step # steps) rt ids used w = (None, w)"
      "ws_RobotID step \<noteq> []" "reg (ws_RobotID step) = None"
  | (assigned) robot where
      "run_workflow_steps env reg cat op tenantID i (step # steps) rt ids used w =
         run_workflow_steps env reg cat op tenantID (Suc i) steps (if rt = [] then or_default (r_TenantID robot) ''default'' else rt)
           (ids @ [oe_uuid env i]) (r_ID robot # used) (given env op rt i step robot w)"
      "suitable reg cat tenantID (or_tasks w) step robot" "ws_RobotID step = [] \<longrightarrow> r_ID robot \<notin> set used"
      "robots_met env reg \<longrightarrow> selector_met reg tenantID (or_tasks w) used step robot"
proof -
  define rid where "rid = step_robot env reg cat (or_tasks w) tenantID used i step"
  note sr = step_robot_found [OF assms(1) rid_def [symmetric]]
  let ?run = "run_workflow_steps env reg cat op tenantID i (step # steps) rt ids used w"
  let ?failed = "(Some ids, run_failed (oe_now env (3 * i + 1)) (oe_run_id env) w)"
  note unf = run_workflow_steps.simps(2) [of env reg cat op tenantID i step steps rt ids used w, folded rid_def, unfolded Let_def, folded rid_def]
  show ?thesis
  proof (cases "rid = []")
    case True
    with unf show ?thesis by (intro failed) simp
  next
    case rid: False
    show ?thesis
    proof (cases "catalog_Get cat (ws_ScenarioID step)")
      case None
      with unf rid show ?thesis by (intro failed) simp
    next
      case (Some sc)
      show ?thesis
      proof (cases "\<not> HasCapability (registry_Get reg rid) (sc_RequiredCapabilities sc) \<or> HasRunningForRobot (oe_tasks env i) rid (or_tasks w)")
        case True
        with unf rid Some show ?thesis by (intro failed) auto
      next
        case ok: False
        show ?thesis
        proof (cases "reg rid")
          case None
          with sr(1,2) [OF rid] have "ws_RobotID step \<noteq> []" "rid = ws_RobotID step" by auto
          with None unf rid Some ok show ?thesis by (intro crash) (auto simp: registry_Get_def)
        next
          case r: (Some robot)
          with assms(1) have k: "r_ID robot = rid" by (simp add: robots_keyed_def)
          have "?run = run_workflow_steps env reg cat op tenantID (Suc i) steps
              (if rt = [] then or_default (r_TenantID robot) ''default'' else rt)
              (ids @ [oe_uuid env i]) (r_ID robot # used) (given env op rt i step robot w)"
            using unf rid Some ok r by (cases w) (simp add: registry_Get_def k given_def Let_def or_default_def)
          moreover have "suitable reg cat tenantID (or_tasks w) step robot"
            using r k Some ok sr [OF rid] HasRunning_met [OF assms(2), of i rid] by (auto simp: suitable_def registry_Get_def)
          moreover have "robots_met env reg \<longrightarrow> selector_met reg tenantID (or_tasks w) used step robot"
            using step_robot_selector [OF assms(1) _ assms(2) rid_def [symmetric] rid r] by blast
          ultimately show ?thesis using sr(2) [OF rid] k by (intro assigned [of robot]) auto
        qed
      qed
    qed
  qed
qed

lemma given_tasks: "or_tasks (given env op rt i step robot w) =
    tasks_Create (oe_now env (3 * i + 2)) (workflow_task (oe_uuid env i) op step (r_ID robot) robot) (or_tasks w)"
  by (simp add: given_def Let_def)

lemma given_runs:
  assumes "or_runs w (oe_run_id env) = Some r"
  shows "\<exists>t. or_runs (given env op rt i step robot w) = (or_runs w)(oe_run_id env \<mapsto> r\<lparr>wr_Tasks := wr_Tasks r @
      [\<lparr>wt_TaskID = oe_uuid env i, wt_StepIndex = i\<rparr>], wr_UpdatedAt := t,
      wr_TenantID := (if rt = [] then or_default (r_TenantID robot) ''default'' else wr_TenantID r)\<rparr>)"
  using assms by (intro exI [of _ "oe_now env (3 * i + 3)"], cases r) (simp add: given_def Let_def AddTask_def UpdateTenantID_def)

lemma given_met: "running_met env (or_tasks w) \<Longrightarrow> running_met env (or_tasks (given env op rt i step robot w))"
  by (auto simp: running_met_def given_tasks tasks_Create_def split: if_splits)

lemma given_fresh: "uuids_fresh env i (or_tasks w) \<Longrightarrow> uuids_fresh env (Suc i) (or_tasks (given env op rt i step robot w))"
  by (auto simp: uuids_fresh_def given_tasks tasks_Create_def inj_eq)

lemma given_running:
  "uuids_fresh env i (or_tasks w) \<Longrightarrow> running_tasks (or_tasks (given env op rt i step robot w)) = running_tasks (or_tasks w)"
  by (rule ext) (auto simp: uuids_fresh_def given_tasks tasks_Create_def running_tasks_def split: if_splits)

text \<open>The outcome of the steps from number \<open>i\<close> on, for the robots they were given.\<close>

definition workflow_outcome :: "orch_env \<Rightarrow> registry \<Rightarrow> nat \<Rightarrow> WorkflowStep list \<Rightarrow> Robot list \<Rightarrow> string \<Rightarrow> string list
    \<Rightarrow> WorkflowRun \<Rightarrow> WorkflowRun \<Rightarrow> string list option \<Rightarrow> bool" where
  "workflow_outcome env reg i steps robots rt ids r0 r1 res \<longleftrightarrow>
     wr_ID r1 = wr_ID r0 \<and> wr_WorkflowID r1 = wr_WorkflowID r0
     \<and> wr_Tasks r1 = wr_Tasks r0 @ map (\<lambda>j. \<lparr>wt_TaskID = oe_uuid env j, wt_StepIndex = j\<rparr>) [i..<i + length robots]
     \<and> wr_TenantID r1 = (case robots of robot # _ \<Rightarrow> if rt = [] then or_default (r_TenantID robot) ''default'' else wr_TenantID r0
                          | [] \<Rightarrow> wr_TenantID r0)
     \<and> (case res of
          Some ids' \<Rightarrow> ids' = ids @ map (oe_uuid env) [i..<i + length robots]
            \<and> wr_Status r1 = (if length robots = length steps then wr_Status r0 else WorkflowRunFailed)
        | None \<Rightarrow> wr_Status r1 = wr_Status r0 \<and> length robots < length steps
            \<and> ws_RobotID (steps ! length robots) \<noteq> [] \<and> reg (ws_RobotID (steps ! length robots)) = None)"

lemma workflow_outcome_Cons:
  assumes "workflow_outcome env reg (Suc i) steps robots (if rt = [] then or_default (r_TenantID robot) ''default'' else rt)
      (ids @ [oe_uuid env i]) (r0\<lparr>wr_Tasks := wr_Tasks r0 @ [\<lparr>wt_TaskID = oe_uuid env i, wt_StepIndex = i\<rparr>], wr_UpdatedAt := t,
      wr_TenantID := (if rt = [] then or_default (r_TenantID robot) ''default'' else wr_TenantID r0)\<rparr>) r1 res"
  shows "workflow_outcome env reg i (step # steps) (robot # robots) rt ids r0 r1 res"
proof -
  have "or_default (r_TenantID robot) ''default'' \<noteq> []" by (rule or_default_nonempty) simp
  moreover have "[i..<Suc (i + n)] = i # [Suc i..<Suc (i + n)]" "[i..<Suc (Suc (i + n))] = i # [Suc i..<Suc (Suc (i + n))]" for n
    by (simp_all only: upt_conv_Cons)
  ultimately show ?thesis
    using assms unfolding workflow_outcome_def
    by (auto simp del: upt_Suc split: option.splits list.splits if_splits)
qed

lemma run_workflow_steps_effect:
  assumes "robots_keyed reg" "running_met env (or_tasks w)" "uuids_fresh env i (or_tasks w)"
    and "or_runs w (oe_run_id env) = Some r0"
    and "run_workflow_steps env reg cat op tenantID i steps rt ids used w = (res, w')"
  shows "\<exists>robots r1. length robots \<le> length steps
     \<and> (\<forall>(step, robot) \<in> set (zip steps robots). suitable reg cat tenantID (or_tasks w) step robot)
     \<and> fresh_picks used (zip steps robots)
     \<and> (robots_met env reg \<longrightarrow> selectors_met reg tenantID (or_tasks w) used (zip steps robots))
     \<and> or_tasks w' = give_tasks env op i (zip steps robots) (or_tasks w)
     \<and> or_runs w' = (or_runs w)(oe_run_id env \<mapsto> r1) \<and> workflow_outcome env reg i steps robots rt ids r0 r1 res"
  using assms(2-5)
proof (induction steps arbitrary: i rt ids used w r0)
  case Nil
  then show ?case by (intro exI [of _ "[]"] exI [of _ r0]) (auto simp: workflow_outcome_def)
next
  case (Cons step steps)
  show ?case
  proof (cases rule: workflow_step_cases [OF assms(1) Cons.prems(1), of cat op tenantID i step steps rt ids used, case_names failed crash assigned])
    case failed
    with Cons.prems show ?thesis
      by (intro exI [of _ "[]"] exI [of _ "r0\<lparr>wr_Status := WorkflowRunFailed, wr_UpdatedAt := oe_now env (3 * i + 1)\<rparr>"])
        (auto simp: workflow_outcome_def run_failed_def runs_UpdateStatus_def)
  next
    case crash
    with Cons.prems show ?thesis
      by (intro exI [of _ "[]"] exI [of _ r0]) (auto simp: workflow_outcome_def)
  next
    case (assigned robot)
    let ?w = "given env op rt i step robot w"
    obtain t where runs: "or_runs ?w = (or_runs w)(oe_run_id env \<mapsto> r0\<lparr>wr_Tasks := wr_Tasks r0 @
        [\<lparr>wt_TaskID = oe_uuid env i, wt_StepIndex = i\<rparr>], wr_UpdatedAt := t,
        wr_TenantID := (if rt = [] then or_default (r_TenantID robot) ''default'' else wr_TenantID r0)\<rparr>)"
      using given_runs [OF Cons.prems(3)] by blast
    define r where "r = r0\<lparr>wr_Tasks := wr_Tasks r0 @ [\<lparr>wt_TaskID = oe_uuid env i, wt_StepIndex = i\<rparr>], wr_UpdatedAt := t,
        wr_TenantID := (if rt = [] then or_default (r_TenantID robot) ''default'' else wr_TenantID r0)\<rparr>"
    have r: "or_runs ?w (oe_run_id env) = Some r" by (simp add: runs r_def)
    obtain robots r1 where IH: "length robots \<le> length steps"
      "\<forall>(step, robot) \<in> set (zip steps robots). suitable reg cat tenantID (or_tasks ?w) step robot"
      "fresh_picks (r_ID robot # used) (zip steps robots)"
      "robots_met env reg \<longrightarrow> selectors_met reg tenantID (or_tasks ?w) (r_ID robot # used) (zip steps robots)"
      "or_tasks w' = give_tasks env op (Suc i) (zip steps robots) (or_tasks ?w)"
      "or_runs w' = (or_runs ?w)(oe_run_id env \<mapsto> r1)"
      "workflow_outcome env reg (Suc i) steps robots (if rt = [] then or_default (r_TenantID robot) ''default'' else rt)
        (ids @ [oe_uuid env i]) r r1 res"
      using Cons.IH [OF given_met [OF Cons.prems(1)] given_fresh [OF Cons.prems(2)] r assigned(1) [symmetric, THEN trans, OF Cons.prems(4)]]
      by blast
    have "suitable reg cat tenantID (or_tasks ?w) = suitable reg cat tenantID (or_tasks w)"
      by (intro ext) (simp add: suitable_def given_running [OF Cons.prems(2)])
    with IH(2) assigned(2) have "\<forall>(step', robot') \<in> set (zip (step # steps) (robot # robots)).
        suitable reg cat tenantID (or_tasks w) step' robot'" by auto
    moreover have "robots_met env reg \<longrightarrow> selectors_met reg tenantID (or_tasks w) used (zip (step # steps) (robot # robots))"
      using IH(4) assigned(4) selectors_met_cong [OF given_running [OF Cons.prems(2)]] by simp
    ultimately show ?thesis using IH(1,3,5,6) workflow_outcome_Cons [OF IH(7) [unfolded r_def], of step] assigned(3) runs
      by (intro exI [of _ "robot # robots"] exI [of _ r1]) (auto simp: given_tasks)
  qed
qed

section \<open>The tasks of a run\<close>

lemma step_robot_tenant:
  "step_robot env reg cat ts tenantID used i step = rid \<Longrightarrow> rid \<noteq> [] \<Longrightarrow> reg rid = Some robot \<Longrightarrow> tenantID \<noteq> []
     \<Longrightarrow> r_TenantID robot = tenantID"
  by (auto simp: step_robot_def Let_def registry_Get_def split: if_splits option.splits)

text \<open>Whatever the stores hold, a run only adds tasks of its own, for robots of the caller's tenant.\<close>

lemma run_workflow_steps_tasks:
  "\<exists>ps. or_tasks (snd (run_workflow_steps env reg cat op tenantID i steps rt ids used w)) = give_tasks env op i ps (or_tasks w)
     \<and> (tenantID \<noteq> [] \<longrightarrow> (\<forall>(step, robot) \<in> set ps. r_TenantID robot = tenantID))"
proof (induction steps arbitrary: i rt ids used w)
  case Nil
  then show ?case by (intro exI [of _ "[]"]) simp
next
  case (Cons step steps)
  define rid where "rid = step_robot env reg cat (or_tasks w) tenantID used i step"
  let ?run = "run_workflow_steps env reg cat op tenantID i (step # steps) rt ids used w"
  consider (same) "or_tasks (snd ?run) = or_tasks w"
    | (task) robot rt' ids' used' w' where "reg rid = Some robot" "rid \<noteq> []"
      "?run = run_workflow_steps env reg cat op tenantID (Suc i) steps rt' ids' used' w'"
      "or_tasks w' = tasks_Create (oe_now env (3 * i + 2)) (workflow_task (oe_uuid env i) op step rid robot) (or_tasks w)"
  proof -
    note unf = run_workflow_steps.simps(2) [of env reg cat op tenantID i step steps rt ids used w, folded rid_def, unfolded Let_def, folded rid_def]
    show ?thesis
    proof (cases "rid = [] \<or> catalog_Get cat (ws_ScenarioID step) = None \<or> reg rid = None")
      case True
      then show ?thesis by (intro that(1)) (auto simp: unf run_failed_def registry_Get_def simp del: run_workflow_steps.simps(2) split: option.split)
    next
      case False
      then obtain sc robot where f: "catalog_Get cat (ws_ScenarioID step) = Some sc" "reg rid = Some robot" "rid \<noteq> []" by auto
      show ?thesis
      proof (cases "\<not> HasCapability (Some robot) (sc_RequiredCapabilities sc) \<or> HasRunningForRobot (oe_tasks env i) rid (or_tasks w)")
        case True
        with f show ?thesis by (intro that(1)) (auto simp: unf run_failed_def registry_Get_def simp del: run_workflow_steps.simps(2))
      next
        case False
        with f show ?thesis
          by (intro that(2) [OF f(2,3) unf [THEN trans]])
            (simp add: registry_Get_def del: run_workflow_steps.simps(2), simp)
      qed
    qed
  qed
  then show ?case
  proof cases
    case same
    then show ?thesis by (intro exI [of _ "[]"]) simp
  next
    case (task robot rt' ids' used' w')
    from Cons.IH [of "Suc i" rt' ids' used' w'] obtain ps where ps:
      "or_tasks (snd ?run) = give_tasks env op (Suc i) ps (or_tasks w')"
      "tenantID \<noteq> [] \<longrightarrow> (\<forall>(step, robot) \<in> set ps. r_TenantID robot = tenantID)" unfolding task(3) by blast
    have "tenantID \<noteq> [] \<longrightarrow> r_TenantID robot = tenantID"
      using step_robot_tenant [OF rid_def [symmetric] task(2,1)] by simp
    with ps task(4) show ?thesis
      by (intro exI [of _ "(step, robot\<lparr>r_ID := rid\<rparr>) # ps"]) (auto simp: workflow_task_def)
  qed
qed

lemma Run_tasks:
  "\<exists>ps. or_tasks (snd (Run env wfs reg cat workflowID op tenantID w)) = give_tasks env op 0 ps (or_tasks w)
     \<and> (tenantID \<noteq> [] \<longrightarrow> (\<forall>(step, robot) \<in> set ps. r_TenantID robot = tenantID))"
proof (cases "workflows_Get wfs workflowID")
  case None
  then show ?thesis by (intro exI [of _ "[]"]) (simp add: Run_def)
next
  case (Some flow)
  let ?w1 = "w\<lparr>or_runs := runs_Create (oe_now env 0) (new_run (oe_run_id env) workflowID) (or_runs w)\<rparr>"
  have "or_tasks (snd (Run env wfs reg cat workflowID op tenantID w)) =
      or_tasks (snd (run_workflow_steps env reg cat op tenantID 0 (wf_Steps flow) [] [] [] ?w1))"
    using Some by (simp add: Run_def Let_def new_run_def split: prod.split option.split)
  with run_workflow_steps_tasks [of env reg cat op tenantID 0 "wf_Steps flow" "[]" "[]" "[]" ?w1] show ?thesis by simp
qed

lemma give_tasks_old: "uuids_fresh env i ts \<Longrightarrow> ts k = Some t \<Longrightarrow> give_tasks env op i ps ts k = Some t"
proof (induction ps arbitrary: i ts)
  case (Cons p ps)
  obtain step robot where p: "p = (step, robot)" by fastforce
  let ?ts = "tasks_Create (oe_now env (3 * i + 2)) (workflow_task (oe_uuid env i) op step (r_ID robot) robot) ts"
  have "uuids_fresh env (Suc i) ?ts" "?ts k = Some t"
    using Cons.prems by (auto simp: uuids_fresh_def tasks_Create_def inj_eq)
  from Cons.IH [OF this] show ?case by (simp add: p)
qed simp

lemma give_tasks_new:
  assumes "give_tasks env op i ps ts k = Some t" "ts k \<noteq> Some t"
  shows "\<exists>j now. \<exists>(step, robot) \<in> set ps. k = oe_uuid env j \<and> i \<le> j
    \<and> t = task_stamp now (workflow_task k op step (r_ID robot) robot)"
  using assms
proof (induction ps arbitrary: i ts)
  case (Cons p ps)
  obtain step robot where p: "p = (step, robot)" by fastforce
  let ?t = "workflow_task (oe_uuid env i) op step (r_ID robot) robot"
  let ?ts = "tasks_Create (oe_now env (3 * i + 2)) ?t ts"
  show ?case
  proof (cases "?ts k = Some t")
    case True
    with Cons.prems(2) have "k = oe_uuid env i" "t = task_stamp (oe_now env (3 * i + 2)) ?t"
      by (auto simp: tasks_Create_def split: if_splits)
    with p show ?thesis by (intro exI [of _ i] exI [of _ "oe_now env (3 * i + 2)"] bexI [of _ p]) auto
  next
    case False
    with Cons.IH [of "Suc i" ?ts] Cons.prems(1) p obtain j now step' robot'
      where "(step', robot') \<in> set ps" "k = oe_uuid env j" "Suc i \<le> j"
        "t = task_stamp now (workflow_task k op step' (r_ID robot') robot')" by auto
    then show ?thesis by (intro exI [of _ j] exI [of _ now] bexI [of _ "(step', robot')"]) auto
  qed
qed simp

lemma Run_effect:
  assumes "robots_keyed reg" "running_met env (or_tasks w)" "uuids_fresh env 0 (or_tasks w)"
    and "workflows_Get wfs workflowID = Some flow" "Run env wfs reg cat workflowID op tenantID w = (res, w')"
  obtains robots run where
    "length robots \<le> length (wf_Steps flow)"
    "\<forall>(step, robot) \<in> set (zip (wf_Steps flow) robots). suitable reg cat tenantID (or_tasks w) step robot"
    "fresh_picks [] (zip (wf_Steps flow) robots)"
    "robots_met env reg \<longrightarrow> selectors_met reg tenantID (or_tasks w) [] (zip (wf_Steps flow) robots)"
    "or_tasks w' = give_tasks env op 0 (zip (wf_Steps flow) robots) (or_tasks w)"
    "or_runs w' = (or_runs w)(oe_run_id env \<mapsto> run)"
    "workflow_outcome env reg 0 (wf_Steps flow) robots [] [] (run_stamp (oe_now env 0) (new_run (oe_run_id env) workflowID)) run
       (case res of Inr rr \<Rightarrow> Some (rr_TaskIDs rr) | Inl _ \<Rightarrow> None)"
    "case res of Inr rr \<Rightarrow> rr_WorkflowRunID rr = oe_run_id env | Inl e \<Rightarrow> e = NilDereference"
proof -
  let ?run = "new_run (oe_run_id env) workflowID"
  let ?w1 = "w\<lparr>or_runs := runs_Create (oe_now env 0) ?run (or_runs w)\<rparr>"
  obtain ids w2 where l: "run_workflow_steps env reg cat op tenantID 0 (wf_Steps flow) [] [] [] ?w1 = (ids, w2)" by fastforce
  have r: "or_runs ?w1 (oe_run_id env) = Some (run_stamp (oe_now env 0) ?run)" by (simp add: runs_Create_def new_run_def)
  from run_workflow_steps_effect [OF assms(1) _ _ r l] assms(2,3) obtain robots run where e:
    "length robots \<le> length (wf_Steps flow)"
    "\<forall>(step, robot) \<in> set (zip (wf_Steps flow) robots). suitable reg cat tenantID (or_tasks w) step robot"
    "fresh_picks [] (zip (wf_Steps flow) robots)"
    "robots_met env reg \<longrightarrow> selectors_met reg tenantID (or_tasks w) [] (zip (wf_Steps flow) robots)"
    "or_tasks w2 = give_tasks env op 0 (zip (wf_Steps flow) robots) (or_tasks w)"
    "or_runs w2 = (or_runs ?w1)(oe_run_id env \<mapsto> run)"
    "workflow_outcome env reg 0 (wf_Steps flow) robots [] [] (run_stamp (oe_now env 0) ?run) run ids" by auto
  have "w' = w2" "ids = (case res of Inr rr \<Rightarrow> Some (rr_TaskIDs rr) | Inl _ \<Rightarrow> None)"
    "case res of Inr rr \<Rightarrow> rr_WorkflowRunID rr = oe_run_id env | Inl e \<Rightarrow> e = NilDereference"
    using assms(4,5) l by (auto simp: Run_def Let_def new_run_def split: option.splits)
  with e show ?thesis by (intro that [of robots run]) (auto simp: runs_Create_def new_run_def)
qed

section \<open>Properties\<close>

text \<open>A fleet of one robot, for the three patrols of the built-in workflow.\<close>

definition patrol_robot :: Robot where
  "patrol_robot = \<lparr>r_ID = ''r1'', r_Vendor = ''v'', r_Model = ''m'', r_AdapterEndpoint = ''a'', r_TenantID = ''acme'',
     r_EdgeID = [], r_Location = [], r_Capabilities = [CapWalk, CapCmdVel, CapPatrol], r_CreatedAt = 1, r_UpdatedAt = 1\<rparr>"

definition patrol_fleet :: registry where
  "patrol_fleet = [''r1'' \<mapsto> patrol_robot]"

definition patrol_env :: orch_env where
  "patrol_env = \<lparr>oe_now = (\<lambda>n. 100 + int n), oe_run_id = ''run'', oe_uuid = (\<lambda>n. replicate n CHR ''x''),
     oe_robots = (\<lambda>_. [''r1'']), oe_tasks = (\<lambda>_. [])\<rparr>"

lemma patrol_example: "robots_keyed patrol_fleet" "running_met patrol_env Map.empty" "uuids_fresh patrol_env 0 Map.empty"
  by (auto simp: robots_keyed_def patrol_fleet_def patrol_robot_def running_met_def uuids_fresh_def patrol_env_def inj_def
      split: if_splits)

lemma patrol_in_catalog: "catalog_Get NewCatalog ''patrol'' = Some patrol_scenario"
  by (simp add: catalog_Get_def GetForTenant_def NewCatalog_def registerDefaults_def)

lemma patrol_capable: "HasCapability (Some patrol_robot) (sc_RequiredCapabilities patrol_scenario)"
  by (simp add: HasCapability_Some patrol_robot_def patrol_scenario_def)

lemma patrol_choice:
  "step_robot patrol_env patrol_fleet NewCatalog ts ''acme'' used i (patrol_step z) = (if List.member used ''r1'' then [] else ''r1'')"
proof -
  have "candidates [''r1''] ''acme'' patrol_fleet = [patrol_robot]"
    by (simp add: candidates_def registry_ListByTenant_def patrol_fleet_def patrol_robot_def)
  moreover have "r_ID patrol_robot = ''r1''" "r_TenantID patrol_robot = ''acme''" by (simp_all add: patrol_robot_def)
  ultimately show ?thesis
    using patrol_capable
    by (simp add: step_robot_def patrol_step_def pickAvailableRobot_def patrol_in_catalog first_free_def patrol_env_def
        HasRunningForRobot_def registry_Get_def patrol_fleet_def)
qed

lemma patrol_steps:
  "run_workflow_steps patrol_env patrol_fleet NewCatalog op ''acme'' i (patrol_step z # steps) rt ids [''r1''] w =
     (Some ids, run_failed (oe_now patrol_env (3 * i + 1)) ''run'' w)"
  "run_workflow_steps patrol_env patrol_fleet NewCatalog op ''acme'' i (patrol_step z # steps) rt ids [] w =
     run_workflow_steps patrol_env patrol_fleet NewCatalog op ''acme'' (Suc i) steps (if rt = [] then ''acme'' else rt)
       (ids @ [replicate i CHR ''x'']) [''r1''] (given patrol_env op rt i (patrol_step z) patrol_robot w)"
proof -
  have eqs: "registry_Get patrol_fleet ''r1'' = Some patrol_robot" "ws_ScenarioID (patrol_step z) = ''patrol''"
    "HasRunningForRobot (oe_tasks patrol_env i) r ts = False" "oe_uuid patrol_env i = replicate i CHR ''x''"
    "oe_run_id patrol_env = ''run''" "r_TenantID patrol_robot = ''acme''" "r_ID patrol_robot = ''r1''" for r ts
    by (simp_all add: registry_Get_def patrol_fleet_def patrol_step_def patrol_env_def HasRunningForRobot_def patrol_robot_def)
  show "run_workflow_steps patrol_env patrol_fleet NewCatalog op ''acme'' i (patrol_step z # steps) rt ids [''r1''] w =
     (Some ids, run_failed (oe_now patrol_env (3 * i + 1)) ''run'' w)"
    by (simp add: patrol_choice eqs Let_def)
  show "run_workflow_steps patrol_env patrol_fleet NewCatalog op ''acme'' i (patrol_step z # steps) rt ids [] w =
     run_workflow_steps patrol_env patrol_fleet NewCatalog op ''acme'' (Suc i) steps (if rt = [] then ''acme'' else rt)
       (ids @ [replicate i CHR ''x'']) [''r1''] (given patrol_env op rt i (patrol_step z) patrol_robot w)"
    by (cases w) (simp add: patrol_choice eqs Let_def patrol_in_catalog patrol_capable given_def or_default_def)
qed

lemma patrol_run:
  "fst (Run patrol_env workflows_NewCatalog patrol_fleet NewCatalog ''patrol_zones_ABC'' ''op'' ''acme''
      \<lparr>or_runs = Map.empty, or_tasks = Map.empty\<rparr>) = Inr \<lparr>rr_WorkflowRunID = ''run'', rr_TaskIDs = [[]]\<rparr>"
  by (simp add: Run_def workflows_Get_def workflows_NewCatalog_def patrol_zones_ABC_def Let_def patrol_steps new_run_def
      del: run_workflow_steps.simps(2)) (simp add: patrol_env_def)

text \<open>
  C21. A run of a workflow gives its steps robots and tasks in order, as far as it gets. Each robot is registered, of the caller's
  tenant if the call names one, the one the step names if it names one, able to do the scenario, and had no running task before; a step that names
  no robot gets one that no earlier step has (a step that names its robot may repeat one), and if it has a selector, one with the capabilities of the
  selector, unless no idle robot has them that no earlier step has: then the selector is ignored. The
  store gains exactly the pending tasks of these steps, and the run records them; it is running if every step has its task and failed
  otherwise. The only other outcome is the dereference of a nil robot, at a step that names an unregistered robot, with the run left
  running. (Robots are filed under their identifiers, and none under the empty one for what is said of selectors; new identifiers are fresh, and the
  searches range over the stores.)
\<close>

theorem Run_outcome:
  assumes "robots_keyed reg" "running_met env (or_tasks w)" "uuids_fresh env 0 (or_tasks w)"
    and "workflows_Get wfs workflowID = Some flow" "Run env wfs reg cat workflowID op tenantID w = (res, w')"
  shows "\<exists>robots run. length robots \<le> length (wf_Steps flow)
     \<and> (\<forall>(step, robot) \<in> set (zip (wf_Steps flow) robots). suitable reg cat tenantID (or_tasks w) step robot)
     \<and> fresh_picks [] (zip (wf_Steps flow) robots)
     \<and> (robots_met env reg \<longrightarrow> selectors_met reg tenantID (or_tasks w) [] (zip (wf_Steps flow) robots))
     \<and> or_tasks w' = give_tasks env op 0 (zip (wf_Steps flow) robots) (or_tasks w)
     \<and> or_runs w' = (or_runs w)(oe_run_id env \<mapsto> run)
     \<and> wr_Tasks run = map (\<lambda>j. \<lparr>wt_TaskID = oe_uuid env j, wt_StepIndex = j\<rparr>) [0..<length robots]
     \<and> (case res of
          Inr rr \<Rightarrow> rr = \<lparr>rr_WorkflowRunID = oe_run_id env, rr_TaskIDs = map (oe_uuid env) [0..<length robots]\<rparr>
            \<and> wr_Status run = (if length robots = length (wf_Steps flow) then WorkflowRunRunning else WorkflowRunFailed)
        | Inl e \<Rightarrow> e = NilDereference \<and> wr_Status run = WorkflowRunRunning
            \<and> ws_RobotID (wf_Steps flow ! length robots) \<noteq> [] \<and> reg (ws_RobotID (wf_Steps flow ! length robots)) = None)"
proof -
  obtain robots run where e: "length robots \<le> length (wf_Steps flow)"
    "\<forall>(step, robot) \<in> set (zip (wf_Steps flow) robots). suitable reg cat tenantID (or_tasks w) step robot"
    "fresh_picks [] (zip (wf_Steps flow) robots)"
    "robots_met env reg \<longrightarrow> selectors_met reg tenantID (or_tasks w) [] (zip (wf_Steps flow) robots)"
    "or_tasks w' = give_tasks env op 0 (zip (wf_Steps flow) robots) (or_tasks w)"
    "or_runs w' = (or_runs w)(oe_run_id env \<mapsto> run)"
    "workflow_outcome env reg 0 (wf_Steps flow) robots [] [] (run_stamp (oe_now env 0) (new_run (oe_run_id env) workflowID)) run
       (case res of Inr rr \<Rightarrow> Some (rr_TaskIDs rr) | Inl _ \<Rightarrow> None)"
    "case res of Inr rr \<Rightarrow> rr_WorkflowRunID rr = oe_run_id env | Inl e \<Rightarrow> e = NilDereference"
    using Run_effect [OF assms] by blast
  from e(7,8) show ?thesis
    by (intro exI [of _ robots] exI [of _ run] conjI e(1-6)) (auto simp: workflow_outcome_def new_run_def split: sum.splits)
qed

theorem Run_outcome_witness:
  "\<exists>w' run. Run patrol_env workflows_NewCatalog patrol_fleet NewCatalog ''patrol_zones_ABC'' ''op'' ''acme''
      \<lparr>or_runs = Map.empty, or_tasks = Map.empty\<rparr> = (Inr \<lparr>rr_WorkflowRunID = ''run'', rr_TaskIDs = [[]]\<rparr>, w')
     \<and> or_runs w' ''run'' = Some run \<and> wr_Status run = WorkflowRunFailed"
proof -
  let ?w = "\<lparr>or_runs = Map.empty, or_tasks = Map.empty\<rparr>"
  let ?r = "Run patrol_env workflows_NewCatalog patrol_fleet NewCatalog ''patrol_zones_ABC'' ''op'' ''acme'' ?w"
  have res: "fst ?r = Inr \<lparr>rr_WorkflowRunID = ''run'', rr_TaskIDs = [[]]\<rparr>"
    by (rule patrol_run)
  have get: "workflows_Get workflows_NewCatalog ''patrol_zones_ABC'' = Some patrol_zones_ABC"
    by (simp add: workflows_Get_def workflows_NewCatalog_def)
  have "?r = (fst ?r, snd ?r)" by simp
  from Run_outcome [OF patrol_example(1) _ _ get this] patrol_example(2,3) obtain robots :: "Robot list" and run where
    runs: "or_runs (snd ?r) = (or_runs ?w)(oe_run_id patrol_env \<mapsto> run)"
    and c: "case fst ?r of
          Inr rr \<Rightarrow> rr = \<lparr>rr_WorkflowRunID = oe_run_id patrol_env, rr_TaskIDs = map (oe_uuid patrol_env) [0..<length robots]\<rparr>
            \<and> wr_Status run = (if length robots = length (wf_Steps patrol_zones_ABC) then WorkflowRunRunning else WorkflowRunFailed)
        | Inl e \<Rightarrow> e = NilDereference \<and> wr_Status run = WorkflowRunRunning
            \<and> ws_RobotID (wf_Steps patrol_zones_ABC ! length robots) \<noteq> []
            \<and> patrol_fleet (ws_RobotID (wf_Steps patrol_zones_ABC ! length robots)) = None"
    by (simp only: orch.simps simp_thms) blast
  from c res have "map (oe_uuid patrol_env) [0..<length robots] = [[]]"
    and st: "wr_Status run = (if length robots = length (wf_Steps patrol_zones_ABC) then WorkflowRunRunning else WorkflowRunFailed)"
    by simp_all
  then have "length (map (oe_uuid patrol_env) [0..<length robots]) = 1" by simp
  then have "length robots = 1" by simp
  with runs st show ?thesis using res
    by (intro exI [of _ "snd ?r"] exI [of _ run])
      (auto simp: prod_eq_iff patrol_env_def patrol_zones_ABC_def)
qed

end
