(* ===== verification/Webhooks.thy ===== *)
theory Webhooks
  imports Robot_Engine
begin

text \<open>
  Webhooks, \<^verbatim>\<open>pkg/control-plane/webhooks\<close>: the in-memory store, the circuit breaker of an endpoint, the dead
  letters, and the dispatcher that delivers an event with retries.

  The goroutines of deliveries to the same URL share its breaker: before each use of it a delivery meets
  what the others did to it. HTTP, HMAC and the clock are outside: the responses, the signature and the
  instants are arguments.
\<close>

section \<open>The store\<close>

record Webhook =
  wh_ID :: string
  wh_URL :: string
  wh_Events :: "string list"
  wh_Secret :: string
  wh_Enabled :: bool
  wh_CreatedAt :: time
  wh_UpdatedAt :: time

type_synonym webhook_store = "Webhook gomap"

definition webhooks_Create :: "time \<Rightarrow> string \<Rightarrow> Webhook \<Rightarrow> webhook_store \<Rightarrow> Webhook \<times> webhook_store" where
  "webhooks_Create now uuid w s =
     (let w1 = (if wh_ID w = [] then w\<lparr>wh_ID := uuid\<rparr> else w);
          w2 = w1\<lparr>wh_CreatedAt := now, wh_UpdatedAt := now\<rparr>
      in (w2, s(wh_ID w2 \<mapsto> w2)))"

definition webhooks_Get :: "webhook_store \<Rightarrow> string \<Rightarrow> Webhook option" where
  "webhooks_Get s i = s i"

definition webhooks_List :: "string list \<Rightarrow> webhook_store \<Rightarrow> Webhook list" where
  "webhooks_List ks s = go_values s ks"

definition ListByEvent :: "string list \<Rightarrow> string \<Rightarrow> webhook_store \<Rightarrow> Webhook list" where
  "ListByEvent ks event s = filter (\<lambda>w. wh_Enabled w \<and> list_ex (\<lambda>e. e = event) (wh_Events w)) (go_values s ks)"

definition webhooks_Update :: "time \<Rightarrow> Webhook \<Rightarrow> webhook_store \<Rightarrow> Webhook \<times> webhook_store" where
  "webhooks_Update now w s =
     (case s (wh_ID w) of
        None \<Rightarrow> (w, s)
      | Some _ \<Rightarrow> (let w1 = w\<lparr>wh_UpdatedAt := now\<rparr> in (w1, s(wh_ID w \<mapsto> w1))))"

definition webhooks_Delete :: "string \<Rightarrow> webhook_store \<Rightarrow> webhook_store" where
  "webhooks_Delete i s = s(i := None)"

section \<open>The circuit breaker\<close>

datatype cb_state = stateClosed | stateOpen | stateHalfOpen

record CircuitBreaker =
  cb_failureThreshold :: nat
  cb_openDuration :: duration
  cb_failures :: nat
  cb_lastFail :: time
  cb_state :: cb_state

definition NewCircuitBreaker :: CircuitBreaker where
  "NewCircuitBreaker = \<lparr>cb_failureThreshold = 5, cb_openDuration = 60 * second, cb_failures = 0, cb_lastFail = 0,
     cb_state = stateClosed\<rparr>"

definition Allow :: "time \<Rightarrow> CircuitBreaker \<Rightarrow> bool \<times> CircuitBreaker" where
  "Allow now c =
     (case cb_state c of
        stateClosed \<Rightarrow> (True, c)
      | stateOpen \<Rightarrow> (if now - cb_lastFail c \<ge> cb_openDuration c then (True, c\<lparr>cb_state := stateHalfOpen\<rparr>) else (False, c))
      | stateHalfOpen \<Rightarrow> (True, c))"

definition RecordSuccess :: "CircuitBreaker \<Rightarrow> CircuitBreaker" where
  "RecordSuccess c = c\<lparr>cb_failures := 0, cb_state := stateClosed\<rparr>"

definition RecordFailure :: "time \<Rightarrow> CircuitBreaker \<Rightarrow> CircuitBreaker" where
  "RecordFailure now c =
     (let c1 = c\<lparr>cb_failures := cb_failures c + 1, cb_lastFail := now\<rparr> in
      if cb_state c1 = stateHalfOpen then c1\<lparr>cb_state := stateOpen\<rparr>
      else if cb_failures c1 \<ge> cb_failureThreshold c1 then c1\<lparr>cb_state := stateOpen\<rparr>
      else c1)"

text \<open>Histories of a breaker.\<close>

datatype cb_event = Asked time | Succeeded | Failed time

fun cb_step :: "cb_event \<Rightarrow> CircuitBreaker \<Rightarrow> CircuitBreaker" where
  "cb_step (Asked now) c = snd (Allow now c)"
| "cb_step Succeeded c = RecordSuccess c"
| "cb_step (Failed now) c = RecordFailure now c"

definition cb_run :: "cb_event list \<Rightarrow> CircuitBreaker" where
  "cb_run es = fold cb_step es NewCircuitBreaker"

text \<open>
  The same, said of the history alone, newest event first: the failures since the last success, the instant of the
  last failure, and whether a probe was granted since then.
\<close>

fun consecutive :: "cb_event list \<Rightarrow> nat" where
  "consecutive [] = 0"
| "consecutive (Asked _ # es) = consecutive es"
| "consecutive (Succeeded # es) = 0"
| "consecutive (Failed _ # es) = Suc (consecutive es)"

fun last_failure :: "cb_event list \<Rightarrow> time" where
  "last_failure [] = 0"
| "last_failure (Failed t # es) = t"
| "last_failure (_ # es) = last_failure es"

fun probed :: "cb_event list \<Rightarrow> bool" where
  "probed [] = False"
| "probed (Asked t # es) = (probed es \<or> consecutive es \<ge> 5 \<and> t - last_failure es \<ge> 60 * second)"
| "probed (Succeeded # es) = False"
| "probed (Failed _ # es) = False"

lemma cb_run_state:
  "cb_run (rev es) = \<lparr>cb_failureThreshold = 5, cb_openDuration = 60 * second, cb_failures = consecutive es,
     cb_lastFail = last_failure es,
     cb_state = (if consecutive es < 5 then stateClosed else if probed es then stateHalfOpen else stateOpen)\<rparr>
   \<and> (probed es \<longrightarrow> consecutive es \<ge> 5)"
proof (induction es)
  case Nil
  then show ?case by (simp add: cb_run_def NewCircuitBreaker_def)
next
  case (Cons e es)
  have "cb_run (rev (e # es)) = cb_step e (cb_run (rev es))" by (simp add: cb_run_def)
  with Cons.IH show ?case
    by (cases e) (auto simp: Allow_def RecordSuccess_def RecordFailure_def Let_def)
qed

section \<open>The dispatcher\<close>

record Failure =
  fa_ID :: string
  fa_WebhookID :: string
  fa_Event :: string
  fa_Payload :: json
  fa_Error :: string
  fa_CreatedAt :: time

text \<open>A request as it goes out.\<close>

record http_post =
  hp_URL :: string
  hp_Body :: json
  hp_Event :: string
  hp_Signature :: "string option"

record delivery =
  dl_breaker :: CircuitBreaker
  dl_posts :: "(http_post \<times> bool) list" \<comment> \<open>with whether the attempt succeeded\<close>
  dl_dead :: "Failure list option"
  dl_waits :: "duration list"
  dl_tick :: nat

record delivery_env =
  de_now :: "nat \<Rightarrow> time"
  de_others :: "nat \<Rightarrow> CircuitBreaker \<Rightarrow> CircuitBreaker"
  de_uuid :: "nat \<Rightarrow> string"
  de_response :: "nat \<Rightarrow> int option" \<comment> \<open>the status, or an error of \<^verbatim>\<open>client.Do\<close>\<close>
  de_url_ok :: "string \<Rightarrow> bool" \<comment> \<open>\<^verbatim>\<open>http.NewRequest\<close> succeeds\<close>
  de_hmac :: "string \<Rightarrow> json \<Rightarrow> string"

definition meet_others :: "delivery_env \<Rightarrow> delivery \<Rightarrow> delivery" where
  "meet_others env d = d\<lparr>dl_breaker := de_others env (dl_tick d) (dl_breaker d), dl_tick := Suc (dl_tick d)\<rparr>"

definition signed_post :: "delivery_env \<Rightarrow> Webhook \<Rightarrow> json \<Rightarrow> string \<Rightarrow> http_post" where
  "signed_post env wh body event =
     \<lparr>hp_URL = wh_URL wh, hp_Body = body, hp_Event = event,
      hp_Signature = (if wh_Secret wh \<noteq> [] then Some (''sha256='' @ de_hmac env (wh_Secret wh) body) else None)\<rparr>"

definition send :: "delivery_env \<Rightarrow> Webhook \<Rightarrow> json \<Rightarrow> string \<Rightarrow> delivery \<Rightarrow> bool \<times> delivery" where
  "send env wh body event d =
     (if \<not> de_url_ok env (wh_URL wh) then (False, d)
      else let ok = (case de_response env (dl_tick d) of None \<Rightarrow> False | Some status \<Rightarrow> status < 400)
           in (ok, d\<lparr>dl_posts := dl_posts d @ [(signed_post env wh body event, ok)]\<rparr>))"

definition dead_Record :: "delivery_env \<Rightarrow> Webhook \<Rightarrow> string \<Rightarrow> json \<Rightarrow> string \<Rightarrow> delivery \<Rightarrow> delivery" where
  "dead_Record env wh event body err d =
     (case dl_dead d of
        None \<Rightarrow> d
      | Some items \<Rightarrow> d\<lparr>dl_dead := Some (items @
          [\<lparr>fa_ID = de_uuid env (dl_tick d), fa_WebhookID = wh_ID wh, fa_Event = event, fa_Payload = body, fa_Error = err,
            fa_CreatedAt = de_now env (dl_tick d)\<rparr>])\<rparr>)"

definition all_failed :: string where "all_failed = ''all 4 attempts failed''"

text \<open>\<^verbatim>\<open>for attempt := 0; attempt <= d.retries; attempt++\<close>, with three retries.\<close>

function send_attempts :: "delivery_env \<Rightarrow> Webhook \<Rightarrow> json \<Rightarrow> string \<Rightarrow> nat \<Rightarrow> delivery \<Rightarrow> delivery" where
  "send_attempts env wh body event attempt d =
     (if attempt > 3 then dead_Record env wh event body all_failed d
      else let d0 = meet_others env d;
               (allowed, cb) = Allow (de_now env (dl_tick d)) (dl_breaker d0);
               d1 = d0\<lparr>dl_breaker := cb\<rparr>
           in if \<not> allowed then dead_Record env wh event body ''circuit open'' d1
              else let d2 = (if attempt > 0 then d1\<lparr>dl_waits := dl_waits d1 @ [2 ^ (attempt - 1) * second]\<rparr> else d1);
                       (ok, d3) = send env wh body event d2;
                       d4 = meet_others env d3
                   in if \<not> ok
                      then send_attempts env wh body event (Suc attempt)
                             (d4\<lparr>dl_breaker := RecordFailure (de_now env (dl_tick d3)) (dl_breaker d4)\<rparr>)
                      else d4\<lparr>dl_breaker := RecordSuccess (dl_breaker d4)\<rparr>)"
  by pat_completeness auto
termination by (relation "measure (\<lambda>(env, wh, body, event, attempt, d). 4 - attempt)") auto

declare send_attempts.simps [simp del]

text \<open>The breakers are filed by URL and made when first needed; a delivery works on the one in the map.\<close>

definition getCircuitBreaker :: "string \<Rightarrow> CircuitBreaker gomap \<Rightarrow> CircuitBreaker \<times> CircuitBreaker gomap" where
  "getCircuitBreaker url m =
     (case m url of Some cb \<Rightarrow> (cb, m) | None \<Rightarrow> (NewCircuitBreaker, m(url \<mapsto> NewCircuitBreaker)))"

definition sendWithRetry :: "delivery_env \<Rightarrow> Webhook \<Rightarrow> json \<Rightarrow> string \<Rightarrow> CircuitBreaker gomap \<Rightarrow> delivery
    \<Rightarrow> delivery \<times> CircuitBreaker gomap" where
  "sendWithRetry env wh body event m d =
     (let (cb, m1) = getCircuitBreaker (wh_URL wh) m;
          d1 = send_attempts env wh body event 0 (d\<lparr>dl_breaker := cb\<rparr>)
      in (d1, m1(wh_URL wh \<mapsto> dl_breaker d1)))"

text \<open>
  \<^verbatim>\<open>Dispatch\<close>: the deliveries it spawns, one goroutine for each subscribed webhook, with the marshalled payload
  (\<open>ts\<close> is the JSON of the instant).
\<close>

definition Dispatch :: "string list \<Rightarrow> json \<Rightarrow> webhook_store option \<Rightarrow> string \<Rightarrow> (string \<times> json) list \<Rightarrow> (Webhook \<times> json \<times> string) list" where
  "Dispatch ks ts store event data =
     (case store of
        None \<Rightarrow> []
      | Some s \<Rightarrow> map (\<lambda>wh. (wh, JObj [(''event'', JStr event), (''timestamp'', ts), (''data'', JObj data)], event))
          (ListByEvent ks event s))"

section \<open>Lemmas\<close>

lemma meet_others_frames [simp]:
  "dl_posts (meet_others env d) = dl_posts d" "dl_dead (meet_others env d) = dl_dead d"
  "dl_waits (meet_others env d) = dl_waits d"
  by (simp_all add: meet_others_def)

text \<open>
  The result of a run from some attempt: a number of posts, all alike; the last one succeeded and nothing is buried,
  or none succeeded and there is one more dead letter, where those are kept.
\<close>

definition buried :: "Webhook \<Rightarrow> json \<Rightarrow> string \<Rightarrow> Failure list option \<Rightarrow> Failure list option \<Rightarrow> bool" where
  "buried wh body event before after \<longleftrightarrow>
     (case before of None \<Rightarrow> after = None
      | Some items \<Rightarrow> (\<exists>f. after = Some (items @ [f]) \<and> fa_WebhookID f = wh_ID wh \<and> fa_Event f = event \<and> fa_Payload f = body))"

definition run_result :: "Webhook \<Rightarrow> json \<Rightarrow> string \<Rightarrow> bool list \<Rightarrow> Failure list option \<Rightarrow> Failure list option \<Rightarrow> bool" where
  "run_result wh body event ps before after \<longleftrightarrow> True \<notin> set (butlast ps)
     \<and> (if ps \<noteq> [] \<and> last ps then after = before else buried wh body event before after)"

text \<open>The pauses before the retries from one attempt up to another.\<close>

definition backoffs :: "nat \<Rightarrow> nat \<Rightarrow> duration list" where
  "backoffs i j = map (\<lambda>k. 2 ^ (k - 1) * second) [max 1 i..<j]"

lemma backoffs_none [simp]: "backoffs i i = []"
  by (simp add: backoffs_def)

lemma backoffs_Suc: "i < j \<Longrightarrow> backoffs i j = (if i > 0 then [2 ^ (i - 1) * second] else []) @ backoffs (Suc i) j"
  by (cases i) (simp_all add: backoffs_def upt_conv_Cons)

lemma backoffs_take: "j \<le> 4 \<Longrightarrow> backoffs 0 j = take (j - 1) [1 * second, 2 * second, 4 * second]"
proof -
  assume "j \<le> 4"
  then consider "j = 0" | "j = 1" | "j = 2" | "j = 3" | "j = 4" by linarith
  then show ?thesis by cases (simp_all add: backoffs_def upt_rec)
qed

definition posted :: "delivery_env \<Rightarrow> Webhook \<Rightarrow> json \<Rightarrow> string \<Rightarrow> nat \<Rightarrow> delivery \<Rightarrow> delivery \<Rightarrow> bool" where
  "posted env wh body event i d d' \<longleftrightarrow>
     (\<exists>ps j. dl_posts d' = dl_posts d @ map (Pair (signed_post env wh body event)) ps
        \<and> dl_waits d' = dl_waits d @ backoffs i j \<and> i + length ps \<le> j \<and> j \<le> 4
        \<and> run_result wh body event ps (dl_dead d) (dl_dead d'))"

lemma run_result_simps [simp]:
  "run_result wh body event [] before after = buried wh body event before after"
  "run_result wh body event [True] before after = (after = before)"
  "run_result wh body event (False # ps) before after = run_result wh body event ps before after"
  by (auto simp: run_result_def)

lemma buried_Record: "buried wh body event (dl_dead d) (dl_dead (dead_Record env wh event body err d))"
  by (auto simp: buried_def dead_Record_def split: option.split)

lemma posted_dead:
  assumes "dl_posts e = dl_posts d" "dl_dead e = dl_dead d" "dl_waits e = dl_waits d" "i \<le> 4"
  shows "posted env wh body event i d (dead_Record env wh event body err e)"
  unfolding posted_def
  by (rule exI [of _ "[]"], rule exI [of _ i])
    (use buried_Record [of wh body event e env err] assms in \<open>auto simp: dead_Record_def split: option.splits\<close>)

lemma posted_failed:
  assumes "posted env wh body event (Suc i) e d'" "dl_dead e = dl_dead d"
    and waits: "dl_waits e = dl_waits d @ (if i > 0 then [2 ^ (i - 1) * second] else [])"
    and "dl_posts e = dl_posts d @ [(signed_post env wh body event, False)] \<or> dl_posts e = dl_posts d"
  shows "posted env wh body event i d d'"
proof -
  obtain ps j where ps: "dl_posts d' = dl_posts e @ map (Pair (signed_post env wh body event)) ps" "Suc i + length ps \<le> j" "j \<le> 4"
    and w: "dl_waits d' = dl_waits e @ backoffs (Suc i) j"
    and res: "run_result wh body event ps (dl_dead e) (dl_dead d')"
    using assms(1) unfolding posted_def by blast
  have w': "dl_waits d' = dl_waits d @ backoffs i j" using w waits ps(2) backoffs_Suc [of i j] by simp
  show ?thesis
  proof (cases "dl_posts e = dl_posts d")
    case True
    with ps w' res assms(2) show ?thesis unfolding posted_def by (intro exI [of _ ps] exI [of _ j]) simp
  next
    case False
    with ps w' res assms(2,4) show ?thesis unfolding posted_def by (intro exI [of _ "False # ps"] exI [of _ j]) simp
  qed
qed

lemma send_cases:
  assumes "send env wh body event d = (ok, e)"
  shows "dl_dead e = dl_dead d \<and> dl_waits e = dl_waits d \<and> (dl_posts e = dl_posts d @ [(signed_post env wh body event, ok)] \<or> dl_posts e = dl_posts d \<and> \<not> ok)"
  using assms by (auto simp: send_def Let_def split: if_splits)

lemma send_attempts_posted:
  "attempt \<le> 4 \<Longrightarrow> posted env wh body event attempt d (send_attempts env wh body event attempt d)"
proof (induction env wh body event attempt d rule: send_attempts.induct)
  case (1 env wh body event attempt d)
  show ?case
  proof (cases "attempt > 3")
    case True
    then show ?thesis by (subst send_attempts.simps) (simp add: posted_dead "1.prems")
  next
    case False
    define d0 where "d0 = meet_others env d"
    obtain allowed cb where cb: "Allow (de_now env (dl_tick d)) (dl_breaker d0) = (allowed, cb)" by fastforce
    define d1 where "d1 = d0\<lparr>dl_breaker := cb\<rparr>"
    define d2 where "d2 = (if attempt > 0 then d1\<lparr>dl_waits := dl_waits d1 @ [2 ^ (attempt - 1) * second]\<rparr> else d1)"
    obtain ok d3 where d3: "send env wh body event d2 = (ok, d3)" by fastforce
    define d4 where "d4 = meet_others env d3"
    define d5 where "d5 = d4\<lparr>dl_breaker := RecordFailure (de_now env (dl_tick d3)) (dl_breaker d4)\<rparr>"
    have eq: "send_attempts env wh body event attempt d =
        (if \<not> allowed then dead_Record env wh event body ''circuit open'' d1
         else if \<not> ok then send_attempts env wh body event (Suc attempt) d5
         else d4\<lparr>dl_breaker := RecordSuccess (dl_breaker d4)\<rparr>)"
      using False cb d3
      by (subst send_attempts.simps, cases allowed; cases ok)
        (simp_all add: Let_def d1_def d2_def d4_def d5_def split del: if_split cong: if_cong flip: d0_def)
    have fr: "dl_posts d2 = dl_posts d" "dl_dead d2 = dl_dead d" "dl_posts d1 = dl_posts d" "dl_dead d1 = dl_dead d"
      "dl_waits d1 = dl_waits d" "dl_waits d2 = dl_waits d @ (if attempt > 0 then [2 ^ (attempt - 1) * second] else [])"
      by (simp_all add: d2_def d1_def d0_def)
    note s = send_cases [OF d3]
    have fr': "dl_posts d5 = dl_posts d3" "dl_dead d5 = dl_dead d3" "dl_posts d4 = dl_posts d3" "dl_dead d4 = dl_dead d3"
      "dl_waits d5 = dl_waits d3" "dl_waits d4 = dl_waits d3"
      by (simp_all add: d5_def d4_def)
    consider (refused) "\<not> allowed" | (failed) "allowed" "\<not> ok" | (good) "allowed" "ok" by blast
    then show ?thesis
    proof cases
      case refused
      with eq fr "1.prems" show ?thesis by (simp add: posted_dead)
    next
      case failed
      have "posted env wh body event (Suc attempt) d5 (send_attempts env wh body event (Suc attempt) d5)"
        using "1.IH" [OF False d0_def cb [symmetric] _ d1_def _ d2_def d3 [symmetric] _ d4_def] failed False d5_def by simp
      then have "posted env wh body event attempt d (send_attempts env wh body event (Suc attempt) d5)"
        by (rule posted_failed) (use s fr fr' failed in auto)
      with eq failed show ?thesis by simp
    next
      case good
      with s fr fr' eq False show ?thesis unfolding posted_def
        by (intro exI [of _ "[True]"] exI [of _ "Suc attempt"]) (auto simp: backoffs_Suc [of attempt "Suc attempt"])
    qed
  qed
qed

section \<open>Properties\<close>

text \<open>
  C23. The circuit breaker does what its history says: it lets a request through unless the last five or more
  recorded results were failures, less than sixty seconds have passed since the last of them, and no probe was let
  through since then.
  (The documentation speaks of one probe in the half-open state; every request passes there until a result is recorded.)
\<close>

theorem breaker_spec:
  "fst (Allow now (cb_run es)) \<longleftrightarrow>
     consecutive (rev es) < 5 \<or> probed (rev es) \<or> now - last_failure (rev es) \<ge> 60 * second"
  using cb_run_state [of "rev es"] by (auto simp: Allow_def)

text \<open>
  C22. A delivery ends, after at most four posts, all with the same URL, body, event and signature; either the last
  of them, and no other, succeeded and nothing is buried, or none succeeded and, where dead letters are kept, exactly one is
  recorded, with the webhook, the event and the body; the pauses before the retries are one, two and four seconds. All this
  holds whatever the responses, the instants and the other deliveries to the same URL.
  (The documentation gives pauses of 2, 4 and 8 seconds.)
\<close>

theorem sendWithRetry_outcome:
  fixes env wh body event m d defines "d' \<equiv> fst (sendWithRetry env wh body event m d)"
  shows "\<exists>ps j. dl_posts d' = dl_posts d @ map (Pair (signed_post env wh body event)) ps
     \<and> dl_waits d' = dl_waits d @ take j [1 * second, 2 * second, 4 * second] \<and> length ps \<le> Suc j \<and> length ps \<le> 4
     \<and> run_result wh body event ps (dl_dead d) (dl_dead d')"
proof -
  obtain cb m1 where cb: "getCircuitBreaker (wh_URL wh) m = (cb, m1)" by fastforce
  have "posted env wh body event 0 (d\<lparr>dl_breaker := cb\<rparr>) d'"
    using send_attempts_posted [of 0 env wh body event "d\<lparr>dl_breaker := cb\<rparr>"] cb by (simp add: d'_def sendWithRetry_def Let_def)
  then obtain ps j where *: "dl_posts d' = dl_posts d @ map (Pair (signed_post env wh body event)) ps"
    "dl_waits d' = dl_waits d @ backoffs 0 j" "length ps \<le> j" "j \<le> 4" "run_result wh body event ps (dl_dead d) (dl_dead d')"
    by (auto simp: posted_def)
  then have "backoffs 0 j = take (j - 1) [1 * second, 2 * second, 4 * second]" using backoffs_take by simp
  with * show ?thesis by (intro exI [of _ ps] exI [of _ "j - 1"]) auto
qed

end
