(* ===== verification/Simrobot.thy ===== *)
theory Simrobot
  imports Registry Navigation Mall_Service
begin

text \<open>
  The simulated robot, \<^verbatim>\<open>internal/simrobot\<close>: commands, ticks with injected failures, telemetry, and the service that
  keeps the robots.

  Coordinates are finite; \<open>fl\<close> rounds the result of each floating-point operation, and \<open>parse\<close> is \<^verbatim>\<open>strconv.ParseFloat\<close> where it
  gives a finite number. The ticking goroutine of a robot is known by the context it was started with; it ticks as long as that context
  is not done.
\<close>

section \<open>State\<close>

datatype SimMode = ModeIdle | ModeNavigating | ModeArrived | ModeReturning | ModeSafeStop | ModeError | ModeStand | ModeWalk

record Position =
  po_X :: real
  po_Y :: real

definition origin :: Position where "origin = \<lparr>po_X = 0, po_Y = 0\<rparr>"

record FailureConfig =
  fc_Type :: string
  fc_AfterTicks :: int
  fc_WhenDistanceLt :: real
  fc_AfterCommand :: string
  fc_BatteryLevel :: real
  fc_SlowdownFactor :: real
  fc_DurationTicks :: int
  fc_applied :: bool

record SimState =
  si_RobotID :: string
  si_TenantID :: string
  si_RobotType :: string
  si_Capabilities :: "string list"
  si_Online :: bool
  si_Mode :: SimMode
  si_Position :: Position
  si_TargetPosition :: Position
  si_RouteNodes :: "string list"
  si_RouteIndex :: int
  si_DistanceToTarget :: real
  si_Speed :: real
  si_BatteryLevel :: real
  si_CurrentTaskID :: string
  si_CurrentScenario :: string
  si_LastCommand :: string
  si_LastSpokenText :: string
  si_TickCount :: int
  si_UpdatedAt :: time

record SimRobot =
  sr_id :: string
  sr_tenantID :: string
  sr_state :: SimState
  sr_loop :: "nat option" \<comment> \<open>the context of the ticking goroutine, \<^verbatim>\<open>nil\<close> when cancelled\<close>
  sr_running :: bool
  sr_failureConfig :: "FailureConfig option"

section \<open>Commands\<close>

definition sim_distance :: "(real \<Rightarrow> real) \<Rightarrow> Position \<Rightarrow> Position \<Rightarrow> real" where
  "sim_distance fl a b =
     (let dx = fl (po_X b - po_X a);
          dy = fl (po_Y b - po_Y a)
      in fl (sqrt (fl (fl (dx * dx) + fl (dy * dy)))))"

definition parseCoordinates :: "(string \<Rightarrow> real option) \<Rightarrow> string \<Rightarrow> (real \<times> real) option" where
  "parseCoordinates parse s =
     (let parts = str_split CHR '','' (TrimSpace s) in
      if length parts < 2 then None
      else case parse (TrimSpace (parts ! 0)) of
          None \<Rightarrow> None
        | Some x \<Rightarrow> (case parse (TrimSpace (parts ! 1)) of None \<Rightarrow> None | Some y \<Rightarrow> Some (x, y)))"

record navigateToPayload =
  nt_TargetCoordinates :: string
  nt_StoreName :: string
  nt_DestinationNodeID :: string
  nt_Route :: "string list"
  nt_EstimatedDistance :: real

definition navigateTo_zero :: navigateToPayload where
  "navigateTo_zero = \<lparr>nt_TargetCoordinates = [], nt_StoreName = [], nt_DestinationNodeID = [], nt_Route = [], nt_EstimatedDistance = 0\<rparr>"

definition navigateTo_fields :: "navigateToPayload struct_fields" where
  "navigateTo_fields =
     [(''target_coordinates'', decode_string (\<lambda>v p. p\<lparr>nt_TargetCoordinates := v\<rparr>)),
      (''store_name'', decode_string (\<lambda>v p. p\<lparr>nt_StoreName := v\<rparr>)),
      (''destination_node_id'', decode_string (\<lambda>v p. p\<lparr>nt_DestinationNodeID := v\<rparr>)),
      (''route'', decode_strings (\<lambda>v p. p\<lparr>nt_Route := v\<rparr>)),
      (''estimated_distance'', decode_float (\<lambda>v p. p\<lparr>nt_EstimatedDistance := v\<rparr>))]"

definition handleNavigateTo :: "(real \<Rightarrow> real) \<Rightarrow> (string \<Rightarrow> real option) \<Rightarrow> Command \<Rightarrow> SimState \<Rightarrow> SimState" where
  "handleNavigateTo fl parse cmd st =
     (let p = unmarshal_lenient navigateTo_fields (c_Payload cmd) navigateTo_zero in
      if nt_TargetCoordinates p = [] then st
      else case parseCoordinates parse (nt_TargetCoordinates p) of
          None \<Rightarrow> st
        | Some (tx, ty) \<Rightarrow>
            let target = \<lparr>po_X = tx, po_Y = ty\<rparr>
            in st\<lparr>si_TargetPosition := target, si_RouteNodes := nt_Route p, si_RouteIndex := 0, si_Mode := ModeNavigating,
                  si_DistanceToTarget := sim_distance fl (si_Position st) target\<rparr>)"

definition handleSafeStop :: "SimState \<Rightarrow> SimState" where
  "handleSafeStop st = st\<lparr>si_Mode := ModeSafeStop, si_TargetPosition := origin, si_RouteNodes := [], si_DistanceToTarget := 0\<rparr>"

definition handleReleaseControl :: "SimState \<Rightarrow> SimState" where
  "handleReleaseControl st = st\<lparr>si_Mode := ModeIdle, si_TargetPosition := origin, si_DistanceToTarget := 0\<rparr>"

definition travelling :: "SimMode \<Rightarrow> bool" where
  "travelling m \<longleftrightarrow> m = ModeNavigating \<or> m = ModeReturning"

definition handleWalkMode :: "SimState \<Rightarrow> SimState" where
  "handleWalkMode st = (if \<not> travelling (si_Mode st) then st\<lparr>si_Mode := ModeWalk\<rparr> else st)"

definition handleStandMode :: "SimState \<Rightarrow> SimState" where
  "handleStandMode st = (if \<not> travelling (si_Mode st) then st\<lparr>si_Mode := ModeStand\<rparr> else st)"

definition speak_fields :: "string struct_fields" where
  "speak_fields = [(''text'', decode_string (\<lambda>v p. v))]"

definition handleSpeak :: "Command \<Rightarrow> SimState \<Rightarrow> SimState" where
  "handleSpeak cmd st = st\<lparr>si_LastSpokenText := unmarshal_lenient speak_fields (c_Payload cmd) []\<rparr>"

definition HandleCommand :: "(real \<Rightarrow> real) \<Rightarrow> (string \<Rightarrow> real option) \<Rightarrow> Command option \<Rightarrow> SimRobot \<Rightarrow> SimRobot" where
  "HandleCommand fl parse command robot =
     (case command of
        None \<Rightarrow> robot
      | Some cmd \<Rightarrow>
          if c_RobotID cmd \<noteq> sr_id robot then robot
          else let st = (sr_state robot)\<lparr>si_LastCommand := c_Command cmd, si_UpdatedAt := c_Timestamp cmd\<rparr>;
                   st1 = (if c_Command cmd = ''navigate_to'' then handleNavigateTo fl parse cmd st
                          else if c_Command cmd = ''safe_stop'' then handleSafeStop st
                          else if c_Command cmd = ''release_control'' then handleReleaseControl st
                          else if c_Command cmd = ''walk_mode'' then handleWalkMode st
                          else if c_Command cmd = ''stand_mode'' then handleStandMode st
                          else if c_Command cmd = ''zero_mode'' then handleStandMode st
                          else if c_Command cmd = ''speak'' then handleSpeak cmd st
                          else if c_Command cmd = ''cmd_vel'' then st\<lparr>si_Mode := ModeWalk\<rparr>
                          else st)
               in robot\<lparr>sr_state := st1\<rparr>)"

section \<open>Ticks\<close>

definition failure_triggered :: "FailureConfig \<Rightarrow> SimState \<Rightarrow> bool" where
  "failure_triggered cfg st \<longleftrightarrow>
     fc_AfterTicks cfg > 0 \<and> si_TickCount st \<ge> fc_AfterTicks cfg
     \<or> fc_WhenDistanceLt cfg > 0 \<and> si_DistanceToTarget st > 0 \<and> si_DistanceToTarget st < fc_WhenDistanceLt cfg
     \<or> fc_AfterCommand cfg \<noteq> [] \<and> si_LastCommand st = fc_AfterCommand cfg \<and> si_TickCount st > 0"

text \<open>The slowdown: once on the speed, then counting its ticks down.\<close>

definition delayed_arrival :: "(real \<Rightarrow> real) \<Rightarrow> FailureConfig \<Rightarrow> SimRobot \<Rightarrow> SimRobot" where
  "delayed_arrival fl cfg robot =
     (let apply = \<not> fc_applied cfg \<and> fc_SlowdownFactor cfg > 0;
          st = sr_state robot;
          st1 = (if apply then st\<lparr>si_Speed := fl (si_Speed st * fc_SlowdownFactor cfg)\<rparr> else st);
          cfg1 = (if apply then cfg\<lparr>fc_applied := True\<rparr> else cfg);
          cfg2 = (if fc_DurationTicks cfg > 0 then cfg1\<lparr>fc_DurationTicks := fc_DurationTicks cfg - 1\<rparr> else cfg1)
      in robot\<lparr>sr_state := st1,
               sr_failureConfig := (if fc_DurationTicks cfg > 0 \<and> fc_DurationTicks cfg2 > 0 then Some cfg2 else None)\<rparr>)"

text \<open>Whether a failure was applied that ends the tick, and the robot.\<close>

definition applyFailure :: "(real \<Rightarrow> real) \<Rightarrow> SimRobot \<Rightarrow> bool \<times> SimRobot" where
  "applyFailure fl robot =
     (case sr_failureConfig robot of
        None \<Rightarrow> (False, robot)
      | Some cfg \<Rightarrow>
          let st = sr_state robot in
          if \<not> failure_triggered cfg st then (False, robot)
          else if fc_Type cfg = ''delayed_arrival'' then (False, delayed_arrival fl cfg robot)
          else let st1 =
                 (if fc_Type cfg = ''navigation_timeout'' then st\<lparr>si_Mode := ModeError, si_DistanceToTarget := 999\<rparr>
                  else if fc_Type cfg = ''offline_mid_route'' then st\<lparr>si_Online := False, si_Mode := ModeError\<rparr>
                  else if fc_Type cfg = ''safe_stop_mid_route'' then handleSafeStop st
                  else if fc_Type cfg = ''battery_low''
                  then st\<lparr>si_BatteryLevel := (if fc_BatteryLevel cfg > 0 then fc_BatteryLevel cfg else 5)\<rparr>
                  else if fc_Type cfg = ''command_rejected'' then st\<lparr>si_Mode := ModeError\<rparr>
                  else st)
               in (True, robot\<lparr>sr_state := st1, sr_failureConfig := None\<rparr>))"

definition buildTelemetryFromState :: "time \<Rightarrow> SimState \<Rightarrow> Telemetry" where
  "buildTelemetryFromState now st =
     \<lparr>tm_RobotID = si_RobotID st, tm_Timestamp = now, tm_Online = si_Online st,
      tm_ActuatorStatus = (if \<not> si_Online st then ''disabled'' else if si_Mode st = ModeError then ''error'' else ''enabled''),
      tm_MockMode = True, tm_IMU = None, tm_JointStates = [],
      tm_CurrentTask = (case si_Mode st of ModeStand \<Rightarrow> ''stand'' | ModeWalk \<Rightarrow> ''walk'' | ModeNavigating \<Rightarrow> ''walk''
                          | ModeReturning \<Rightarrow> ''walk'' | ModeSafeStop \<Rightarrow> ''idle'' | _ \<Rightarrow> ''idle''),
      tm_Position = show_2f (po_X (si_Position st)) @ '','' @ show_2f (po_Y (si_Position st)) @ '',0'',
      tm_TargetPosition = (if travelling (si_Mode st) \<or> si_Mode st = ModeArrived
         then show_2f (po_X (si_TargetPosition st)) @ '','' @ show_2f (po_Y (si_TargetPosition st)) @ '',0'' else []),
      tm_DistanceToTarget = Some (si_DistanceToTarget st)\<rparr>"

text \<open>The movement of one tick; the interval is half a second and the threshold of arrival half a metre.\<close>

definition sim_move :: "(real \<Rightarrow> real) \<Rightarrow> SimState \<Rightarrow> SimState" where
  "sim_move fl st =
     (let dist = sim_distance fl (si_Position st) (si_TargetPosition st);
          speed = (if si_Speed st \<le> 0 then 1 else si_Speed st);
          step0 = fl (speed * (1 / 2));
          step = (if step0 > dist then dist else step0)
      in if dist > 1 / 2
         then let dx = fl (po_X (si_TargetPosition st) - po_X (si_Position st));
                  dy = fl (po_Y (si_TargetPosition st) - po_Y (si_Position st));
                  norm = fl (sqrt (fl (fl (dx * dx) + fl (dy * dy))));
                  pos = (if norm > 0
                         then \<lparr>po_X = fl (po_X (si_Position st) + fl (fl (dx / norm) * step)),
                               po_Y = fl (po_Y (si_Position st) + fl (fl (dy / norm) * step))\<rparr>
                         else si_Position st)
              in st\<lparr>si_Position := pos, si_DistanceToTarget := sim_distance fl pos (si_TargetPosition st)\<rparr>
         else st\<lparr>si_Position := si_TargetPosition st, si_DistanceToTarget := 0, si_Mode := ModeArrived\<rparr>)"

text \<open>The robot after a tick and the telemetry it published, at the instants of the two readings of the clock.\<close>

definition Tick :: "(real \<Rightarrow> real) \<Rightarrow> time \<Rightarrow> time \<Rightarrow> SimRobot \<Rightarrow> SimRobot \<times> Telemetry" where
  "Tick fl now now' robot =
     (let st = sr_state robot;
          robot0 = robot\<lparr>sr_state := st\<lparr>si_TickCount := si_TickCount st + 1, si_UpdatedAt := now\<rparr>\<rparr>;
          (applied, robot1) = applyFailure fl robot0;
          robot2 = (if applied \<or> \<not> travelling (si_Mode (sr_state robot1)) then robot1
                    else robot1\<lparr>sr_state := sim_move fl (sr_state robot1)\<rparr>)
      in (robot2, buildTelemetryFromState now' (sr_state robot2)))"

section \<open>Robots and the service\<close>

definition RobotIDPrefix :: string where "RobotIDPrefix = ''sim-''"

record CreateRobotOpts =
  op_RobotID :: string
  op_TenantID :: string
  op_RobotType :: string

definition sim_capabilities :: "string list" where
  "sim_capabilities = [CapWalk, CapStand, CapSafeStop, CapReleaseControl, CapCmdVel, CapPatrol, CapNavigation, CapSpeech]"

definition sim_id :: "CreateRobotOpts \<Rightarrow> string" where
  "sim_id opts = (if op_RobotID opts = [] then RobotIDPrefix @ ''001'' else op_RobotID opts)"

text \<open>The entry of the registry and the robot.\<close>

definition NewSimRobot :: "time \<Rightarrow> time \<Rightarrow> CreateRobotOpts \<Rightarrow> registry \<Rightarrow> SimRobot \<times> registry" where
  "NewSimRobot now now' opts reg =
     (let robotID = sim_id opts;
          tenantID = or_default (op_TenantID opts) ''default'';
          robotType = or_default (op_RobotType opts) ''simulated'';
          robot = \<lparr>r_ID = robotID, r_Vendor = ''simulated'', r_Model = robotType, r_AdapterEndpoint = ''internal'',
                   r_TenantID = tenantID, r_EdgeID = [], r_Location = [], r_Capabilities = sim_capabilities,
                   r_CreatedAt = now, r_UpdatedAt = now\<rparr>;
          st = \<lparr>si_RobotID = robotID, si_TenantID = tenantID, si_RobotType = robotType, si_Capabilities = sim_capabilities,
                si_Online = True, si_Mode = ModeIdle, si_Position = origin, si_TargetPosition = origin, si_RouteNodes = [],
                si_RouteIndex = 0, si_DistanceToTarget = 0, si_Speed = 1, si_BatteryLevel = 100, si_CurrentTaskID = [],
                si_CurrentScenario = [], si_LastCommand = [], si_LastSpokenText = [], si_TickCount = 0, si_UpdatedAt = now\<rparr>
      in (\<lparr>sr_id = robotID, sr_tenantID = tenantID, sr_state = st, sr_loop = None, sr_running = False, sr_failureConfig = None\<rparr>,
          registry_Add now' robot reg))"

text \<open>\<open>sub_ok\<close>: the subscription to the commands succeeds.\<close>

definition robot_Start :: "bool \<Rightarrow> nat \<Rightarrow> SimRobot \<Rightarrow> bool \<times> SimRobot" where
  "robot_Start sub_ok ctx r =
     (if sr_running r then (True, r)
      else if \<not> sub_ok then (False, r)
      else (True, r\<lparr>sr_running := True, sr_loop := Some ctx\<rparr>))"

definition robot_Stop :: "SimRobot \<Rightarrow> SimRobot" where
  "robot_Stop r = (if \<not> sr_running r then r else r\<lparr>sr_loop := None, sr_running := False\<rparr>)"

definition robot_Reset :: "time \<Rightarrow> SimRobot \<Rightarrow> SimRobot" where
  "robot_Reset now r = r\<lparr>sr_state := (sr_state r)\<lparr>si_Mode := ModeIdle, si_Position := origin, si_TargetPosition := origin,
     si_RouteNodes := [], si_RouteIndex := 0, si_DistanceToTarget := 0, si_Online := True, si_CurrentTaskID := [],
     si_CurrentScenario := [], si_LastCommand := [], si_TickCount := 0, si_UpdatedAt := now\<rparr>, sr_failureConfig := None\<rparr>"

definition SetFailureConfig :: "FailureConfig option \<Rightarrow> SimRobot \<Rightarrow> SimRobot" where
  "SetFailureConfig cfg r = r\<lparr>sr_failureConfig := cfg\<rparr>"

text \<open>The goroutine gets its tick only while its context lives.\<close>

definition ticking :: "(nat \<Rightarrow> bool) \<Rightarrow> SimRobot \<Rightarrow> bool" where
  "ticking alive r \<longleftrightarrow> (case sr_loop r of None \<Rightarrow> False | Some ctx \<Rightarrow> alive ctx)"

type_synonym sim_service = "SimRobot gomap"

datatype sim_error = SimExists | SimNotFound | SimSubscribe

definition CreateRobot_sim :: "time \<Rightarrow> time \<Rightarrow> CreateRobotOpts \<Rightarrow> sim_service \<Rightarrow> registry \<Rightarrow> sim_error + SimRobot \<times> sim_service \<times> registry" where
  "CreateRobot_sim now now' opts s reg =
     (case s (sim_id opts) of
        Some _ \<Rightarrow> Inl SimExists
      | None \<Rightarrow> let (robot, reg1) = NewSimRobot now now' opts reg in Inr (robot, s(sim_id opts \<mapsto> robot), reg1))"

definition with_robot :: "string \<Rightarrow> (SimRobot \<Rightarrow> SimRobot) \<Rightarrow> sim_service \<Rightarrow> sim_error + sim_service" where
  "with_robot i f s = (case s i of None \<Rightarrow> Inl SimNotFound | Some r \<Rightarrow> Inr (s(i \<mapsto> f r)))"

definition sim_Start :: "bool \<Rightarrow> nat \<Rightarrow> string \<Rightarrow> sim_service \<Rightarrow> sim_error + sim_service" where
  "sim_Start sub_ok ctx i s =
     (case s i of None \<Rightarrow> Inl SimNotFound
      | Some r \<Rightarrow> (case robot_Start sub_ok ctx r of (ok, r1) \<Rightarrow> if ok then Inr (s(i \<mapsto> r1)) else Inl SimSubscribe))"

definition sim_Stop :: "string \<Rightarrow> sim_service \<Rightarrow> sim_error + sim_service" where
  "sim_Stop i s = with_robot i robot_Stop s"

definition sim_Reset :: "time \<Rightarrow> string \<Rightarrow> sim_service \<Rightarrow> sim_error + sim_service" where
  "sim_Reset now i s = with_robot i (robot_Reset now) s"

definition InjectFailure :: "string \<Rightarrow> FailureConfig option \<Rightarrow> sim_service \<Rightarrow> sim_error + sim_service" where
  "InjectFailure i cfg s = with_robot i (SetFailureConfig cfg) s"

definition sim_GetState :: "string \<Rightarrow> sim_service \<Rightarrow> sim_error + SimState" where
  "sim_GetState i s = (case s i of None \<Rightarrow> Inl SimNotFound | Some r \<Rightarrow> Inr (sr_state r))"

section \<open>Coordinates there and back\<close>

text \<open>
  The value of a plain decimal: a sign, digits, and perhaps a point and digits. On these \<^verbatim>\<open>strconv.ParseFloat\<close> gives the nearest number of
  its type.
\<close>

definition decimal :: "string \<Rightarrow> real option" where
  "decimal s =
     (let neg = (s \<noteq> [] \<and> hd s = CHR ''-'');
          body = (if s \<noteq> [] \<and> (hd s = CHR ''-'' \<or> hd s = CHR ''+'') then tl s else s);
          ip = takeWhile is_digit body;
          v = (case dropWhile is_digit body of
                 [] \<Rightarrow> if ip = [] then None else Some (of_int (digits_value ip))
               | c # fp \<Rightarrow> if c = CHR ''.'' \<and> list_all is_digit fp \<and> (ip \<noteq> [] \<or> fp \<noteq> [])
                   then Some (of_int (digits_value ip) + of_int (digits_value fp) / 10 ^ length fp) else None)
      in map_option (\<lambda>x. if neg then - x else x) v)"

definition parses_decimals :: "(real \<Rightarrow> real) \<Rightarrow> (string \<Rightarrow> real option) \<Rightarrow> bool" where
  "parses_decimals fl parse \<longleftrightarrow> (\<forall>s v. decimal s = Some v \<longrightarrow> parse s = Some (fl v))"

lemma show_nat_digits: "list_all is_digit (show_nat n) \<and> show_nat n \<noteq> [] \<and> digits_value (show_nat n) = int n
    \<and> list_all (\<lambda>c. \<not> is_space c) (show_nat n)"
proof (induction n rule: show_nat.induct)
  case (1 n)
  show ?case
  proof (cases "n < 10")
    case True
    with digit_char [OF True] digit_char_int [OF True] show ?thesis by (simp add: show_nat.simps [of n] digits_value_def)
  next
    case False
    have "n mod 10 < 10" by simp
    note d = digit_char [OF this] digit_char_int [OF this]
    have eq: "show_nat n = show_nat (n div 10) @ [char_of (48 + n mod 10)]" using False by (simp add: show_nat.simps [of n])
    have "int n = 10 * int (n div 10) + int (n mod 10)" using mult_div_mod_eq [of 10 n] by linarith
    with d "1.IH" [OF False] show ?thesis unfolding eq by (simp add: digits_value_snoc)
  qed
qed

definition rounded_2 :: "real \<Rightarrow> real" where
  "rounded_2 x = (if x < 0 then - 1 else 1) * of_int (round_even (\<bar>x\<bar> * 100)) / 100"

lemma round_even_near: "\<bar>of_int (round_even x) - x\<bar> \<le> 1 / 2"
proof -
  have "of_int \<lfloor>x\<rfloor> \<le> x" "x < of_int \<lfloor>x\<rfloor> + 1" by linarith+
  then show ?thesis by (auto simp: round_even_def Let_def abs_le_iff)
qed

lemma rounded_2_near: "\<bar>rounded_2 x - x\<bar> \<le> 1 / 200"
  using round_even_near [of "\<bar>x\<bar> * 100"] by (auto simp: rounded_2_def abs_le_iff abs_if split: if_splits)

lemma show_2f_decimal: "decimal (show_2f x) = Some (rounded_2 x)"
proof -
  define c where "c = nat (round_even (\<bar>x\<bar> * 100))"
  have c: "int c = round_even (\<bar>x\<bar> * 100)"
  proof -
    have "0 \<le> \<lfloor>\<bar>x\<bar> * 100\<rfloor>" by simp
    then have "0 \<le> round_even (\<bar>x\<bar> * 100)" unfolding round_even_def Let_def by auto
    then show ?thesis by (simp add: c_def)
  qed
  define d1 where "d1 = (char_of (48 + c div 10 mod 10) :: char)"
  define d2 where "d2 = (char_of (48 + c mod 10) :: char)"
  have k: "c div 10 mod 10 < 10" "c mod 10 < 10" by simp_all
  note d = digit_char [OF k(1), folded d1_def] digit_char [OF k(2), folded d2_def]
  let ?body = "show_nat (c div 100) @ CHR ''.'' # [d1, d2]"
  have s: "show_2f x = (if x < 0 then ''-'' else []) @ ?body" by (simp add: show_2f_def c_def d1_def d2_def Let_def)
  note n = show_nat_digits [of "c div 100"]
  have "\<not> is_digit CHR ''.''" by (simp add: is_digit_def)
  with n have tw: "takeWhile is_digit ?body = show_nat (c div 100)" "dropWhile is_digit ?body = CHR ''.'' # [d1, d2]"
    by (auto simp: list_all_iff)
  have hd: "?body \<noteq> []" "hd ?body \<noteq> CHR ''-''" "hd ?body \<noteq> CHR ''+''"
    using n by (cases "show_nat (c div 100)"; auto simp: is_digit_def)+
  have "digits_value [d1, d2] = int (10 * (c div 10 mod 10) + c mod 10)"
    using digit_char_int [OF k(1)] digit_char_int [OF k(2)] by (simp add: digits_value_def d1_def d2_def)
  moreover have "c = 100 * (c div 100) + (10 * (c div 10 mod 10) + c mod 10)"
  proof -
    have "10 * (c div 100) + c div 10 mod 10 = c div 10"
      using mult_div_mod_eq [of 10 "c div 10"] by (simp add: div_mult2_eq [symmetric])
    with mult_div_mod_eq [of 10 c] show ?thesis by linarith
  qed
  then have "int c = 100 * int (c div 100) + int (10 * (c div 10 mod 10) + c mod 10)" by linarith
  ultimately have "int c = 100 * digits_value (show_nat (c div 100)) + digits_value [d1, d2]" using n by simp
  then have v: "of_int (digits_value (show_nat (c div 100))) + of_int (digits_value [d1, d2]) / (100 :: real) = of_int (int c) / 100"
    by simp
  show ?thesis
  proof (cases "x < 0")
    case True
    with s have "show_2f x = CHR ''-'' # ?body" by simp
    with tw c True v d n show ?thesis by (simp add: decimal_def rounded_2_def Let_def power2_eq_square)
  next
    case False
    with s have "show_2f x = ?body" by simp
    with tw c False hd v d n show ?thesis by (simp add: decimal_def rounded_2_def Let_def power2_eq_square)
  qed
qed

lemma show_2f_chars: "list_all (\<lambda>c. \<not> is_space c) (show_2f x)" "CHR '','' \<notin> set (show_2f x)"
proof -
  define c where "c = nat (round_even (\<bar>x\<bar> * 100))"
  have k: "c div 10 mod 10 < 10" "c mod 10 < 10" by simp_all
  note d = digit_char [OF k(1)] digit_char [OF k(2)]
  have s: "set (show_2f x) \<subseteq> {CHR ''-'', CHR ''.''} \<union> {ch. is_digit ch \<and> \<not> is_space ch}"
    using show_nat_digits [of "c div 100"] d by (auto simp: show_2f_def Let_def list_all_iff simp flip: c_def)
  have "\<not> is_space CHR ''-''" "\<not> is_space CHR ''.''" "\<not> is_digit CHR '',''" by (simp_all add: is_space_def is_digit_def)
  with s show "list_all (\<lambda>c. \<not> is_space c) (show_2f x)" "CHR '','' \<notin> set (show_2f x)" by (auto simp: list_all_iff)
qed

section \<open>Histories\<close>

datatype sim_op = SimTick time time | SimCommand "Command option" | SimInject "FailureConfig option"

fun sim_step :: "(real \<Rightarrow> real) \<Rightarrow> (string \<Rightarrow> real option) \<Rightarrow> sim_op \<Rightarrow> SimRobot \<Rightarrow> SimRobot" where
  "sim_step fl parse (SimTick now now') r = fst (Tick fl now now' r)"
| "sim_step fl parse (SimCommand cmd) r = HandleCommand fl parse cmd r"
| "sim_step fl parse (SimInject cfg) r = SetFailureConfig cfg r"

fun is_navigate :: "sim_op \<Rightarrow> bool" where
  "is_navigate (SimCommand (Some cmd)) = (c_Command cmd = ''navigate_to'')"
| "is_navigate _ = False"

definition sim_still :: "Position \<Rightarrow> SimRobot \<Rightarrow> bool" where
  "sim_still p r \<longleftrightarrow> si_Position (sr_state r) = p \<and> \<not> travelling (si_Mode (sr_state r))"

lemma applyFailure_still:
  assumes "applyFailure fl r = (b, r')" "sim_still p r"
  shows "sim_still p r'"
proof (cases "sr_failureConfig r")
  case None
  with assms show ?thesis by (simp add: applyFailure_def)
next
  case (Some cfg)
  consider (keep) "r' = r" | (slow) "r' = delayed_arrival fl cfg r"
    | (fail) "\<not> travelling (si_Mode (sr_state r'))" "si_Position (sr_state r') = si_Position (sr_state r)"
    using assms Some unfolding applyFailure_def sim_still_def
    by (auto simp: Let_def handleSafeStop_def travelling_def split: if_splits)
  then show ?thesis
    by cases (use assms(2) in \<open>simp_all add: sim_still_def delayed_arrival_def Let_def\<close>)
qed

lemma Tick_still:
  assumes "sim_still p r"
  shows "sim_still p (fst (Tick fl now now' r))"
proof -
  let ?r0 = "r\<lparr>sr_state := (sr_state r)\<lparr>si_TickCount := si_TickCount (sr_state r) + 1, si_UpdatedAt := now\<rparr>\<rparr>"
  obtain b r1 where f: "applyFailure fl ?r0 = (b, r1)" by fastforce
  have "sim_still p ?r0" using assms by (simp add: sim_still_def)
  from applyFailure_still [OF f this] have "sim_still p r1" .
  with f show ?thesis by (simp add: Tick_def Let_def) (simp add: sim_still_def)
qed

lemma HandleCommand_still:
  assumes "sim_still p r" "\<not> is_navigate (SimCommand cmd)"
  shows "sim_still p (HandleCommand fl parse cmd r)"
proof (cases cmd)
  case None
  with assms(1) show ?thesis by (simp add: HandleCommand_def)
next
  case (Some c)
  with assms show ?thesis
    by (auto simp: HandleCommand_def Let_def sim_still_def handleSafeStop_def handleReleaseControl_def handleWalkMode_def
        handleStandMode_def handleSpeak_def travelling_def)
qed

lemma sim_step_still: "sim_still p r \<Longrightarrow> \<not> is_navigate x \<Longrightarrow> sim_still p (sim_step fl parse x r)"
  by (cases x) (simp_all add: Tick_still HandleCommand_still del: is_navigate.simps, simp add: SetFailureConfig_def sim_still_def)

lemma sim_run_still:
  "sim_still p r \<Longrightarrow> list_all (\<lambda>x. \<not> is_navigate x) xs \<Longrightarrow> sim_still p (fold (sim_step fl parse) xs r)"
  by (induction xs arbitrary: r) (simp_all add: sim_step_still)

section \<open>Arrival\<close>

text \<open>A tick without an injected failure.\<close>

lemma Tick_plain:
  fixes now
  assumes "sr_failureConfig r = None"
  defines "st \<equiv> (sr_state r)\<lparr>si_TickCount := si_TickCount (sr_state r) + 1, si_UpdatedAt := now\<rparr>"
  shows "fst (Tick fl now now' r) = r\<lparr>sr_state := (if travelling (si_Mode st) then sim_move fl st else st)\<rparr>"
  using assms(1) by (simp add: Tick_def applyFailure_def Let_def st_def)

lemma exact_distance: "sim_distance (\<lambda>x. x) a b = sqrt ((po_X b - po_X a)\<^sup>2 + (po_Y b - po_Y a)\<^sup>2)"
  by (simp add: sim_distance_def Let_def power2_eq_square)

lemma scaled_distance:
  assumes "0 < n" "n = sqrt (dx\<^sup>2 + dy\<^sup>2)" "0 \<le> k" "k \<le> n"
  shows "sqrt ((dx - dx / n * k)\<^sup>2 + (dy - dy / n * k)\<^sup>2) = n - k"
proof -
  have n2: "n\<^sup>2 = dx\<^sup>2 + dy\<^sup>2" using assms(2) by simp
  have "(dx - dx / n * k)\<^sup>2 + (dy - dy / n * k)\<^sup>2 = (1 - k / n)\<^sup>2 * (dx\<^sup>2 + dy\<^sup>2)"
    by (simp add: power2_eq_square algebra_simps add_divide_distrib)
  also have "\<dots> = ((1 - k / n) * n)\<^sup>2" by (simp add: power_mult_distrib n2)
  also have "(1 - k / n) * n = n - k" using assms(1) by (simp add: field_simps)
  finally show ?thesis using assms(4) by simp
qed

lemma sim_move_exact:
  assumes "0 < si_Speed st"
  defines "d \<equiv> sim_distance (\<lambda>x. x) (si_Position st) (si_TargetPosition st)"
  shows "d \<le> 1 / 2 \<Longrightarrow> sim_move (\<lambda>x. x) st = st\<lparr>si_Position := si_TargetPosition st, si_DistanceToTarget := 0, si_Mode := ModeArrived\<rparr>"
    and "1 / 2 < d \<Longrightarrow> \<exists>pos. sim_move (\<lambda>x. x) st = st\<lparr>si_Position := pos, si_DistanceToTarget := d - min (si_Speed st / 2) d\<rparr>
      \<and> sim_distance (\<lambda>x. x) pos (si_TargetPosition st) = d - min (si_Speed st / 2) d"
proof -
  show "d \<le> 1 / 2 \<Longrightarrow> sim_move (\<lambda>x. x) st = st\<lparr>si_Position := si_TargetPosition st, si_DistanceToTarget := 0, si_Mode := ModeArrived\<rparr>"
    by (simp add: sim_move_def Let_def d_def)
next
  assume far: "1 / 2 < d"
  define dx where "dx = po_X (si_TargetPosition st) - po_X (si_Position st)"
  define dy where "dy = po_Y (si_TargetPosition st) - po_Y (si_Position st)"
  define k where "k = min (si_Speed st / 2) d"
  have dn: "d = sqrt (dx\<^sup>2 + dy\<^sup>2)" by (simp add: d_def exact_distance dx_def dy_def)
  define pos where "pos = \<lparr>po_X = po_X (si_Position st) + dx / d * k, po_Y = po_Y (si_Position st) + dy / d * k\<rparr>"
  have "sim_distance (\<lambda>x. x) pos (si_TargetPosition st) = sqrt ((dx - dx / d * k)\<^sup>2 + (dy - dy / d * k)\<^sup>2)"
    by (simp add: exact_distance pos_def dx_def dy_def algebra_simps)
  also have "\<dots> = d - k"
    by (rule scaled_distance [OF _ dn]) (use far assms(1) in \<open>auto simp: k_def\<close>)
  finally have e: "sim_distance (\<lambda>x. x) pos (si_TargetPosition st) = d - k" .
  have k: "(if si_Speed st / 2 > d then d else si_Speed st / 2) = k" by (simp add: k_def min_def)
  have n: "sqrt (dx * dx + dy * dy) = d" by (simp add: dn power2_eq_square)
  have "0 < sqrt (dx * dx + dy * dy)" using far n by simp
  then have p: "0 < dx * dx + dy * dy" by simp
  have "sim_move (\<lambda>x. x) st = st\<lparr>si_Position := pos, si_DistanceToTarget := sim_distance (\<lambda>x. x) pos (si_TargetPosition st)\<rparr>"
    using far assms(1) k n p by (simp add: sim_move_def Let_def pos_def flip: d_def dx_def dy_def)
  with e show "\<exists>pos. sim_move (\<lambda>x. x) st = st\<lparr>si_Position := pos, si_DistanceToTarget := d - min (si_Speed st / 2) d\<rparr>
      \<and> sim_distance (\<lambda>x. x) pos (si_TargetPosition st) = d - min (si_Speed st / 2) d"
    by (intro exI [of _ pos]) (simp add: k_def)
qed

text \<open>A number of ticks, each with the instants it reads.\<close>

definition ticks :: "(real \<Rightarrow> real) \<Rightarrow> (time \<times> time) list \<Rightarrow> SimRobot \<Rightarrow> SimRobot" where
  "ticks fl = fold (\<lambda>(now, now') r. fst (Tick fl now now' r))"

definition arrived :: "Position \<Rightarrow> SimRobot \<Rightarrow> bool" where
  "arrived target r \<longleftrightarrow> sr_failureConfig r = None \<and> si_Mode (sr_state r) = ModeArrived
     \<and> si_Position (sr_state r) = target \<and> si_TargetPosition (sr_state r) = target \<and> si_DistanceToTarget (sr_state r) = 0"

lemma Tick_arrived: "arrived target r \<Longrightarrow> arrived target (fst (Tick fl now now' r))"
  using Tick_plain [of r fl now now'] by (simp add: arrived_def travelling_def)

lemma ticks_arrived: "arrived target r \<Longrightarrow> arrived target (ticks fl is r)"
  unfolding ticks_def by (induction "is" arbitrary: r) (simp_all add: Tick_arrived split: prod.split)

lemma ticks_exact:
  assumes "sr_failureConfig r = None" "travelling (si_Mode (sr_state r))" "0 < si_Speed (sr_state r)"
    and "sim_distance (\<lambda>x. x) (si_Position (sr_state r)) (si_TargetPosition (sr_state r)) \<le> 1 / 2 + si_Speed (sr_state r) / 2 * real m"
    and "m < length is"
  shows "arrived (si_TargetPosition (sr_state r)) (ticks (\<lambda>x. x) is r)"
  using assms
proof (induction "is" arbitrary: r m)
  case (Cons i "is")
  obtain now now' where i: "i = (now, now')" by fastforce
  define st where "st = (sr_state r)\<lparr>si_TickCount := si_TickCount (sr_state r) + 1, si_UpdatedAt := now\<rparr>"
  define r1 where "r1 = fst (Tick (\<lambda>x. x) now now' r)"
  have r1: "r1 = r\<lparr>sr_state := sim_move (\<lambda>x. x) st\<rparr>"
    using Cons.prems(1,2) by (simp add: r1_def Tick_plain st_def)
  have t: "ticks (\<lambda>x. x) (i # is) r = ticks (\<lambda>x. x) is r1" by (simp add: ticks_def i r1_def)
  have f: "si_Speed st = si_Speed (sr_state r)" "si_TargetPosition st = si_TargetPosition (sr_state r)"
    "si_Position st = si_Position (sr_state r)" "si_Mode st = si_Mode (sr_state r)" by (simp_all add: st_def)
  let ?d = "sim_distance (\<lambda>x. x) (si_Position st) (si_TargetPosition st)"
  show ?case
  proof (cases "?d \<le> 1 / 2")
    case True
    then have "sim_move (\<lambda>x. x) st = st\<lparr>si_Position := si_TargetPosition st, si_DistanceToTarget := 0, si_Mode := ModeArrived\<rparr>"
      using sim_move_exact(1) [of st] Cons.prems(3) f by simp
    then have "arrived (si_TargetPosition (sr_state r)) r1" using Cons.prems(1) f by (simp add: arrived_def r1)
    then show ?thesis unfolding t by (rule ticks_arrived)
  next
    case False
    then obtain pos where m: "sim_move (\<lambda>x. x) st = st\<lparr>si_Position := pos, si_DistanceToTarget := ?d - min (si_Speed st / 2) ?d\<rparr>"
      and d: "sim_distance (\<lambda>x. x) pos (si_TargetPosition st) = ?d - min (si_Speed st / 2) ?d"
      using sim_move_exact(2) [of st] Cons.prems(3) f by auto
    obtain k where k: "m = Suc k" using Cons.prems(4) False f by (cases m) auto
    have le: "?d - min (si_Speed st / 2) ?d \<le> 1 / 2 + si_Speed st / 2 * real k"
      using Cons.prems(3,4) unfolding k f [symmetric] by (auto simp: min_def algebra_simps add_divide_distrib)
    have "arrived (si_TargetPosition (sr_state r1)) (ticks (\<lambda>x. x) is r1)"
      by (rule Cons.IH [of r1 k]) (use Cons.prems f le d in \<open>simp_all add: r1 m k\<close>)
    then show ?thesis unfolding t by (simp add: r1 m f)
  qed
qed simp

section \<open>Properties\<close>

text \<open>A simulated robot as it is created, and its commands.\<close>

definition sim_example :: SimRobot where
  "sim_example = fst (NewSimRobot 1 1 \<lparr>op_RobotID = [], op_TenantID = [], op_RobotType = []\<rparr> Map.empty)"

lemma sim_example_state [simp]:
  "sr_id sim_example = ''sim-001''" "sr_failureConfig sim_example = None" "si_Speed (sr_state sim_example) = 1"
  "si_Position (sr_state sim_example) = origin" "si_Online (sr_state sim_example)"
  by (simp_all add: sim_example_def NewSimRobot_def Let_def sim_id_def RobotIDPrefix_def)

definition sim_command :: "string \<Rightarrow> raw_message \<Rightarrow> Command" where
  "sim_command c payload = \<lparr>c_RobotID = ''sim-001'', c_Command = c, c_Payload = payload, c_Timestamp = 2, c_OperatorID = []\<rparr>"

definition go_to_3_4 :: Command where
  "go_to_3_4 = sim_command ''navigate_to'' (RawJson (JObj [(''target_coordinates'', JStr ''3,4,0'')]))"

definition sim_on_its_way :: SimRobot where
  "sim_on_its_way = HandleCommand (\<lambda>x. x) decimal (Some go_to_3_4) sim_example"

text \<open>
  A simulated robot that does not travel stays where it is, whatever is sent to it and whatever failures are injected, until it is
  sent \<^verbatim>\<open>navigate_to\<close>; in particular after \<^verbatim>\<open>safe_stop\<close>, whatever it was doing. This does not depend on the rounding of numbers.
\<close>

theorem stopped_robot_stays:
  fixes fl parse
  assumes "c_RobotID cmd = sr_id r" "c_Command cmd = ''safe_stop''" "list_all (\<lambda>x. \<not> is_navigate x) xs"
  defines "r' \<equiv> fold (sim_step fl parse) xs (HandleCommand fl parse (Some cmd) r)"
  shows "si_Position (sr_state r') = si_Position (sr_state r) \<and> \<not> travelling (si_Mode (sr_state r'))"
proof -
  have "sim_still (si_Position (sr_state r)) (HandleCommand fl parse (Some cmd) r)"
    using assms(1,2) by (simp add: HandleCommand_def Let_def handleSafeStop_def sim_still_def travelling_def)
  from sim_run_still [OF this assms(3)] show ?thesis by (simp add: r'_def sim_still_def)
qed

theorem stopped_robot_stays_witness:
  "si_Position (sr_state (fold (sim_step (\<lambda>x. x) decimal) [SimTick 3 3, SimCommand (Some (sim_command ''walk_mode'' RawEmpty)), SimTick 4 4]
      (HandleCommand (\<lambda>x. x) decimal (Some (sim_command ''safe_stop'' RawEmpty)) sim_on_its_way))) = origin"
proof -
  have "si_Position (sr_state sim_on_its_way) = origin" "sr_id sim_on_its_way = ''sim-001''"
    by (simp_all add: sim_on_its_way_def HandleCommand_def Let_def handleNavigateTo_def go_to_3_4_def sim_command_def split: option.split)
  with stopped_robot_stays [of "sim_command ''safe_stop'' RawEmpty" sim_on_its_way
      "[SimTick 3 3, SimCommand (Some (sim_command ''walk_mode'' RawEmpty)), SimTick 4 4]" "\<lambda>x. x" decimal]
  show ?thesis by (simp add: sim_command_def)
qed

text \<open>
  C25. A travelling robot arrives: in exact arithmetic and without an injected failure, from a distance of at most half a metre more than
  what it covers in \<open>m\<close> ticks, it stands exactly on its target, in the mode of arrival, after \<open>m + 1\<close> ticks or more.
\<close>

theorem sim_arrives:
  assumes "sr_failureConfig r = None" "travelling (si_Mode (sr_state r))" "0 < si_Speed (sr_state r)"
    and "sim_distance (\<lambda>x. x) (si_Position (sr_state r)) (si_TargetPosition (sr_state r)) \<le> 1 / 2 + si_Speed (sr_state r) / 2 * real m"
    and "m < length is"
  shows "si_Position (sr_state (ticks (\<lambda>x. x) is r)) = si_TargetPosition (sr_state r)
    \<and> si_Mode (sr_state (ticks (\<lambda>x. x) is r)) = ModeArrived"
  using ticks_exact [OF assms] by (simp add: arrived_def)

lemma sim_on_its_way_state:
  "sr_failureConfig sim_on_its_way = None" "si_Mode (sr_state sim_on_its_way) = ModeNavigating" "si_Speed (sr_state sim_on_its_way) = 1"
  "si_Position (sr_state sim_on_its_way) = origin" "si_TargetPosition (sr_state sim_on_its_way) = \<lparr>po_X = 3, po_Y = 4\<rparr>"
proof -
  have "unmarshal_lenient navigateTo_fields (c_Payload go_to_3_4) navigateTo_zero = navigateTo_zero\<lparr>nt_TargetCoordinates := ''3,4,0''\<rparr>"
    by (simp add: go_to_3_4_def sim_command_def unmarshal_lenient_def navigateTo_fields_def find_field_def)
  moreover have "TrimSpace ''3,4,0'' = ''3,4,0''" "TrimSpace ''3'' = ''3''" "TrimSpace ''4'' = ''4''" by (rule TrimSpace_id, simp add: is_space_def)+
  then have "parseCoordinates decimal ''3,4,0'' = Some (3, 4)"
    by (simp add: parseCoordinates_def) (simp add: decimal_def is_digit_def digits_value_def)
  ultimately show "sr_failureConfig sim_on_its_way = None" "si_Mode (sr_state sim_on_its_way) = ModeNavigating"
    "si_Speed (sr_state sim_on_its_way) = 1" "si_Position (sr_state sim_on_its_way) = origin"
    "si_TargetPosition (sr_state sim_on_its_way) = \<lparr>po_X = 3, po_Y = 4\<rparr>"
    by (simp_all add: sim_on_its_way_def HandleCommand_def Let_def handleNavigateTo_def navigateTo_zero_def,
        simp_all add: go_to_3_4_def sim_command_def)
qed

theorem sim_arrives_witness:
  "si_Position (sr_state (ticks (\<lambda>x. x) (replicate 10 (5, 5)) sim_on_its_way)) = \<lparr>po_X = 3, po_Y = 4\<rparr>"
proof -
  have d: "sim_distance (\<lambda>x. x) origin \<lparr>po_X = 3, po_Y = 4\<rparr> = 5" by (simp add: exact_distance origin_def real_sqrt_unique)
  from sim_arrives [of sim_on_its_way 9 "replicate 10 (5, 5)"] d show ?thesis
    by (simp add: sim_on_its_way_state travelling_def)
qed

text \<open>
  A stopped robot is taken for one that has arrived: after \<^verbatim>\<open>safe_stop\<close> the next telemetry of an online simulated robot says that it is at
  distance zero from its target, and a navigation that receives it reports success, wherever the robot is.
\<close>

theorem safe_stop_reads_as_arrival:
  fixes fl parse now now'
  assumes "c_RobotID cmd = sr_id r" "c_Command cmd = ''safe_stop''" "si_Online (sr_state r)" "sr_failureConfig r = None" "0 < threshold"
  defines "t \<equiv> snd (Tick fl now now' (HandleCommand fl parse (Some cmd) r))"
  shows "nav_loop threshold deadline [NavTelemetry t, NavDone] (nav_zero, False) = Some (nav_zero\<lparr>nv_Success := True\<rparr>)"
  using assms(1-5)
  by (simp add: t_def HandleCommand_def Let_def handleSafeStop_def Tick_def applyFailure_def travelling_def
      buildTelemetryFromState_def nav_callback_def nav_decided_def nav_zero_def)

theorem safe_stop_reads_as_arrival_witness:
  "nav_loop 1 100 [NavTelemetry (snd (Tick (\<lambda>x. x) 3 3
      (HandleCommand (\<lambda>x. x) decimal (Some (sim_command ''safe_stop'' RawEmpty)) sim_on_its_way))), NavDone] (nav_zero, False) =
     Some (nav_zero\<lparr>nv_Success := True\<rparr>)"
proof (rule safe_stop_reads_as_arrival)
  show "c_RobotID (sim_command ''safe_stop'' RawEmpty) = sr_id sim_on_its_way" "si_Online (sr_state sim_on_its_way)"
    by (simp_all add: sim_on_its_way_def HandleCommand_def Let_def handleNavigateTo_def go_to_3_4_def sim_command_def split: option.split)
qed (simp_all add: sim_command_def sim_on_its_way_state)

text \<open>
  C24. Coordinates survive the way from the mall map to the robot: what the platform writes for a point, a robot reads as the point rounded to
  centimetres in each direction (up to the rounding of the number type), so within half a centimetre of it.
\<close>

theorem coordinates_roundtrip:
  assumes "parses_decimals fl parse"
  shows "parseCoordinates parse (Coordinates_String c) = Some (fl (rounded_2 (co_X c)), fl (rounded_2 (co_Y c)))
    \<and> \<bar>rounded_2 (co_X c) - co_X c\<bar> \<le> 1 / 200 \<and> \<bar>rounded_2 (co_Y c) - co_Y c\<bar> \<le> 1 / 200"
proof -
  have "list_all (\<lambda>ch. \<not> is_space ch) (Coordinates_String c)"
    using show_2f_chars(1) [of "co_X c"] show_2f_chars(1) [of "co_Y c"]
    by (simp add: Coordinates_String_def is_space_def)
  then have "TrimSpace (Coordinates_String c) = Coordinates_String c" by (rule TrimSpace_id)
  moreover have "str_split CHR '','' (Coordinates_String c) = [show_2f (co_X c), show_2f (co_Y c), ''0'']"
    using str_split_append [OF show_2f_chars(2) [of "co_X c"]] str_split_append [OF show_2f_chars(2) [of "co_Y c"]]
    by (simp add: Coordinates_String_def)
  ultimately show ?thesis
    using assms show_2f_decimal TrimSpace_id [OF show_2f_chars(1)] rounded_2_near [of "co_X c"] rounded_2_near [of "co_Y c"]
    by (simp add: parseCoordinates_def parses_decimals_def)
qed

theorem coordinates_roundtrip_witness:
  "parseCoordinates decimal (Coordinates_String \<lparr>co_X = 3 / 2, co_Y = 0\<rparr>) = Some (rounded_2 (3 / 2), rounded_2 0)"
  using coordinates_roundtrip [of "\<lambda>x. x" decimal "\<lparr>co_X = 3 / 2, co_Y = 0\<rparr>"] by (simp add: parses_decimals_def)

end
