(* ===== verification/Api_Server.thy ===== *)
theory Api_Server
  imports Auth Api_Keys Mall_Assistant Conversations Registry Tenants Edges Idempotency Coordinator Scenarios Robot_Engine Orchestration Webhooks Simrobot
begin

text \<open>
  The API server, \<^verbatim>\<open>pkg/control-plane/api/server.go\<close>: its state, requests and replies, the tenant a
  request may act for, and the audit entries the handlers share. The handlers are in the theories
  \<open>Api_Fleet\<close>, \<open>Api_Command\<close>, \<open>Api_Tasks\<close>, \<open>Api_Workflows\<close>, \<open>Api_Sim\<close>, \<open>Api_Auth\<close>, \<open>Api_Mall\<close> and \<open>Api_Conversations\<close>.

  A handler is a function from a request and the server to a reply and the server: it runs to its
  end without interleaving. Stores are the in-memory ones, which return no error; an optional
  store is an \<open>option\<close>. A JSON body is the first value of the stream (\<^verbatim>\<open>json.NewDecoder(r.Body).Decode\<close>).
  What a handler draws from outside (instants, UUIDs, the order of ranging over a map, whether the bus
  takes a message) is in the record \<open>api_env\<close>, numbered in the order of the calls.
\<close>

record request =
  rq_claims :: "Claims option"
  rq_unsafe :: bool \<comment> \<open>\<^verbatim>\<open>ALLOW_UNSAFE_NO_AUTH\<close>\<close>
  rq_var :: "string \<Rightarrow> string" \<comment> \<open>\<^verbatim>\<open>mux.Vars\<close>\<close>
  rq_query :: "string \<Rightarrow> string"
  rq_header :: "string \<Rightarrow> string"
  rq_body :: raw_message

datatype payload =
    PRobot Robot
  | PRobots "Robot list"
  | PState RobotStateResponse
  | PTenant Tenant
  | PTenants "Tenant list"
  | PTask Task
  | PTasks "Task list"
  | PAudit "Entry list"
  | PScenario Scenario
  | PScenarios "Scenario list"
  | PZone ZoneStatus
  | PZones "ZoneStatus list"
  | PEdge Edge
  | PEdges "Edge list"
  | PPending "Command list"
  | PMe "string list" string
  | PWorkflows "Workflow list"
  | PRunResult RunResult
  | PRun WorkflowRun
  | PRuns "WorkflowRun list"
  | PWebhook Webhook
  | PWebhooks "Webhook list"
  | PSimCreated string
  | PStatus string
  | PSimState SimState
  | PKeyCreated CreateAPIKeyResponse
  | PKeys "APIKeyInfo list"
  | PClient Client
  | PClients "Client list"
  | PMallMap MallMap
  | PMallStores "StoreLocation list"
  | PMallStore StoreLocation NavNode
  | PMallRoute "NavNode list" real
  | PConversation Conversation
  | PConversations "Conversation list"
  | PAccepted

datatype reply = Error int string | Json int payload | NoContent | Panic

record server =
  sv_registry :: registry
  sv_tasks :: task_store
  sv_catalog :: Catalog
  sv_coordinator :: "zone_store option"
  sv_audit :: "audit_log option"
  sv_edges :: "edge_store option"
  sv_tenants :: "tenant_store option"
  sv_idempotency :: "idem_store option"
  sv_bus :: outbox
  sv_webhooks :: "(string \<times> event_data) list option" \<comment> \<open>events handed to the dispatcher\<close>
  sv_broadcasts :: "(string \<times> event_data) list option" \<comment> \<open>events handed to the broadcaster\<close>
  sv_states :: "state_manager option" \<comment> \<open>\<^verbatim>\<open>robotStateProvider\<close>\<close>
  sv_workflows :: "workflow_catalog option" \<comment> \<open>with the runs: the runner is made of both\<close>
  sv_runs :: "run_store option"
  sv_webhookStore :: "webhook_store option"
  sv_sim :: "sim_service option"
  sv_keys :: "key_row list option" \<comment> \<open>\<^verbatim>\<open>apiKeyManager\<close>\<close>
  sv_oauth :: "oauth_state option"
  sv_mall :: "mall_repo option"
  sv_assistant :: "VisitorRequestRegistry option" \<comment> \<open>\<^verbatim>\<open>mallAssistantHandler\<close>\<close>
  sv_conversations :: "conv_catalog option"

record api_env =
  ev_now :: "nat \<Rightarrow> time"
  ev_uuid :: "nat \<Rightarrow> string"
  ev_robots :: "string list"
  ev_tasks :: "string list"
  ev_tenants :: "string list"
  ev_edges :: "string list"
  ev_zones :: "string list"
  ev_scenarios :: "string list"
  ev_builtins :: "string list"
  ev_nats :: bool
  ev_float :: "int \<Rightarrow> real" \<comment> \<open>the \<^verbatim>\<open>float64\<close> nearest to an integer\<close>
  ev_rfc3339 :: "string \<Rightarrow> time option" \<comment> \<open>\<^verbatim>\<open>time.Parse(time.RFC3339, v)\<close>\<close>
  ev_orch :: orch_env
  ev_workflows :: "string list"
  ev_runs :: "string list"
  ev_hooks :: "string list"
  ev_sub :: bool \<comment> \<open>whether a subscription on the bus succeeds\<close>
  ev_ctx :: nat \<comment> \<open>the context of the request\<close>
  ev_db :: "nat \<Rightarrow> bool" \<comment> \<open>whether the \<open>n\<close>-th SQL statement is carried out\<close>
  ev_db_error :: string
  ev_random :: "8 word list"
  ev_sha :: "string \<Rightarrow> 8 word list" \<comment> \<open>SHA-256\<close>
  ev_nodes :: "string \<Rightarrow> string list" \<comment> \<open>the order of a node's neighbours\<close>
  ev_round :: "real \<Rightarrow> real" \<comment> \<open>the rounding of an addition\<close>
  ev_convs :: "string list"

text \<open>Every order is one in which the map it belongs to may be ranged over.\<close>

definition env_ok :: "api_env \<Rightarrow> server \<Rightarrow> bool" where
  "env_ok ev s \<longleftrightarrow> go_range (sv_registry s) (ev_robots ev) \<and> go_range (sv_tasks s) (ev_tasks ev)
     \<and> (\<forall>ts. sv_tenants s = Some ts \<longrightarrow> go_range ts (ev_tenants ev))
     \<and> (\<forall>es. sv_edges s = Some es \<longrightarrow> go_range (es_edges es) (ev_edges ev))"

type_synonym handler = "api_env \<Rightarrow> request \<Rightarrow> server \<Rightarrow> reply \<times> server"

section \<open>The tenant of a request\<close>

definition auditActor :: "string \<Rightarrow> string" where
  "auditActor operatorID = (if operatorID = [] then ''console'' else operatorID)"

definition auditActorFromClaims :: "Claims option \<Rightarrow> string" where
  "auditActorFromClaims claims =
     (case claims of None \<Rightarrow> ''system''
      | Some c \<Rightarrow> (if cl_Subject c \<noteq> [] then cl_Subject c else ''unknown''))"

text \<open>The tenant, empty for all tenants, or the status of the refusal.\<close>

definition tenantFromRequest :: "request \<Rightarrow> int + string" where
  "tenantFromRequest r =
     (case rq_claims r of
        None \<Rightarrow> (if rq_unsafe r then Inr (rq_query r ''tenant_id'') else Inl 401)
      | Some c \<Rightarrow>
          if list_ex (\<lambda>role. EqualFold role RoleAdministrator) (GetRoles c) then Inr (rq_query r ''tenant_id'')
          else if cl_TenantID c \<noteq> [] then Inr (cl_TenantID c)
          else Inl 403)"

definition tenantOrError :: "request \<Rightarrow> reply + string" where
  "tenantOrError r =
     (case tenantFromRequest r of
        Inr t \<Rightarrow> Inr t
      | Inl status \<Rightarrow> Inl (Error status
          (if status = 403 then ''operator must have tenant_id in token'' else ''missing authorization'')))"

text \<open>\<^verbatim>\<open>tenantID, ok := tenantOrError(w, r); if !ok { return }\<close>, and the rest of the handler.\<close>

definition with_tenant :: "request \<Rightarrow> server \<Rightarrow> (string \<Rightarrow> reply \<times> server) \<Rightarrow> reply \<times> server" where
  "with_tenant r s k = (case tenantOrError r of Inl e \<Rightarrow> (e, s) | Inr tenantID \<Rightarrow> k tenantID)"

text \<open>\<^verbatim>\<open>tenantID != "" && x.TenantID != tenantID\<close>.\<close>

definition foreign :: "string \<Rightarrow> string \<Rightarrow> bool" where
  "foreign tenantID x \<longleftrightarrow> tenantID \<noteq> [] \<and> x \<noteq> tenantID"

section \<open>Audit entries and request bodies\<close>

definition audit_entry_of :: "time \<Rightarrow> string \<Rightarrow> string \<Rightarrow> string \<Rightarrow> string \<Rightarrow> string \<Rightarrow> details \<Rightarrow> Entry" where
  "audit_entry_of now actor action res rid tenant det =
     \<lparr>a_ID = [], a_Actor = actor, a_Action = action, a_Resource = res, a_ResourceID = rid,
      a_Timestamp = now, a_Details = det, a_TenantID = tenant\<rparr>"

text \<open>\<^verbatim>\<open>if s.auditStore != nil { _ = s.auditStore.Append(...) }\<close>; \<open>n\<close> numbers the reading of the clock.\<close>

definition api_audit :: "api_env \<Rightarrow> nat \<Rightarrow> string \<Rightarrow> string \<Rightarrow> string \<Rightarrow> string \<Rightarrow> string \<Rightarrow> details \<Rightarrow> server \<Rightarrow> server" where
  "api_audit ev n actor action res rid tenant det s =
     (case sv_audit s of
        None \<Rightarrow> s
      | Some es \<Rightarrow> s\<lparr>sv_audit := Some (audit_Append (ev_now ev (Suc n)) (ev_uuid ev 0)
          (audit_entry_of (ev_now ev n) actor action res rid tenant det) es)\<rparr>)"

text \<open>A \<^verbatim>\<open>json.RawMessage\<close> field takes any value, \<^verbatim>\<open>null\<close> included.\<close>

definition decode_raw :: "(raw_message \<Rightarrow> 's \<Rightarrow> 's) \<Rightarrow> 's field_decoder" where
  "decode_raw upd j s = (True, upd (RawJson j) s)"

definition getMe :: handler where
  "getMe ev r s =
     (case rq_claims r of
        None \<Rightarrow> (Error 401 ''missing authorization'', s)
      | Some c \<Rightarrow> (Json 200 (PMe (GetRoles c) (cl_TenantID c)), s))"

section \<open>Lemmas\<close>

lemma api_audit_frames [simp]:
  "sv_registry (api_audit ev n a b c d e f s) = sv_registry s"
  "sv_tasks (api_audit ev n a b c d e f s) = sv_tasks s"
  "sv_catalog (api_audit ev n a b c d e f s) = sv_catalog s"
  "sv_coordinator (api_audit ev n a b c d e f s) = sv_coordinator s"
  "sv_edges (api_audit ev n a b c d e f s) = sv_edges s"
  "sv_tenants (api_audit ev n a b c d e f s) = sv_tenants s"
  "sv_idempotency (api_audit ev n a b c d e f s) = sv_idempotency s"
  "sv_bus (api_audit ev n a b c d e f s) = sv_bus s"
  "sv_webhooks (api_audit ev n a b c d e f s) = sv_webhooks s"
  "sv_broadcasts (api_audit ev n a b c d e f s) = sv_broadcasts s"
  "sv_states (api_audit ev n a b c d e f s) = sv_states s"
  "sv_workflows (api_audit ev n a b c d e f s) = sv_workflows s"
  "sv_runs (api_audit ev n a b c d e f s) = sv_runs s"
  "sv_webhookStore (api_audit ev n a b c d e f s) = sv_webhookStore s"
  "sv_sim (api_audit ev n a b c d e f s) = sv_sim s"
  "sv_keys (api_audit ev n a b c d e f s) = sv_keys s"
  "sv_oauth (api_audit ev n a b c d e f s) = sv_oauth s"
  "sv_mall (api_audit ev n a b c d e f s) = sv_mall s"
  "sv_assistant (api_audit ev n a b c d e f s) = sv_assistant s"
  "sv_conversations (api_audit ev n a b c d e f s) = sv_conversations s"
  by (simp_all add: api_audit_def split: option.split)

lemma tenantOrError_Inl: "tenantOrError r = Inl e \<Longrightarrow> \<exists>st m. e = Error st m"
  by (auto simp: tenantOrError_def split: sum.splits)

text \<open>The caller is confined to the tenant \<open>t\<close>: not an administrator, and \<open>t\<close> is the tenant of the token.\<close>

definition confined :: "request \<Rightarrow> string \<Rightarrow> bool" where
  "confined r t \<longleftrightarrow> (\<exists>c. rq_claims r = Some c \<and> \<not> hasAnyRole (GetRoles c) [RoleAdministrator] \<and> cl_TenantID c = t \<and> t \<noteq> [])"

lemma confined_tenant: "confined r t \<Longrightarrow> tenantOrError r = Inr t"
  by (auto simp: confined_def tenantOrError_def tenantFromRequest_def list_ex_iff has_role_iff)

lemma confined_with_tenant [simp]: "confined r t \<Longrightarrow> with_tenant r s k = k t"
  by (simp add: with_tenant_def confined_tenant)

lemma foreign_confined [simp]: "confined r t \<Longrightarrow> foreign t x \<longleftrightarrow> x \<noteq> t"
  by (auto simp: foreign_def confined_def)

section \<open>An example server\<close>

text \<open>A server with one robot of the tenant \<^verbatim>\<open>acme\<close>, on which the properties are exercised.\<close>

definition example_robot :: Robot where
  "example_robot = \<lparr>r_ID = ''r1'', r_Vendor = ''v'', r_Model = ''m'', r_AdapterEndpoint = ''a'', r_TenantID = ''acme'',
     r_EdgeID = ''e1'', r_Location = [], r_Capabilities = [CapWalk, CapCmdVel], r_CreatedAt = 1, r_UpdatedAt = 1\<rparr>"

definition example_server :: server where
  "example_server = \<lparr>sv_registry = [''r1'' \<mapsto> example_robot], sv_tasks = Map.empty, sv_catalog = NewCatalog,
     sv_coordinator = None, sv_audit = Some [], sv_edges = None,
     sv_tenants = Some [''default'' \<mapsto> \<lparr>tn_ID = ''default'', tn_Name = ''Default'', tn_Config = RawEmpty\<rparr>,
                        ''acme'' \<mapsto> \<lparr>tn_ID = ''acme'', tn_Name = ''Acme'', tn_Config = RawEmpty\<rparr>],
     sv_idempotency = Some Map.empty, sv_bus = [], sv_webhooks = Some [], sv_broadcasts = Some [], sv_states = None,
     sv_workflows = Some workflows_NewCatalog, sv_runs = Some Map.empty, sv_webhookStore = Some Map.empty, sv_sim = None,
     sv_keys = Some [], sv_oauth = Some example_oauth,
     sv_mall = None, sv_assistant = Some NewVisitorRequestRegistry, sv_conversations = Some (Some convs_NewMemoryStore)\<rparr>"

definition operator_of :: "string \<Rightarrow> Claims" where
  "operator_of t = \<lparr>cl_Subject = ''op'', cl_Issuer = [], cl_Audience = [], cl_Roles = [''operator''], cl_Role = [],
     cl_TenantID = t\<rparr>"

definition example_request :: "Claims \<Rightarrow> (string \<times> string) list \<Rightarrow> raw_message \<Rightarrow> request" where
  "example_request c vars body = \<lparr>rq_claims = Some c, rq_unsafe = False,
     rq_var = (\<lambda>k. case map_of vars k of None \<Rightarrow> [] | Some v \<Rightarrow> v), rq_query = (\<lambda>_. []),
     rq_header = (\<lambda>k. if k = ''Idempotency-Key'' then ''key1'' else []), rq_body = body\<rparr>"

definition example_env :: "bool \<Rightarrow> api_env" where
  "example_env nats = \<lparr>ev_now = (\<lambda>n. 100 + int n), ev_uuid = (\<lambda>n. ''uuid'' @ replicate n CHR ''x''),
     ev_robots = [''r1''], ev_tasks = [], ev_tenants = [''default'', ''acme''], ev_edges = [], ev_zones = [],
     ev_scenarios = [], ev_builtins = [], ev_nats = nats, ev_float = of_int, ev_rfc3339 = (\<lambda>_. None),
     ev_orch = \<lparr>oe_now = (\<lambda>n. 100 + int n), oe_run_id = ''run'', oe_uuid = (\<lambda>n. ''task'' @ replicate n CHR ''x''),
       oe_robots = (\<lambda>_. [''r1'']), oe_tasks = (\<lambda>_. [])\<rparr>,
     ev_workflows = [''patrol_zones_ABC''], ev_runs = [], ev_hooks = [], ev_sub = True, ev_ctx = 7,
     ev_db = (\<lambda>_. True), ev_db_error = ''sql'', ev_random = [1, 2], ev_sha = ascii_digest,
     ev_nodes = (\<lambda>_. []), ev_round = (\<lambda>x. x), ev_convs = []\<rparr>"

lemma operator_confined: "t \<noteq> [] \<Longrightarrow> confined (example_request (operator_of t) vars body) t"
proof -
  have "\<not> EqualFold ''operator'' RoleAdministrator"
    by (simp add: EqualFold_def ToLower_def lower_char_def role_defs)
  then show "t \<noteq> [] \<Longrightarrow> ?thesis"
    by (simp add: confined_def example_request_def operator_of_def GetRoles_def)
qed

end
