(* ===== verification/Api_Fleet.thy ===== *)
theory Api_Fleet
  imports Api_Server
begin

text \<open>
  The handlers of the API server for robots and tenants, \<^verbatim>\<open>pkg/control-plane/api/server.go\<close>, and the
  invariant that ties the two stores together: every robot belongs to an existing tenant.
\<close>

section \<open>Robots\<close>

definition listRobots :: handler where
  "listRobots ev r s = with_tenant r s (\<lambda>tenantID.
     (Json 200 (PRobots (if tenantID \<noteq> [] then registry_ListByTenant (ev_robots ev) tenantID (sv_registry s)
                         else registry_List (ev_robots ev) (sv_registry s))), s))"

definition getRobot :: handler where
  "getRobot ev r s = with_tenant r s (\<lambda>tenantID.
     let i = rq_var r ''id'' in
     if i = [] then (Error 400 ''id required'', s)
     else case registry_Get (sv_registry s) i of
         None \<Rightarrow> (Error 404 ''not found'', s)
       | Some robot \<Rightarrow>
           if foreign tenantID (r_TenantID robot) then (Error 404 ''not found'', s)
           else (Json 200 (PRobot robot), s))"

definition getRobotState :: handler where
  "getRobotState ev r s = with_tenant r s (\<lambda>tenantID.
     let i = rq_var r ''id'' in
     if i = [] then (Error 400 ''id required'', s)
     else case registry_Get (sv_registry s) i of
         None \<Rightarrow> (Error 404 ''not found'', s)
       | Some rb \<Rightarrow>
           if foreign tenantID (r_TenantID rb) then (Error 404 ''not found'', s)
           else (Json 200 (PState (case sv_states s of
                   Some m \<Rightarrow> GetRobotState m i
                 | None \<Rightarrow> \<lparr>rs_RobotID = i, rs_State = state_string StateIdle, rs_CurrentTask = [],
                            rs_Destination = [], rs_TargetStore = [], rs_StatusMessage = ''idle''\<rparr>)), s))"

record robotRequest =
  rr_ID :: string
  rr_Vendor :: string
  rr_Model :: string
  rr_AdapterEndpoint :: string
  rr_TenantID :: string
  rr_EdgeID :: string
  rr_Location :: string
  rr_Capabilities :: "string list"

definition robot_request_zero :: robotRequest where
  "robot_request_zero = \<lparr>rr_ID = [], rr_Vendor = [], rr_Model = [], rr_AdapterEndpoint = [], rr_TenantID = [],
     rr_EdgeID = [], rr_Location = [], rr_Capabilities = []\<rparr>"

definition robot_request_fields :: "robotRequest struct_fields" where
  "robot_request_fields =
     [(''id'', decode_string (\<lambda>v q. q\<lparr>rr_ID := v\<rparr>)),
      (''vendor'', decode_string (\<lambda>v q. q\<lparr>rr_Vendor := v\<rparr>)),
      (''model'', decode_string (\<lambda>v q. q\<lparr>rr_Model := v\<rparr>)),
      (''adapter_endpoint'', decode_string (\<lambda>v q. q\<lparr>rr_AdapterEndpoint := v\<rparr>)),
      (''tenant_id'', decode_string (\<lambda>v q. q\<lparr>rr_TenantID := v\<rparr>)),
      (''edge_id'', decode_string (\<lambda>v q. q\<lparr>rr_EdgeID := v\<rparr>)),
      (''location'', decode_string (\<lambda>v q. q\<lparr>rr_Location := v\<rparr>)),
      (''capabilities'', decode_strings (\<lambda>v q. q\<lparr>rr_Capabilities := v\<rparr>))]"

definition robot_request :: "raw_message \<Rightarrow> bool \<times> robotRequest" where
  "robot_request body = unmarshal robot_request_fields body robot_request_zero"

text \<open>\<^verbatim>\<open>s.tenantStore != nil\<close> and the tenant is not found.\<close>

definition unknown_tenant :: "string \<Rightarrow> server \<Rightarrow> bool" where
  "unknown_tenant tenantID s \<longleftrightarrow>
     (case sv_tenants s of None \<Rightarrow> False | Some ts \<Rightarrow> tenants_Get ts tenantID = None)"

definition default_capabilities :: "string list" where
  "default_capabilities =
     [CapWalk, CapStand, CapSafeStop, CapReleaseControl, CapCmdVel, CapZeroMode, CapPatrol, CapNavigation]"

definition createRobot :: handler where
  "createRobot ev r s =
     (let (ok, req0) = robot_request (rq_body r) in
      if \<not> ok then (Error 400 ''bad request'', s)
      else if rr_ID req0 = [] \<or> rr_Vendor req0 = [] \<or> rr_Model req0 = [] \<or> rr_AdapterEndpoint req0 = []
      then (Error 400 ''id, vendor, model, adapter_endpoint required'', s)
      else let req = (if rr_TenantID req0 = [] then req0\<lparr>rr_TenantID := ''default''\<rparr> else req0) in
        if unknown_tenant (rr_TenantID req) s then (Error 400 ''tenant not found'', s)
        else if registry_Get (sv_registry s) (rr_ID req) \<noteq> None then (Error 409 ''robot already exists'', s)
        else let caps = (if rr_Capabilities req = [] then default_capabilities else rr_Capabilities req);
                 robot = \<lparr>r_ID = rr_ID req, r_Vendor = rr_Vendor req, r_Model = rr_Model req,
                   r_AdapterEndpoint = rr_AdapterEndpoint req, r_TenantID = rr_TenantID req,
                   r_EdgeID = rr_EdgeID req, r_Location = rr_Location req, r_Capabilities = caps,
                   r_CreatedAt = 0, r_UpdatedAt = 0\<rparr>;
                 s1 = s\<lparr>sv_registry := registry_Add (ev_now ev 0) robot (sv_registry s)\<rparr>
             in (Json 201 (PRobot (robot_stamp (ev_now ev 0) robot)),
                 api_audit ev 1 ''admin'' ''create'' ''robot'' (r_ID robot) (r_TenantID robot) NoDetails s1))"

text \<open>The robot after the fields of an update; \<^verbatim>\<open>edge_id\<close> and \<^verbatim>\<open>location\<close> are always taken over.\<close>

definition updated_robot :: "robotRequest \<Rightarrow> Robot \<Rightarrow> Robot" where
  "updated_robot req robot =
     robot\<lparr>r_Vendor := (if rr_Vendor req \<noteq> [] then rr_Vendor req else r_Vendor robot),
           r_Model := (if rr_Model req \<noteq> [] then rr_Model req else r_Model robot),
           r_AdapterEndpoint := (if rr_AdapterEndpoint req \<noteq> [] then rr_AdapterEndpoint req else r_AdapterEndpoint robot),
           r_TenantID := (if rr_TenantID req \<noteq> [] then rr_TenantID req else r_TenantID robot),
           r_EdgeID := rr_EdgeID req, r_Location := rr_Location req,
           r_Capabilities := (if rr_Capabilities req \<noteq> [] then rr_Capabilities req else r_Capabilities robot)\<rparr>"

definition updateRobot :: handler where
  "updateRobot ev r s =
     (let i = rq_var r ''id'' in
      if i = [] then (Error 400 ''id required'', s)
      else case registry_Get (sv_registry s) i of
          None \<Rightarrow> (Error 404 ''not found'', s)
        | Some robot \<Rightarrow>
            let (ok, req) = robot_request (rq_body r) in
            if \<not> ok then (Error 400 ''bad request'', s)
            else if rr_TenantID req \<noteq> [] \<and> unknown_tenant (rr_TenantID req) s
            then (Error 400 ''tenant not found'', s)
            else let robot' = updated_robot req robot;
                     s1 = s\<lparr>sv_registry := registry_Add (ev_now ev 0) robot' (sv_registry s)\<rparr>
                 in (Json 200 (PRobot (robot_stamp (ev_now ev 0) robot')),
                     api_audit ev 1 ''admin'' ''update'' ''robot'' i (r_TenantID robot') NoDetails s1))"

definition deleteRobot :: handler where
  "deleteRobot ev r s =
     (let i = rq_var r ''id'' in
      if i = [] then (Error 400 ''id required'', s)
      else case registry_Get (sv_registry s) i of
          None \<Rightarrow> (Error 404 ''not found'', s)
        | Some robot \<Rightarrow>
            let (deleted, reg) = registry_Delete i (sv_registry s) in
            if \<not> deleted then (Error 404 ''not found'', s)
            else (NoContent,
                  api_audit ev 0 ''admin'' ''delete'' ''robot'' i (r_TenantID robot) NoDetails (s\<lparr>sv_registry := reg\<rparr>)))"

section \<open>Tenants\<close>

definition listTenants :: handler where
  "listTenants ev r s = with_tenant r s (\<lambda>tenantID.
     (Json 200 (PTenants (case sv_tenants s of
         None \<Rightarrow> []
       | Some ts \<Rightarrow>
           let list = tenants_List (ev_tenants ev) ts in
           if tenantID \<noteq> [] then (case find (\<lambda>t. tn_ID t = tenantID) list of None \<Rightarrow> [] | Some t \<Rightarrow> [t])
           else list)), s))"

definition getTenant :: handler where
  "getTenant ev r s = with_tenant r s (\<lambda>tenantID.
     let i = rq_var r ''id'' in
     if i = [] then (Error 400 ''id required'', s)
     else if tenantID \<noteq> [] \<and> tenantID \<noteq> i then (Error 404 ''not found'', s)
     else case sv_tenants s of
         None \<Rightarrow> (Error 404 ''not found'', s)
       | Some ts \<Rightarrow> (case tenants_Get ts i of
             None \<Rightarrow> (Error 404 ''not found'', s)
           | Some t \<Rightarrow> (Json 200 (PTenant t), s)))"

record tenantRequest =
  tr_ID :: string
  tr_Name :: string
  tr_Config :: raw_message

definition tenant_request_zero :: tenantRequest where
  "tenant_request_zero = \<lparr>tr_ID = [], tr_Name = [], tr_Config = RawEmpty\<rparr>"

definition create_tenant_fields :: "tenantRequest struct_fields" where
  "create_tenant_fields =
     [(''id'', decode_string (\<lambda>v q. q\<lparr>tr_ID := v\<rparr>)),
      (''name'', decode_string (\<lambda>v q. q\<lparr>tr_Name := v\<rparr>)),
      (''config'', decode_raw (\<lambda>v q. q\<lparr>tr_Config := v\<rparr>))]"

definition update_tenant_fields :: "tenantRequest struct_fields" where
  "update_tenant_fields =
     [(''name'', decode_string (\<lambda>v q. q\<lparr>tr_Name := v\<rparr>)),
      (''config'', decode_raw (\<lambda>v q. q\<lparr>tr_Config := v\<rparr>))]"

definition name_details :: "string \<Rightarrow> details" where
  "name_details name = DetJson (JObj [(''name'', JStr name)])"

definition createTenant :: handler where
  "createTenant ev r s =
     (case sv_tenants s of
        None \<Rightarrow> (Error 503 ''tenants not configured'', s)
      | Some ts \<Rightarrow>
          let (ok, req) = unmarshal create_tenant_fields (rq_body r) tenant_request_zero in
          if \<not> ok then (Error 400 ''bad request'', s)
          else if tr_ID req = [] \<or> tr_Name req = [] then (Error 400 ''id and name required'', s)
          else if tenants_Get ts (tr_ID req) \<noteq> None then (Error 409 ''tenant already exists'', s)
          else let t = \<lparr>tn_ID = tr_ID req, tn_Name = tr_Name req, tn_Config = tr_Config req\<rparr> in
            case tenants_Create t ts of
              Inl _ \<Rightarrow> (Error 500 ''internal error'', s)
            | Inr ts' \<Rightarrow>
                (Json 201 (PTenant t),
                 api_audit ev 0 (auditActorFromClaims (rq_claims r)) ''create'' ''tenant'' (tn_ID t) (tn_ID t)
                   (name_details (tn_Name t)) (s\<lparr>sv_tenants := Some ts'\<rparr>)))"

definition updateTenant :: handler where
  "updateTenant ev r s =
     (let i = rq_var r ''id'' in
      if i = [] then (Error 400 ''id required'', s)
      else case sv_tenants s of
        None \<Rightarrow> (Error 503 ''tenants not configured'', s)
      | Some ts \<Rightarrow> (case tenants_Get ts i of
          None \<Rightarrow> (Error 404 ''not found'', s)
        | Some t0 \<Rightarrow>
            let (ok, req) = unmarshal update_tenant_fields (rq_body r) tenant_request_zero in
            if \<not> ok then (Error 400 ''bad request'', s)
            else let t1 = (if tr_Name req \<noteq> [] then t0\<lparr>tn_Name := tr_Name req\<rparr> else t0);
                     t2 = (if tr_Config req \<noteq> RawEmpty then t1\<lparr>tn_Config := tr_Config req\<rparr> else t1)
                 in case tenants_Update t2 ts of
                      Inl TenantErrNotFound \<Rightarrow> (Error 404 ''not found'', s)
                    | Inl _ \<Rightarrow> (Error 500 ''internal error'', s)
                    | Inr ts' \<Rightarrow>
                        (Json 200 (PTenant t2),
                         api_audit ev 0 (auditActorFromClaims (rq_claims r)) ''update'' ''tenant'' i i
                           (name_details (tn_Name t2)) (s\<lparr>sv_tenants := Some ts'\<rparr>))))"

definition deleteTenant :: handler where
  "deleteTenant ev r s =
     (let i = rq_var r ''id'' in
      if i = [] then (Error 400 ''id required'', s)
      else case sv_tenants s of
        None \<Rightarrow> (Error 503 ''tenants not configured'', s)
      | Some ts \<Rightarrow>
          if i = ''default'' then (Error 403 ''cannot delete default tenant'', s)
          else if registry_ListByTenant (ev_robots ev) i (sv_registry s) \<noteq> []
          then (Error 409 ''cannot delete tenant with robots'', s)
          else case tenants_Delete i ts of
              Inl TenantErrNotFound \<Rightarrow> (Error 404 ''not found'', s)
            | Inl _ \<Rightarrow> (Error 500 ''internal error'', s)
            | Inr ts' \<Rightarrow>
                (NoContent,
                 api_audit ev 0 (auditActorFromClaims (rq_claims r)) ''delete'' ''tenant'' i i NoDetails
                   (s\<lparr>sv_tenants := Some ts'\<rparr>)))"

definition listTenantRobots :: handler where
  "listTenantRobots ev r s = with_tenant r s (\<lambda>effectiveTenant.
     let tenantID = rq_var r ''id'' in
     if tenantID = [] then (Error 400 ''id required'', s)
     else if effectiveTenant \<noteq> [] \<and> effectiveTenant \<noteq> tenantID then (Error 403 ''forbidden'', s)
     else if unknown_tenant tenantID s then (Error 404 ''not found'', s)
     else (Json 200 (PRobots (registry_ListByTenant (ev_robots ev) tenantID (sv_registry s))), s))"

section \<open>The two stores together\<close>

text \<open>
  The fleet is well formed: robots and tenants are filed under their own identifiers, the tenant \<^verbatim>\<open>default\<close>
  exists, and the tenant of every robot exists.
\<close>

definition fleet_wf :: "server \<Rightarrow> bool" where
  "fleet_wf s \<longleftrightarrow>
     (\<forall>i robot. sv_registry s i = Some robot \<longrightarrow> r_ID robot = i)
     \<and> (\<forall>ts. sv_tenants s = Some ts \<longrightarrow>
          (\<forall>i t. ts i = Some t \<longrightarrow> tn_ID t = i) \<and> ts ''default'' \<noteq> None
          \<and> (\<forall>i robot. sv_registry s i = Some robot \<longrightarrow> ts (r_TenantID robot) \<noteq> None))"

text \<open>\<open>s'\<close> has the same robots and tenants as \<open>s\<close>.\<close>

definition same_fleet :: "server \<Rightarrow> server \<Rightarrow> bool" where
  "same_fleet s s' \<longleftrightarrow> sv_registry s' = sv_registry s \<and> sv_tenants s' = sv_tenants s"

lemma same_fleet_wf: "same_fleet s s' \<Longrightarrow> fleet_wf s \<Longrightarrow> fleet_wf s'"
  by (simp add: same_fleet_def fleet_wf_def)

lemma same_fleet_refl [simp]: "same_fleet s s"
  by (simp add: same_fleet_def)

lemma fleet_wf_Add:
  assumes "fleet_wf s" "\<not> unknown_tenant (r_TenantID robot) s"
  shows "fleet_wf (s\<lparr>sv_registry := registry_Add now robot (sv_registry s)\<rparr>)"
  using assms by (auto simp: fleet_wf_def registry_Add_def unknown_tenant_def tenants_Get_def)

lemma fleet_wf_audit [simp]: "fleet_wf (api_audit ev n a b c d e f s) = fleet_wf s"
  by (simp add: fleet_wf_def)

lemma createRobot_wf: "fleet_wf s \<Longrightarrow> fleet_wf (snd (createRobot ev r s))"
  by (auto simp: createRobot_def Let_def split: prod.split intro!: fleet_wf_Add)

lemma updated_robot_tenant:
  "r_TenantID (updated_robot req robot) = (if rr_TenantID req \<noteq> [] then rr_TenantID req else r_TenantID robot)"
  by (simp add: updated_robot_def)

lemma fleet_wf_known: "fleet_wf s \<Longrightarrow> sv_registry s i = Some robot \<Longrightarrow> \<not> unknown_tenant (r_TenantID robot) s"
  by (auto simp: fleet_wf_def unknown_tenant_def tenants_Get_def split: option.splits)

lemma updateRobot_wf:
  assumes "fleet_wf s"
  shows "fleet_wf (snd (updateRobot ev r s))"
proof -
  have "fleet_wf (s\<lparr>sv_registry := registry_Add now (updated_robot req robot) (sv_registry s)\<rparr>)"
    if "sv_registry s i = Some robot" "\<not> (rr_TenantID req \<noteq> [] \<and> unknown_tenant (rr_TenantID req) s)"
    for i robot req now
    by (rule fleet_wf_Add [OF assms]) (use that fleet_wf_known [OF assms that(1)] in \<open>auto simp: updated_robot_tenant\<close>)
  with assms show ?thesis
    by (simp add: updateRobot_def Let_def registry_Get_def split: prod.split option.split)
qed

lemma deleteRobot_wf: "fleet_wf s \<Longrightarrow> fleet_wf (snd (deleteRobot ev r s))"
  by (auto simp: deleteRobot_def Let_def registry_Delete_def fleet_wf_def split: prod.split option.split)

lemma createTenant_wf: "fleet_wf s \<Longrightarrow> fleet_wf (snd (createTenant ev r s))"
  by (auto simp: createTenant_def Let_def tenants_Create_def fleet_wf_def split: prod.split option.split sum.split)

lemma updateTenant_wf: "fleet_wf s \<Longrightarrow> fleet_wf (snd (updateTenant ev r s))"
  by (auto simp: updateTenant_def Let_def tenants_Update_def tenants_Get_def fleet_wf_def
      split: prod.split option.split sum.split tenant_error.split)

lemma deleteTenant_wf:
  assumes "fleet_wf s" "go_range (sv_registry s) (ev_robots ev)"
  shows "fleet_wf (snd (deleteTenant ev r s))"
proof -
  have "sv_registry s j = Some robot \<Longrightarrow> r_TenantID robot \<noteq> i"
    if "registry_ListByTenant (ev_robots ev) i (sv_registry s) = []" for i j robot
    using registry_ListByTenant_in [OF assms(2), of robot i] that by auto
  with assms(1) show ?thesis
    by (auto simp: deleteTenant_def Let_def tenants_Delete_def fleet_wf_def
        split: option.split sum.split tenant_error.split)
qed

lemmas fleet_wf_handlers = createRobot_wf updateRobot_wf deleteRobot_wf createTenant_wf updateTenant_wf deleteTenant_wf

end
