(* ===== verification/Api_Command.thy ===== *)
theory Api_Command
  imports Api_Server "HOL-Library.List_Lexorder" "HOL-Library.Char_ord"
begin

text \<open>
  The handlers that send commands to robots and hand them to edge nodes, \<^verbatim>\<open>sendCommand\<close>, \<^verbatim>\<open>listEdges\<close>,
  \<^verbatim>\<open>getEdge\<close> and \<^verbatim>\<open>edgeHeartbeat\<close> of \<^verbatim>\<open>pkg/control-plane/api/server.go\<close>.

  The payload of a command request is decoded into a \<^verbatim>\<open>map[string]any\<close> and marshalled again, which
  changes it: of equal names the last wins, numbers become \<^verbatim>\<open>float64\<close>, and the names are sorted by
  their bytes. A map is the list of the assignments made to it, in their order.
\<close>

section \<open>Values of type any\<close>

text \<open>Whether every number fits a \<^verbatim>\<open>float64\<close>.\<close>

fun any_ok :: "json \<Rightarrow> bool" and any_oks :: "json list \<Rightarrow> bool" and any_okm :: "(string \<times> json) list \<Rightarrow> bool" where
  "any_ok (JInt i) = float_finite (of_int i)"
| "any_ok (JArr js) = any_oks js"
| "any_ok (JObj kvs) = any_okm kvs"
| "any_ok _ = True"
| "any_oks [] = True"
| "any_oks (j # js) = (any_ok j \<and> any_oks js)"
| "any_okm [] = True"
| "any_okm ((k, v) # kvs) = (any_ok v \<and> any_okm kvs)"

text \<open>\<^verbatim>\<open>json.Marshal\<close> of a map: each name once, sorted, with the value assigned last.\<close>

definition marshal_map :: "(string \<times> json) list \<Rightarrow> (string \<times> json) list" where
  "marshal_map kvs = map (\<lambda>k. (k, the (map_of (rev kvs) k))) (sort (remdups (map fst kvs)))"

fun any_val :: "(int \<Rightarrow> real) \<Rightarrow> json \<Rightarrow> json"
and any_vals :: "(int \<Rightarrow> real) \<Rightarrow> json list \<Rightarrow> json list"
and any_members :: "(int \<Rightarrow> real) \<Rightarrow> (string \<times> json) list \<Rightarrow> (string \<times> json) list" where
  "any_val rnd (JInt i) = num_json (rnd i)"
| "any_val rnd (JFloat x) = num_json x"
| "any_val rnd (JArr js) = JArr (any_vals rnd js)"
| "any_val rnd (JObj kvs) = JObj (marshal_map (any_members rnd kvs))"
| "any_val rnd j = j"
| "any_vals rnd [] = []"
| "any_vals rnd (j # js) = any_val rnd j # any_vals rnd js"
| "any_members rnd [] = []"
| "any_members rnd ((k, v) # kvs) = (k, any_val rnd v) # any_members rnd kvs"

text \<open>A \<^verbatim>\<open>map[string]any\<close> field: an object adds its members, \<^verbatim>\<open>null\<close> makes it \<^verbatim>\<open>nil\<close>.\<close>

fun decode_any_map ::
  "(int \<Rightarrow> real) \<Rightarrow> (((string \<times> json) list \<Rightarrow> (string \<times> json) list) \<Rightarrow> 's \<Rightarrow> 's) \<Rightarrow> 's field_decoder" where
  "decode_any_map rnd upd (JObj kvs) s = (any_okm kvs, upd (\<lambda>m. m @ any_members rnd kvs) s)"
| "decode_any_map rnd upd JNull s = (True, upd (\<lambda>_. []) s)"
| "decode_any_map rnd upd _ s = (False, s)"

section \<open>Sending a command\<close>

record commandRequest =
  cq_Command :: string
  cq_Payload :: "(string \<times> json) list"
  cq_OperatorID :: string

definition command_request_zero :: commandRequest where
  "command_request_zero = \<lparr>cq_Command = [], cq_Payload = [], cq_OperatorID = []\<rparr>"

definition command_request_fields :: "(int \<Rightarrow> real) \<Rightarrow> commandRequest struct_fields" where
  "command_request_fields rnd =
     [(''command'', decode_string (\<lambda>v q. q\<lparr>cq_Command := v\<rparr>)),
      (''payload'', decode_any_map rnd (\<lambda>f q. q\<lparr>cq_Payload := f (cq_Payload q)\<rparr>)),
      (''operator_id'', decode_string (\<lambda>v q. q\<lparr>cq_OperatorID := v\<rparr>))]"

text \<open>The command of a request; marshalling a decoded map does not fail.\<close>

definition command_of :: "time \<Rightarrow> string \<Rightarrow> commandRequest \<Rightarrow> Command" where
  "command_of now robotID req =
     \<lparr>c_RobotID = robotID, c_Command = cq_Command req,
      c_Payload = (if cq_Payload req \<noteq> [] then RawJson (JObj (marshal_map (cq_Payload req))) else RawEmpty),
      c_Timestamp = now, c_OperatorID = cq_OperatorID req\<rparr>"

text \<open>The idempotency key, when the request has one and keys are stored: whether to go on.\<close>

definition reserve_key :: "api_env \<Rightarrow> request \<Rightarrow> string \<Rightarrow> server \<Rightarrow> bool \<times> server" where
  "reserve_key ev r robotID s =
     (let idempotencyKey = TrimSpace (rq_header r ''Idempotency-Key'') in
      case (idempotencyKey \<noteq> [], sv_idempotency s) of
        (True, Some st) \<Rightarrow>
          (let (reserved, st') = Reserve (ev_now ev 0) idempotencyKey robotID st
           in (reserved, s\<lparr>sv_idempotency := Some st'\<rparr>))
      | _ \<Rightarrow> (True, s))"

text \<open>To the queue of the robot's edge, or to the bus; \<open>None\<close> when the bus does not take it.\<close>

definition deliver :: "api_env \<Rightarrow> Robot \<Rightarrow> string \<Rightarrow> Command \<Rightarrow> server \<Rightarrow> server option" where
  "deliver ev robot robotID cmd s =
     (case (r_EdgeID robot \<noteq> [], sv_edges s) of
        (True, Some es) \<Rightarrow>
          Some (s\<lparr>sv_edges := Some (EnqueueCommand (ev_now ev 2) (ev_uuid ev 1) (r_EdgeID robot) robotID cmd es)\<rparr>)
      | _ \<Rightarrow>
          (let (ok, out) = PublishCommand (ev_nats ev) cmd (sv_bus s)
           in if ok then Some (s\<lparr>sv_bus := out\<rparr>) else None))"

definition command_details :: "string \<Rightarrow> bool \<Rightarrow> details" where
  "command_details command allowed = DetJson (JObj [(''allowed'', JBool allowed), (''command'', JStr command)])"

definition EventSafeStop :: string where
  "EventSafeStop = ''safe_stop''"

definition notify_safe_stop :: "string \<Rightarrow> string \<Rightarrow> server \<Rightarrow> server" where
  "notify_safe_stop robotID operatorID s =
     (let data = [(''robot_id'', EvStr robotID), (''operator_id'', EvStr (auditActor operatorID))] in
      s\<lparr>sv_webhooks := map_option (\<lambda>es. es @ [(EventSafeStop, data)]) (sv_webhooks s),
        sv_broadcasts := map_option (\<lambda>es. es @ [(EventSafeStop, data)]) (sv_broadcasts s)\<rparr>)"

definition sendCommand :: handler where
  "sendCommand ev r s = with_tenant r s (\<lambda>tenantID.
     let robotID = rq_var r ''id'' in
     case registry_Get (sv_registry s) robotID of
       None \<Rightarrow> (Error 404 ''not found'', s)
     | Some robot \<Rightarrow>
         if foreign tenantID (r_TenantID robot) then (Error 404 ''not found'', s)
         else let (go_on, s1) = reserve_key ev r robotID s in
           if \<not> go_on then (Json 202 PAccepted, s1)
           else let (ok, req) = unmarshal (command_request_fields (ev_float ev)) (rq_body r) command_request_zero in
             if \<not> ok then (Error 400 ''bad request'', s1)
             else let cmd = command_of (ev_now ev 1) robotID req in
               if \<not> SafetyAllow cmd
               then (Error 403 ''command not allowed'',
                     api_audit ev 2 (auditActor (cq_OperatorID req)) ''command'' ''robot'' robotID (r_TenantID robot)
                       (command_details (cq_Command req) False) s1)
               else case deliver ev robot robotID cmd s1 of
                   None \<Rightarrow> (Error 500 ''internal error'', s1)
                 | Some s2 \<Rightarrow>
                     let s3 = api_audit ev 3 (auditActor (cq_OperatorID req)) ''command'' ''robot'' robotID
                                (r_TenantID robot) (command_details (cq_Command req) True) s2;
                         s4 = (if cq_Command req = ''safe_stop'' then notify_safe_stop robotID (cq_OperatorID req) s3
                               else s3)
                     in (Json 202 PAccepted, s4))"

section \<open>Edges\<close>

definition listEdges :: handler where
  "listEdges ev r s = with_tenant r s (\<lambda>tenantID.
     case sv_edges s of
       None \<Rightarrow> (Json 200 (PEdges []), s)
     | Some es \<Rightarrow>
         let list = ListEdges (ev_edges ev) es in
         if tenantID \<noteq> []
         then let edgeIDs = filter (\<lambda>i. i \<noteq> [])
                    (map r_EdgeID (registry_ListByTenant (ev_robots ev) tenantID (sv_registry s)))
              in (Json 200 (PEdges (filter (\<lambda>e. e_ID e \<in> set edgeIDs) list)), s)
         else (Json 200 (PEdges list), s))"

definition getEdge :: handler where
  "getEdge ev r s = with_tenant r s (\<lambda>tenantID.
     case sv_edges s of
       None \<Rightarrow> (Error 503 ''edges not configured'', s)
     | Some es \<Rightarrow>
         let i = rq_var r ''id'' in
         if i = [] then (Error 400 ''id required'', s)
         else case GetEdge es i of
             None \<Rightarrow> (Error 404 ''not found'', s)
           | Some e \<Rightarrow>
               if tenantID \<noteq> [] \<and> \<not> list_ex (\<lambda>robot. r_EdgeID robot = i)
                    (registry_ListByTenant (ev_robots ev) tenantID (sv_registry s))
               then (Error 404 ''not found'', s)
               else (Json 200 (PEdge e), s))"

record heartbeatRequest =
  hb_EdgeID :: string
  hb_Timestamp :: string
  hb_Robots :: "string list"

definition heartbeat_fields :: "heartbeatRequest struct_fields" where
  "heartbeat_fields =
     [(''edge_id'', decode_string (\<lambda>v q. q\<lparr>hb_EdgeID := v\<rparr>)),
      (''timestamp'', decode_string (\<lambda>v q. q\<lparr>hb_Timestamp := v\<rparr>)),
      (''robots'', decode_strings (\<lambda>v q. q\<lparr>hb_Robots := v\<rparr>))]"

definition edgeHeartbeat :: handler where
  "edgeHeartbeat ev r s =
     (case sv_edges s of
        None \<Rightarrow> (Error 503 ''edges not configured'', s)
      | Some es \<Rightarrow>
          let edgeID = rq_var r ''id'' in
          if edgeID = [] then (Error 400 ''id required'', s)
          else let (ok, req) = unmarshal heartbeat_fields (rq_body r) \<lparr>hb_EdgeID = [], hb_Timestamp = [], hb_Robots = []\<rparr> in
            if \<not> ok then (Error 400 ''bad request'', s)
            else let now = ev_now ev 0;
                     e = \<lparr>e_ID = edgeID, e_LastHeartbeat = now, e_ConfigJSON = [], e_CreatedAt = now, e_UpdatedAt = now\<rparr>;
                     es1 = UpsertEdge (ev_now ev 1) e es;
                     (pending, es2) = FetchAndAckPendingCommands (ev_now ev 2) edgeID es1
                 in (Json 200 (PPending pending), s\<lparr>sv_edges := Some es2\<rparr>))"

section \<open>Sorted names and the decoder\<close>

text \<open>
  Upper-case letters sort before lower-case ones: a name that only folds to a lower-case name comes before it.
  So in a marshalled map the decoder of the safety filter meets the exact name last.
\<close>

lemma lower_char_le: "c \<le> lower_char c"
proof -
  have "of_char (char_of (of_char c + 32 :: nat)) = (of_char c + 32 :: nat)" if "of_char c \<le> (90 :: nat)"
    using that by (simp add: take_bit_eq_mod)
  then show ?thesis by (simp add: lower_char_def less_eq_char_def)
qed

lemma fold_before: "ToLower k' = k \<Longrightarrow> k' \<noteq> k \<Longrightarrow> k' < k"
proof (induction k' arbitrary: k)
  case Nil
  then show ?case by (simp add: ToLower_def)
next
  case (Cons c cs)
  then obtain d ds where k: "k = d # ds" and d: "d = lower_char c" and ds: "ToLower cs = ds"
    by (auto simp: ToLower_def)
  show ?case
  proof (cases "c = d")
    case True
    with Cons.IH [OF ds] Cons.prems(2) k show ?thesis by simp
  next
    case False
    with lower_char_le [of c] d k show ?thesis by (simp add: order.strict_iff_order)
  qed
qed

lemma marshal_map_sorted: "sorted_wrt (<) (map fst (marshal_map kvs))"
proof -
  have "map fst (marshal_map kvs) = sort (remdups (map fst kvs))"
    by (simp add: marshal_map_def comp_def)
  then show ?thesis by (simp add: strict_sorted_iff)
qed

lemma marshal_map_split:
  assumes "map_of (rev (marshal_map kvs)) n = Some j" "ToLower n = n"
  shows "\<exists>xs ys. marshal_map kvs = xs @ (n, j) # ys \<and> (\<forall>(k, w) \<in> set ys. \<not> EqualFold n k)"
proof -
  have "(n, j) \<in> set (marshal_map kvs)" using map_of_SomeD [OF assms(1)] by simp
  then obtain xs ys where split: "marshal_map kvs = xs @ (n, j) # ys" by (meson split_list)
  have "n < k" if "(k, w) \<in> set ys" for k w
    using marshal_map_sorted [of kvs] that by (force simp: split sorted_wrt_append)
  moreover have "k \<le> n" if "EqualFold n k" for k
    using fold_before [of k n] that assms(2) by (cases "k = n") (auto simp: EqualFold_def)
  ultimately have "\<forall>(k, w) \<in> set ys. \<not> EqualFold n k" by (auto simp: less_le_not_le)
  with split show ?thesis by blast
qed

text \<open>
  A number field whose name is met last keeps that value: \<open>n\<close> is the name, \<open>upd\<close> and \<open>g\<close> write and read the field.
\<close>

lemma decode_members_keep:
  assumes "\<forall>k d v s. \<not> EqualFold n k \<longrightarrow> find_field fs k = Some d \<longrightarrow> g (snd (d v s)) = g s"
    and "\<forall>(k, w) \<in> set ys. \<not> EqualFold n k"
  shows "g (snd (decode_members fs ys s)) = g s"
  using assms(2)
proof (induction ys arbitrary: s)
  case Nil
  then show ?case by simp
next
  case (Cons kv ys)
  obtain k v where kv: "kv = (k, v)" by fastforce
  with Cons.prems have k: "\<not> EqualFold n k" by simp
  show ?case
  proof (cases "find_field fs k")
    case None
    with Cons kv show ?thesis by simp
  next
    case (Some d)
    have "g (snd (d v s)) = g s" using assms(1) k Some by blast
    then show ?thesis using Cons.IH [of "snd (d v s)"] Cons.prems Some kv by (simp add: split_beta Let_def)
  qed
qed

lemma decode_members_last:
  assumes "find_field fs n = Some (decode_float upd)" "\<forall>v s. g (upd v s) = v"
    and keep: "\<forall>k d v s. \<not> EqualFold n k \<longrightarrow> find_field fs k = Some d \<longrightarrow> g (snd (d v s)) = g s"
    and ok: "fst (decode_members fs (xs @ (n, j) # ys) s)" and num: "json_number j = Some v"
    and later: "\<forall>(k, w) \<in> set ys. \<not> EqualFold n k"
  shows "g (snd (decode_members fs (xs @ (n, j) # ys) s)) = v"
proof -
  let ?s = "snd (decode_members fs xs s)"
  have d: "decode_float upd j ?s = (True, upd v ?s)"
    using ok num assms(1) by (cases j) (auto simp: decode_members_append split_beta Let_def split: if_splits)
  then show ?thesis
    using decode_members_keep [OF keep later, of "upd v ?s"] assms(1,2)
    by (simp add: decode_members_append split_beta Let_def)
qed

text \<open>The velocities under the exact names are within the limits.\<close>

definition vel_within :: "(string \<times> json) list \<Rightarrow> bool" where
  "vel_within kvs \<longleftrightarrow>
     (case read_member kvs ''linear_x'' of None \<Rightarrow> True | Some v \<Rightarrow> \<bar>v\<bar> \<le> 3 / 2)
     \<and> (case read_member kvs ''linear_y'' of None \<Rightarrow> True | Some v \<Rightarrow> \<bar>v\<bar> \<le> 3 / 2)
     \<and> (case read_member kvs ''angular_z'' of None \<Rightarrow> True | Some v \<Rightarrow> \<bar>v\<bar> \<le> 2)"

lemma vel_names_lower:
  "ToLower ''linear_x'' = ''linear_x''" "ToLower ''linear_y'' = ''linear_y''" "ToLower ''angular_z'' = ''angular_z''"
  by (simp_all add: ToLower_def lower_char_def)

lemma vel_names_folded:
  "EqualFold ''linear_x'' k \<Longrightarrow> EqualFold ''linear_y'' k \<Longrightarrow> False"
  "EqualFold ''linear_x'' k \<Longrightarrow> EqualFold ''angular_z'' k \<Longrightarrow> False"
  "EqualFold ''linear_y'' k \<Longrightarrow> EqualFold ''angular_z'' k \<Longrightarrow> False"
  using vel_keys_distinct by (auto dest: EqualFold_sym EqualFold_trans)

lemma decode_float_keep:
  "\<forall>v s. g (upd v s) = g s \<Longrightarrow> g (snd (decode_float upd j s)) = g s"
  by (cases j) auto

lemma marshalled_velocity:
  assumes ok: "fst (decode_members cmd_vel_fields (marshal_map m) cmd_vel_zero)"
    and v: "read_member (marshal_map m) n = Some v"
    and n: "ToLower n = n" "find_field cmd_vel_fields n = Some (decode_float upd)" "\<forall>v s. g (upd v s) = v"
    and keep: "\<forall>k d v s. \<not> EqualFold n k \<longrightarrow> find_field cmd_vel_fields k = Some d \<longrightarrow> g (snd (d v s)) = g s"
  shows "g (snd (decode_members cmd_vel_fields (marshal_map m) cmd_vel_zero)) = v"
proof -
  obtain j where j: "map_of (rev (marshal_map m)) n = Some j" "json_number j = Some v"
    using v by (auto simp: read_member_def bind_eq_Some_conv)
  obtain xs ys where split: "marshal_map m = xs @ (n, j) # ys" "\<forall>(k, w) \<in> set ys. \<not> EqualFold n k"
    using marshal_map_split [OF j(1) n(1)] by blast
  show ?thesis
    using decode_members_last [OF n(2,3) keep ok [unfolded split(1)] j(2) split(2)] split(1) by simp
qed

lemma marshalled_cmd_vel_within:
  assumes "validateCmdVelPayload (RawJson (JObj (marshal_map m)))"
  shows "vel_within (marshal_map m)"
proof -
  obtain p where p: "decode_members cmd_vel_fields (marshal_map m) cmd_vel_zero = (True, p)"
    and lim: "\<bar>cv_LinearX p\<bar> \<le> 3 / 2" "\<bar>cv_LinearY p\<bar> \<le> 3 / 2" "\<bar>cv_AngularZ p\<bar> \<le> 2"
    using assms by (auto simp: validateCmdVelPayload_iff)
  then have ok: "fst (decode_members cmd_vel_fields (marshal_map m) cmd_vel_zero)" by simp
  have x: "read_member (marshal_map m) ''linear_x'' = Some v \<Longrightarrow> cv_LinearX p = v" for v
    using marshalled_velocity [OF ok _ vel_names_lower(1), where g = cv_LinearX and upd = "\<lambda>v s. s\<lparr>cv_LinearX := v\<rparr>"]
    by (auto simp: p find_field_vel decode_float_keep split: if_splits)
  have y: "read_member (marshal_map m) ''linear_y'' = Some v \<Longrightarrow> cv_LinearY p = v" for v
    using marshalled_velocity [OF ok _ vel_names_lower(2), where g = cv_LinearY and upd = "\<lambda>v s. s\<lparr>cv_LinearY := v\<rparr>"]
      vel_keys_distinct
    by (auto simp: p find_field_vel decode_float_keep split: if_splits)
  have z: "read_member (marshal_map m) ''angular_z'' = Some v \<Longrightarrow> cv_AngularZ p = v" for v
    using marshalled_velocity [OF ok _ vel_names_lower(3), where g = cv_AngularZ and upd = "\<lambda>v s. s\<lparr>cv_AngularZ := v\<rparr>"]
      vel_keys_distinct
    by (auto simp: p find_field_vel decode_float_keep split: if_splits)
  show ?thesis using lim x y z by (auto simp: vel_within_def split: option.splits)
qed

section \<open>What sending a command does\<close>

text \<open>\<open>s'\<close> has one more command than \<open>s\<close>: at the end of the queue of the robot's edge, or on the bus.\<close>

definition sent :: "Robot \<Rightarrow> Command \<Rightarrow> server \<Rightarrow> server \<Rightarrow> bool" where
  "sent robot cmd s s' \<longleftrightarrow>
     (case (r_EdgeID robot \<noteq> [], sv_edges s) of
        (True, Some es) \<Rightarrow> sv_bus s' = sv_bus s \<and> (\<exists>es'. sv_edges s' = Some es'
          \<and> (\<forall>e. edge_queue es' e = edge_queue es e @ (if e = r_EdgeID robot then [cmd] else [])))
      | _ \<Rightarrow> sv_edges s' = sv_edges s \<and> sv_bus s' = sv_bus s @ [cmd])"

text \<open>The audit log, where there is one, has one more entry, which records the decision.\<close>

definition audited :: "string \<Rightarrow> string \<Rightarrow> bool \<Rightarrow> server \<Rightarrow> server \<Rightarrow> bool" where
  "audited robotID command allowed s s' \<longleftrightarrow>
     (case sv_audit s of
        None \<Rightarrow> sv_audit s' = None
      | Some es \<Rightarrow> (\<exists>e. sv_audit s' = Some (es @ [e]) \<and> a_Action e = ''command'' \<and> a_Resource e = ''robot''
          \<and> a_ResourceID e = robotID \<and> a_Details e = command_details command allowed))"

definition request_key :: "request \<Rightarrow> string" where
  "request_key r = TrimSpace (rq_header r ''Idempotency-Key'')"

definition key_taken :: "string \<Rightarrow> server \<Rightarrow> bool" where
  "key_taken k s \<longleftrightarrow> k \<noteq> [] \<and> (case sv_idempotency s of None \<Rightarrow> False | Some st \<Rightarrow> st k \<noteq> None)"

lemma reserve_key_cases:
  obtains (duplicate) "key_taken (request_key r) s" "reserve_key ev r robotID s = (False, s)"
  | (fresh) s1 where "\<not> key_taken (request_key r) s" "reserve_key ev r robotID s = (True, s1)"
      "s1 = s\<lparr>sv_idempotency := sv_idempotency s1\<rparr>"
      "request_key r \<noteq> [] \<and> sv_idempotency s \<noteq> None \<longrightarrow> key_taken (request_key r) s1"
proof (cases "sv_idempotency s")
  case None
  then show ?thesis by (intro fresh [of s]) (auto simp: reserve_key_def key_taken_def Let_def split: bool.split)
next
  case (Some st)
  show ?thesis
  proof (cases "request_key r = []")
    case True
    with Some show ?thesis by (intro fresh [of s]) (auto simp: reserve_key_def key_taken_def request_key_def)
  next
    case key: False
    show ?thesis
    proof (cases "st (request_key r)")
      case None
      with Some key show ?thesis
        by (intro fresh [of "s\<lparr>sv_idempotency := Some (st(request_key r \<mapsto>
              \<lparr>me_robotID = robotID, me_createdAt = ev_now ev 0\<rparr>))\<rparr>"])
          (auto simp: reserve_key_def key_taken_def Reserve_def request_key_def)
    next
      case (Some e)
      with \<open>sv_idempotency s = Some st\<close> key show ?thesis
        by (intro duplicate) (auto simp: reserve_key_def key_taken_def Reserve_def request_key_def)
    qed
  qed
qed

lemma deliver_sent:
  assumes "deliver ev robot robotID cmd s = Some s2"
  shows "sent robot cmd s s2 \<and> s2 = s\<lparr>sv_bus := sv_bus s2, sv_edges := sv_edges s2\<rparr>"
proof (cases "r_EdgeID robot \<noteq> [] \<and> sv_edges s \<noteq> None")
  case True
  then obtain es where es: "sv_edges s = Some es" by blast
  with True assms have "s2 = s\<lparr>sv_edges := Some (EnqueueCommand (ev_now ev 2) (ev_uuid ev 1) (r_EdgeID robot) robotID cmd es)\<rparr>"
    by (simp add: deliver_def)
  with es True show ?thesis by (simp add: sent_def eq.queue_enqueue eq_commute)
next
  case False
  with assms have "s2 = s\<lparr>sv_bus := sv_bus s @ [cmd]\<rparr>"
    by (auto simp: deliver_def PublishCommand_def split: if_splits option.splits bool.splits)
  with False show ?thesis by (auto simp: sent_def split: option.splits bool.splits)
qed

lemma api_audit_audited:
  "audited rid c b s (api_audit ev n actor ''command'' ''robot'' rid t (command_details c b) s)"
  by (auto simp: audited_def api_audit_def audit_Append_def audit_entry_of_def Let_def split: option.split)

lemma notify_frames [simp]:
  "sv_bus (notify_safe_stop a b s) = sv_bus s" "sv_edges (notify_safe_stop a b s) = sv_edges s"
  "sv_audit (notify_safe_stop a b s) = sv_audit s" "sv_idempotency (notify_safe_stop a b s) = sv_idempotency s"
  "sv_registry (notify_safe_stop a b s) = sv_registry s" "sv_tasks (notify_safe_stop a b s) = sv_tasks s"
  "sv_tenants (notify_safe_stop a b s) = sv_tenants s" "sv_catalog (notify_safe_stop a b s) = sv_catalog s"
  "sv_coordinator (notify_safe_stop a b s) = sv_coordinator s" "sv_states (notify_safe_stop a b s) = sv_states s"
  "sv_keys (notify_safe_stop a b s) = sv_keys s"
  by (simp_all add: notify_safe_stop_def Let_def)

lemma sent_frame:
  assumes "sent robot cmd s1 s2" "sv_bus s = sv_bus s1" "sv_edges s = sv_edges s1" "sv_bus s' = sv_bus s2" "sv_edges s' = sv_edges s2"
  shows "sent robot cmd s s'"
  using assms unfolding sent_def by (auto split: option.splits bool.splits)

lemma sent_unique: "sent robot a s s' \<Longrightarrow> sent robot b s s' \<Longrightarrow> a = b"
  unfolding sent_def by (auto split: option.splits bool.splits if_splits)

lemma audited_frame:
  assumes "audited rid c b s1 s2" "sv_audit s = sv_audit s1" "sv_audit s' = sv_audit s2"
  shows "audited rid c b s s'"
  using assms unfolding audited_def by (auto split: option.splits)

text \<open>
  The cases of \<^verbatim>\<open>sendCommand\<close>: refused before the key is reserved, a duplicate, refused after it, and sent.
\<close>

lemma sendCommand_cases:
  obtains (early) st m where "sendCommand ev r s = (Error st m, s)"
      "st \<noteq> 500" "m \<noteq> ''command not allowed''"
  | (duplicate) "sendCommand ev r s = (Json 202 PAccepted, s)" "key_taken (request_key r) s"
  | (bad) st m s1 where "sendCommand ev r s = (Error st m, s1)" "m \<noteq> ''command not allowed''"
      "\<not> key_taken (request_key r) s" "s1 = s\<lparr>sv_idempotency := sv_idempotency s1\<rparr>"
      "request_key r \<noteq> [] \<and> sv_idempotency s \<noteq> None \<longrightarrow> key_taken (request_key r) s1"
      "\<exists>t robot. tenantOrError r = Inr t \<and> sv_registry s (rq_var r ''id'') = Some robot \<and> \<not> foreign t (r_TenantID robot)"
  | (refused) req s1 where "sendCommand ev r s = (Error 403 ''command not allowed'', s1)"
      "\<not> SafetyAllow (command_of (ev_now ev 1) (rq_var r ''id'') req)" "\<not> key_taken (request_key r) s"
      "s1 = s\<lparr>sv_idempotency := sv_idempotency s1, sv_audit := sv_audit s1\<rparr>"
      "audited (rq_var r ''id'') (cq_Command req) False s s1"
      "request_key r \<noteq> [] \<and> sv_idempotency s \<noteq> None \<longrightarrow> key_taken (request_key r) s1"
      "\<exists>t robot. tenantOrError r = Inr t \<and> sv_registry s (rq_var r ''id'') = Some robot \<and> \<not> foreign t (r_TenantID robot)"
  | (sent) t robot req s' where "sendCommand ev r s = (Json 202 PAccepted, s')" "tenantOrError r = Inr t"
      "sv_registry s (rq_var r ''id'') = Some robot" "\<not> foreign t (r_TenantID robot)"
      "\<not> key_taken (request_key r) s"
      "SafetyAllow (command_of (ev_now ev 1) (rq_var r ''id'') req)"
      "sent robot (command_of (ev_now ev 1) (rq_var r ''id'') req) s s'"
      "audited (rq_var r ''id'') (cq_Command req) True s s'"
      "request_key r \<noteq> [] \<and> sv_idempotency s \<noteq> None \<longrightarrow> key_taken (request_key r) s'"
      "sv_registry s' = sv_registry s \<and> sv_tasks s' = sv_tasks s \<and> sv_tenants s' = sv_tenants s \<and> sv_catalog s' = sv_catalog s
       \<and> sv_keys s' = sv_keys s"
      "sv_idempotency s' = sv_idempotency (snd (reserve_key ev r (rq_var r ''id'') s))"
proof (cases "tenantOrError r")
  case (Inl e)
  then obtain st m where "e = Error st m" "st = 401 \<or> st = 403" "m \<noteq> ''command not allowed''"
    by (auto simp: tenantOrError_def tenantFromRequest_def split: sum.splits option.splits if_splits)
  with Inl early show ?thesis by (auto simp: sendCommand_def with_tenant_def)
next
  case t: (Inr t)
  show ?thesis
  proof (cases "sv_registry s (rq_var r ''id'')")
    case None
    with t early show ?thesis by (simp add: sendCommand_def with_tenant_def registry_Get_def)
  next
    case robot: (Some robot)
    show ?thesis
    proof (cases "foreign t (r_TenantID robot)")
      case True
      with t robot early show ?thesis by (simp add: sendCommand_def with_tenant_def registry_Get_def)
    next
      case own: False
      show ?thesis
      proof (cases rule: reserve_key_cases [of r s ev "rq_var r ''id''"])
        case duplicate
        with t robot own show ?thesis
          by (intro that(2)) (simp_all add: sendCommand_def with_tenant_def registry_Get_def)
      next
        case (fresh s1)
        obtain ok req where req: "unmarshal (command_request_fields (ev_float ev)) (rq_body r) command_request_zero = (ok, req)"
          by fastforce
        let ?cmd = "command_of (ev_now ev 1) (rq_var r ''id'') req"
        note unfold = sendCommand_def with_tenant_def registry_Get_def t robot own fresh(2) req
        have who: "\<exists>t robot. tenantOrError r = Inr t \<and> sv_registry s (rq_var r ''id'') = Some robot \<and> \<not> foreign t (r_TenantID robot)"
          using t robot own by blast
        consider "\<not> ok" | "ok" "\<not> SafetyAllow ?cmd" | "ok" "SafetyAllow ?cmd" "deliver ev robot (rq_var r ''id'') ?cmd s1 = None"
          | s2 where "ok" "SafetyAllow ?cmd" "deliver ev robot (rq_var r ''id'') ?cmd s1 = Some s2"
          by (cases "deliver ev robot (rq_var r ''id'') ?cmd s1") auto
        then show ?thesis
        proof cases
          case 1
          with fresh who show ?thesis by (intro that(3) [of 400 "''bad request''" s1]) (simp_all add: unfold)
        next
          case 2
          have a: "audited (rq_var r ''id'') c b s1 x \<longleftrightarrow> audited (rq_var r ''id'') c b s x" for c b x
            by (subst fresh(3)) (simp add: audited_def)
          let ?s1 = "api_audit ev 2 (auditActor (cq_OperatorID req)) ''command'' ''robot'' (rq_var r ''id'')
            (r_TenantID robot) (command_details (cq_Command req) False) s1"
          have f: "?s1 = s\<lparr>sv_idempotency := sv_idempotency ?s1, sv_audit := sv_audit ?s1\<rparr>"
            by (subst (1 2 3) fresh(3)) (auto simp: api_audit_def split: option.split)
          have k: "key_taken (request_key r) ?s1 = key_taken (request_key r) s1" by (simp add: key_taken_def)
          have aud: "audited (rq_var r ''id'') (cq_Command req) False s ?s1" using api_audit_audited a by blast
          show ?thesis using 2 f who fresh(1,4) k aud
            by (intro that(4) [of ?s1 req]) (simp_all add: unfold)
        next
          case 3
          with fresh who show ?thesis by (intro that(3) [of 500 "''internal error''" s1]) (simp_all add: unfold)
        next
          case (4 s2)
          let ?s3 = "api_audit ev 3 (auditActor (cq_OperatorID req)) ''command'' ''robot'' (rq_var r ''id'')
            (r_TenantID robot) (command_details (cq_Command req) True) s2"
          let ?s4 = "if cq_Command req = ''safe_stop'' then notify_safe_stop (rq_var r ''id'') (cq_OperatorID req) ?s3 else ?s3"
          have d: "sent robot ?cmd s1 s2" "s2 = s1\<lparr>sv_bus := sv_bus s2, sv_edges := sv_edges s2\<rparr>"
            using deliver_sent [OF 4(3)] by auto
          have se: "sv_edges s1 = sv_edges s" "sv_bus s1 = sv_bus s" "sv_audit s1 = sv_audit s"
            "sv_registry s1 = sv_registry s" "sv_tasks s1 = sv_tasks s" "sv_tenants s1 = sv_tenants s" "sv_catalog s1 = sv_catalog s"
            "sv_keys s1 = sv_keys s"
            by (subst fresh(3), simp)+
          have s2: "sv_audit s2 = sv_audit s1" "sv_idempotency s2 = sv_idempotency s1" "sv_registry s2 = sv_registry s1"
            "sv_tasks s2 = sv_tasks s1" "sv_tenants s2 = sv_tenants s1" "sv_catalog s2 = sv_catalog s1"
            "sv_keys s2 = sv_keys s1"
            by (subst d(2), simp)+
          have sent: "sent robot ?cmd s ?s4" by (rule sent_frame [OF d(1)]) (simp_all add: se)
          have aud: "audited (rq_var r ''id'') (cq_Command req) True s ?s4"
            by (rule audited_frame [OF api_audit_audited [of _ _ _ s2 ev 3 "auditActor (cq_OperatorID req)" "r_TenantID robot"]])
              (simp_all add: s2 se)
          have k: "key_taken (request_key r) ?s4 = key_taken (request_key r) s1" using s2(2) by (simp add: key_taken_def)
          have "sv_idempotency ?s4 = sv_idempotency (snd (reserve_key ev r (rq_var r ''id'') s))" using s2(2) fresh(2) by simp
          then show ?thesis
            using 4 sent aud k fresh(1,4) t robot own s2 se
            by (intro that(5) [of ?s4 t robot req]) (simp_all add: unfold Let_def)
        qed
      qed
    qed
  qed
qed

section \<open>Properties\<close>

text \<open>
  C9. What \<^verbatim>\<open>sendCommand\<close> does, whole. It refuses the request before the key is reserved, and nothing changes. Or it refuses it
  afterwards, for its body, the filter or the bus: then nothing is sent, and all that changes is that the key of the request, which was free,
  is now taken, and that the audit log has a record if the filter rejected the command. Or it accepts a retry, the key of
  which is taken, and nothing changes. Or it accepts and exactly one command is sent, to the robot of the path, which is
  registered and belongs to the tenant of the caller; this command passed the safety filter and is recorded in the log, and the
  key, which was free, is taken.
\<close>

theorem sendCommand_outcome:
  "(\<exists>st m. sendCommand ev r s = (Error st m, s) \<and> m \<noteq> ''command not allowed'')
   \<or> (\<exists>st m s'. sendCommand ev r s = (Error st m, s') \<and> \<not> key_taken (request_key r) s
      \<and> (request_key r \<noteq> [] \<and> sv_idempotency s \<noteq> None \<longrightarrow> key_taken (request_key r) s')
      \<and> (if m = ''command not allowed''
         then s' = s\<lparr>sv_idempotency := sv_idempotency s', sv_audit := sv_audit s'\<rparr>
           \<and> (\<exists>command. audited (rq_var r ''id'') command False s s')
         else s' = s\<lparr>sv_idempotency := sv_idempotency s'\<rparr>))
   \<or> sendCommand ev r s = (Json 202 PAccepted, s) \<and> key_taken (request_key r) s
   \<or> (\<exists>s' t robot cmd. sendCommand ev r s = (Json 202 PAccepted, s') \<and> tenantOrError r = Inr t
      \<and> sv_registry s (rq_var r ''id'') = Some robot \<and> \<not> foreign t (r_TenantID robot)
      \<and> c_RobotID cmd = rq_var r ''id'' \<and> SafetyAllow cmd \<and> sent robot cmd s s'
      \<and> audited (rq_var r ''id'') (c_Command cmd) True s s'
      \<and> \<not> key_taken (request_key r) s \<and> (request_key r \<noteq> [] \<and> sv_idempotency s \<noteq> None \<longrightarrow> key_taken (request_key r) s'))"
proof (cases rule: sendCommand_cases [of ev r s])
  case (early st m)
  then show ?thesis by blast
next
  case duplicate
  then show ?thesis by blast
next
  case (bad st m s1)
  then show ?thesis by (intro disjI2 [OF disjI1] exI [of _ st] exI [of _ m] exI [of _ s1]) simp
next
  case (refused req s1)
  then show ?thesis
    by (intro disjI2 [OF disjI1] exI [of _ 403] exI [of _ "''command not allowed''"] exI [of _ s1]) auto
next
  case (sent t robot req s')
  moreover have "c_RobotID (command_of (ev_now ev 1) i req) = i" "c_Command (command_of (ev_now ev 1) i req) = cq_Command req" for i
    by (simp_all add: command_of_def)
  ultimately show ?thesis by metis
qed

definition example_command :: "(string \<times> json) list \<Rightarrow> request" where
  "example_command kvs = example_request (operator_of ''acme'') [(''id'', ''r1'')]
     (RawJson (JObj [(''command'', JStr ''cmd_vel''), (''payload'', JObj kvs), (''operator_id'', JStr ''op'')]))"

definition example_payload :: "(string \<times> json) list" where
  "example_payload = [(''linear_x'', JInt 1), (''Linear_X'', JInt 100)]"

lemmas example_command_defs = example_command_def example_payload_def example_request_def example_server_def
  example_robot_def operator_of_def example_env_def

lemma fold_letters:
  "lower_char CHR ''L'' = CHR ''l''" "lower_char CHR ''X'' = CHR ''x''"
  by code_simp+

lemma example_marshal:
  "marshal_map [(''linear_x'', JInt 1), (''Linear_X'', JInt 100)] = [(''Linear_X'', JInt 100), (''linear_x'', JInt 1)]"
  by code_simp

definition example_req :: commandRequest where
  "example_req = \<lparr>cq_Command = ''cmd_vel'', cq_Payload = [(''linear_x'', JInt 1), (''Linear_X'', JInt 100)], cq_OperatorID = ''op''\<rparr>"

lemma example_decode:
  "unmarshal (command_request_fields real_of_int) (rq_body (example_command example_payload)) command_request_zero = (True, example_req)"
  by (simp add: example_command_defs command_request_fields_def find_field_def num_json_def float_finite_def command_request_zero_def
     example_req_def)

lemma example_payload_allowed: "SafetyAllow (command_of now ''r1'' example_req)"
  by (simp add: command_of_def example_req_def SafetyAllow_def validateCmdVelPayload_def example_marshal find_field_vel
      EqualFold_def ToLower_def fold_letters float_finite_def cmd_vel_zero_def velocity_limits)
    (simp add: lower_char_def)

lemma example_key: "request_key (example_command kvs) = ''key1''"
  by (simp add: request_key_def example_command_defs TrimSpace_def is_space_def)

lemma example_sent:
  "sendCommand (example_env ok) (example_command example_payload) example_server =
   (if ok then (Json 202 PAccepted, (api_audit (example_env True) 3 ''op'' ''command'' ''robot'' ''r1'' ''acme'' (command_details ''cmd_vel'' True)
       (example_server\<lparr>sv_idempotency := Some [''key1'' \<mapsto> \<lparr>me_robotID = ''r1'', me_createdAt = 100\<rparr>],
           sv_bus := [command_of 101 ''r1'' example_req]\<rparr>)))
    else (Error 500 ''internal error'', example_server\<lparr>sv_idempotency := Some [''key1'' \<mapsto> \<lparr>me_robotID = ''r1'', me_createdAt = 100\<rparr>]\<rparr>))"
proof -
  have c: "confined (example_command example_payload) ''acme''" by (simp add: example_command_def operator_confined)
  have v: "rq_var (example_command example_payload) ''id'' = ''r1''" by (simp add: example_command_defs)
  have r: "registry_Get (sv_registry example_server) ''r1'' = Some example_robot" by (simp add: example_server_def registry_Get_def)
  have k: "reserve_key (example_env ok) (example_command example_payload) ''r1'' example_server =
    (True, example_server\<lparr>sv_idempotency := Some [''key1'' \<mapsto> \<lparr>me_robotID = ''r1'', me_createdAt = 100\<rparr>]\<rparr>)"
    using example_key [of example_payload] by (simp add: reserve_key_def request_key_def example_server_def Reserve_def example_env_def)
  have f: "ev_float (example_env ok) = real_of_int" "ev_now (example_env ok) 1 = 101" by (simp_all add: example_env_def)
  have e: "\<not> foreign ''acme'' (r_TenantID example_robot)" by (simp add: example_robot_def foreign_def)
  have m: "marshal_ok (command_of now ''r1'' example_req)" for now by (simp add: command_of_def example_req_def marshal_ok_def)
  show ?thesis
    by (simp add: sendCommand_def Let_def confined_with_tenant [OF c] v r k f e example_decode example_payload_allowed deliver_def)
      (simp add: example_robot_def example_server_def PublishCommand_def m [unfolded example_req_def] example_env_def example_req_def auditActor_def)
qed

lemma example_sent_it:
  "sent example_robot (command_of 101 ''r1'' example_req) example_server
     (snd (sendCommand (example_env True) (example_command example_payload) example_server))"
  unfolding example_sent sent_def by (auto simp: example_server_def split: bool.split)

theorem sendCommand_outcome_witness:
  "\<exists>cmd. SafetyAllow cmd \<and> sent example_robot cmd example_server
     (snd (sendCommand (example_env True) (example_command example_payload) example_server))"
  using sendCommand_outcome [of "example_env True" "example_command example_payload" example_server] example_sent [of True]
  by (auto simp: key_taken_def example_server_def example_command_defs)

text \<open>
  C10. Velocity limits hold end to end: of every \<^verbatim>\<open>cmd_vel\<close> the handler sends, the values a robot adapter reads
  under the exact names are within the limits, whatever the body of the request. (Marshalling sorts the names,
  so that one that only folds to a velocity's name comes before it and cannot hide it from the filter.)
\<close>

theorem sendCommand_velocities:
  assumes "sent robot cmd s (snd (sendCommand ev r s))" "sv_registry s (rq_var r ''id'') = Some robot"
    and "c_Command cmd = ''cmd_vel''"
  shows "\<exists>kvs. c_Payload cmd = RawJson (JObj kvs) \<and> vel_within kvs"
proof -
  have nochange: "\<not> sent robot cmd s s'" if "sv_bus s' = sv_bus s" "sv_edges s' = sv_edges s" for s'
    using that unfolding sent_def
    by (auto split: option.splits bool.splits)
  show ?thesis
  proof (cases rule: sendCommand_cases [of ev r s])
    case (early st m)
    with nochange assms(1) show ?thesis by simp
  next
    case duplicate
    with nochange assms(1) show ?thesis by simp
  next
    case (bad st m s1)
    have "sv_bus s1 = sv_bus s" "sv_edges s1 = sv_edges s" by (subst bad(4), simp)+
    with nochange bad(1) assms(1) show ?thesis by simp
  next
    case (refused req s1)
    have "sv_bus s1 = sv_bus s" "sv_edges s1 = sv_edges s" by (subst refused(4), simp)+
    with nochange refused(1) assms(1) show ?thesis by simp
  next
    case (sent t robot' req s')
    let ?cmd = "command_of (ev_now ev 1) (rq_var r ''id'') req"
    have "robot' = robot" using sent(3) assms(2) by simp
    with sent(1,7) assms(1) have cmd: "cmd = ?cmd" by (auto intro: sent_unique)
    with assms(3) have vel: "cq_Command req = ''cmd_vel''" by (simp add: command_of_def)
    with sent(6) have v: "validateCmdVelPayload (c_Payload ?cmd)" by (simp add: SafetyAllow_def command_of_def)
    then have "cq_Payload req \<noteq> []" by (auto simp: validateCmdVelPayload_def command_of_def)
    with cmd have p: "c_Payload cmd = RawJson (JObj (marshal_map (cq_Payload req)))" by (simp add: command_of_def)
    with v cmd marshalled_cmd_vel_within show ?thesis by auto
  qed
qed

theorem sendCommand_velocities_witness:
  "sent example_robot (command_of 101 ''r1'' example_req) example_server
     (snd (sendCommand (example_env True) (example_command example_payload) example_server))
   \<and> vel_within [(''Linear_X'', JInt 100), (''linear_x'', JInt 1)]"
proof -
  from sendCommand_velocities [OF example_sent_it] example_sent_it show ?thesis
    by (simp add: example_command_defs command_of_def example_req_def example_marshal)
qed

text \<open>
  C14. A command is sent at most once per idempotency key while the key is kept. After a request that sent a command under a key, on a server with a store of keys,
  whatever keys are reserved and cleaned up meanwhile, as long as no cleanup reaches back to the instant of the reservation
  (the server cleans up keys older than 24 hours, \<^verbatim>\<open>runIdempotencyCleanup\<close> in \<^verbatim>\<open>cmd/control-plane/main.go\<close>), every
  request with the same key, to whichever robot, leaves the server as it is; after a cleanup that does reach back, the key is free again.
\<close>

theorem sendCommand_once:
  assumes "sent robot cmd s s'" "sendCommand ev r s = (Json 202 PAccepted, s')"
    and "request_key r \<noteq> []" "sv_idempotency s \<noteq> None"
    and "sv_idempotency s' = Some st" "sv_idempotency s2 = Some (fold idem_apply ops st)" "list_all (idem_keeps (ev_now ev 0)) ops"
    and "request_key r' = request_key r"
  shows "snd (sendCommand ev' r' s2) = s2
    \<and> (ev_now ev 0 < t - old \<longrightarrow> \<not> key_taken (request_key r') (s2\<lparr>sv_idempotency := Some (Cleanup t old (fold idem_apply ops st))\<rparr>))"
proof -
  have "\<not> sent robot cmd s s"
    unfolding sent_def by (auto split: option.splits bool.splits)
  then have "\<not> key_taken (request_key r) s \<and> sv_idempotency s' = sv_idempotency (snd (reserve_key ev r (rq_var r ''id'') s))"
    using assms(1,2) by (cases rule: sendCommand_cases [of ev r s]) auto
  then have e: "st (request_key r) = Some \<lparr>me_robotID = rq_var r ''id'', me_createdAt = ev_now ev 0\<rparr>"
    using assms(3-5) by (auto simp: reserve_key_def key_taken_def request_key_def Reserve_def split: option.splits)
  from idem_entry_kept [where s = st and k = "request_key r" and as = ops, OF this] assms(7)
  have k: "fold idem_apply ops st (request_key r) = Some \<lparr>me_robotID = rq_var r ''id'', me_createdAt = ev_now ev 0\<rparr>" by simp
  then have "key_taken (request_key r') s2" using assms(3,6,8) by (simp add: key_taken_def)
  then have "snd (sendCommand ev' r' s2) = s2"
    by (cases rule: sendCommand_cases [of ev' r' s2]) auto
  moreover have "\<not> key_taken (request_key r') (s2\<lparr>sv_idempotency := Some (Cleanup t old (fold idem_apply ops st))\<rparr>)" if "ev_now ev 0 < t - old"
    using that k assms(8) by (simp add: key_taken_def Cleanup_def)
  ultimately show ?thesis by blast
qed

text \<open>The same request 24 hours later, after a cleanup and a reservation of another key.\<close>

definition idem_day :: "idem_op list" where
  "idem_day = [OpReserve 102 ''key2'' ''r1'', OpCleanup (100 + 24 * 3600 * second) (24 * 3600 * second)]"

theorem sendCommand_once_witness:
  "\<exists>s' st. sendCommand (example_env True) (example_command example_payload) example_server = (Json 202 PAccepted, s')
    \<and> sv_idempotency s' = Some st
    \<and> snd (sendCommand (example_env True) (example_command example_payload) (s'\<lparr>sv_idempotency := Some (fold idem_apply idem_day st)\<rparr>))
        = s'\<lparr>sv_idempotency := Some (fold idem_apply idem_day st)\<rparr>"
proof -
  let ?s' = "snd (sendCommand (example_env True) (example_command example_payload) example_server)"
  let ?st = "[''key1'' \<mapsto> \<lparr>me_robotID = ''r1'', me_createdAt = 100\<rparr>]"
  have a: "sendCommand (example_env True) (example_command example_payload) example_server = (Json 202 PAccepted, ?s')"
    by (simp add: example_sent)
  have i: "sv_idempotency example_server \<noteq> None" by (simp add: example_server_def)
  have st: "sv_idempotency ?s' = Some ?st" by (simp add: example_sent)
  have ops: "list_all (idem_keeps (ev_now (example_env True) 0)) idem_day" by (simp add: idem_day_def idem_keeps_def example_env_def)
  have s2: "sv_idempotency (?s'\<lparr>sv_idempotency := Some (fold idem_apply idem_day ?st)\<rparr>) = Some (fold idem_apply idem_day ?st)" by simp
  have key: "request_key (example_command example_payload) \<noteq> []" by (simp add: example_key)
  from sendCommand_once [OF example_sent_it a key i st s2 ops HOL.refl, of "example_env True"] a st show ?thesis by blast
qed

text \<open>
  A retry after a failure is lost: the key is reserved before the body is read and the command sent, and is not
  given back, so that when a request fails with an internal error, as it does when the bus does not take the
  command, or is rejected by the filter, the next request with its key is answered as accepted and nothing is sent.
\<close>

theorem retry_after_failure_lost:
  assumes "sendCommand ev r s = (Error st m, s')" "st = 500 \<or> m = ''command not allowed''"
    and "request_key r \<noteq> []" "sv_idempotency s \<noteq> None"
  shows "sendCommand ev' r s' = (Json 202 PAccepted, s')"
proof -
  have "key_taken (request_key r) s' \<and> sv_registry s' = sv_registry s
    \<and> (\<exists>t robot. tenantOrError r = Inr t \<and> sv_registry s (rq_var r ''id'') = Some robot \<and> \<not> foreign t (r_TenantID robot))"
  proof (cases rule: sendCommand_cases [of ev r s])
    case (bad st' m' s1)
    have "sv_registry s1 = sv_registry s" by (subst bad(4)) simp
    with bad assms(1,3,4) show ?thesis by auto
  next
    case (refused req s1)
    have "sv_registry s1 = sv_registry s" by (subst refused(4)) simp
    with refused assms(1,3,4) show ?thesis by auto
  qed (use assms in auto)
  then obtain t robot where t: "tenantOrError r = Inr t" "sv_registry s' (rq_var r ''id'') = Some robot"
      "\<not> foreign t (r_TenantID robot)" and k: "key_taken (request_key r) s'" by auto
  have "reserve_key ev' r (rq_var r ''id'') s' = (False, s')"
    by (cases rule: reserve_key_cases [of r s' ev' "rq_var r ''id''"]) (use k in auto)
  with t show ?thesis by (simp add: sendCommand_def with_tenant_def registry_Get_def)
qed

theorem retry_after_failure_lost_witness:
  "\<exists>s'. fst (sendCommand (example_env False) (example_command example_payload) example_server) = Error 500 ''internal error''
    \<and> sendCommand (example_env True) (example_command example_payload) s' = (Json 202 PAccepted, s') \<and> sv_bus s' = []"
proof -
  let ?s' = "snd (sendCommand (example_env False) (example_command example_payload) example_server)"
  have a: "sendCommand (example_env False) (example_command example_payload) example_server = (Error 500 ''internal error'', ?s')"
    by (simp add: example_sent)
  have i: "sv_idempotency example_server \<noteq> None" "sv_bus ?s' = []" by (simp_all add: example_sent) (simp_all add: example_server_def)
  from retry_after_failure_lost [OF a _ _ i(1)] i(2) show ?thesis
    by (intro exI [of _ ?s'] conjI) (simp_all add: example_key, simp add: example_sent)
qed

text \<open>
  Heartbeats are not confined to a tenant: whoever has one of the roles of the route gets, and thereby removes,
  the pending commands of any edge, those of other tenants' robots included.
\<close>

theorem heartbeat_crosses_tenants:
  fixes cmd
  defines "res \<equiv> edgeHeartbeat (example_env True)
     (example_request (operator_of ''other'') [(''id'', ''e1'')] (RawJson (JObj [])))
     (example_server\<lparr>sv_edges := Some (EnqueueCommand 1 ''u'' ''e1'' ''r1'' cmd edges_NewMemoryStore)\<rparr>)"
  shows "fst res = Json 200 (PPending [cmd]) \<and> r_TenantID example_robot = ''acme''
     \<and> hasAnyRole (GetRoles (operator_of ''other'')) [RoleOperator, RoleAdministrator, RoleSystem]
     \<and> (\<exists>es. sv_edges (snd res) = Some es \<and> edge_queue es ''e1'' = [])"
  by (simp add: res_def edgeHeartbeat_def example_request_def example_robot_def example_env_def Let_def FetchAndAck_eq
      UpsertEdge_def EnqueueCommand_def edges_NewMemoryStore_def operator_of_def GetRoles_def role_defs edge_queue_def)

end
