(* ===== verification/Api_Tasks.thy ===== *)
theory Api_Tasks
  imports Api_Server
begin

text \<open>
  The handlers of the API server for tasks, the audit log, zones and scenarios,
  \<^verbatim>\<open>pkg/control-plane/api/server.go\<close>.
\<close>

section \<open>Tasks\<close>

record createTaskRequest =
  ct_RobotID :: string
  ct_ScenarioID :: string
  ct_Type :: string
  ct_Payload :: raw_message
  ct_OperatorID :: string

definition create_task_zero :: createTaskRequest where
  "create_task_zero = \<lparr>ct_RobotID = [], ct_ScenarioID = [], ct_Type = [], ct_Payload = RawEmpty, ct_OperatorID = []\<rparr>"

definition create_task_fields :: "createTaskRequest struct_fields" where
  "create_task_fields =
     [(''robot_id'', decode_string (\<lambda>v q. q\<lparr>ct_RobotID := v\<rparr>)),
      (''scenario_id'', decode_string (\<lambda>v q. q\<lparr>ct_ScenarioID := v\<rparr>)),
      (''type'', decode_string (\<lambda>v q. q\<lparr>ct_Type := v\<rparr>)),
      (''payload'', decode_raw (\<lambda>v q. q\<lparr>ct_Payload := v\<rparr>)),
      (''operator_id'', decode_string (\<lambda>v q. q\<lparr>ct_OperatorID := v\<rparr>))]"

definition new_task :: "string \<Rightarrow> createTaskRequest \<Rightarrow> Robot \<Rightarrow> Task" where
  "new_task uuid req robot =
     \<lparr>k_ID = uuid, k_RobotID = ct_RobotID req,
      k_TenantID = (if r_TenantID robot = [] then ''default'' else r_TenantID robot),
      k_Type = (if ct_Type req \<noteq> [] then ct_Type req else ''scenario''),
      k_ScenarioID = ct_ScenarioID req, k_Payload = ct_Payload req, k_Status = StatusPending,
      k_CreatedAt = 0, k_UpdatedAt = 0, k_CompletedAt = None,
      k_OperatorID = (if ct_OperatorID req = [] then ''console'' else ct_OperatorID req)\<rparr>"

definition createTask :: handler where
  "createTask ev r s =
     (let (ok, req) = unmarshal create_task_fields (rq_body r) create_task_zero in
      if \<not> ok then (Error 400 ''bad request'', s)
      else if ct_RobotID req = [] then (Error 400 ''robot_id required'', s)
      else if ct_ScenarioID req = [] then (Error 400 ''scenario_id required'', s)
      else case registry_Get (sv_registry s) (ct_RobotID req) of
          None \<Rightarrow> (Error 404 ''robot not found'', s)
        | Some robot \<Rightarrow> with_tenant r s (\<lambda>tenantID.
            if foreign tenantID (r_TenantID robot) then (Error 403 ''forbidden'', s)
            else case GetForTenant (sv_catalog s) (ct_ScenarioID req) tenantID of
                None \<Rightarrow> (Error 404 ''scenario not found'', s)
              | Some scenario \<Rightarrow>
                  if \<not> HasCapability (Some robot) (sc_RequiredCapabilities scenario)
                  then (Error 400 ''robot lacks required capabilities for this scenario'', s)
                  else if HasRunningForRobot (ev_tasks ev) (ct_RobotID req) (sv_tasks s)
                  then (Error 409 ''robot already has a running task'', s)
                  else let t = new_task (ev_uuid ev 1) req robot;
                           s1 = s\<lparr>sv_tasks := tasks_Create (ev_now ev 0) t (sv_tasks s)\<rparr>
                       in (Json 201 (PTask (task_stamp (ev_now ev 0) t)),
                           api_audit ev 1 (auditActor (k_OperatorID t)) ''create'' ''task'' (k_ID t) (k_TenantID t)
                             (DetText (''{\"robot_id\":\"'' @ k_RobotID t @ ''\",\"scenario_id\":\"'' @ k_ScenarioID t @ ''\"}'')) s1)))"

definition listTasks :: handler where
  "listTasks ev r s = with_tenant r s (\<lambda>tenantID.
     let filters = \<lparr>lf_RobotID = rq_query r ''robot_id'', lf_TenantID = tenantID, lf_Status = rq_query r ''status''\<rparr>
     in (Json 200 (PTasks (tasks_List (ev_tasks ev) filters (sv_tasks s))), s))"

definition getTask :: handler where
  "getTask ev r s =
     (let i = rq_var r ''id'' in
      if i = [] then (Error 400 ''id required'', s)
      else case tasks_Get (sv_tasks s) i of
          None \<Rightarrow> (Error 404 ''not found'', s)
        | Some t \<Rightarrow> with_tenant r s (\<lambda>tenantID.
            if foreign tenantID (k_TenantID t) then (Error 404 ''not found'', s)
            else (Json 200 (PTask t), s)))"

definition cancelTask :: handler where
  "cancelTask ev r s =
     (let i = rq_var r ''id'' in
      if i = [] then (Error 400 ''id required'', s)
      else case tasks_Get (sv_tasks s) i of
          None \<Rightarrow> (Error 404 ''not found'', s)
        | Some t \<Rightarrow> with_tenant r s (\<lambda>tenantID.
            if foreign tenantID (k_TenantID t) then (Error 404 ''not found'', s)
            else if k_Status t \<noteq> StatusPending \<and> k_Status t \<noteq> StatusRunning
            then (Error 400 ''task cannot be cancelled'', s)
            else let s1 = s\<lparr>sv_tasks := tasks_UpdateStatus (ev_now ev 0) i StatusCancelled (sv_tasks s)\<rparr>
                 in (Json 200 (PTask (t\<lparr>k_Status := StatusCancelled\<rparr>)),
                     api_audit ev 1 ''console'' ''cancel'' ''task'' i (k_TenantID t)
                       (DetText (''{\"robot_id\":\"'' @ k_RobotID t @ ''\"}'')) s1)))"

section \<open>The audit log\<close>

text \<open>\<^verbatim>\<open>strconv.Atoi\<close>: an optional sign and digits, within 64 bits.\<close>

definition Atoi :: "string \<Rightarrow> int option" where
  "Atoi v =
     (let neg = (v \<noteq> [] \<and> hd v = CHR ''-'');
          ds = (if v \<noteq> [] \<and> (hd v = CHR ''-'' \<or> hd v = CHR ''+'') then tl v else v);
          n = (if neg then - digits_value ds else digits_value ds)
      in if ds = [] \<or> \<not> list_all is_digit ds then None
         else if - (2 ^ 63) \<le> n \<and> n < 2 ^ 63 then Some n else None)"

definition audit_filters_of :: "api_env \<Rightarrow> request \<Rightarrow> string \<Rightarrow> AuditFilters" where
  "audit_filters_of ev r tenantID =
     \<lparr>f_RobotID = rq_query r ''robot_id'',
      f_TenantID = (if tenantID = [] then rq_query r ''tenant_id'' else tenantID),
      f_Actor = rq_query r ''actor'', f_Action = rq_query r ''action'',
      f_From = (let v = rq_query r ''from'' in if v \<noteq> [] then ev_rfc3339 ev v else None),
      f_To = (let v = rq_query r ''to'' in if v \<noteq> [] then ev_rfc3339 ev v else None),
      f_Limit = (let v = rq_query r ''limit'' in
         if v \<noteq> [] then (case Atoi v of Some n \<Rightarrow> (if n > 0 then n else 0) | None \<Rightarrow> 0) else 0),
      f_Offset = (let v = rq_query r ''offset'' in
         if v \<noteq> [] then (case Atoi v of Some n \<Rightarrow> (if n \<ge> 0 then n else 0) | None \<Rightarrow> 0) else 0)\<rparr>"

definition listAudit :: handler where
  "listAudit ev r s = with_tenant r s (\<lambda>tenantID.
     case sv_audit s of
       None \<Rightarrow> (Json 200 (PAudit []), s)
     | Some es \<Rightarrow> (case audit_List (audit_filters_of ev r tenantID) es of
           None \<Rightarrow> (Panic, s)
         | Some list \<Rightarrow> (Json 200 (PAudit list), s)))"

section \<open>Zones\<close>

definition listZones :: handler where
  "listZones ev r s =
     (Json 200 (PZones (case sv_coordinator s of None \<Rightarrow> [] | Some z \<Rightarrow> ListZoneStatuses (ev_zones ev) z)), s)"

definition getZoneStatus :: handler where
  "getZoneStatus ev r s =
     (let zoneID = rq_var r ''id'' in
      if zoneID = [] then (Error 400 ''zone id required'', s)
      else case sv_coordinator s of
          None \<Rightarrow> (Error 503 ''zones not configured'', s)
        | Some z \<Rightarrow> (Json 200 (PZone (GetZoneStatus zoneID z)), s))"

section \<open>Scenarios\<close>

definition listScenarios :: handler where
  "listScenarios ev r s = with_tenant r s (\<lambda>tenantID.
     (Json 200 (PScenarios (ListForTenant (ev_scenarios ev) (ev_builtins ev) (sv_catalog s) tenantID)), s))"

definition getScenario :: handler where
  "getScenario ev r s = with_tenant r s (\<lambda>tenantID.
     let i = rq_var r ''id'' in
     if i = [] then (Error 400 ''id required'', s)
     else case GetForTenant (sv_catalog s) i tenantID of
         None \<Rightarrow> (Error 404 ''not found'', s)
       | Some sc \<Rightarrow> (Json 200 (PScenario sc), s))"

definition step_zero :: ScenarioStep where
  "step_zero = \<lparr>ss_Command = [], ss_Payload = RawEmpty, ss_DurationSec = 0\<rparr>"

definition step_fields :: "ScenarioStep struct_fields" where
  "step_fields =
     [(''command'', decode_string (\<lambda>v q. q\<lparr>ss_Command := v\<rparr>)),
      (''payload'', decode_raw (\<lambda>v q. q\<lparr>ss_Payload := v\<rparr>)),
      (''duration_sec'', decode_int (\<lambda>v q. q\<lparr>ss_DurationSec := v\<rparr>))]"

fun decode_step_list :: "json list \<Rightarrow> bool \<times> ScenarioStep list" where
  "decode_step_list [] = (True, [])"
| "decode_step_list (j # js) =
     (let (ok, step) = unmarshal step_fields (RawJson j) step_zero; (ok', steps) = decode_step_list js
      in (ok \<and> ok', step # steps))"

fun decode_steps :: "(ScenarioStep list \<Rightarrow> 's \<Rightarrow> 's) \<Rightarrow> 's field_decoder" where
  "decode_steps upd (JArr js) s = (let (ok, steps) = decode_step_list js in (ok, upd steps s))"
| "decode_steps upd JNull s = (True, upd [] s)"
| "decode_steps upd _ s = (False, s)"

definition scenario_zero :: Scenario where
  "scenario_zero = \<lparr>sc_ID = [], sc_Name = [], sc_Description = [], sc_Steps = [], sc_RequiredCapabilities = []\<rparr>"

definition update_scenario_fields :: "Scenario struct_fields" where
  "update_scenario_fields =
     [(''name'', decode_string (\<lambda>v q. q\<lparr>sc_Name := v\<rparr>)),
      (''description'', decode_string (\<lambda>v q. q\<lparr>sc_Description := v\<rparr>)),
      (''steps'', decode_steps (\<lambda>v q. q\<lparr>sc_Steps := v\<rparr>)),
      (''required_capabilities'', decode_strings (\<lambda>v q. q\<lparr>sc_RequiredCapabilities := v\<rparr>))]"

definition create_scenario_fields :: "Scenario struct_fields" where
  "create_scenario_fields = (''id'', decode_string (\<lambda>v q. q\<lparr>sc_ID := v\<rparr>)) # update_scenario_fields"

definition createScenario :: handler where
  "createScenario ev r s =
     (let (ok, sc) = unmarshal create_scenario_fields (rq_body r) scenario_zero in
      if \<not> ok then (Error 400 ''bad request'', s)
      else if sc_ID sc = [] \<or> sc_Name sc = [] then (Error 400 ''id and name required'', s)
      else if sc_Steps sc = [] then (Error 400 ''at least one step required'', s)
      else case catalog_Create sc (sv_catalog s) of
          Inl ScenarioErrNotFound \<Rightarrow> (Error 503 ''scenarios not persisted (no store)'', s)
        | Inl ScenarioAlreadyExists \<Rightarrow> (Error 409 ''scenario already exists'', s)
        | Inr c \<Rightarrow> (Json 201 (PScenario sc), s\<lparr>sv_catalog := c\<rparr>))"

text \<open>The scenario after the fields of an update; the description is always taken over.\<close>

definition updated_scenario :: "string \<Rightarrow> Scenario \<Rightarrow> Scenario \<Rightarrow> Scenario" where
  "updated_scenario i req sc =
     sc\<lparr>sc_Name := (if sc_Name req \<noteq> [] then sc_Name req else sc_Name sc),
        sc_Description := sc_Description req,
        sc_Steps := (if sc_Steps req \<noteq> [] then sc_Steps req else sc_Steps sc),
        sc_RequiredCapabilities := (if sc_RequiredCapabilities req \<noteq> []
          then sc_RequiredCapabilities req else sc_RequiredCapabilities sc),
        sc_ID := i\<rparr>"

definition updateScenario :: handler where
  "updateScenario ev r s =
     (let i = rq_var r ''id'' in
      if i = [] then (Error 400 ''id required'', s)
      else case catalog_Get (sv_catalog s) i of
          None \<Rightarrow> (Error 404 ''not found'', s)
        | Some sc0 \<Rightarrow>
            let (ok, req) = unmarshal update_scenario_fields (rq_body r) scenario_zero in
            if \<not> ok then (Error 400 ''bad request'', s)
            else let sc = updated_scenario i req sc0
                 in case catalog_Update sc (sv_catalog s) of
                      Inl ScenarioErrNotFound \<Rightarrow> (Error 404 ''not found'', s)
                    | Inl ScenarioAlreadyExists \<Rightarrow> (Error 500 ''scenario already exists'', s)
                    | Inr c \<Rightarrow> (Json 200 (PScenario sc), s\<lparr>sv_catalog := c\<rparr>))"

definition deleteScenario :: handler where
  "deleteScenario ev r s =
     (let i = rq_var r ''id'' in
      if i = [] then (Error 400 ''id required'', s)
      else case catalog_Delete i (sv_catalog s) of
          Inl ScenarioErrNotFound \<Rightarrow> (Error 404 ''not found'', s)
        | Inl ScenarioAlreadyExists \<Rightarrow> (Error 500 ''scenario already exists'', s)
        | Inr c \<Rightarrow> (NoContent, s\<lparr>sv_catalog := c\<rparr>))"

section \<open>What the handlers do to the task store\<close>

text \<open>The task a successful request creates, with all that was checked for it.\<close>

lemma createTask_effect:
  "sv_tasks (snd (createTask ev r s)) = sv_tasks s
   \<or> (\<exists>req robot t sc. fst (createTask ev r s) = Json 201 (PTask t)
       \<and> sv_registry s (ct_RobotID req) = Some robot \<and> t = task_stamp (ev_now ev 0) (new_task (ev_uuid ev 1) req robot)
       \<and> (\<exists>tenantID. tenantOrError r = Inr tenantID \<and> \<not> foreign tenantID (r_TenantID robot)
           \<and> GetForTenant (sv_catalog s) (ct_ScenarioID req) tenantID = Some sc)
       \<and> HasCapability (Some robot) (sc_RequiredCapabilities sc)
       \<and> \<not> HasRunningForRobot (ev_tasks ev) (ct_RobotID req) (sv_tasks s)
       \<and> sv_tasks (snd (createTask ev r s)) = (sv_tasks s)(k_ID t \<mapsto> t))"
proof -
  obtain ok req where req: "unmarshal create_task_fields (rq_body r) create_task_zero = (ok, req)" by fastforce
  show ?thesis
    by (cases "registry_Get (sv_registry s) (ct_RobotID req)"; cases "tenantOrError r")
      (auto simp: createTask_def req with_tenant_def registry_Get_def tasks_Create_def Let_def new_task_def
        split: option.split)
qed

lemma cancelTask_effect:
  "sv_tasks (snd (cancelTask ev r s)) = sv_tasks s
   \<or> (\<exists>t. sv_tasks s (rq_var r ''id'') = Some t \<and> (k_Status t = StatusPending \<or> k_Status t = StatusRunning)
       \<and> (\<exists>tenantID. tenantOrError r = Inr tenantID \<and> \<not> foreign tenantID (k_TenantID t))
       \<and> sv_tasks (snd (cancelTask ev r s)) =
           (sv_tasks s)(rq_var r ''id'' \<mapsto> t\<lparr>k_Status := StatusCancelled, k_UpdatedAt := ev_now ev 0\<rparr>))"
  by (cases "tenantOrError r")
    (auto simp: cancelTask_def with_tenant_def tasks_Get_def tasks_UpdateStatus_def Let_def split: option.split)

end
