(* ===== verification/Api_Workflows.thy ===== *)
theory Api_Workflows
  imports Api_Server
begin

text \<open>
  The handlers of the API server for workflows and webhooks, \<^verbatim>\<open>pkg/control-plane/api/server.go\<close>.
\<close>

section \<open>Workflows\<close>

definition listWorkflows :: handler where
  "listWorkflows ev r s =
     (case sv_workflows s of
        None \<Rightarrow> (Json 200 (PWorkflows []), s)
      | Some wfs \<Rightarrow> (Json 200 (PWorkflows (workflows_List (ev_workflows ev) wfs)), s))"

definition run_workflow_fields :: "string struct_fields" where
  "run_workflow_fields = [(''operator_id'', decode_string (\<lambda>v q. v))]"

text \<open>The body may be anything: an error of its decoding is ignored.\<close>

definition runWorkflow :: handler where
  "runWorkflow ev r s =
     (let workflowID = rq_var r ''id'' in
      if workflowID = [] then (Error 400 ''workflow id required'', s)
      else case (sv_workflows s, sv_runs s) of
          (Some wfs, Some runs) \<Rightarrow>
            let req = snd (unmarshal run_workflow_fields (rq_body r) []);
                operatorID = (if req = [] then ''console'' else req)
            in with_tenant r s (\<lambda>tenantID.
                 let (res, w) = Run (ev_orch ev) wfs (sv_registry s) (sv_catalog s) workflowID operatorID tenantID
                       \<lparr>or_runs = runs, or_tasks = sv_tasks s\<rparr>;
                     s1 = s\<lparr>sv_runs := Some (or_runs w), sv_tasks := or_tasks w\<rparr>
                 in case res of
                      Inl ErrWorkflowNotFound \<Rightarrow> (Error 404 ''workflow not found'', s1)
                    | Inl NilDereference \<Rightarrow> (Panic, s1)
                    | Inr result \<Rightarrow> (Json 202 (PRunResult result),
                        api_audit ev 0 (auditActor operatorID) ''run'' ''workflow'' (rr_WorkflowRunID result) []
                          (DetText (''{\"workflow_id\":\"'' @ workflowID @ ''\"}'')) s1))
        | _ \<Rightarrow> (Error 503 ''workflows not configured'', s))"

definition listWorkflowRuns :: handler where
  "listWorkflowRuns ev r s = with_tenant r s (\<lambda>tenantID.
     case sv_runs s of
       None \<Rightarrow> (Json 200 (PRuns []), s)
     | Some runs \<Rightarrow>
         let list = runs_List (ev_runs ev) runs
         in (Json 200 (PRuns (if tenantID \<noteq> [] then filter (\<lambda>run. wr_TenantID run = tenantID) list else list)), s))"

definition getWorkflowRun :: handler where
  "getWorkflowRun ev r s =
     (let i = rq_var r ''id'' in
      if i = [] then (Error 400 ''id required'', s)
      else case sv_runs s of
          None \<Rightarrow> (Error 503 ''workflow runs not configured'', s)
        | Some runs \<Rightarrow> (case runs_Get runs i of
              None \<Rightarrow> (Error 404 ''not found'', s)
            | Some run \<Rightarrow> with_tenant r s (\<lambda>tenantID.
                if foreign tenantID (wr_TenantID run) then (Error 404 ''not found'', s)
                else (Json 200 (PRun run), s))))"

section \<open>Webhooks\<close>

record webhookRequest =
  wq_URL :: string
  wq_Events :: "string list"
  wq_Secret :: string
  wq_Enabled :: "bool option"

fun decode_bool_ptr :: "(bool option \<Rightarrow> 's \<Rightarrow> 's) \<Rightarrow> 's field_decoder" where
  "decode_bool_ptr upd (JBool b) s = (True, upd (Some b) s)"
| "decode_bool_ptr upd JNull s = (True, upd None s)"
| "decode_bool_ptr upd _ s = (False, s)"

definition webhook_fields :: "webhookRequest struct_fields" where
  "webhook_fields =
     [(''url'', decode_string (\<lambda>v q. q\<lparr>wq_URL := v\<rparr>)),
      (''events'', decode_strings (\<lambda>v q. q\<lparr>wq_Events := v\<rparr>)),
      (''secret'', decode_string (\<lambda>v q. q\<lparr>wq_Secret := v\<rparr>)),
      (''enabled'', decode_bool_ptr (\<lambda>v q. q\<lparr>wq_Enabled := v\<rparr>))]"

definition webhook_zero :: webhookRequest where
  "webhook_zero = \<lparr>wq_URL = [], wq_Events = [], wq_Secret = [], wq_Enabled = None\<rparr>"

definition listWebhooks :: handler where
  "listWebhooks ev r s =
     (case sv_webhookStore s of
        None \<Rightarrow> (Json 200 (PWebhooks []), s)
      | Some hooks \<Rightarrow> (Json 200 (PWebhooks (webhooks_List (ev_hooks ev) hooks)), s))"

definition createWebhook :: handler where
  "createWebhook ev r s =
     (case sv_webhookStore s of
        None \<Rightarrow> (Error 503 ''webhooks not configured'', s)
      | Some hooks \<Rightarrow>
          let (ok, req) = unmarshal webhook_fields (rq_body r) webhook_zero in
          if \<not> ok then (Error 400 ''bad request'', s)
          else if wq_URL req = [] \<or> wq_Events req = [] then (Error 400 ''url and events required'', s)
          else let wh = \<lparr>wh_ID = [], wh_URL = wq_URL req, wh_Events = wq_Events req, wh_Secret = wq_Secret req,
                         wh_Enabled = (case wq_Enabled req of None \<Rightarrow> True | Some b \<Rightarrow> b), wh_CreatedAt = 0, wh_UpdatedAt = 0\<rparr>;
                   (wh1, hooks1) = webhooks_Create (ev_now ev 0) (ev_uuid ev 1) wh hooks
               in (Json 201 (PWebhook wh1), s\<lparr>sv_webhookStore := Some hooks1\<rparr>))"

definition getWebhook :: handler where
  "getWebhook ev r s =
     (case sv_webhookStore s of
        None \<Rightarrow> (Error 503 ''webhooks not configured'', s)
      | Some hooks \<Rightarrow> (case webhooks_Get hooks (rq_var r ''id'') of
            None \<Rightarrow> (Error 404 ''not found'', s)
          | Some wb \<Rightarrow> (Json 200 (PWebhook wb), s)))"

definition updated_webhook :: "webhookRequest \<Rightarrow> Webhook \<Rightarrow> Webhook" where
  "updated_webhook req wb =
     (let w1 = (if wq_URL req \<noteq> [] then wb\<lparr>wh_URL := wq_URL req\<rparr> else wb);
          w2 = (if wq_Events req \<noteq> [] then w1\<lparr>wh_Events := wq_Events req\<rparr> else w1);
          w3 = (if wq_Secret req \<noteq> [] then w2\<lparr>wh_Secret := wq_Secret req\<rparr> else w2)
      in case wq_Enabled req of None \<Rightarrow> w3 | Some b \<Rightarrow> w3\<lparr>wh_Enabled := b\<rparr>)"

definition updateWebhook :: handler where
  "updateWebhook ev r s =
     (case sv_webhookStore s of
        None \<Rightarrow> (Error 503 ''webhooks not configured'', s)
      | Some hooks \<Rightarrow> (case webhooks_Get hooks (rq_var r ''id'') of
            None \<Rightarrow> (Error 404 ''not found'', s)
          | Some wb \<Rightarrow>
              let (ok, req) = unmarshal webhook_fields (rq_body r) webhook_zero in
              if \<not> ok then (Error 400 ''bad request'', s)
              else let (wb1, hooks1) = webhooks_Update (ev_now ev 0) (updated_webhook req wb) hooks
                   in (Json 200 (PWebhook wb1), s\<lparr>sv_webhookStore := Some hooks1\<rparr>)))"

definition deleteWebhook :: handler where
  "deleteWebhook ev r s =
     (case sv_webhookStore s of
        None \<Rightarrow> (Error 503 ''webhooks not configured'', s)
      | Some hooks \<Rightarrow> (NoContent, s\<lparr>sv_webhookStore := Some (webhooks_Delete (rq_var r ''id'') hooks)\<rparr>))"

section \<open>What they leave alone\<close>

text \<open>A run of a workflow adds pending tasks of the caller's tenant and changes nothing else but the runs and the audit log.\<close>

lemma runWorkflow_frames:
  "sv_registry (snd (runWorkflow ev r s)) = sv_registry s" "sv_tenants (snd (runWorkflow ev r s)) = sv_tenants s"
  "sv_catalog (snd (runWorkflow ev r s)) = sv_catalog s" "sv_bus (snd (runWorkflow ev r s)) = sv_bus s"
  "sv_edges (snd (runWorkflow ev r s)) = sv_edges s" "sv_keys (snd (runWorkflow ev r s)) = sv_keys s"
  unfolding runWorkflow_def with_tenant_def
  by (auto simp: Let_def split: option.split prod.split sum.split run_error.split)

lemma runWorkflow_cases:
  obtains (same) "sv_tasks (snd (runWorkflow ev r s)) = sv_tasks s"
  | (run) wfs op tenantID runs where "tenantOrError r = Inr tenantID"
      "sv_tasks (snd (runWorkflow ev r s)) = or_tasks (snd (Run (ev_orch ev) wfs (sv_registry s) (sv_catalog s) (rq_var r ''id'') op tenantID
         \<lparr>or_runs = runs, or_tasks = sv_tasks s\<rparr>))"
proof (cases "tenantOrError r")
  case (Inl e)
  then show ?thesis
    by (intro same) (auto simp: runWorkflow_def Let_def with_tenant_def split: option.split)
next
  case (Inr tenantID)
  show ?thesis
  proof (cases "rq_var r ''id'' = [] \<or> sv_workflows s = None \<or> sv_runs s = None")
    case True
    then show ?thesis by (intro same) (auto simp: runWorkflow_def Let_def split: option.split)
  next
    case False
    then obtain wfs runs where f: "sv_workflows s = Some wfs" "sv_runs s = Some runs" "rq_var r ''id'' \<noteq> []" by auto
    let ?req = "snd (unmarshal run_workflow_fields (rq_body r) [])"
    let ?op = "if ?req = [] then ''console'' else ?req"
    from f Inr show ?thesis
      by (intro run [of tenantID wfs ?op runs])
        (simp_all add: runWorkflow_def Let_def with_tenant_def split: prod.split sum.split run_error.split)
  qed
qed

lemma runWorkflow_tasks:
  obtains (same) "sv_tasks (snd (runWorkflow ev r s)) = sv_tasks s"
  | (given) op ps tenantID where "tenantOrError r = Inr tenantID"
      "sv_tasks (snd (runWorkflow ev r s)) = give_tasks (ev_orch ev) op 0 ps (sv_tasks s)"
      "tenantID \<noteq> [] \<longrightarrow> (\<forall>(step, robot) \<in> set ps. r_TenantID robot = tenantID)"
proof (cases rule: runWorkflow_cases [of ev r s, case_names same run])
  case same
  then show ?thesis by (rule that(1))
next
  case (run wfs op tenantID runs)
  obtain ps where "or_tasks (snd (Run (ev_orch ev) wfs (sv_registry s) (sv_catalog s) (rq_var r ''id'') op tenantID
      \<lparr>or_runs = runs, or_tasks = sv_tasks s\<rparr>)) = give_tasks (ev_orch ev) op 0 ps (sv_tasks s)"
    "tenantID \<noteq> [] \<longrightarrow> (\<forall>(step, robot) \<in> set ps. r_TenantID robot = tenantID)"
    using Run_tasks [of "ev_orch ev" wfs "sv_registry s" "sv_catalog s" "rq_var r ''id''" op tenantID
        "\<lparr>or_runs = runs, or_tasks = sv_tasks s\<rparr>"] by auto
  with run show ?thesis by (intro that(2) [of tenantID op ps]) auto
qed

section \<open>A run without a task\<close>

lemma Run_tenant_empty:
  assumes "robots_keyed reg" "running_met env (or_tasks w)" "uuids_fresh env 0 (or_tasks w)"
    and "Run env wfs reg cat workflowID op tenantID w = (Inr rr, w')" "rr_TaskIDs rr = []"
  shows "\<exists>run. or_runs w' (rr_WorkflowRunID rr) = Some run \<and> wr_TenantID run = []"
proof -
  obtain flow where flow: "workflows_Get wfs workflowID = Some flow"
    using assms(4) by (cases "workflows_Get wfs workflowID") (auto simp: Run_def)
  show ?thesis
  proof (rule Run_effect [OF assms(1-3) flow assms(4)])
    fix robots run
    assume "or_runs w' = (or_runs w)(oe_run_id env \<mapsto> run)"
      and "workflow_outcome env reg 0 (wf_Steps flow) robots [] [] (run_stamp (oe_now env 0) (new_run (oe_run_id env) workflowID)) run
        (case Inr rr of Inr rr \<Rightarrow> Some (rr_TaskIDs rr) | Inl _ \<Rightarrow> None)"
      and "case Inr rr of Inr rr \<Rightarrow> rr_WorkflowRunID rr = oe_run_id env | Inl e \<Rightarrow> e = NilDereference"
    with assms(5) show ?thesis by (auto simp: workflow_outcome_def new_run_def)
  qed
qed

text \<open>
  A run that could not start is hidden from whoever asked for it: when a workflow finds no robot for its first step, the caller is
  told the identifier of the failed run, but the run has no tenant, and asking for it under that identifier is answered
  \<^verbatim>\<open>not found\<close>, to every caller that is confined to a tenant.
\<close>

theorem failed_run_hidden:
  assumes "robots_keyed (sv_registry s)" "running_met (ev_orch ev) (sv_tasks s)" "uuids_fresh (ev_orch ev) 0 (sv_tasks s)"
    and "runWorkflow ev r s = (Json 202 (PRunResult rr), s')" "rr_TaskIDs rr = []"
    and "confined r' t" "rq_var r' ''id'' = rr_WorkflowRunID rr" "rr_WorkflowRunID rr \<noteq> []"
  shows "getWorkflowRun ev' r' s' = (Error 404 ''not found'', s')"
proof -
  obtain wfs runs where c: "sv_workflows s = Some wfs" "sv_runs s = Some runs"
    using assms(4) by (auto simp: runWorkflow_def Let_def split: option.splits if_splits)
  obtain tenantID where t: "tenantOrError r = Inr tenantID"
    using assms(4) c tenantOrError_Inl [of r] by (cases "tenantOrError r") (auto simp: runWorkflow_def Let_def with_tenant_def split: if_splits)
  obtain op res w' where run: "Run (ev_orch ev) wfs (sv_registry s) (sv_catalog s) (rq_var r ''id'') op tenantID
      \<lparr>or_runs = runs, or_tasks = sv_tasks s\<rparr> = (res, w')" and "res = Inr rr" "sv_runs s' = Some (or_runs w')"
    using assms(4) c t
    by (auto simp: runWorkflow_def Let_def with_tenant_def split: if_splits prod.splits sum.splits run_error.splits)
  then obtain run where "or_runs w' (rr_WorkflowRunID rr) = Some run" "wr_TenantID run = []"
    using Run_tenant_empty [OF assms(1) _ _ run [unfolded \<open>res = Inr rr\<close>] assms(5)] assms(2,3) by auto
  with assms(6-8) \<open>sv_runs s' = Some (or_runs w')\<close> show ?thesis
    by (auto simp: getWorkflowRun_def Let_def runs_Get_def foreign_confined [OF assms(6)] confined_def)
qed

definition empty_fleet :: server where
  "empty_fleet = example_server\<lparr>sv_registry := Map.empty\<rparr>"

definition run_request :: "string \<Rightarrow> request" where
  "run_request i = example_request (operator_of ''acme'') [(''id'', i)] RawEmpty"

lemma empty_fleet_choice: "step_robot env Map.empty cat ts t used i (patrol_step z) = []"
proof -
  have "candidates ks t Map.empty = []" for ks
    using candidates_registered [of _ ks t Map.empty] by (cases "candidates ks t Map.empty") auto
  then show ?thesis
    by (simp add: step_robot_def patrol_step_def pickAvailableRobot_def first_free_def split: option.split)
qed

lemma empty_fleet_run:
  "fst (Run (ev_orch (example_env True)) workflows_NewCatalog Map.empty cat ''patrol_zones_ABC'' op t w) =
     Inr \<lparr>rr_WorkflowRunID = ''run'', rr_TaskIDs = []\<rparr>"
  by (simp add: Run_def workflows_Get_def workflows_NewCatalog_def patrol_zones_ABC_def Let_def empty_fleet_choice new_run_def)
    (simp add: example_env_def)

lemma empty_fleet_request:
  "fst (runWorkflow (example_env True) (run_request ''patrol_zones_ABC'') empty_fleet) =
     Json 202 (PRunResult \<lparr>rr_WorkflowRunID = ''run'', rr_TaskIDs = []\<rparr>)"
proof -
  have "rq_var (run_request ''patrol_zones_ABC'') ''id'' = ''patrol_zones_ABC''" "sv_registry empty_fleet = Map.empty"
    "sv_workflows empty_fleet = Some workflows_NewCatalog" "sv_runs empty_fleet = Some Map.empty"
    by (simp_all add: run_request_def example_request_def empty_fleet_def example_server_def)
  then show ?thesis
    using empty_fleet_run
    by (auto simp: runWorkflow_def Let_def confined_with_tenant [OF operator_confined] run_request_def
        split: prod.split sum.split run_error.split) (metis Inr_inject fst_conv sum.simps(4))+
qed

theorem failed_run_hidden_witness:
  "getWorkflowRun (example_env True) (run_request ''run'') (snd (runWorkflow (example_env True) (run_request ''patrol_zones_ABC'') empty_fleet)) =
     (Error 404 ''not found'', snd (runWorkflow (example_env True) (run_request ''patrol_zones_ABC'') empty_fleet))"
proof (rule failed_run_hidden [where s = empty_fleet and ev = "example_env True" and r = "run_request ''patrol_zones_ABC''"
      and t = "''acme''" and rr = "\<lparr>rr_WorkflowRunID = ''run'', rr_TaskIDs = []\<rparr>"])
  show "runWorkflow (example_env True) (run_request ''patrol_zones_ABC'') empty_fleet =
      (Json 202 (PRunResult \<lparr>rr_WorkflowRunID = ''run'', rr_TaskIDs = []\<rparr>), snd (runWorkflow (example_env True) (run_request ''patrol_zones_ABC'') empty_fleet))"
    using empty_fleet_request by (simp add: prod_eq_iff)
  show "confined (run_request ''run'') ''acme''" by (simp add: run_request_def operator_confined)
qed (simp_all add: robots_keyed_def running_met_def uuids_fresh_def empty_fleet_def example_server_def example_env_def inj_def
      run_request_def example_request_def)

end
