(* ===== verification/Api_Sim.thy ===== *)
theory Api_Sim
  imports Api_Server
begin

text \<open>
  The handlers of the API server for simulated robots, \<^verbatim>\<open>pkg/control-plane/api/server.go\<close>. A simulation is started with
  the context of the request, which is done when the handler has returned (\<^verbatim>\<open>net/http\<close>).
\<close>

definition sim_opts_zero :: CreateRobotOpts where
  "sim_opts_zero = \<lparr>op_RobotID = [], op_TenantID = [], op_RobotType = []\<rparr>"

text \<open>The struct has no tags: its fields go by their own names.\<close>

definition sim_opts_fields :: "CreateRobotOpts struct_fields" where
  "sim_opts_fields =
     [(''RobotID'', decode_string (\<lambda>v q. q\<lparr>op_RobotID := v\<rparr>)),
      (''TenantID'', decode_string (\<lambda>v q. q\<lparr>op_TenantID := v\<rparr>)),
      (''RobotType'', decode_string (\<lambda>v q. q\<lparr>op_RobotType := v\<rparr>))]"

definition failure_zero :: FailureConfig where
  "failure_zero = \<lparr>fc_Type = [], fc_AfterTicks = 0, fc_WhenDistanceLt = 0, fc_AfterCommand = [], fc_BatteryLevel = 0,
     fc_SlowdownFactor = 0, fc_DurationTicks = 0, fc_applied = False\<rparr>"

definition failure_fields :: "FailureConfig struct_fields" where
  "failure_fields =
     [(''type'', decode_string (\<lambda>v q. q\<lparr>fc_Type := v\<rparr>)),
      (''after_ticks'', decode_int (\<lambda>v q. q\<lparr>fc_AfterTicks := v\<rparr>)),
      (''when_distance_lt'', decode_float (\<lambda>v q. q\<lparr>fc_WhenDistanceLt := v\<rparr>)),
      (''after_command'', decode_string (\<lambda>v q. q\<lparr>fc_AfterCommand := v\<rparr>)),
      (''battery_level'', decode_float (\<lambda>v q. q\<lparr>fc_BatteryLevel := v\<rparr>)),
      (''slowdown_factor'', decode_float (\<lambda>v q. q\<lparr>fc_SlowdownFactor := v\<rparr>)),
      (''duration_ticks'', decode_int (\<lambda>v q. q\<lparr>fc_DurationTicks := v\<rparr>))]"

definition sim_message :: "string \<Rightarrow> sim_error \<Rightarrow> string" where
  "sim_message i e = (case e of SimExists \<Rightarrow> ''simrobot '' @ i @ '' already exists''
     | SimNotFound \<Rightarrow> ''simrobot '' @ i @ '' not found'' | SimSubscribe \<Rightarrow> ''subscribe failed'')"

text \<open>The routes exist only where the service is configured; \<open>with_sim\<close> gives it to the handler.\<close>

definition with_sim :: "server \<Rightarrow> (sim_service \<Rightarrow> reply \<times> server) \<Rightarrow> reply \<times> server" where
  "with_sim s k = (case sv_sim s of None \<Rightarrow> (Error 404 ''404 page not found'', s) | Some sims \<Rightarrow> k sims)"

definition simRobotCreate :: handler where
  "simRobotCreate ev r s = with_sim s (\<lambda>sims.
     let (ok, opts) = unmarshal sim_opts_fields (rq_body r) sim_opts_zero in
     if \<not> ok then (Error 400 ''invalid JSON'', s)
     else case CreateRobot_sim (ev_now ev 0) (ev_now ev 1) opts sims (sv_registry s) of
         Inl e \<Rightarrow> (Error 409 (sim_message (sim_id opts) e), s)
       | Inr (robot, sims1, reg1) \<Rightarrow> (Json 201 (PSimCreated (sr_id robot)), s\<lparr>sv_sim := Some sims1, sv_registry := reg1\<rparr>))"

text \<open>The reply of an operation on one robot.\<close>

definition sim_reply :: "string \<Rightarrow> string \<Rightarrow> sim_error + sim_service \<Rightarrow> server \<Rightarrow> reply \<times> server" where
  "sim_reply i status res s =
     (case res of Inl e \<Rightarrow> (Error 404 (sim_message i e), s) | Inr sims \<Rightarrow> (Json 200 (PStatus status), s\<lparr>sv_sim := Some sims\<rparr>))"

definition simRobotStart :: handler where
  "simRobotStart ev r s = with_sim s (\<lambda>sims.
     let i = rq_var r ''robot_id'' in sim_reply i ''started'' (sim_Start (ev_sub ev) (ev_ctx ev) i sims) s)"

definition simRobotStop :: handler where
  "simRobotStop ev r s = with_sim s (\<lambda>sims.
     let i = rq_var r ''robot_id'' in sim_reply i ''stopped'' (sim_Stop i sims) s)"

definition simRobotReset :: handler where
  "simRobotReset ev r s = with_sim s (\<lambda>sims.
     let i = rq_var r ''robot_id'' in sim_reply i ''reset'' (sim_Reset (ev_now ev 0) i sims) s)"

definition simRobotInjectFailure :: handler where
  "simRobotInjectFailure ev r s = with_sim s (\<lambda>sims.
     let i = rq_var r ''robot_id'';
         (ok, cfg) = unmarshal failure_fields (rq_body r) failure_zero
     in if \<not> ok then (Error 400 ''invalid JSON'', s)
        else sim_reply i ''failure injected'' (InjectFailure i (Some cfg) sims) s)"

definition simRobotGetState :: handler where
  "simRobotGetState ev r s = with_sim s (\<lambda>sims.
     let i = rq_var r ''robot_id'' in
     case sim_GetState i sims of
       Inl e \<Rightarrow> (Error 404 (sim_message i e), s)
     | Inr st \<Rightarrow> (Json 200 (PSimState st), s))"

section \<open>Lemmas\<close>

lemma sim_reply_frames [simp]:
  "sv_registry (snd (sim_reply i st res s)) = sv_registry s" "sv_tenants (snd (sim_reply i st res s)) = sv_tenants s"
  "sv_tasks (snd (sim_reply i st res s)) = sv_tasks s"
  by (simp_all add: sim_reply_def split: sum.split)

lemma simRobotCreate_frames [simp]:
  "sv_tasks (snd (simRobotCreate ev r s)) = sv_tasks s" "sv_tenants (snd (simRobotCreate ev r s)) = sv_tenants s"
  unfolding simRobotCreate_def with_sim_def Let_def by (simp_all split: option.split prod.split sum.split)

section \<open>Properties\<close>

text \<open>
  Creating a simulated robot replaces a real one: whoever asks for a simulated robot under the identifier of a registered robot of any
  tenant gets it (unless a simulated one has that identifier), and the entry of the registry becomes a simulated robot of the tenant the caller names.
\<close>

theorem sim_create_takes_over:
  assumes "sv_sim s = Some sims" "unmarshal sim_opts_fields (rq_body r) sim_opts_zero = (True, opts)"
    and "op_RobotID opts \<noteq> []" "op_TenantID opts \<noteq> []" "sims (op_RobotID opts) = None"
  shows "\<exists>robot. sv_registry (snd (simRobotCreate ev r s)) (op_RobotID opts) = Some robot
    \<and> r_TenantID robot = op_TenantID opts \<and> r_Vendor robot = ''simulated'' \<and> fst (simRobotCreate ev r s) = Json 201 (PSimCreated (op_RobotID opts))"
  using assms
  by (auto simp: simRobotCreate_def with_sim_def CreateRobot_sim_def NewSimRobot_def sim_id_def or_default_def Let_def
      registry_Add_def robot_stamp_def)

definition sim_server :: "sim_service \<Rightarrow> server" where
  "sim_server sims = example_server\<lparr>sv_sim := Some sims\<rparr>"

definition takeover_request :: request where
  "takeover_request = example_request (operator_of ''beta'') []
     (RawJson (JObj [(''RobotID'', JStr ''r1''), (''TenantID'', JStr ''beta'')]))"

theorem sim_create_takes_over_witness:
  "sv_registry (sim_server Map.empty) ''r1'' = Some example_robot \<and> r_TenantID example_robot = ''acme''
   \<and> (\<exists>robot. sv_registry (snd (simRobotCreate (example_env True) takeover_request (sim_server Map.empty))) ''r1'' = Some robot
        \<and> r_TenantID robot = ''beta'')"
proof -
  have "unmarshal sim_opts_fields (rq_body takeover_request) sim_opts_zero = (True, sim_opts_zero\<lparr>op_RobotID := ''r1'', op_TenantID := ''beta''\<rparr>)"
    by (simp add: takeover_request_def example_request_def sim_opts_fields_def find_field_def)
  from sim_create_takes_over [OF _ this, of "sim_server Map.empty" Map.empty "example_env True"] show ?thesis
    by (auto simp: sim_server_def sim_opts_zero_def example_server_def example_robot_def)
qed

text \<open>
  A simulation that is started over the API stands still: once the request that started it is answered its context is done, and the
  robot does not tick; it counts as running all the same, so that starting it again, by whatever request, changes nothing.
\<close>

theorem sim_start_stands_still:
  assumes "sv_sim s = Some sims" "sims (rq_var r ''robot_id'') = Some robot" "\<not> sr_running robot" "ev_sub ev"
    and "\<not> alive (ev_ctx ev)" "rq_var r' ''robot_id'' = rq_var r ''robot_id''"
  defines "s1 \<equiv> snd (simRobotStart ev r s)"
  shows "\<exists>sims1 robot1. sv_sim s1 = Some sims1 \<and> sims1 (rq_var r ''robot_id'') = Some robot1 \<and> \<not> ticking alive robot1
    \<and> fst (simRobotStart ev r s) = Json 200 (PStatus ''started'')
    \<and> simRobotStart ev' r' s1 = (Json 200 (PStatus ''started''), s1)"
  using assms(1-6)
  by (simp add: s1_def simRobotStart_def with_sim_def sim_Start_def robot_Start_def sim_reply_def ticking_def Let_def fun_upd_idem)

theorem sim_start_stands_still_witness:
  "\<exists>sims1 robot1. sv_sim (snd (simRobotStart (example_env True) (example_request (operator_of ''acme'') [(''robot_id'', ''sim-001'')] RawEmpty)
        (sim_server [''sim-001'' \<mapsto> sim_example]))) = Some sims1
     \<and> sims1 ''sim-001'' = Some robot1 \<and> \<not> ticking (\<lambda>ctx. ctx \<noteq> ev_ctx (example_env True)) robot1"
proof -
  let ?r = "example_request (operator_of ''acme'') [(''robot_id'', ''sim-001'')] RawEmpty"
  have "\<not> sr_running sim_example" by (simp add: sim_example_def NewSimRobot_def Let_def)
  with sim_start_stands_still [of "sim_server [''sim-001'' \<mapsto> sim_example]" "[''sim-001'' \<mapsto> sim_example]" ?r sim_example "example_env True"
      "\<lambda>ctx. ctx \<noteq> ev_ctx (example_env True)" ?r "example_env True"]
  show ?thesis by (auto simp: sim_server_def example_request_def example_env_def)
qed

end
