(* ===== verification/Api_Auth.thy ===== *)
theory Api_Auth
  imports Api_Server
begin

text \<open>
  The handlers of the API server for API keys and OAuth clients, \<^verbatim>\<open>pkg/control-plane/api/server.go\<close>. The API keys
  are those the authenticating middleware accepts, so a caller who may create one chooses the credentials of later calls.
\<close>

section \<open>API keys\<close>

definition key_request_fields :: "CreateAPIKeyRequest struct_fields" where
  "key_request_fields =
     [(''name'', decode_string (\<lambda>v q. q\<lparr>kq_Name := v\<rparr>)),
      (''roles'', decode_string (\<lambda>v q. q\<lparr>kq_Roles := v\<rparr>)),
      (''tenant_id'', decode_string (\<lambda>v q. q\<lparr>kq_TenantID := v\<rparr>))]"

definition key_request_zero :: CreateAPIKeyRequest where
  "key_request_zero = \<lparr>kq_Name = [], kq_Roles = [], kq_TenantID = []\<rparr>"

text \<open>The loop of these handlers compares the roles exactly, unlike \<open>tenantFromRequest\<close>.\<close>

definition isAdmin :: "Claims \<Rightarrow> bool" where
  "isAdmin c \<longleftrightarrow> list_ex (\<lambda>role. role = RoleAdministrator) (GetRoles c)"

definition key_tenant :: "Claims \<Rightarrow> string" where
  "key_tenant c = (if \<not> isAdmin c \<and> cl_TenantID c \<noteq> [] then cl_TenantID c else [])"

definition createAPIKey :: handler where
  "createAPIKey ev r s =
     (case sv_keys s of
        None \<Rightarrow> (Error 503 ''API key management requires database'', s)
      | Some keys \<Rightarrow>
          let (ok, req) = unmarshal key_request_fields (rq_body r) key_request_zero in
          if \<not> ok then (Error 400 ''bad request'', s)
          else case rq_claims r of
              None \<Rightarrow> (Error 401 ''unauthorized'', s)
            | Some claims \<Rightarrow>
                let tenantID = or_default (kq_TenantID req) ''default'' in
                if \<not> isAdmin claims \<and> cl_TenantID claims \<noteq> [] \<and> tenantID \<noteq> cl_TenantID claims
                then (Error 403 ''operator can only create keys for own tenant'', s)
                else case keys_Create (ev_sha ev) (ev_db ev 0) (ev_db_error ev) (ev_random ev) (ev_uuid ev 1) (ev_now ev 0)
                            (req\<lparr>kq_TenantID := tenantID\<rparr>) keys of
                    (Inl e, keys1) \<Rightarrow> (Error 400 (key_error_text e), s\<lparr>sv_keys := Some keys1\<rparr>)
                  | (Inr resp, keys1) \<Rightarrow> (Json 201 (PKeyCreated resp),
                      api_audit ev 1 (auditActorFromClaims (rq_claims r)) ''create'' ''api_key'' (kp_ID resp) (kp_TenantID resp)
                        (DetJson (JObj [(''name'', JStr (kp_Name resp)), (''roles'', JStr (kp_Roles resp)), (''tenant_id'', JStr (kp_TenantID resp))]))
                        (s\<lparr>sv_keys := Some keys1\<rparr>)))"

definition listAPIKeys :: handler where
  "listAPIKeys ev r s =
     (case sv_keys s of
        None \<Rightarrow> (Error 503 ''API key management requires database'', s)
      | Some keys \<Rightarrow> (case rq_claims r of
            None \<Rightarrow> (Error 401 ''unauthorized'', s)
          | Some claims \<Rightarrow> (case keys_List (ev_db ev 0) (ev_db_error ev) (key_tenant claims) keys of
                Inl e \<Rightarrow> (Error 500 ''internal error'', s)
              | Inr list \<Rightarrow> (Json 200 (PKeys list), s))))"

definition deleteAPIKey :: handler where
  "deleteAPIKey ev r s =
     (case sv_keys s of
        None \<Rightarrow> (Error 503 ''API key management requires database'', s)
      | Some keys \<Rightarrow>
          let i = rq_var r ''id'' in
          if i = [] then (Error 400 ''id required'', s)
          else case rq_claims r of
              None \<Rightarrow> (Error 401 ''unauthorized'', s)
            | Some claims \<Rightarrow>
                let tenantID = key_tenant claims;
                    (err, keys1) = keys_Delete (ev_db ev 0) (ev_db_error ev) i tenantID keys;
                    s1 = s\<lparr>sv_keys := Some keys1\<rparr>
                in case err of
                     Some ErrAPIKeyNotFound \<Rightarrow> (Error 404 ''not found'', s1)
                   | Some e \<Rightarrow> (Error 500 ''internal error'', s1)
                   | None \<Rightarrow> (NoContent, api_audit ev 0 (auditActorFromClaims (rq_claims r)) ''delete'' ''api_key'' i tenantID NoDetails s1))"

section \<open>OAuth clients\<close>

record createOAuthClientRequest =
  cc_ClientID :: string
  cc_ClientSecret :: string
  cc_RedirectURIs :: "string list"
  cc_Scopes :: "string list"
  cc_TenantID :: string

definition create_client_fields :: "createOAuthClientRequest struct_fields" where
  "create_client_fields =
     [(''client_id'', decode_string (\<lambda>v q. q\<lparr>cc_ClientID := v\<rparr>)),
      (''client_secret'', decode_string (\<lambda>v q. q\<lparr>cc_ClientSecret := v\<rparr>)),
      (''redirect_uris'', decode_strings (\<lambda>v q. q\<lparr>cc_RedirectURIs := v\<rparr>)),
      (''scopes'', decode_strings (\<lambda>v q. q\<lparr>cc_Scopes := v\<rparr>)),
      (''tenant_id'', decode_string (\<lambda>v q. q\<lparr>cc_TenantID := v\<rparr>))]"

definition create_client_zero :: createOAuthClientRequest where
  "create_client_zero = \<lparr>cc_ClientID = [], cc_ClientSecret = [], cc_RedirectURIs = [], cc_Scopes = [], cc_TenantID = []\<rparr>"

definition listOAuthClients :: handler where
  "listOAuthClients ev r s =
     (case sv_oauth s of
        None \<Rightarrow> (Error 503 ''OAuth not configured'', s)
      | Some d \<Rightarrow> (case clients_List (ev_db ev 0) (rq_query r ''tenant_id'') d of
            Inl e \<Rightarrow> (Error 500 ''internal error'', s)
          | Inr list \<Rightarrow> (Json 200 (PClients list), s)))"

definition createOAuthClient :: handler where
  "createOAuthClient ev r s =
     (case sv_oauth s of
        None \<Rightarrow> (Error 503 ''OAuth not configured'', s)
      | Some d \<Rightarrow>
          let (ok, req) = unmarshal create_client_fields (rq_body r) create_client_zero in
          if \<not> ok then (Error 400 ''bad request'', s)
          else if cc_ClientID req = [] \<or> cc_RedirectURIs req = [] \<or> cc_Scopes req = []
          then (Error 400 ''client_id, redirect_uris, and scopes required'', s)
          else if cc_ClientSecret req = [] then (Error 400 ''client_secret required'', s)
          else let c = \<lparr>oc_ID = [], oc_ClientID = cc_ClientID req, oc_ClientSecretHash = HashSHA256 (ev_sha ev) (cc_ClientSecret req),
                        oc_RedirectURIs = cc_RedirectURIs req, oc_Scopes = cc_Scopes req,
                        oc_TenantID = or_default (cc_TenantID req) ''default'', oc_CreatedAt = 0, oc_UpdatedAt = 0\<rparr>;
                   (err, c1, d1) = clients_Create (ev_db ev 0) (ev_now ev 0) (ev_uuid ev 1) c d;
                   s1 = s\<lparr>sv_oauth := Some d1\<rparr>
               in case err of
                    Some e \<Rightarrow> (Error 500 ''internal error'', s1)
                  | None \<Rightarrow> (Json 201 (PClient c1),
                      api_audit ev 1 (auditActorFromClaims (rq_claims r)) ''create'' ''oauth_client'' (oc_ClientID c1) (oc_TenantID c1)
                        (DetJson (JObj [(''client_id'', JStr (oc_ClientID c1)), (''tenant_id'', JStr (oc_TenantID c1))])) s1))"

record updateOAuthClientRequest =
  uc_RedirectURIs :: "string list"
  uc_Scopes :: "string list"
  uc_TenantID :: string

definition update_client_fields :: "updateOAuthClientRequest struct_fields" where
  "update_client_fields =
     [(''redirect_uris'', decode_strings (\<lambda>v q. q\<lparr>uc_RedirectURIs := v\<rparr>)),
      (''scopes'', decode_strings (\<lambda>v q. q\<lparr>uc_Scopes := v\<rparr>)),
      (''tenant_id'', decode_string (\<lambda>v q. q\<lparr>uc_TenantID := v\<rparr>))]"

definition update_client_zero :: updateOAuthClientRequest where
  "update_client_zero = \<lparr>uc_RedirectURIs = [], uc_Scopes = [], uc_TenantID = []\<rparr>"

definition updated_client :: "updateOAuthClientRequest \<Rightarrow> Client \<Rightarrow> Client" where
  "updated_client req c =
     (let c1 = (if uc_RedirectURIs req \<noteq> [] then c\<lparr>oc_RedirectURIs := uc_RedirectURIs req\<rparr> else c);
          c2 = (if uc_Scopes req \<noteq> [] then c1\<lparr>oc_Scopes := uc_Scopes req\<rparr> else c1)
      in if uc_TenantID req \<noteq> [] then c2\<lparr>oc_TenantID := uc_TenantID req\<rparr> else c2)"

definition updateOAuthClient :: handler where
  "updateOAuthClient ev r s =
     (case sv_oauth s of
        None \<Rightarrow> (Error 503 ''OAuth not configured'', s)
      | Some d \<Rightarrow>
          let clientID = rq_var r ''client_id'' in
          if clientID = [] then (Error 400 ''client_id required'', s)
          else case clients_List (ev_db ev 0) [] d of
              Inl e \<Rightarrow> (Error 500 ''internal error'', s)
            | Inr existing \<Rightarrow> (case find (\<lambda>c. oc_ClientID c = clientID) existing of
                  None \<Rightarrow> (Error 404 ''not found'', s)
                | Some c \<Rightarrow>
                    let (ok, req) = unmarshal update_client_fields (rq_body r) update_client_zero in
                    if \<not> ok then (Error 400 ''bad request'', s)
                    else let found = updated_client req c;
                             (err, d1) = clients_Update (ev_db ev 1) (ev_now ev 0) found d;
                             s1 = s\<lparr>sv_oauth := Some d1\<rparr>
                         in case err of
                              Some e \<Rightarrow> (Error 500 ''internal error'', s1)
                            | None \<Rightarrow> (Json 200 (PClient found),
                                api_audit ev 1 (auditActorFromClaims (rq_claims r)) ''update'' ''oauth_client'' clientID (oc_TenantID found)
                                  (DetJson (JObj [(''redirect_uris'', JArr (map JStr (oc_RedirectURIs found))),
                                                  (''scopes'', JArr (map JStr (oc_Scopes found)))])) s1)))"

definition deleteOAuthClient :: handler where
  "deleteOAuthClient ev r s =
     (case sv_oauth s of
        None \<Rightarrow> (Error 503 ''OAuth not configured'', s)
      | Some d \<Rightarrow>
          let clientID = rq_var r ''client_id'' in
          if clientID = [] then (Error 400 ''client_id required'', s)
          else case clients_List (ev_db ev 0) [] d of
              Inl e \<Rightarrow> (Error 500 ''internal error'', s)
            | Inr existing \<Rightarrow>
                let tenantID = (case find (\<lambda>c. oc_ClientID c = clientID) existing of None \<Rightarrow> [] | Some c \<Rightarrow> oc_TenantID c);
                    (err, d1) = clients_Delete (ev_db ev 1) clientID d;
                    s1 = s\<lparr>sv_oauth := Some d1\<rparr>
                in case err of
                     Some e \<Rightarrow> (Error 500 ''internal error'', s1)
                   | None \<Rightarrow> (NoContent,
                       api_audit ev 0 (auditActorFromClaims (rq_claims r)) ''delete'' ''oauth_client'' clientID tenantID NoDetails s1))"

section \<open>What they leave alone\<close>

lemmas key_handler_defs = createAPIKey_def listAPIKeys_def deleteAPIKey_def

lemmas client_handler_defs = listOAuthClients_def createOAuthClient_def updateOAuthClient_def deleteOAuthClient_def

text \<open>Everything but the keys, the clients and the audit log.\<close>

definition same_but_auth :: "server \<Rightarrow> server \<Rightarrow> bool" where
  "same_but_auth s s' \<longleftrightarrow> (\<exists>ks d es. s' = s\<lparr>sv_keys := ks, sv_oauth := d, sv_audit := es\<rparr>)"

lemma same_but_auth_simps [simp]:
  "same_but_auth s s" "same_but_auth s (s\<lparr>sv_keys := ks\<rparr>)" "same_but_auth s (s\<lparr>sv_oauth := d\<rparr>)"
proof -
  have "s = s\<lparr>sv_keys := sv_keys s, sv_oauth := sv_oauth s, sv_audit := sv_audit s\<rparr>" by simp
  then show "same_but_auth s s" unfolding same_but_auth_def by blast
  have "s\<lparr>sv_keys := ks\<rparr> = s\<lparr>sv_keys := ks, sv_oauth := sv_oauth s, sv_audit := sv_audit s\<rparr>" by simp
  then show "same_but_auth s (s\<lparr>sv_keys := ks\<rparr>)" unfolding same_but_auth_def by blast
  have "s\<lparr>sv_oauth := d\<rparr> = s\<lparr>sv_keys := sv_keys s, sv_oauth := d, sv_audit := sv_audit s\<rparr>" by simp
  then show "same_but_auth s (s\<lparr>sv_oauth := d\<rparr>)" unfolding same_but_auth_def by blast
qed

lemma same_but_auth_audit: "same_but_auth s s' \<Longrightarrow> same_but_auth s (api_audit ev n a b c d e f s')"
proof -
  assume "same_but_auth s s'"
  then obtain ks od es where s': "s' = s\<lparr>sv_keys := ks, sv_oauth := od, sv_audit := es\<rparr>" by (auto simp: same_but_auth_def)
  obtain es' where "api_audit ev n a b c d e f s' = s\<lparr>sv_keys := ks, sv_oauth := od, sv_audit := es'\<rparr>"
    by (cases es) (simp_all add: api_audit_def s')
  then show ?thesis unfolding same_but_auth_def by blast
qed

lemma createAPIKey_same: "same_but_auth s (snd (createAPIKey ev r s))"
  by (simp add: createAPIKey_def Let_def same_but_auth_audit split: option.split prod.split sum.split)

lemma deleteAPIKey_same: "same_but_auth s (snd (deleteAPIKey ev r s))"
  by (simp add: deleteAPIKey_def Let_def same_but_auth_audit split: option.split prod.split key_error.split)

lemma createOAuthClient_same: "same_but_auth s (snd (createOAuthClient ev r s))"
  by (simp add: createOAuthClient_def Let_def same_but_auth_audit split: option.split prod.split)

lemma updateOAuthClient_same: "same_but_auth s (snd (updateOAuthClient ev r s))"
  by (simp add: updateOAuthClient_def Let_def same_but_auth_audit split: option.split prod.split sum.split)

lemma deleteOAuthClient_same: "same_but_auth s (snd (deleteOAuthClient ev r s))"
  by (simp add: deleteOAuthClient_def Let_def same_but_auth_audit split: option.split prod.split sum.split)

lemma same_but_auth_frames:
  assumes "same_but_auth s s'"
  shows "sv_registry s' = sv_registry s" "sv_tasks s' = sv_tasks s" "sv_catalog s' = sv_catalog s" "sv_tenants s' = sv_tenants s"
    "sv_bus s' = sv_bus s" "sv_edges s' = sv_edges s"
  using assms by (auto simp: same_but_auth_def)

end
