(* ===== verification/Api_Mall.thy ===== *)
theory Api_Mall
  imports Api_Server
begin

text \<open>
  The handlers of the API server for the mall assistant and the mall's digital twin, \<^verbatim>\<open>pkg/control-plane/api/server.go\<close>.
  A start creates a task, which the task runner hands to the assistant; a visitor's request goes to the registry of
  theory \<open>Mall_Assistant\<close>. The maps belong to all tenants.
\<close>

section \<open>The assistant\<close>

definition start_fields :: "(string \<times> string) struct_fields" where
  "start_fields =
     [(''robot_id'', decode_string (\<lambda>v q. (v, snd q))), (''operator_id'', decode_string (\<lambda>v q. (fst q, v)))]"

definition assistant_task :: "string \<Rightarrow> string \<Rightarrow> string \<Rightarrow> Robot \<Rightarrow> Task" where
  "assistant_task uuid robotID operatorID robot =
     \<lparr>k_ID = uuid, k_RobotID = robotID, k_TenantID = or_default (r_TenantID robot) ''default'', k_Type = ''scenario'',
      k_ScenarioID = ''mall_assistant'', k_Payload = RawEmpty, k_Status = StatusPending, k_CreatedAt = 0, k_UpdatedAt = 0,
      k_CompletedAt = None, k_OperatorID = or_default operatorID ''console''\<rparr>"

definition mallAssistantStart :: handler where
  "mallAssistantStart ev r s =
     (if sv_assistant s = None then (Error 503 ''mall assistant not configured'', s)
      else let (ok, robotID, operatorID) = unmarshal start_fields (rq_body r) ([], []) in
        if \<not> ok then (Error 400 ''bad request'', s)
        else if robotID = [] then (Error 400 ''robot_id required'', s)
        else with_tenant r s (\<lambda>tenantID.
          case registry_Get (sv_registry s) robotID of
            None \<Rightarrow> (Error 404 ''robot not found'', s)
          | Some robot \<Rightarrow>
              if foreign tenantID (r_TenantID robot) then (Error 404 ''robot not found'', s)
              else case GetForTenant (sv_catalog s) ''mall_assistant'' tenantID of
                  None \<Rightarrow> (Error 404 ''mall_assistant scenario not found'', s)
                | Some scenario \<Rightarrow>
                    if \<not> HasCapability (Some robot) (sc_RequiredCapabilities scenario)
                    then (Error 400 ''robot lacks required capabilities for mall assistant'', s)
                    else if HasRunningForRobot (ev_tasks ev) robotID (sv_tasks s)
                    then (Error 409 ''robot already has a running task'', s)
                    else let t = assistant_task (ev_uuid ev 1) robotID operatorID robot;
                             s1 = s\<lparr>sv_tasks := tasks_Create (ev_now ev 0) t (sv_tasks s)\<rparr>
                         in (Json 201 (PTask (task_stamp (ev_now ev 0) t)),
                             api_audit ev 1 (auditActor (k_OperatorID t)) ''create'' ''task'' (k_ID t) (k_TenantID t)
                               (DetText (''{\"robot_id\":\"'' @ k_RobotID t @ ''\",\"scenario_id\":\"mall_assistant\"}'')) s1)))"

definition visitor_fields :: "(string \<times> string) struct_fields" where
  "visitor_fields =
     [(''robot_id'', decode_string (\<lambda>v q. (v, snd q))), (''text'', decode_string (\<lambda>v q. (fst q, v)))]"

definition mallAssistantVisitorRequest :: handler where
  "mallAssistantVisitorRequest ev r s =
     (case sv_assistant s of
        None \<Rightarrow> (Error 503 ''mall assistant not configured'', s)
      | Some reg \<Rightarrow>
          let (ok, robotID, text) = unmarshal visitor_fields (rq_body r) ([], []) in
          if \<not> ok then (Error 400 ''bad request'', s)
          else if robotID = [] then (Error 400 ''robot_id required'', s)
          else if text = [] then (Error 400 ''text required'', s)
          else with_tenant r s (\<lambda>tenantID.
            case registry_Get (sv_registry s) robotID of
              None \<Rightarrow> (Error 404 ''robot not found'', s)
            | Some robot \<Rightarrow>
                if foreign tenantID (r_TenantID robot) then (Error 404 ''robot not found'', s)
                else case Submit robotID text reg of
                    None \<Rightarrow> (Panic, s)
                  | Some (False, reg1) \<Rightarrow> (Error 409 ''no active mall assistant for this robot'', s)
                  | Some (True, reg1) \<Rightarrow> (Json 202 PAccepted, s\<lparr>sv_assistant := Some reg1\<rparr>)))"

section \<open>The digital twin\<close>

text \<open>
  What the four handlers share: the service, any tenant, and the errors of the service, of which those in \<open>notfound\<close>
  are answered with 404.
\<close>

definition with_mall :: "request \<Rightarrow> server \<Rightarrow> (mall_repo \<Rightarrow> reply) \<Rightarrow> reply \<times> server" where
  "with_mall r s k =
     (case sv_mall s of
        None \<Rightarrow> (Error 503 ''mall service not configured'', s)
      | Some repo \<Rightarrow> with_tenant r s (\<lambda>_. (k repo, s)))"

definition mall_failure :: "mall_error list \<Rightarrow> mall_error \<Rightarrow> reply" where
  "mall_failure notfound e = (if List.member notfound e then Error 404 ''not found'' else Error 500 ''internal error'')"

definition getMallMap :: handler where
  "getMallMap ev r s = with_mall r s (\<lambda>repo.
     if rq_var r ''mall_id'' = [] then Error 400 ''mall_id required''
     else case GetMap repo (rq_var r ''mall_id'') of
         Inl e \<Rightarrow> mall_failure [ErrMallNotFound] e
       | Inr m \<Rightarrow> Json 200 (PMallMap m))"

definition listMallStores :: handler where
  "listMallStores ev r s = with_mall r s (\<lambda>repo.
     if rq_var r ''mall_id'' = [] then Error 400 ''mall_id required''
     else case ListStores repo (rq_var r ''mall_id'') of
         Inl e \<Rightarrow> mall_failure [ErrMallNotFound] e
       | Inr stores \<Rightarrow> Json 200 (PMallStores stores))"

definition store_location_zero :: StoreLocation where
  "store_location_zero = \<lparr>sl_StoreName = [], sl_FloorID = [], sl_Zone = [], sl_NodeID = []\<rparr>"

text \<open>The store shown is the first one at the node that was found.\<close>

definition getMallStore :: handler where
  "getMallStore ev r s = with_mall r s (\<lambda>repo.
     if rq_var r ''mall_id'' = [] \<or> rq_var r ''store_name'' = [] then Error 400 ''mall_id and store_name required''
     else case FindStoreNode repo (rq_var r ''mall_id'') (rq_var r ''store_name'') of
         Inl e \<Rightarrow> mall_failure [ErrStoreNotFound, ErrMallNotFound] e
       | Inr node \<Rightarrow> (case GetMap repo (rq_var r ''mall_id'') of
             Inl e \<Rightarrow> Panic
           | Inr m \<Rightarrow> Json 200 (PMallStore
               (case find (\<lambda>sl. sl_NodeID sl = n_ID node) (mm_Stores m) of None \<Rightarrow> store_location_zero | Some sl \<Rightarrow> sl) node)))"

text \<open>A search that does not return leaves the request unanswered; it is shown as the connection breaking off.\<close>

definition getMallRoute :: handler where
  "getMallRoute ev r s = with_mall r s (\<lambda>repo.
     if rq_var r ''mall_id'' = [] \<or> rq_query r ''from'' = [] \<or> rq_query r ''to'' = []
     then Error 400 ''mall_id, from, and to query params required''
     else case CalculateRoute (ev_nodes ev) (ev_round ev) repo (rq_var r ''mall_id'') (rq_query r ''from'') (rq_query r ''to'') of
         None \<Rightarrow> Panic
       | Some (Inl e) \<Rightarrow> mall_failure [ErrMallNotFound, ErrPathNotFound] e
       | Some (Inr (route, d)) \<Rightarrow> Json 200 (PMallRoute route d))"

section \<open>What they change\<close>

lemma mall_reading:
  "snd (getMallMap ev r s) = s" "snd (listMallStores ev r s) = s" "snd (getMallStore ev r s) = s" "snd (getMallRoute ev r s) = s"
  by (simp_all add: getMallMap_def listMallStores_def getMallStore_def getMallRoute_def with_mall_def with_tenant_def
      split: option.split sum.split)

lemma mall_replies:
  "\<lbrakk>\<And>repo. k repo = Json code p \<Longrightarrow> Q; fst (with_mall r s k) = Json code p\<rbrakk> \<Longrightarrow> Q"
  by (auto simp: with_mall_def with_tenant_def tenantOrError_def split: option.splits sum.splits)

text \<open>A start creates at most one task: pending, new, of the tenant of the robot, which the caller may act for.\<close>

lemma mallAssistantStart_effect:
  "sv_tasks (snd (mallAssistantStart ev r s)) = sv_tasks s
   \<or> (\<exists>robotID op robot t tenantID. sv_registry s robotID = Some robot \<and> tenantOrError r = Inr tenantID
       \<and> \<not> foreign tenantID (r_TenantID robot) \<and> t = task_stamp (ev_now ev 0) (assistant_task (ev_uuid ev 1) robotID op robot)
       \<and> fst (mallAssistantStart ev r s) = Json 201 (PTask t)
       \<and> sv_tasks (snd (mallAssistantStart ev r s)) = (sv_tasks s)(k_ID t \<mapsto> t))"
proof -
  obtain ok robotID op where req: "unmarshal start_fields (rq_body r) ([], []) = (ok, robotID, op)" by (metis surj_pair)
  show ?thesis
    by (cases "tenantOrError r")
      (auto simp: mallAssistantStart_def req with_tenant_def registry_Get_def tasks_Create_def Let_def assistant_task_def
        split: option.split)
qed

lemma mallAssistantStart_reply:
  "fst (mallAssistantStart ev r s) = Json code p \<Longrightarrow> \<exists>tenantID t rt. tenantOrError r = Inr tenantID \<and> p = PTask t
     \<and> \<not> foreign tenantID rt \<and> k_TenantID t = or_default rt ''default''"
proof -
  obtain ok robotID op where req: "unmarshal start_fields (rq_body r) ([], []) = (ok, robotID, op)" by (metis surj_pair)
  show "fst (mallAssistantStart ev r s) = Json code p \<Longrightarrow> ?thesis"
    by (cases "tenantOrError r")
      (auto simp: mallAssistantStart_def req with_tenant_def Let_def assistant_task_def tenantOrError_def
        split: option.splits if_splits sum.splits intro: exI [of _ "r_TenantID _"])
qed

lemma mallAssistantStart_frames:
  "sv_registry (snd (mallAssistantStart ev r s)) = sv_registry s" "sv_tenants (snd (mallAssistantStart ev r s)) = sv_tenants s"
  "sv_catalog (snd (mallAssistantStart ev r s)) = sv_catalog s" "sv_bus (snd (mallAssistantStart ev r s)) = sv_bus s"
  "sv_edges (snd (mallAssistantStart ev r s)) = sv_edges s" "sv_keys (snd (mallAssistantStart ev r s)) = sv_keys s"
  by (auto simp: mallAssistantStart_def Let_def with_tenant_def split: option.split prod.split sum.split)

lemma mallAssistantVisitorRequest_same:
  "\<exists>reg. snd (mallAssistantVisitorRequest ev r s) = s\<lparr>sv_assistant := reg\<rparr>"
proof -
  have s: "s = s\<lparr>sv_assistant := sv_assistant s\<rparr>" by simp
  show ?thesis
    unfolding mallAssistantVisitorRequest_def Let_def with_tenant_def
    by (auto split: option.split prod.split sum.split bool.split intro: exI [of _ "sv_assistant s"])
qed

lemma mallAssistantVisitorRequest_reply:
  "fst (mallAssistantVisitorRequest ev r s) = Json code p \<Longrightarrow> p = PAccepted"
  by (auto simp: mallAssistantVisitorRequest_def Let_def with_tenant_def tenantOrError_def
      split: option.splits prod.splits sum.splits bool.splits if_splits)

end
