(* ===== verification/Api_Conversations.thy ===== *)
theory Api_Conversations
  imports Api_Server
begin

text \<open>
  The handlers of the API server for conversations, \<^verbatim>\<open>pkg/control-plane/api/server.go\<close>. The reading ones pass the tenant of the caller
  to the catalog of theory \<open>Conversations\<close>; the writing ones, for administrators, do not ask for it.
\<close>

definition conversation_zero :: Conversation where
  "conversation_zero = \<lparr>cn_ID = [], cn_Intent = [], cn_Name = [], cn_Description = [], cn_ResponseTemplate = [],
     cn_ResponseProviderURL = [], cn_SupportedLanguages = [], cn_TenantID = []\<rparr>"

definition conversation_fields :: "Conversation struct_fields" where
  "conversation_fields =
     [(''id'', decode_string (\<lambda>v c. c\<lparr>cn_ID := v\<rparr>)),
      (''intent'', decode_string (\<lambda>v c. c\<lparr>cn_Intent := v\<rparr>)),
      (''name'', decode_string (\<lambda>v c. c\<lparr>cn_Name := v\<rparr>)),
      (''description'', decode_string (\<lambda>v c. c\<lparr>cn_Description := v\<rparr>)),
      (''response_template'', decode_string (\<lambda>v c. c\<lparr>cn_ResponseTemplate := v\<rparr>)),
      (''response_provider_url'', decode_string (\<lambda>v c. c\<lparr>cn_ResponseProviderURL := v\<rparr>)),
      (''supported_languages'', decode_strings (\<lambda>v c. c\<lparr>cn_SupportedLanguages := v\<rparr>)),
      (''tenant_id'', decode_string (\<lambda>v c. c\<lparr>cn_TenantID := v\<rparr>))]"

text \<open>The text of an error of the catalog.\<close>

fun conv_error_text :: "conv_error \<Rightarrow> string" where
  "conv_error_text ConvNotFound = ''conversation not found''"
| "conv_error_text ConvAlreadyExists = ''conversation already exists''"

text \<open>The routes exist only with a catalog; without one the field is \<^verbatim>\<open>nil\<close> and would panic in the catalog's method.\<close>

definition with_catalog :: "server \<Rightarrow> (conv_catalog \<Rightarrow> reply \<times> server) \<Rightarrow> reply \<times> server" where
  "with_catalog s k = (case sv_conversations s of None \<Rightarrow> (Panic, s) | Some c \<Rightarrow> k c)"

definition listConversations :: handler where
  "listConversations ev r s = with_tenant r s (\<lambda>tenantID. with_catalog s (\<lambda>cat.
     (Json 200 (PConversations (convcat_ListForTenant (ev_convs ev) cat tenantID)), s)))"

definition getConversation :: handler where
  "getConversation ev r s = with_tenant r s (\<lambda>tenantID.
     if rq_var r ''id'' = [] then (Error 400 ''conversation id required'', s)
     else with_catalog s (\<lambda>cat.
       case convcat_GetForTenant cat (rq_var r ''id'') tenantID of
         Inl e \<Rightarrow> (Error 500 (conv_error_text e), s)
       | Inr None \<Rightarrow> (Error 404 ''conversation not found'', s)
       | Inr (Some conv) \<Rightarrow> (Json 200 (PConversation conv), s)))"

text \<open>The checks that creation and update share.\<close>

definition invalid_conversation :: "Conversation \<Rightarrow> string option" where
  "invalid_conversation conv =
     (if cn_Intent conv = [] then Some ''intent required''
      else if cn_Name conv = [] then Some ''name required''
      else if cn_ResponseTemplate conv = [] \<and> cn_ResponseProviderURL conv = []
      then Some ''response_template or response_provider_url required''
      else None)"

definition createConversation :: handler where
  "createConversation ev r s =
     (let (ok, conv) = unmarshal conversation_fields (rq_body r) conversation_zero in
      if \<not> ok then (Error 400 ''invalid request body'', s)
      else if cn_ID conv = [] then (Error 400 ''id required'', s)
      else case invalid_conversation conv of
          Some m \<Rightarrow> (Error 400 m, s)
        | None \<Rightarrow> with_catalog s (\<lambda>cat.
            case convcat_Create conv cat of
              Inl ConvAlreadyExists \<Rightarrow> (Error 409 ''conversation already exists'', s)
            | Inl e \<Rightarrow> (Error 500 (conv_error_text e), s)
            | Inr cat' \<Rightarrow> (Json 201 (PConversation conv), s\<lparr>sv_conversations := Some cat'\<rparr>)))"

definition updateConversation :: handler where
  "updateConversation ev r s =
     (if rq_var r ''id'' = [] then (Error 400 ''conversation id required'', s)
      else let (ok, conv0) = unmarshal conversation_fields (rq_body r) conversation_zero; conv = conv0\<lparr>cn_ID := rq_var r ''id''\<rparr> in
        if \<not> ok then (Error 400 ''invalid request body'', s)
        else case invalid_conversation conv of
            Some m \<Rightarrow> (Error 400 m, s)
          | None \<Rightarrow> with_catalog s (\<lambda>cat.
              case convcat_Update conv cat of
                Inl ConvNotFound \<Rightarrow> (Error 404 ''conversation not found'', s)
              | Inl e \<Rightarrow> (Error 500 (conv_error_text e), s)
              | Inr cat' \<Rightarrow> (Json 200 (PConversation conv), s\<lparr>sv_conversations := Some cat'\<rparr>)))"

definition deleteConversation :: handler where
  "deleteConversation ev r s =
     (if rq_var r ''id'' = [] then (Error 400 ''conversation id required'', s)
      else with_catalog s (\<lambda>cat.
        case convcat_Delete (rq_var r ''id'') cat of
          Inl ConvNotFound \<Rightarrow> (Error 404 ''conversation not found'', s)
        | Inl e \<Rightarrow> (Error 500 (conv_error_text e), s)
        | Inr cat' \<Rightarrow> (NoContent, s\<lparr>sv_conversations := Some cat'\<rparr>)))"

section \<open>What they change\<close>

lemma conversations_reading: "snd (listConversations ev r s) = s" "snd (getConversation ev r s) = s"
  by (simp_all add: listConversations_def getConversation_def with_catalog_def with_tenant_def
      split: option.split sum.split)

definition same_but_conversations :: "server \<Rightarrow> server \<Rightarrow> bool" where
  "same_but_conversations s s' \<longleftrightarrow> (\<exists>c. s' = s\<lparr>sv_conversations := c\<rparr>)"

lemma same_but_conversations_refl [simp]: "same_but_conversations s s"
  unfolding same_but_conversations_def by (rule exI [of _ "sv_conversations s"]) simp

lemma same_but_conversations_upd [simp]: "same_but_conversations s (s\<lparr>sv_conversations := c\<rparr>)"
  by (auto simp: same_but_conversations_def)

lemma conversations_same:
  "same_but_conversations s (snd (createConversation ev r s))" "same_but_conversations s (snd (updateConversation ev r s))"
  "same_but_conversations s (snd (deleteConversation ev r s))"
  unfolding createConversation_def updateConversation_def deleteConversation_def with_catalog_def Let_def
  by (simp_all split: prod.split option.split sum.split conv_error.split)

lemma same_but_conversations_frames:
  assumes "same_but_conversations s s'"
  shows "sv_registry s' = sv_registry s" "sv_tenants s' = sv_tenants s" "sv_tasks s' = sv_tasks s"
  using assms by (auto simp: same_but_conversations_def)

text \<open>
  With the in-memory store, callers of a tenant are shown the conversations of others: the store takes the tenant and does not
  look at it, where the SQL store selects by it.
\<close>

theorem conversation_crosses_tenants:
  fixes conv ev
  defines "conv \<equiv> conversation_zero\<lparr>cn_ID := ''c1'', cn_TenantID := ''acme''\<rparr>"
  defines "s \<equiv> example_server\<lparr>sv_conversations := Some (Some (convs_put conv convs_NewMemoryStore))\<rparr>"
  shows "fst (getConversation ev (example_request (operator_of ''other'') [(''id'', ''c1'')] RawEmpty) s) = Json 200 (PConversation conv)
    \<and> cn_TenantID conv = ''acme''"
proof -
  have c: "confined (example_request (operator_of ''other'') [(''id'', ''c1'')] RawEmpty) ''other''" by (rule operator_confined) simp
  have v: "rq_var (example_request (operator_of ''other'') [(''id'', ''c1'')] RawEmpty) ''id'' = ''c1''" by (simp add: example_request_def)
  have g: "convs_put conv convs_NewMemoryStore = \<lparr>cvs_byID = [''c1'' \<mapsto> conv], cvs_byIntent = [[] \<mapsto> ''c1'']\<rparr>"
    by (simp add: convs_put_def convs_NewMemoryStore_def conv_def conversation_zero_def)
  show ?thesis
    by (simp add: getConversation_def confined_with_tenant [OF c] v with_catalog_def s_def g convcat_GetForTenant_def
        convs_GetByTenant_def convs_Get_def) (simp add: conv_def)
qed

end
