(* ===== verification/Api_Routes.thy ===== *)
theory Api_Routes
  imports Api_Fleet Api_Command Api_Tasks Api_Workflows Api_Sim Api_Auth Api_Mall Api_Conversations
begin

text \<open>
  The routes of the API server, \<^verbatim>\<open>RegisterRoutes\<close> of \<^verbatim>\<open>pkg/control-plane/api/server.go\<close>: each handler
  behind the authenticating middleware and the check of its roles. Then what the server as a whole
  guarantees: the invariant of the fleet, the confinement of callers to their tenant, and what it may
  write to the task store while the runner works.
\<close>

datatype route =
    GetMe | ListRobots | CreateRobot | GetRobot | GetRobotStateRoute | UpdateRobot | DeleteRobot | SendCommand
  | ListZonesRoute | GetZoneStatusRoute | ListScenarios | CreateScenario | GetScenario | UpdateScenario | DeleteScenario
  | ListTasks | CreateTask | GetTask | CancelTask | ListAudit
  | ListEdgesRoute | GetEdgeRoute | EdgeHeartbeat
  | ListTenants | CreateTenant | GetTenant | UpdateTenant | DeleteTenant | ListTenantRobots
  | ListWorkflows | RunWorkflow | ListWorkflowRuns | GetWorkflowRun
  | ListWebhooks | CreateWebhook | GetWebhook | UpdateWebhook | DeleteWebhook
  | SimCreate | SimStart | SimStop | SimReset | SimInjectFailure | SimGetState
  | CreateAPIKey | ListAPIKeys | DeleteAPIKey | ListOAuthClients | CreateOAuthClient | UpdateOAuthClient | DeleteOAuthClient
  | MallAssistantStart | MallAssistantVisitorRequest | GetMallMap | ListMallStores | GetMallStore | GetMallRoute
  | ListConversations | CreateConversation | GetConversation | UpdateConversation | DeleteConversation

definition opOrViewerOrAdmin :: "string list" where
  "opOrViewerOrAdmin = [RoleOperator, RoleAdministrator, RoleViewer]"

definition opOrAdmin :: "string list" where
  "opOrAdmin = [RoleOperator, RoleAdministrator]"

definition adminOnly :: "string list" where
  "adminOnly = [RoleAdministrator]"

definition opOrAdminOrSystem :: "string list" where
  "opOrAdminOrSystem = [RoleOperator, RoleAdministrator, RoleSystem]"

fun register_route :: "route \<Rightarrow> string list \<times> handler" where
  "register_route GetMe = (opOrViewerOrAdmin, getMe)"
| "register_route ListRobots = (opOrViewerOrAdmin, listRobots)"
| "register_route CreateRobot = (adminOnly, createRobot)"
| "register_route GetRobot = (opOrViewerOrAdmin, getRobot)"
| "register_route GetRobotStateRoute = (opOrViewerOrAdmin, getRobotState)"
| "register_route UpdateRobot = (adminOnly, updateRobot)"
| "register_route DeleteRobot = (adminOnly, deleteRobot)"
| "register_route SendCommand = (opOrAdmin, sendCommand)"
| "register_route ListZonesRoute = (opOrViewerOrAdmin, listZones)"
| "register_route GetZoneStatusRoute = (opOrViewerOrAdmin, getZoneStatus)"
| "register_route ListScenarios = (opOrViewerOrAdmin, listScenarios)"
| "register_route CreateScenario = (adminOnly, createScenario)"
| "register_route GetScenario = (opOrAdmin, getScenario)"
| "register_route UpdateScenario = (adminOnly, updateScenario)"
| "register_route DeleteScenario = (adminOnly, deleteScenario)"
| "register_route ListTasks = (opOrAdmin, listTasks)"
| "register_route CreateTask = (opOrAdmin, createTask)"
| "register_route GetTask = (opOrAdmin, getTask)"
| "register_route CancelTask = (opOrAdmin, cancelTask)"
| "register_route ListAudit = (opOrAdmin, listAudit)"
| "register_route ListEdgesRoute = (opOrViewerOrAdmin, listEdges)"
| "register_route GetEdgeRoute = (opOrViewerOrAdmin, getEdge)"
| "register_route EdgeHeartbeat = (opOrAdminOrSystem, edgeHeartbeat)"
| "register_route ListTenants = (opOrViewerOrAdmin, listTenants)"
| "register_route CreateTenant = (adminOnly, createTenant)"
| "register_route GetTenant = (opOrViewerOrAdmin, getTenant)"
| "register_route UpdateTenant = (adminOnly, updateTenant)"
| "register_route DeleteTenant = (adminOnly, deleteTenant)"
| "register_route ListTenantRobots = (opOrViewerOrAdmin, listTenantRobots)"
| "register_route ListWorkflows = (opOrViewerOrAdmin, listWorkflows)"
| "register_route RunWorkflow = (opOrAdmin, runWorkflow)"
| "register_route ListWorkflowRuns = (opOrViewerOrAdmin, listWorkflowRuns)"
| "register_route GetWorkflowRun = (opOrViewerOrAdmin, getWorkflowRun)"
| "register_route ListWebhooks = (adminOnly, listWebhooks)"
| "register_route CreateWebhook = (adminOnly, createWebhook)"
| "register_route GetWebhook = (adminOnly, getWebhook)"
| "register_route UpdateWebhook = (adminOnly, updateWebhook)"
| "register_route DeleteWebhook = (adminOnly, deleteWebhook)"
| "register_route SimCreate = (opOrAdmin, simRobotCreate)"
| "register_route SimStart = (opOrAdmin, simRobotStart)"
| "register_route SimStop = (opOrAdmin, simRobotStop)"
| "register_route SimReset = (opOrAdmin, simRobotReset)"
| "register_route SimInjectFailure = (opOrAdmin, simRobotInjectFailure)"
| "register_route SimGetState = (opOrViewerOrAdmin, simRobotGetState)"
| "register_route CreateAPIKey = (opOrAdmin, createAPIKey)"
| "register_route ListAPIKeys = (opOrAdmin, listAPIKeys)"
| "register_route DeleteAPIKey = (opOrAdmin, deleteAPIKey)"
| "register_route ListOAuthClients = (adminOnly, listOAuthClients)"
| "register_route CreateOAuthClient = (adminOnly, createOAuthClient)"
| "register_route UpdateOAuthClient = (adminOnly, updateOAuthClient)"
| "register_route DeleteOAuthClient = (adminOnly, deleteOAuthClient)"
| "register_route MallAssistantStart = (opOrAdmin, mallAssistantStart)"
| "register_route MallAssistantVisitorRequest = (opOrAdmin, mallAssistantVisitorRequest)"
| "register_route GetMallMap = (opOrViewerOrAdmin, getMallMap)"
| "register_route ListMallStores = (opOrViewerOrAdmin, listMallStores)"
| "register_route GetMallStore = (opOrViewerOrAdmin, getMallStore)"
| "register_route GetMallRoute = (opOrViewerOrAdmin, getMallRoute)"
| "register_route ListConversations = (opOrViewerOrAdmin, listConversations)"
| "register_route CreateConversation = (adminOnly, createConversation)"
| "register_route GetConversation = (opOrViewerOrAdmin, getConversation)"
| "register_route UpdateConversation = (adminOnly, updateConversation)"
| "register_route DeleteConversation = (adminOnly, deleteConversation)"

text \<open>Some routes exist only where their service is configured.\<close>

definition sim_routes :: "route list" where
  "sim_routes = [SimCreate, SimStart, SimStop, SimReset, SimInjectFailure, SimGetState]"

definition key_routes :: "route list" where
  "key_routes = [CreateAPIKey, ListAPIKeys, DeleteAPIKey]"

definition client_routes :: "route list" where
  "client_routes = [ListOAuthClients, CreateOAuthClient, UpdateOAuthClient, DeleteOAuthClient]"

definition mall_routes :: "route list" where
  "mall_routes = [GetMallMap, ListMallStores, GetMallStore, GetMallRoute]"

definition conversation_routes :: "route list" where
  "conversation_routes = [ListConversations, CreateConversation, GetConversation, UpdateConversation, DeleteConversation]"

definition registered :: "route \<Rightarrow> server \<Rightarrow> bool" where
  "registered route s \<longleftrightarrow> \<not> (List.member sim_routes route \<and> sv_sim s = None)
     \<and> \<not> (List.member key_routes route \<and> sv_keys s = None) \<and> \<not> (List.member client_routes route \<and> sv_oauth s = None)
     \<and> \<not> (List.member mall_routes route \<and> sv_mall s = None)
     \<and> \<not> (List.member conversation_routes route \<and> sv_conversations s = None)"

text \<open>A request, with the claims the middleware finds; a refusal of a middleware changes nothing.\<close>

definition serve ::
  "'k auth_config \<Rightarrow> credentials \<Rightarrow> route \<Rightarrow> api_env \<Rightarrow> request \<Rightarrow> server \<Rightarrow> reply \<times> server" where
  "serve cfg cr route ev r s =
     (if \<not> registered route s then (Error 404 ''404 page not found'', s)
      else case MiddlewareWithAPIKeysAndOAuth cfg cr (RequireRole (ac_unsafe cfg) (fst (register_route route))
             (\<lambda>claims. Served (snd (register_route route) ev (r\<lparr>rq_claims := claims, rq_unsafe := ac_unsafe cfg\<rparr>) s))) of
        Denied status msg \<Rightarrow> (Error status msg, s)
      | Served res \<Rightarrow> res)"

section \<open>Requests that reach a handler\<close>

lemma serve_cases:
  obtains (denied) st m where "serve cfg cr route ev r s = (Error st m, s)"
  | (handled) claims where
      "serve cfg cr route ev r s = snd (register_route route) ev (r\<lparr>rq_claims := claims, rq_unsafe := ac_unsafe cfg\<rparr>) s"
      "if AuthConfigured cfg
       then \<exists>c. claims = Some c \<and> authenticates cfg cr c \<and> hasAnyRole (GetRoles c) (fst (register_route route))
       else ac_unsafe cfg \<and> claims = None"
proof -
  let ?h = "\<lambda>claims. snd (register_route route) ev (r\<lparr>rq_claims := claims, rq_unsafe := ac_unsafe cfg\<rparr>) s"
  let ?m = "MiddlewareWithAPIKeysAndOAuth cfg cr
     (RequireRole (ac_unsafe cfg) (fst (register_route route)) (\<lambda>claims. Served (?h claims)))"
  show ?thesis
  proof (cases "\<not> registered route s")
    case True
    then show ?thesis by (intro denied) (simp add: serve_def)
  next
    case reg: False
    show ?thesis
    proof (cases ?m)
    case (Denied st m)
    with reg show ?thesis by (intro denied) (simp add: serve_def)
  next
    case (Served x)
    note who = guarded_served [THEN iffD1, OF Served]
    from Served reg have x: "serve cfg cr route ev r s = x" by (simp add: serve_def)
    show ?thesis
    proof (cases "AuthConfigured cfg")
      case True
      with who obtain c where "authenticates cfg cr c" "hasAnyRole (GetRoles c) (fst (register_route route))" "x = ?h (Some c)"
        by auto
      with True x show ?thesis by (intro handled [of "Some c"]) auto
    next
      case False
      with who x show ?thesis by (intro handled [of None]) auto
    qed
  qed
  qed
qed

section \<open>The fleet\<close>

lemma sendCommand_fleet: "same_fleet s (snd (sendCommand ev r s))"
proof (cases rule: sendCommand_cases [of ev r s])
  case (bad st m s1)
  have "sv_registry s1 = sv_registry s" "sv_tenants s1 = sv_tenants s" by (subst bad(4), simp)+
  with bad(1) show ?thesis by (simp add: same_fleet_def)
next
  case (refused req s1)
  have "sv_registry s1 = sv_registry s" "sv_tenants s1 = sv_tenants s" by (subst refused(4), simp)+
  with refused(1) show ?thesis by (simp add: same_fleet_def)
qed (auto simp: same_fleet_def)

text \<open>The handlers that read only.\<close>

lemma with_tenant_snd: "(\<And>t. snd (k t) = s) \<Longrightarrow> snd (with_tenant r s k) = s"
  by (simp add: with_tenant_def split: sum.split)

definition reading :: "route set" where
  "reading = {GetMe, ListRobots, GetRobot, GetRobotStateRoute, ListZonesRoute, GetZoneStatusRoute, ListScenarios,
     GetScenario, ListTasks, GetTask, ListAudit, ListEdgesRoute, GetEdgeRoute, ListTenants, GetTenant, ListTenantRobots,
     ListWorkflows, ListWorkflowRuns, GetWorkflowRun, ListWebhooks, GetWebhook, SimGetState, ListAPIKeys, ListOAuthClients,
     GetMallMap, ListMallStores, GetMallStore, GetMallRoute, ListConversations, GetConversation}"

lemma reading_same: "route \<in> reading \<Longrightarrow> snd (snd (register_route route) ev r s) = s"
  by (cases route)
    (auto simp: mall_reading conversations_reading reading_def getMe_def listRobots_def getRobot_def getRobotState_def listZones_def getZoneStatus_def
      listScenarios_def getScenario_def listTasks_def getTask_def listAudit_def listEdges_def getEdge_def
      listTenants_def getTenant_def listTenantRobots_def listWorkflows_def listWorkflowRuns_def getWorkflowRun_def
      listWebhooks_def getWebhook_def simRobotGetState_def with_sim_def listAPIKeys_def listOAuthClients_def Let_def intro!: with_tenant_snd split: option.split sum.split)

lemma createTask_fleet: "same_fleet s (snd (createTask ev r s))"
  by (cases "tenantOrError r")
    (simp_all add: createTask_def Let_def with_tenant_def same_fleet_def split: prod.split option.split)

lemma cancelTask_fleet: "same_fleet s (snd (cancelTask ev r s))"
  by (cases "tenantOrError r")
    (simp_all add: cancelTask_def Let_def with_tenant_def same_fleet_def split: option.split)

lemma createScenario_fleet: "same_fleet s (snd (createScenario ev r s))"
  unfolding createScenario_def by (simp add: same_fleet_def split: prod.split sum.split scenario_error.split)

lemma updateScenario_fleet: "same_fleet s (snd (updateScenario ev r s))"
  unfolding updateScenario_def Let_def
  by (simp add: same_fleet_def split: prod.split option.split sum.split scenario_error.split)

lemma deleteScenario_fleet: "same_fleet s (snd (deleteScenario ev r s))"
  unfolding deleteScenario_def Let_def by (simp add: same_fleet_def split: sum.split scenario_error.split)

lemma edgeHeartbeat_fleet: "same_fleet s (snd (edgeHeartbeat ev r s))"
  unfolding edgeHeartbeat_def Let_def by (simp add: same_fleet_def split: prod.split option.split)

lemma runWorkflow_fleet: "same_fleet s (snd (runWorkflow ev r s))"
  by (simp add: same_fleet_def runWorkflow_frames)

lemma webhooks_fleet:
  "same_fleet s (snd (createWebhook ev r s))" "same_fleet s (snd (updateWebhook ev r s))" "same_fleet s (snd (deleteWebhook ev r s))"
  unfolding createWebhook_def updateWebhook_def deleteWebhook_def Let_def
  by (simp_all add: same_fleet_def split: option.split prod.split)

lemma simRobot_fleet:
  "same_fleet s (snd (simRobotStart ev r s))" "same_fleet s (snd (simRobotStop ev r s))" "same_fleet s (snd (simRobotReset ev r s))"
  "same_fleet s (snd (simRobotInjectFailure ev r s))"
  unfolding simRobotStart_def simRobotStop_def simRobotReset_def simRobotInjectFailure_def with_sim_def Let_def
  by (simp_all add: same_fleet_def split: option.split prod.split)

lemma simRobot_tasks:
  "sv_tasks (snd (simRobotStart ev r s)) = sv_tasks s" "sv_tasks (snd (simRobotStop ev r s)) = sv_tasks s"
  "sv_tasks (snd (simRobotReset ev r s)) = sv_tasks s" "sv_tasks (snd (simRobotInjectFailure ev r s)) = sv_tasks s"
  unfolding simRobotStart_def simRobotStop_def simRobotReset_def simRobotInjectFailure_def with_sim_def Let_def
  by (simp_all split: option.split prod.split)

lemma same_but_auth_fleet: "same_but_auth s s' \<Longrightarrow> same_fleet s s'"
  by (simp add: same_fleet_def same_but_auth_frames)

lemma mall_fleet:
  "same_fleet s (snd (mallAssistantStart ev r s))" "same_fleet s (snd (mallAssistantVisitorRequest ev r s))"
proof -
  show "same_fleet s (snd (mallAssistantStart ev r s))" by (simp add: same_fleet_def mallAssistantStart_frames)
  obtain reg where "snd (mallAssistantVisitorRequest ev r s) = s\<lparr>sv_assistant := reg\<rparr>"
    using mallAssistantVisitorRequest_same by blast
  then show "same_fleet s (snd (mallAssistantVisitorRequest ev r s))" by (simp add: same_fleet_def)
qed

lemma same_but_conversations_fleet: "same_but_conversations s s' \<Longrightarrow> same_fleet s s'"
  by (simp add: same_fleet_def same_but_conversations_frames)

lemmas auth_handlers_same = createAPIKey_same deleteAPIKey_same createOAuthClient_same updateOAuthClient_same deleteOAuthClient_same

lemmas same_fleet_handlers = mall_fleet conversations_same [THEN same_but_conversations_fleet] auth_handlers_same [THEN same_but_auth_fleet] simRobot_fleet runWorkflow_fleet webhooks_fleet sendCommand_fleet createTask_fleet cancelTask_fleet createScenario_fleet
  updateScenario_fleet deleteScenario_fleet edgeHeartbeat_fleet

lemma handler_fleet_wf:
  assumes "fleet_wf s" "env_ok ev s" "route \<noteq> SimCreate"
  shows "fleet_wf (snd (snd (register_route route) ev r s))"
proof (cases "route \<in> reading")
  case True
  with assms show ?thesis by (simp add: reading_same)
next
  case False
  have same: "same_fleet s (snd (h ev r s)) \<Longrightarrow> fleet_wf (snd (h ev r s))" for h
    by (rule same_fleet_wf [OF _ assms(1)])
  have range: "go_range (sv_registry s) (ev_robots ev)" using assms(2) by (simp add: env_ok_def)
  from False assms(3) show ?thesis
    by (cases route)
      (simp_all add: reading_def fleet_wf_handlers [OF assms(1)] deleteTenant_wf [OF assms(1) range] same_fleet_handlers
        same)
qed

section \<open>What a tenant's callers may see\<close>

text \<open>What a reply may show to a caller of the tenant \<open>t\<close>: scenarios and zones belong to everybody.\<close>

fun visible :: "string \<Rightarrow> server \<Rightarrow> payload \<Rightarrow> bool" where
  "visible t s (PRobot robot) = (r_TenantID robot = t)"
| "visible t s (PRobots robots) = (\<forall>robot \<in> set robots. r_TenantID robot = t)"
| "visible t s (PState st) = (\<exists>robot. sv_registry s (rs_RobotID st) = Some robot \<and> r_TenantID robot = t)"
| "visible t s (PTenant tn) = (tn_ID tn = t)"
| "visible t s (PTenants tns) = (\<forall>tn \<in> set tns. tn_ID tn = t)"
| "visible t s (PTask k) = (k_TenantID k = t)"
| "visible t s (PTasks ks) = (\<forall>k \<in> set ks. k_TenantID k = t)"
| "visible t s (PEdge e) = (\<exists>i robot. sv_registry s i = Some robot \<and> r_TenantID robot = t \<and> r_EdgeID robot = e_ID e)"
| "visible t s (PEdges es) = (\<forall>e \<in> set es. \<exists>i robot. sv_registry s i = Some robot \<and> r_TenantID robot = t
     \<and> r_EdgeID robot = e_ID e)"
| "visible t s (PAudit es) = (\<forall>e \<in> set es. a_TenantID e = t)"
| "visible t s (PPending cs) = (\<forall>c \<in> set cs. \<exists>robot. sv_registry s (c_RobotID c) = Some robot \<and> r_TenantID robot = t)"
| "visible t s (PMe roles tenant) = (tenant = t)"
| "visible t s (PScenario sc) = True"
| "visible t s (PScenarios scs) = True"
| "visible t s (PZone z) = True"
| "visible t s (PZones zs) = True"
| "visible t s (PWorkflows ws) = True"
| "visible t s (PRunResult rr) = True"
| "visible t s (PRun run) = (wr_TenantID run = t)"
| "visible t s (PRuns runs) = (\<forall>run \<in> set runs. wr_TenantID run = t)"
| "visible t s (PWebhook wh) = False"
| "visible t s (PWebhooks whs) = False"
| "visible t s (PSimCreated i) = True"
| "visible t s (PStatus st) = True"
| "visible t s (PSimState st) = (si_TenantID st = t)"
| "visible t s (PKeyCreated resp) = (kp_TenantID resp = t)"
| "visible t s (PKeys keys) = (\<forall>k \<in> set keys. ki_TenantID k = t)"
| "visible t s (PClient c) = False"
| "visible t s (PClients cs) = False"
| "visible t s (PMallMap m) = True"
| "visible t s (PMallStores stores) = True"
| "visible t s (PMallStore sl node) = True"
| "visible t s (PMallRoute route d) = True"
| "visible t s (PConversation c) = (cn_TenantID c \<in> {t, []})"
| "visible t s (PConversations cs) = (\<forall>c \<in> set cs. cn_TenantID c \<in> {t, []})"
| "visible t s PAccepted = True"

text \<open>The stores file what they keep under its identifier.\<close>

definition stores_keyed :: "server \<Rightarrow> bool" where
  "stores_keyed s \<longleftrightarrow>
     (\<forall>ts i t. sv_tenants s = Some ts \<longrightarrow> ts i = Some t \<longrightarrow> tn_ID t = i)
     \<and> (\<forall>es i e. sv_edges s = Some es \<longrightarrow> es_edges es i = Some e \<longrightarrow> e_ID e = i)
     \<and> (\<forall>m. sv_states s = Some m \<longrightarrow> sm_wf m)"

lemma registry_ListByTenant_tenant:
  "t \<noteq> [] \<Longrightarrow> robot \<in> set (registry_ListByTenant ks t reg) \<Longrightarrow> r_TenantID robot = t \<and> (\<exists>i. reg i = Some robot)"
  by (auto simp: registry_ListByTenant_def in_go_values)

lemma GetRobotState_id:
  "sm_wf m \<Longrightarrow> rs_RobotID (GetRobotState m i) = i"
  by (auto simp: GetRobotState_def sm_wf_def ctx_wf_def sm_Get_def split: option.split)

lemma confined_nonempty: "confined r t \<Longrightarrow> t \<noteq> []"
  by (auto simp: confined_def)

lemma listRobots_visible:
  "confined r t \<Longrightarrow> fst (listRobots ev r s) = Json code p \<Longrightarrow> visible t s p"
  by (auto simp: listRobots_def confined_nonempty dest: registry_ListByTenant_tenant [OF confined_nonempty])

lemma getRobot_visible:
  "confined r t \<Longrightarrow> fst (getRobot ev r s) = Json code p \<Longrightarrow> visible t s p"
  by (auto simp: getRobot_def Let_def split: if_splits option.splits)

lemma getRobotState_visible:
  "confined r t \<Longrightarrow> stores_keyed s \<Longrightarrow> fst (getRobotState ev r s) = Json code p \<Longrightarrow> visible t s p"
  by (auto simp: getRobotState_def Let_def registry_Get_def stores_keyed_def GetRobotState_id split: if_splits option.splits)

lemma listTasks_visible:
  "confined r t \<Longrightarrow> fst (listTasks ev r s) = Json code p \<Longrightarrow> visible t s p"
  by (auto simp: listTasks_def tasks_List_def task_match_def confined_nonempty Let_def)

lemma getTask_visible:
  "confined r t \<Longrightarrow> fst (getTask ev r s) = Json code p \<Longrightarrow> visible t s p"
  by (auto simp: getTask_def Let_def split: if_splits option.splits)

lemma cancelTask_visible:
  "confined r t \<Longrightarrow> fst (cancelTask ev r s) = Json code p \<Longrightarrow> visible t s p"
  by (auto simp: cancelTask_def Let_def split: if_splits option.splits)

lemma createTask_visible:
  "confined r t \<Longrightarrow> fst (createTask ev r s) = Json code p \<Longrightarrow> visible t s p"
  by (auto simp: createTask_def Let_def new_task_def confined_nonempty split: if_splits option.splits prod.splits)

lemma listTenants_visible:
  "confined r t \<Longrightarrow> fst (listTenants ev r s) = Json code p \<Longrightarrow> visible t s p"
  by (auto simp: listTenants_def confined_nonempty Let_def find_Some_iff split: option.splits)

lemma getTenant_visible:
  "confined r t \<Longrightarrow> stores_keyed s \<Longrightarrow> fst (getTenant ev r s) = Json code p \<Longrightarrow> visible t s p"
  by (auto simp: getTenant_def confined_nonempty Let_def stores_keyed_def tenants_Get_def split: if_splits option.splits)

lemma listTenantRobots_visible:
  "confined r t \<Longrightarrow> fst (listTenantRobots ev r s) = Json code p \<Longrightarrow> visible t s p"
  by (auto simp: listTenantRobots_def Let_def confined_nonempty split: if_splits
      dest: registry_ListByTenant_tenant [OF confined_nonempty])

lemma tenant_edge:
  assumes "confined r t" "robot \<in> set (registry_ListByTenant ks t (sv_registry s))" "r_EdgeID robot = e_ID e"
  shows "visible t s (PEdge e)"
  using registry_ListByTenant_tenant [OF confined_nonempty [OF assms(1)] assms(2)] assms(3) by auto

lemma listEdges_visible:
  assumes "confined r t" "fst (listEdges ev r s) = Json code p"
  shows "visible t s p"
proof (cases "sv_edges s")
  case None
  with assms show ?thesis by (auto simp: listEdges_def)
next
  case (Some es)
  with assms have p: "p = PEdges (filter (\<lambda>e. e_ID e \<in> set (filter (\<lambda>i. i \<noteq> [])
      (map r_EdgeID (registry_ListByTenant (ev_robots ev) t (sv_registry s))))) (ListEdges (ev_edges ev) es))"
    by (simp add: listEdges_def confined_nonempty Let_def)
  have "visible t s (PEdge e)" if "e \<in> set (case p of PEdges xs \<Rightarrow> xs)" for e
    using that tenant_edge [OF assms(1)] unfolding p by (auto simp del: visible.simps)
  then show ?thesis unfolding p by simp
qed

lemma getEdge_visible:
  assumes "confined r t" "stores_keyed s" "fst (getEdge ev r s) = Json code p"
  shows "visible t s p"
proof -
  obtain es e where e: "sv_edges s = Some es" "es_edges es (rq_var r ''id'') = Some e" "p = PEdge e"
    and ex: "list_ex (\<lambda>robot. r_EdgeID robot = rq_var r ''id'') (registry_ListByTenant (ev_robots ev) t (sv_registry s))"
    using assms by (auto simp: getEdge_def Let_def confined_nonempty GetEdge_def split: option.splits if_splits)
  from assms(2) e have "e_ID e = rq_var r ''id''" by (simp add: stores_keyed_def)
  with ex tenant_edge [OF assms(1)] e(3) show ?thesis by (auto simp: list_ex_iff simp del: visible.simps)
qed

lemma sendCommand_visible: "fst (sendCommand ev r s) = Json code p \<Longrightarrow> visible t s p"
  by (cases rule: sendCommand_cases [of ev r s]) auto

lemma getMe_visible: "confined r t \<Longrightarrow> fst (getMe ev r s) = Json code p \<Longrightarrow> visible t s p"
  by (auto simp: getMe_def confined_def)

lemma public_visible:
  "fst (listZones ev r s) = Json code p \<Longrightarrow> visible t s p"
  "fst (getZoneStatus ev r s) = Json code p \<Longrightarrow> visible t s p"
  "confined r t \<Longrightarrow> fst (listScenarios ev r s) = Json code p \<Longrightarrow> visible t s p"
  "confined r t \<Longrightarrow> fst (getScenario ev r s) = Json code p \<Longrightarrow> visible t s p"
  by (auto simp: listZones_def getZoneStatus_def listScenarios_def getScenario_def Let_def split: option.splits if_splits)

lemma workflows_visible:
  "fst (listWorkflows ev r s) = Json code p \<Longrightarrow> visible t s p"
  "confined r t \<Longrightarrow> fst (runWorkflow ev r s) = Json code p \<Longrightarrow> visible t s p"
  "confined r t \<Longrightarrow> fst (listWorkflowRuns ev r s) = Json code p \<Longrightarrow> visible t s p"
  "confined r t \<Longrightarrow> fst (getWorkflowRun ev r s) = Json code p \<Longrightarrow> visible t s p"
  by (auto simp: listWorkflows_def runWorkflow_def listWorkflowRuns_def getWorkflowRun_def Let_def confined_nonempty
      split: option.splits if_splits prod.splits sum.splits run_error.splits)

lemma confined_not_admin: "confined r t \<Longrightarrow> \<exists>c. rq_claims r = Some c \<and> \<not> isAdmin c \<and> cl_TenantID c = t \<and> t \<noteq> []"
  by (fastforce simp: confined_def isAdmin_def list_ex_iff has_role_iff)

lemma keys_visible:
  assumes "confined r t"
  shows "fst (createAPIKey ev r s) = Json code p \<Longrightarrow> visible t s p" "fst (listAPIKeys ev r s) = Json code p \<Longrightarrow> visible t s p"
    "fst (deleteAPIKey ev r s) = Json code p \<Longrightarrow> visible t s p"
proof -
  obtain c where c: "rq_claims r = Some c" "\<not> isAdmin c" "cl_TenantID c = t" "t \<noteq> []"
    using confined_not_admin [OF assms] by blast
  show "fst (createAPIKey ev r s) = Json code p \<Longrightarrow> visible t s p"
    using c by (auto simp: createAPIKey_def keys_Create_def Let_def or_default_def split: option.splits prod.splits sum.splits if_splits)
  show "fst (listAPIKeys ev r s) = Json code p \<Longrightarrow> visible t s p"
    using c by (auto simp: listAPIKeys_def keys_List_def key_tenant_def split: option.splits if_splits)
  show "fst (deleteAPIKey ev r s) = Json code p \<Longrightarrow> visible t s p"
    using c by (auto simp: deleteAPIKey_def Let_def split: option.splits if_splits prod.splits key_error.splits)
qed

lemma mall_visible:
  "confined r t \<Longrightarrow> fst (mallAssistantStart ev r s) = Json code p \<Longrightarrow> visible t s p"
  "fst (mallAssistantVisitorRequest ev r s) = Json code p \<Longrightarrow> visible t s p"
  "fst (getMallMap ev r s) = Json code p \<Longrightarrow> visible t s p" "fst (listMallStores ev r s) = Json code p \<Longrightarrow> visible t s p"
  "fst (getMallStore ev r s) = Json code p \<Longrightarrow> visible t s p" "fst (getMallRoute ev r s) = Json code p \<Longrightarrow> visible t s p"
proof -
  show "confined r t \<Longrightarrow> fst (mallAssistantStart ev r s) = Json code p \<Longrightarrow> visible t s p"
    using confined_tenant [of r t] foreign_confined [of r t] confined_nonempty [of r t]
    by (auto dest!: mallAssistantStart_reply simp: or_default_def)
  show "fst (mallAssistantVisitorRequest ev r s) = Json code p \<Longrightarrow> visible t s p"
    by (auto dest: mallAssistantVisitorRequest_reply)
qed (auto simp: getMallMap_def listMallStores_def getMallStore_def getMallRoute_def mall_failure_def
      elim!: mall_replies [rotated] split: if_splits sum.splits option.splits)

lemmas handlers_visible = mall_visible keys_visible workflows_visible listRobots_visible getRobot_visible getRobotState_visible listTasks_visible getTask_visible
  cancelTask_visible createTask_visible listTenants_visible getTenant_visible listTenantRobots_visible
  listEdges_visible getEdge_visible sendCommand_visible getMe_visible public_visible

lemma handler_visible:
  assumes "confined r t" "stores_keyed s" "fst (snd (register_route route) ev r s) = Json code p"
    and "route \<notin> {ListAudit, EdgeHeartbeat, ListConversations, GetConversation}" "route \<notin> set sim_routes" "fst (register_route route) \<noteq> adminOnly"
  shows "visible t s p"
  using assms by (cases route) (auto simp: sim_routes_def dest: handlers_visible)

section \<open>What a tenant's callers may change\<close>

text \<open>
  A change that a caller of the tenant \<open>t\<close> may make: robots, tenants, scenarios and zones stay as they are; tasks
  and API keys of other tenants stay as they are, and new or changed ones belong to \<open>t\<close>; new commands are for robots of \<open>t\<close>.
\<close>

definition new_commands :: "server \<Rightarrow> string \<Rightarrow> Command list \<Rightarrow> bool" where
  "new_commands s t cs \<longleftrightarrow> (\<forall>c \<in> set cs. \<exists>robot. sv_registry s (c_RobotID c) = Some robot \<and> r_TenantID robot = t)"

definition edge_commands :: "server \<Rightarrow> string \<Rightarrow> Command list" where
  "edge_commands s e = (case sv_edges s of None \<Rightarrow> [] | Some es \<Rightarrow> edge_queue es e)"

definition other_keys :: "string \<Rightarrow> server \<Rightarrow> key_row list option" where
  "other_keys t s = map_option (filter (\<lambda>w. kr_tenant_id w \<noteq> t)) (sv_keys s)"

declare other_keys_def [simp]

definition change_of :: "string \<Rightarrow> server \<Rightarrow> server \<Rightarrow> bool" where
  "change_of t s s' \<longleftrightarrow>
     sv_registry s' = sv_registry s \<and> sv_tenants s' = sv_tenants s \<and> sv_catalog s' = sv_catalog s
     \<and> other_keys t s' = other_keys t s
     \<and> (\<forall>i k. sv_tasks s i = Some k \<longrightarrow> k_TenantID k \<noteq> t \<longrightarrow> sv_tasks s' i = Some k)
     \<and> (\<forall>i k. sv_tasks s' i = Some k \<longrightarrow> sv_tasks s i \<noteq> Some k \<longrightarrow> k_TenantID k = t)
     \<and> (\<exists>cs. sv_bus s' = sv_bus s @ cs \<and> new_commands s t cs)
     \<and> (\<forall>e. \<exists>cs. edge_commands s' e = edge_commands s e @ cs \<and> new_commands s t cs)"

lemma change_of_refl [simp]: "change_of t s s"
  by (auto simp: change_of_def new_commands_def)

lemma change_of_same:
  assumes "sv_registry s' = sv_registry s" "sv_tenants s' = sv_tenants s" "sv_catalog s' = sv_catalog s"
    and "sv_bus s' = sv_bus s" "sv_edges s' = sv_edges s" "other_keys t s' = other_keys t s"
    and "\<And>i k. sv_tasks s i = Some k \<Longrightarrow> k_TenantID k \<noteq> t \<Longrightarrow> sv_tasks s' i = Some k"
    and "\<And>i k. sv_tasks s' i = Some k \<Longrightarrow> sv_tasks s i \<noteq> Some k \<Longrightarrow> k_TenantID k = t"
  shows "change_of t s s'"
  unfolding change_of_def edge_commands_def assms(1-6)
  by (intro conjI allI impI exI [of _ "[]"]) (erule (1) assms(7,8) | simp add: new_commands_def)+

lemma sent_commands:
  assumes "sent robot cmd s s'" "sv_registry s (c_RobotID cmd) = Some robot" "r_TenantID robot = t"
  shows "(\<exists>cs. sv_bus s' = sv_bus s @ cs \<and> new_commands s t cs)
    \<and> (\<forall>e. \<exists>cs. edge_commands s' e = edge_commands s e @ cs \<and> new_commands s t cs)"
proof -
  have n: "new_commands s t [cmd]" "new_commands s t []" using assms(2,3) by (auto simp: new_commands_def)
  show ?thesis
  proof (cases "r_EdgeID robot \<noteq> [] \<and> sv_edges s \<noteq> None")
    case True
    then obtain es es' where "sv_edges s = Some es" "sv_edges s' = Some es'" "sv_bus s' = sv_bus s"
      "\<forall>e. edge_queue es' e = edge_queue es e @ (if e = r_EdgeID robot then [cmd] else [])"
      using assms(1) by (auto simp: sent_def)
    with n show ?thesis by (auto simp: edge_commands_def)
  next
    case False
    then have "sv_edges s' = sv_edges s" "sv_bus s' = sv_bus s @ [cmd]"
      using assms(1) by (auto simp: sent_def split: option.splits bool.splits)
    with n show ?thesis by (auto simp: edge_commands_def)
  qed
qed

lemma sendCommand_change:
  assumes "confined r t"
  shows "change_of t s (snd (sendCommand ev r s))"
proof (cases rule: sendCommand_cases [of ev r s])
  case (bad st m s1)
  have "change_of t s s1" by (subst bad(4), rule change_of_same) simp_all
  with bad(1) show ?thesis by simp
next
  case (refused req s1)
  have "change_of t s s1" by (subst refused(4), rule change_of_same) simp_all
  with refused(1) show ?thesis by simp
next
  case (sent t' robot req s')
  from sent(2) confined_tenant [OF assms] have "t' = t" by simp
  with sent(4) assms have "r_TenantID robot = t" by simp
  with sent_commands [OF sent(7)] sent(1,3,10) show ?thesis by (simp add: change_of_def command_of_def)
qed simp_all

lemma createTask_change:
  assumes "confined r t" "sv_tasks s (ev_uuid ev 1) = None"
  shows "change_of t s (snd (createTask ev r s))"
proof -
  let ?s' = "snd (createTask ev r s)"
  have f: "sv_registry ?s' = sv_registry s \<and> sv_tenants ?s' = sv_tenants s \<and> sv_catalog ?s' = sv_catalog s
      \<and> sv_bus ?s' = sv_bus s \<and> sv_edges ?s' = sv_edges s \<and> sv_keys ?s' = sv_keys s"
    by (cases "tenantOrError r") (auto simp: createTask_def with_tenant_def Let_def split: prod.split option.split)
  from createTask_effect [of ev r s] show ?thesis
  proof (elim disjE exE conjE)
    assume "sv_tasks ?s' = sv_tasks s"
    with f show ?thesis by (intro change_of_same) auto
  next
    fix req robot k sc tenantID
    assume k: "k = task_stamp (ev_now ev 0) (new_task (ev_uuid ev 1) req robot)"
      and t': "tenantOrError r = Inr tenantID" "\<not> foreign tenantID (r_TenantID robot)"
      and s': "sv_tasks ?s' = (sv_tasks s)(k_ID k \<mapsto> k)"
    have "k_ID k = ev_uuid ev 1" "k_TenantID k = t"
      using t' confined_tenant [OF assms(1)] foreign_confined [OF assms(1)] confined_nonempty [OF assms(1)]
      by (auto simp: k new_task_def)
    with f s' assms(2) show ?thesis by (intro change_of_same) (auto split: if_splits)
  qed
qed

lemma cancelTask_change:
  assumes "confined r t"
  shows "change_of t s (snd (cancelTask ev r s))"
proof -
  let ?s' = "snd (cancelTask ev r s)"
  have f: "sv_registry ?s' = sv_registry s \<and> sv_tenants ?s' = sv_tenants s \<and> sv_catalog ?s' = sv_catalog s
      \<and> sv_bus ?s' = sv_bus s \<and> sv_edges ?s' = sv_edges s \<and> sv_keys ?s' = sv_keys s"
    by (cases "tenantOrError r") (auto simp: cancelTask_def with_tenant_def Let_def split: option.split)
  consider (same) "sv_tasks ?s' = sv_tasks s"
    | (cancelled) k where "sv_tasks s (rq_var r ''id'') = Some k" "k_TenantID k = t"
      "sv_tasks ?s' = (sv_tasks s)(rq_var r ''id'' \<mapsto> k\<lparr>k_Status := StatusCancelled, k_UpdatedAt := ev_now ev 0\<rparr>)"
    using cancelTask_effect [of ev r s] confined_tenant [OF assms] foreign_confined [OF assms] by auto
  then show ?thesis
  proof cases
    case same
    with f show ?thesis by (intro change_of_same) auto
  next
    case (cancelled k)
    with f show ?thesis by (intro change_of_same) (auto split: if_splits)
  qed
qed

text \<open>The UUIDs a request draws are new to the task store.\<close>

definition uuids_new :: "api_env \<Rightarrow> task_store \<Rightarrow> bool" where
  "uuids_new ev ts \<longleftrightarrow> ts (ev_uuid ev 1) = None \<and> uuids_fresh (ev_orch ev) 0 ts"

lemma runWorkflow_change:
  assumes "confined r t" "uuids_fresh (ev_orch ev) 0 (sv_tasks s)"
  shows "change_of t s (snd (runWorkflow ev r s))"
proof (cases rule: runWorkflow_tasks [of ev r s, case_names same given])
  case same
  then show ?thesis by (intro change_of_same) (simp_all add: runWorkflow_frames)
next
  case (given op ps tenantID)
  with confined_tenant [OF assms(1)] confined_nonempty [OF assms(1)]
  have ps: "\<forall>(step, robot) \<in> set ps. r_TenantID robot = t" "t \<noteq> []" by auto
  show ?thesis
  proof (rule change_of_same)
    fix i k
    show "sv_tasks (snd (runWorkflow ev r s)) i = Some k" if "sv_tasks s i = Some k"
      using give_tasks_old [OF assms(2) that] given(2) by simp
    assume k: "sv_tasks (snd (runWorkflow ev r s)) i = Some k" "sv_tasks s i \<noteq> Some k"
    with give_tasks_new [of "ev_orch ev" op 0 ps "sv_tasks s" i k] given(2) obtain step robot now
      where "(step, robot) \<in> set ps" "k = task_stamp now (workflow_task i op step (r_ID robot) robot)" by auto
    with ps show "k_TenantID k = t" by (auto simp: workflow_task_def)
  qed (simp_all add: runWorkflow_frames)
qed

lemma mall_change:
  "confined r t \<Longrightarrow> sv_tasks s (ev_uuid ev 1) = None \<Longrightarrow> change_of t s (snd (mallAssistantStart ev r s))"
  "change_of t s (snd (mallAssistantVisitorRequest ev r s))"
proof -
  obtain reg where "snd (mallAssistantVisitorRequest ev r s) = s\<lparr>sv_assistant := reg\<rparr>"
    using mallAssistantVisitorRequest_same by blast
  then show "change_of t s (snd (mallAssistantVisitorRequest ev r s))" by (intro change_of_same) simp_all
  assume conf: "confined r t" and new: "sv_tasks s (ev_uuid ev 1) = None"
  show "change_of t s (snd (mallAssistantStart ev r s))"
    using mallAssistantStart_effect [of ev r s]
  proof (elim disjE exE conjE)
    assume "sv_tasks (snd (mallAssistantStart ev r s)) = sv_tasks s"
    then show ?thesis by (intro change_of_same) (simp_all add: mallAssistantStart_frames)
  next
    fix robotID op robot k tenantID
    assume k: "k = task_stamp (ev_now ev 0) (assistant_task (ev_uuid ev 1) robotID op robot)"
      and t': "tenantOrError r = Inr tenantID" "\<not> foreign tenantID (r_TenantID robot)"
      and s': "sv_tasks (snd (mallAssistantStart ev r s)) = (sv_tasks s)(k_ID k \<mapsto> k)"
    have "k_ID k = ev_uuid ev 1" "k_TenantID k = t"
      using t' confined_tenant [OF conf] foreign_confined [OF conf] confined_nonempty [OF conf]
      by (auto simp: k assistant_task_def or_default_def)
    with s' new show ?thesis by (intro change_of_same) (auto simp: mallAssistantStart_frames split: if_splits)
  qed
qed

lemma auth_change: "same_but_auth s s' \<Longrightarrow> other_keys t s' = other_keys t s \<Longrightarrow> change_of t s s'"
  by (rule change_of_same) (simp_all add: same_but_auth_frames)

lemma keys_change:
  assumes "confined r t"
  shows "change_of t s (snd (createAPIKey ev r s))" "change_of t s (snd (deleteAPIKey ev r s))"
proof -
  obtain c where c: "rq_claims r = Some c" "\<not> isAdmin c" "cl_TenantID c = t" "t \<noteq> []"
    using confined_not_admin [OF assms] by blast
  have "other_keys t (snd (createAPIKey ev r s)) = other_keys t s"
    using c by (auto simp: other_keys_def createAPIKey_def keys_Create_def Let_def or_default_def split: option.split prod.split)
  then show "change_of t s (snd (createAPIKey ev r s))" by (rule auth_change [OF createAPIKey_same])
  have "other_keys t (snd (deleteAPIKey ev r s)) = other_keys t s"
    using c by (auto simp: other_keys_def deleteAPIKey_def keys_Delete_def key_tenant_def Let_def intro!: filter_cong
        split: option.split prod.split key_error.split)
  then show "change_of t s (snd (deleteAPIKey ev r s))" by (rule auth_change [OF deleteAPIKey_same])
qed

lemma handler_change:
  assumes "confined r t" "uuids_new ev (sv_tasks s)"
    and "route \<noteq> EdgeHeartbeat" "route \<notin> set sim_routes" "fst (register_route route) \<noteq> adminOnly"
  shows "change_of t s (snd (snd (register_route route) ev r s))"
proof (cases "route \<in> reading")
  case True
  then show ?thesis by (simp add: reading_same)
next
  case False
  with assms show ?thesis
    by (cases route) (auto simp: reading_def uuids_new_def sim_routes_def intro: mall_change keys_change sendCommand_change createTask_change cancelTask_change runWorkflow_change)
qed

section \<open>What the server writes to the task store\<close>

text \<open>
  What one request may do to the task store: three routes may add tasks, which are pending and not completed; \<open>CancelTask\<close>
  may turn the task of its path from pending or running to cancelled, which changes its status and its instant of update
  and nothing else; every other task is as it was.
\<close>

definition task_routes :: "route list" where
  "task_routes = [CreateTask, RunWorkflow, MallAssistantStart]"

definition api_write :: "route \<Rightarrow> string \<Rightarrow> time \<Rightarrow> task_store \<Rightarrow> task_store \<Rightarrow> bool" where
  "api_write route taskID now s s' \<longleftrightarrow> (\<forall>i. case s i of
      None \<Rightarrow> (case s' i of None \<Rightarrow> True | Some t \<Rightarrow>
        route \<in> set task_routes \<and> k_ID t = i \<and> k_Status t = StatusPending \<and> k_CompletedAt t = None)
    | Some t \<Rightarrow> s' i = Some t
        \<or> route = CancelTask \<and> i = taskID \<and> (k_Status t = StatusPending \<or> k_Status t = StatusRunning)
          \<and> s' i = Some (t\<lparr>k_Status := StatusCancelled, k_UpdatedAt := now\<rparr>))"

lemma api_write_refl: "api_write route taskID now s s"
  by (simp add: api_write_def split: option.split)

lemma api_write_new:
  assumes "route \<in> set task_routes" "s (k_ID t) = None" "k_Status t = StatusPending" "k_CompletedAt t = None"
  shows "api_write route taskID now s (s(k_ID t \<mapsto> t))"
  using assms by (auto simp: api_write_def split: option.split)

text \<open>These are writes that the task runner expects of others.\<close>

lemma api_write_others: "api_write route taskID now s s' \<Longrightarrow> others_write s s'"
  unfolding api_write_def others_write_def
proof (elim all_forward)
  fix i
  assume "case s i of
      None \<Rightarrow> (case s' i of None \<Rightarrow> True | Some t \<Rightarrow>
        route \<in> set task_routes \<and> k_ID t = i \<and> k_Status t = StatusPending \<and> k_CompletedAt t = None)
    | Some t \<Rightarrow> s' i = Some t
        \<or> route = CancelTask \<and> i = taskID \<and> (k_Status t = StatusPending \<or> k_Status t = StatusRunning)
          \<and> s' i = Some (t\<lparr>k_Status := StatusCancelled, k_UpdatedAt := now\<rparr>)"
  then show "case s i of
      None \<Rightarrow> (case s' i of None \<Rightarrow> True | Some t' \<Rightarrow> k_ID t' = i \<and> k_Status t' = StatusPending)
    | Some t \<Rightarrow> (case s' i of None \<Rightarrow> False | Some t' \<Rightarrow>
        k_ID t' = k_ID t \<and> k_RobotID t' = k_RobotID t \<and> (k_Status t' = k_Status t \<or> terminal (k_Status t'))
        \<and> (k_CompletedAt t \<noteq> None \<longrightarrow> k_CompletedAt t' \<noteq> None))"
    by (auto split: option.splits)
qed

lemma createTask_write:
  assumes "sv_tasks s (ev_uuid ev 1) = None"
  shows "api_write CreateTask taskID now (sv_tasks s) (sv_tasks (snd (createTask ev r s)))"
  using createTask_effect [of ev r s]
proof (elim disjE exE conjE)
  fix req robot t sc
  assume t: "t = task_stamp (ev_now ev 0) (new_task (ev_uuid ev 1) req robot)"
    and s': "sv_tasks (snd (createTask ev r s)) = (sv_tasks s)(k_ID t \<mapsto> t)"
  show ?thesis unfolding s' by (rule api_write_new) (use assms in \<open>simp_all add: t new_task_def task_routes_def\<close>)
qed (simp add: api_write_refl)

lemma mallAssistantStart_write:
  assumes "sv_tasks s (ev_uuid ev 1) = None"
  shows "api_write MallAssistantStart taskID now (sv_tasks s) (sv_tasks (snd (mallAssistantStart ev r s)))"
  using mallAssistantStart_effect [of ev r s]
proof (elim disjE exE conjE)
  fix robotID op robot t
  assume t: "t = task_stamp (ev_now ev 0) (assistant_task (ev_uuid ev 1) robotID op robot)"
    and s': "sv_tasks (snd (mallAssistantStart ev r s)) = (sv_tasks s)(k_ID t \<mapsto> t)"
  show ?thesis unfolding s' by (rule api_write_new) (use assms in \<open>simp_all add: t assistant_task_def task_routes_def\<close>)
qed (simp add: api_write_refl)

lemma runWorkflow_write:
  assumes "uuids_fresh (ev_orch ev) 0 (sv_tasks s)"
  shows "api_write RunWorkflow taskID now (sv_tasks s) (sv_tasks (snd (runWorkflow ev r s)))"
proof (cases rule: runWorkflow_tasks [of ev r s, case_names same given])
  case (given op ps tenantID)
  have "k_ID t = k \<and> k_Status t = StatusPending \<and> k_CompletedAt t = None"
    if "give_tasks (ev_orch ev) op 0 ps (sv_tasks s) k = Some t" "sv_tasks s k = None" for k t
    using give_tasks_new [OF that(1)] that(2) by (auto simp: workflow_task_def)
  then show ?thesis
    using give_tasks_old [OF assms, where op = op and ps = ps]
    by (auto simp: api_write_def given(2) task_routes_def split: option.split)
qed (simp add: api_write_refl)

lemma cancelTask_write:
  "api_write CancelTask (rq_var r ''id'') (ev_now ev 0) (sv_tasks s) (sv_tasks (snd (cancelTask ev r s)))"
  using cancelTask_effect [of ev r s]
  by (elim disjE exE conjE) (auto simp: api_write_refl api_write_def split: option.split)

lemma handler_write:
  assumes "uuids_new ev (sv_tasks s)"
  shows "api_write route (rq_var r ''id'') (ev_now ev 0) (sv_tasks s) (sv_tasks (snd (snd (register_route route) ev r s)))"
proof (cases "route \<in> reading")
  case True
  then show ?thesis by (simp add: reading_same api_write_refl)
next
  case False
  have send: "sv_tasks (snd (sendCommand ev r s)) = sv_tasks s"
  proof (cases rule: sendCommand_cases [of ev r s])
    case (bad st m s1)
    then show ?thesis by (metis snd_conv server.select_convs(2) server.surjective server.update_convs(8))
  next
    case (refused req s1)
    have "sv_tasks s1 = sv_tasks s" by (subst refused(4)) simp
    with refused(1) show ?thesis by simp
  qed auto
  have visit: "sv_tasks (snd (mallAssistantVisitorRequest ev r s)) = sv_tasks s"
  proof -
    obtain reg where "snd (mallAssistantVisitorRequest ev r s) = s\<lparr>sv_assistant := reg\<rparr>"
      using mallAssistantVisitorRequest_same by blast
    then show ?thesis by simp
  qed
  have "sv_tasks (snd (snd (register_route route) ev r s)) = sv_tasks s \<or> route = CreateTask \<or> route = CancelTask \<or> route = RunWorkflow
      \<or> route = MallAssistantStart"
    using False send visit simRobot_tasks auth_handlers_same [THEN same_but_auth_frames(2)] conversations_same [THEN same_but_conversations_frames(3)]
    by (cases route)
      (auto simp: reading_def createRobot_def updateRobot_def deleteRobot_def createScenario_def updateScenario_def
        deleteScenario_def edgeHeartbeat_def createTenant_def updateTenant_def deleteTenant_def createWebhook_def
        updateWebhook_def deleteWebhook_def Let_def
        split: prod.split option.split sum.split scenario_error.split tenant_error.split)
  with assms createTask_write [of s ev] mallAssistantStart_write [of s ev] cancelTask_write runWorkflow_write [of ev s] show ?thesis
    by (auto simp: api_write_refl uuids_new_def)
qed

section \<open>Properties\<close>

text \<open>A server that knows one API key, of an operator of the tenant \<^verbatim>\<open>acme\<close>.\<close>

definition example_cfg :: "unit auth_config" where
  "example_cfg = \<lparr>ac_secret = [], ac_publicKeyPEM = [], ac_issuer = [], ac_audience = [], ac_unsafe = False,
     ac_jwt = (\<lambda>_ _. Inl SignatureInvalid), ac_pem = (\<lambda>_. Inl SignatureInvalid),
     ac_apiKeyStore = Some (\<lambda>k. if k = ''k'' then Inr (Some (operator_of ''acme'')) else Inr None),
     ac_oauthValidator = None\<rparr>"

definition example_credentials :: credentials where
  "example_credentials = \<lparr>cr_Authorization = [], cr_XAPIKey = ''k'', cr_isGET = True, cr_query_api_key = []\<rparr>"

lemma example_auth:
  "AuthConfigured example_cfg" "authenticates example_cfg example_credentials (operator_of ''acme'')"
  "\<not> hasAnyRole (GetRoles (operator_of ''acme'')) [RoleAdministrator]" "cl_TenantID (operator_of ''acme'') \<noteq> []"
proof -
  show "AuthConfigured example_cfg" by (simp add: AuthConfigured_def example_cfg_def)
  show "authenticates example_cfg example_credentials (operator_of ''acme'')"
    by (rule by_api_key [where v = "\<lambda>k. if k = ''k'' then Inr (Some (operator_of ''acme'')) else Inr None"])
      (simp_all add: example_credentials_def bearer_prefix_def api_key_of_def example_cfg_def)
  show "\<not> hasAnyRole (GetRoles (operator_of ''acme'')) [RoleAdministrator]" "cl_TenantID (operator_of ''acme'') \<noteq> []"
    using operator_confined [of "''acme''"] by (auto simp: confined_def example_request_def)
qed

lemma example_stores: "env_ok (example_env True) example_server" "stores_keyed example_server" "fleet_wf example_server"
  by (auto simp: env_ok_def go_range_def example_env_def example_server_def stores_keyed_def fleet_wf_def example_robot_def
      split: if_splits)

text \<open>A caller whose token names the tenant and not the role of administrator is confined to the tenant.\<close>

lemma serve_confined:
  assumes "AuthConfigured cfg" "authenticates cfg cr c" "\<not> hasAnyRole (GetRoles c) [RoleAdministrator]" "cl_TenantID c \<noteq> []"
  obtains (denied) st m where "serve cfg cr route ev r s = (Error st m, s)"
  | (handled) r' where "serve cfg cr route ev r s = snd (register_route route) ev r' s" "confined r' (cl_TenantID c)"
      "fst (register_route route) \<noteq> adminOnly"
proof (cases rule: serve_cases [of cfg cr route ev r s])
  case (denied st m)
  with that(1) show ?thesis by blast
next
  case (handled claims)
  with assms(1) obtain c' where c': "claims = Some c'" "authenticates cfg cr c'" "hasAnyRole (GetRoles c') (fst (register_route route))"
    by auto
  with authenticates_unique [OF assms(2)] have "c' = c" by blast
  with handled c' assms(3,4) show ?thesis
    by (intro that(2) [of "r\<lparr>rq_claims := claims, rq_unsafe := ac_unsafe cfg\<rparr>"]) (auto simp: confined_def adminOnly_def)
qed

text \<open>
  C7. Callers see their own tenant only: to a caller whose credentials name a tenant and not the role of
  administrator, every route shows only robots, states, tasks, tenants, edges, API keys and workflow runs of that tenant (and scenarios,
  workflows, zones and maps, which belong to all), with these exceptions, of which nothing is said: the audit log
  (\<open>ListAudit\<close>), the heartbeat of edges (\<open>EdgeHeartbeat\<close>), the reading of conversations (\<open>ListConversations\<close>, \<open>GetConversation\<close>)
  and all routes of simulated robots (\<open>sim_routes\<close>). (The stores file what they keep under its identifier.)
\<close>

theorem tenant_confidentiality:
  assumes "AuthConfigured cfg" "authenticates cfg cr c" "\<not> hasAnyRole (GetRoles c) [RoleAdministrator]" "cl_TenantID c \<noteq> []"
    and "stores_keyed s" "route \<notin> {ListAudit, EdgeHeartbeat, ListConversations, GetConversation}" "route \<notin> set sim_routes"
    and "fst (serve cfg cr route ev r s) = Json code p"
  shows "visible (cl_TenantID c) s p"
proof (cases rule: serve_confined [OF assms(1-4), of route ev r s, case_names denied handled])
  case (denied st m)
  with assms(8) show ?thesis by simp
next
  case (handled r')
  with handler_visible [OF handled(2) assms(5) _ assms(6,7)] assms(8) show ?thesis by simp
qed

theorem tenant_confidentiality_witness:
  "fst (serve example_cfg example_credentials ListRobots (example_env True)
      (example_request (operator_of ''acme'') [] RawEmpty) example_server) = Json 200 (PRobots [example_robot])
   \<and> visible ''acme'' example_server (PRobots [example_robot])"
proof -
  let ?r = "example_request (operator_of ''acme'') [] RawEmpty"
  have h: "hasAnyRole (GetRoles (operator_of ''acme'')) opOrViewerOrAdmin"
    by (simp add: operator_of_def GetRoles_def opOrViewerOrAdmin_def role_defs)
  have s: "serve example_cfg example_credentials ListRobots (example_env True) ?r example_server =
      listRobots (example_env True) ?r example_server"
    by (simp add: serve_def MiddlewareWithAPIKeysAndOAuth_def example_auth(1) example_credentials_def bearer_prefix_def
        api_key_of_def) (use h in \<open>simp add: example_cfg_def RequireRole_def example_request_def registered_def sim_routes_def key_routes_def client_routes_def mall_routes_def conversation_routes_def\<close>)
  have l: "listRobots (example_env True) ?r example_server = (Json 200 (PRobots [example_robot]), example_server)"
    by (simp add: listRobots_def confined_with_tenant [OF operator_confined])
      (simp add: registry_ListByTenant_def example_env_def example_server_def example_robot_def)
  have "visible (cl_TenantID (operator_of ''acme'')) example_server (PRobots [example_robot])"
    by (rule tenant_confidentiality [OF example_auth example_stores(2), where route = ListRobots and ev = "example_env True"
          and r = ?r and code = 200]) (simp_all add: s l sim_routes_def)
  with s l show ?thesis by (simp add: operator_of_def)
qed

text \<open>
  C8. Callers change their own tenant only: whatever such a caller sends, to any route but the heartbeat of edges
  (\<open>EdgeHeartbeat\<close>) and those of simulated robots (\<open>sim_routes\<close>), and provided that the UUIDs that are drawn are new,
  robots, tenants and scenarios stay as they are, the tasks and API keys of other tenants stay as they are, and every
  command that is sent is for a robot of the caller's tenant.
\<close>

theorem tenant_integrity:
  assumes "AuthConfigured cfg" "authenticates cfg cr c" "\<not> hasAnyRole (GetRoles c) [RoleAdministrator]" "cl_TenantID c \<noteq> []"
    and "uuids_new ev (sv_tasks s)" "route \<noteq> EdgeHeartbeat" "route \<notin> set sim_routes"
  shows "change_of (cl_TenantID c) s (snd (serve cfg cr route ev r s))"
proof (cases rule: serve_confined [OF assms(1-4), of route ev r s, case_names denied handled])
  case (denied st m)
  then show ?thesis by simp
next
  case (handled r')
  with handler_change [OF handled(2) assms(5-7)] show ?thesis by simp
qed

theorem tenant_integrity_witness:
  "change_of ''acme'' example_server (snd (serve example_cfg example_credentials SendCommand (example_env True)
     (example_command example_payload) example_server))"
proof -
  have u: "uuids_new (example_env True) (sv_tasks example_server)"
    by (simp add: uuids_new_def uuids_fresh_def example_server_def example_env_def inj_def)
  from tenant_integrity [OF example_auth u, of SendCommand "example_command example_payload"] show ?thesis
    by (simp add: operator_of_def sim_routes_def)
qed

text \<open>Histories of requests that create no simulated robot, by whomever, each with an order of ranging that fits the maps.\<close>

inductive api_run :: "'k auth_config \<Rightarrow> server \<Rightarrow> server \<Rightarrow> bool" for cfg where
  idle: "api_run cfg s s"
| request: "\<lbrakk>api_run cfg s s1; env_ok ev s1; route \<noteq> SimCreate\<rbrakk> \<Longrightarrow> api_run cfg s (snd (serve cfg cr route ev r s1))"

inductive_cases api_run_elim: "api_run cfg s s'"

lemma serve_fleet_wf: "fleet_wf s \<Longrightarrow> env_ok ev s \<Longrightarrow> route \<noteq> SimCreate \<Longrightarrow> fleet_wf (snd (serve cfg cr route ev r s))"
  by (cases rule: serve_cases [of cfg cr route ev r s]) (simp_all add: handler_fleet_wf)

text \<open>
  C11. The fleet stays well formed through every history of requests none of which is \<open>SimCreate\<close>, the creation of a simulated robot
  (which writes the registry with a tenant of choice): robots and tenants are filed under their
  identifiers, the tenant \<^verbatim>\<open>default\<close> exists, and the tenant of every robot exists (none is deleted while it has robots).
\<close>

theorem api_run_fleet:
  assumes "api_run cfg s s'" "fleet_wf s"
  shows "fleet_wf s'"
  using assms by (induction rule: api_run.induct) (simp_all add: serve_fleet_wf)

theorem api_run_fleet_witness:
  "fleet_wf (snd (serve example_cfg example_credentials DeleteTenant (example_env True)
     (example_request (operator_of ''acme'') [(''id'', ''acme'')] RawEmpty) example_server))"
  by (rule api_run_fleet [OF api_run.request [OF api_run.idle example_stores(1)] example_stores(3)]) simp

text \<open>
  C13. The server is a lawful neighbour of the task runner: whatever the route, the caller and the body, and when the UUIDs
  it draws are new, one request does no more to the tasks than this: \<open>CreateTask\<close>, \<open>RunWorkflow\<close> and \<open>MallAssistantStart\<close> may
  add tasks, all pending and not completed; \<open>CancelTask\<close> may set the task of its path from pending or running to cancelled, and
  changes nothing else of it than the instant of update; every other task stays as it is. These are writes of the kind that
  the guarantees of the runner allow to others (\<open>others_write\<close>), so that they hold beside the API.
\<close>

theorem api_writes_lawful:
  assumes "uuids_new ev (sv_tasks s)"
  shows "api_write route (rq_var r ''id'') (ev_now ev 0) (sv_tasks s) (sv_tasks (snd (serve cfg cr route ev r s)))
    \<and> others_write (sv_tasks s) (sv_tasks (snd (serve cfg cr route ev r s)))"
proof -
  have "api_write route (rq_var r ''id'') (ev_now ev 0) (sv_tasks s) (sv_tasks (snd (serve cfg cr route ev r s)))"
  proof (cases rule: serve_cases [of cfg cr route ev r s, case_names denied handled])
    case (handled claims)
    with handler_write [OF assms, of route "r\<lparr>rq_claims := claims, rq_unsafe := ac_unsafe cfg\<rparr>"] show ?thesis by simp
  qed (simp add: api_write_refl)
  then show ?thesis using api_write_others by blast
qed

text \<open>A running task of the caller's tenant, cancelled through the API.\<close>

definition cancel_task :: Task where
  "cancel_task = \<lparr>k_ID = ''t1'', k_RobotID = ''r1'', k_TenantID = ''acme'', k_Type = ''scenario'', k_ScenarioID = ''standby'',
     k_Payload = RawEmpty, k_Status = StatusRunning, k_CreatedAt = 1, k_UpdatedAt = 1, k_CompletedAt = None, k_OperatorID = ''op''\<rparr>"

definition cancel_server :: server where
  "cancel_server = example_server\<lparr>sv_tasks := [''t1'' \<mapsto> cancel_task]\<rparr>"

theorem api_writes_lawful_witness:
  "\<exists>ts. ts = sv_tasks (snd (serve example_cfg example_credentials CancelTask (example_env True)
       (example_request (operator_of ''acme'') [(''id'', ''t1'')] RawEmpty) cancel_server))
     \<and> map_option k_Status (ts ''t1'') = Some StatusCancelled \<and> others_write (sv_tasks cancel_server) ts"
proof -
  let ?r = "example_request (operator_of ''acme'') [(''id'', ''t1'')] RawEmpty"
  have u: "uuids_new (example_env True) (sv_tasks cancel_server)"
    by (auto simp: uuids_new_def uuids_fresh_def cancel_server_def example_env_def inj_def)
  have h: "hasAnyRole (GetRoles (operator_of ''acme'')) opOrAdmin"
    by (simp add: operator_of_def GetRoles_def opOrAdmin_def role_defs)
  have s: "serve example_cfg example_credentials CancelTask (example_env True) ?r cancel_server =
      cancelTask (example_env True) ?r cancel_server"
    by (simp add: serve_def MiddlewareWithAPIKeysAndOAuth_def example_auth(1) example_credentials_def bearer_prefix_def
        api_key_of_def) (use h in \<open>simp add: example_cfg_def RequireRole_def example_request_def registered_def sim_routes_def key_routes_def client_routes_def mall_routes_def conversation_routes_def\<close>)
  have v: "rq_var ?r ''id'' = ''t1''" by (simp add: example_request_def)
  have k: "sv_tasks cancel_server = [''t1'' \<mapsto> cancel_task]" "k_Status cancel_task = StatusRunning" "k_TenantID cancel_task = ''acme''"
    by (simp_all add: cancel_server_def cancel_task_def)
  have "map_option k_Status (sv_tasks (snd (cancelTask (example_env True) ?r cancel_server)) ''t1'') = Some StatusCancelled"
    by (simp add: cancelTask_def Let_def v k confined_with_tenant [OF operator_confined] tasks_Get_def tasks_UpdateStatus_def foreign_def)
  then have "map_option k_Status (sv_tasks (snd (serve example_cfg example_credentials CancelTask (example_env True) ?r cancel_server)) ''t1'')
      = Some StatusCancelled" by (simp only: s)
  with api_writes_lawful [OF u] show ?thesis by blast
qed

text \<open>
  C27. An operator can become administrator: whoever may create an API key for the own tenant may give it any
  roles. The reply to a request with the roles \<^verbatim>\<open>administrator\<close> is a key that the middleware accepts at any later
  time, that passes the check of every route for administrators, and that may name any tenant or all of them.
\<close>

theorem operator_mints_administrator:
  assumes "confined r t" "sv_keys s = Some keys" "name \<noteq> []" "ev_db ev 0"
    and "rq_body r = RawJson (JObj [(''name'', JStr name), (''roles'', JStr ''administrator''), (''tenant_id'', JStr t)])"
    and "\<And>v. v \<in> set keys \<Longrightarrow> kr_id v \<noteq> ''key-'' @ ev_uuid ev 1 \<and> kr_key_hash v \<noteq> hex_EncodeToString (ev_sha ev (raw_key (ev_random ev)))"
  shows "\<exists>resp s' keys' c. createAPIKey ev r s = (Json 201 (PKeyCreated resp), s') \<and> sv_keys s' = Some keys'
    \<and> Validate (\<lambda>k. hex_EncodeToString (ev_sha ev k)) (key_query keys') now (kp_Key resp) = Inr (Some c)
    \<and> hasAnyRole (GetRoles c) adminOnly
    \<and> tenantOrError (r'\<lparr>rq_claims := Some c\<rparr>) = Inr (rq_query r' ''tenant_id'')"
proof -
  obtain c where c: "rq_claims r = Some c" "\<not> isAdmin c" "cl_TenantID c = t" "t \<noteq> []"
    using confined_not_admin [OF assms(1)] by blast
  let ?req = "\<lparr>kq_Name = name, kq_Roles = ''administrator'', kq_TenantID = t\<rparr>"
  have req: "unmarshal key_request_fields (rq_body r) key_request_zero = (True, ?req)"
    by (simp add: assms(5) key_request_fields_def key_request_zero_def find_field_def)
  obtain resp keys' where k: "keys_Create (ev_sha ev) (ev_db ev 0) (ev_db_error ev) (ev_random ev) (ev_uuid ev 1) (ev_now ev 0) ?req keys
      = (Inr resp, keys')"
    using assms(3,4,6) by (auto simp: keys_Create_def Let_def list_ex_iff)
  let ?c = "\<lparr>cl_Subject = ''apikey:'' @ name, cl_Issuer = [], cl_Audience = [],
     cl_Roles = map TrimSpace (str_split CHR '','' ''administrator''), cl_Role = [], cl_TenantID = or_default t ''default''\<rparr>"
  have v: "Validate (\<lambda>k. hex_EncodeToString (ev_sha ev k)) (key_query keys') now (kp_Key resp) = Inr (Some ?c)"
    using created_key_valid [OF k, of now] by simp
  have roles: "GetRoles ?c = [RoleAdministrator]"
    by (simp add: GetRoles_def RoleAdministrator_def TrimSpace_def is_space_def)
  have "\<exists>s'. createAPIKey ev r s = (Json 201 (PKeyCreated resp), s') \<and> sv_keys s' = Some keys'"
    using k by (auto simp: createAPIKey_def assms(2) req c or_default_def)
  with v roles show ?thesis
    by (fastforce simp: adminOnly_def tenantOrError_def tenantFromRequest_def)
qed

theorem operator_mints_administrator_witness:
  "\<exists>resp s' keys' c. createAPIKey (example_env True) (example_request (operator_of ''acme'') []
       (RawJson (JObj [(''name'', JStr ''n''), (''roles'', JStr ''administrator''), (''tenant_id'', JStr ''acme'')]))) example_server
      = (Json 201 (PKeyCreated resp), s') \<and> sv_keys s' = Some keys'
    \<and> Validate (\<lambda>k. hex_EncodeToString (ev_sha (example_env True) k)) (key_query keys') 9 (kp_Key resp) = Inr (Some c)
    \<and> hasAnyRole (GetRoles c) adminOnly
    \<and> tenantOrError ((example_request (operator_of ''acme'') [] RawEmpty)\<lparr>rq_claims := Some c\<rparr>)
        = Inr (rq_query (example_request (operator_of ''acme'') [] RawEmpty) ''tenant_id'')"
  by (rule operator_mints_administrator [OF operator_confined, where keys = "[]"])
    (simp_all add: example_server_def example_env_def example_request_def)

end
