(* ===== verification/Streaming.thy ===== *)
theory Streaming
  imports Hal "HOL-Library.Char_ord" "HOL-Library.List_Lexorder"
begin

text \<open>
  The buffer from which a telemetry stream is resumed, \<^verbatim>\<open>pkg/control-plane/streaming/buffer.go\<close>, over
  \<^verbatim>\<open>container/ring\<close>: a ring of slots with the current position.

  An instant is the number of nanoseconds since the zero time of Go, the first of January of the year 1, so the
  identifier of an event, its instant in the layout \<^verbatim>\<open>time.RFC3339Nano\<close>, is computed from it.
  Strings are compared as in Go, byte by byte. \<^verbatim>\<open>sort.Slice\<close> is not stable: the order it leaves is an argument.
\<close>

section \<open>Identifiers\<close>

text \<open>The calendar day of a number of days since 1 January of the year 1: year, month and day.\<close>

definition civil :: "int \<Rightarrow> int \<times> int \<times> int" where
  "civil days =
     (let z = days + 306;
          era = z div 146097;
          doe = z mod 146097;
          yoe = (doe - doe div 1460 + doe div 36524 - doe div 146096) div 365;
          doy = doe - (365 * yoe + yoe div 4 - yoe div 100);
          mp = (5 * doy + 2) div 153;
          d = doy - (153 * mp + 2) div 5 + 1;
          m = (if mp < 10 then mp + 3 else mp - 9)
      in (yoe + era * 400 + (if m \<le> 2 then 1 else 0), m, d))"

text \<open>The last \<open>n\<close> decimal digits of a number.\<close>

fun digits :: "nat \<Rightarrow> int \<Rightarrow> string" where
  "digits 0 v = []"
| "digits (Suc n) v = digits n (v div 10) @ [char_of (48 + nat (v mod 10))]"

definition trim_zeros :: "string \<Rightarrow> string" where
  "trim_zeros s = rev (dropWhile (\<lambda>c. c = CHR ''0'') (rev s))"

definition whole_second :: "int \<Rightarrow> string" where
  "whole_second s =
     (let (y, mo, d) = civil (s div 86400); r = s mod 86400
      in digits 4 y @ ''-'' @ digits 2 mo @ ''-'' @ digits 2 d @ ''T''
         @ digits 2 (r div 3600) @ '':'' @ digits 2 (r div 60 mod 60) @ '':'' @ digits 2 (r mod 60))"

definition fraction :: "int \<Rightarrow> string" where
  "fraction ns = (if ns = 0 then [] else ''.'' @ trim_zeros (digits 9 ns))"

definition eventID :: "time \<Rightarrow> string" where
  "eventID t = whole_second (t div second) @ fraction (t mod second) @ ''Z''"

section \<open>The ring\<close>

record BufferedEvent =
  be_ID :: string
  be_Timestamp :: time
  be_Telemetry :: Telemetry

record RingBuffer =
  rb_slots :: "BufferedEvent option list"
  rb_pos :: nat

definition DefaultBufferCapacity :: int where "DefaultBufferCapacity = 1000"

definition NewRingBuffer :: "int \<Rightarrow> RingBuffer" where
  "NewRingBuffer capacity =
     \<lparr>rb_slots = replicate (nat (if capacity \<le> 0 then DefaultBufferCapacity else capacity)) None, rb_pos = 0\<rparr>"

definition buffered :: "Telemetry \<Rightarrow> BufferedEvent" where
  "buffered t = \<lparr>be_ID = eventID (tm_Timestamp t), be_Timestamp = tm_Timestamp t, be_Telemetry = t\<rparr>"

definition ring_Add :: "Telemetry \<Rightarrow> RingBuffer \<Rightarrow> RingBuffer" where
  "ring_Add t b = \<lparr>rb_slots = (rb_slots b)[rb_pos b := Some (buffered t)], rb_pos = Suc (rb_pos b) mod length (rb_slots b)\<rparr>"

text \<open>\<^verbatim>\<open>ring.Do\<close>: from the current slot forward.\<close>

definition ring_Do :: "RingBuffer \<Rightarrow> BufferedEvent option list" where
  "ring_Do b = drop (rb_pos b) (rb_slots b) @ take (rb_pos b) (rb_slots b)"

definition GetSince :: "(BufferedEvent list \<Rightarrow> BufferedEvent list) \<Rightarrow> string \<Rightarrow> RingBuffer \<Rightarrow> BufferedEvent list" where
  "GetSince sort_slice lastID b = sort_slice (filter (\<lambda>ev. be_ID ev > lastID) (List.map_filter id (ring_Do b)))"

text \<open>What \<^verbatim>\<open>sort.Slice\<close> promises.\<close>

definition sorts_by_id :: "(BufferedEvent list \<Rightarrow> BufferedEvent list) \<Rightarrow> bool" where
  "sorts_by_id srt \<longleftrightarrow> (\<forall>xs. mset (srt xs) = mset xs \<and> sorted (map be_ID (srt xs)))"

section \<open>The ring is a window\<close>

text \<open>The last \<open>n\<close> of a list.\<close>

definition last_n :: "nat \<Rightarrow> 'a list \<Rightarrow> 'a list" where
  "last_n n xs = drop (length xs - n) xs"

lemma ring_Do_Add:
  assumes "rb_pos b < length (rb_slots b)"
  shows "ring_Do (ring_Add t b) = tl (ring_Do b) @ [Some (buffered t)]"
    "rb_pos (ring_Add t b) < length (rb_slots (ring_Add t b))"
    "length (rb_slots (ring_Add t b)) = length (rb_slots b)"
proof -
  let ?p = "rb_pos b" and ?s = "rb_slots b"
  show "rb_pos (ring_Add t b) < length (rb_slots (ring_Add t b))" "length (rb_slots (ring_Add t b)) = length ?s"
    using assms by (auto simp: ring_Add_def intro!: mod_less_divisor)
  have d: "drop ?p ?s = ?s ! ?p # drop (Suc ?p) ?s" by (rule Cons_nth_drop_Suc [symmetric, OF assms])
  show "ring_Do (ring_Add t b) = tl (ring_Do b) @ [Some (buffered t)]"
  proof (cases "Suc ?p < length ?s")
    case True
    then show ?thesis by (simp add: ring_Do_def ring_Add_def d take_Suc_conv_app_nth)
  next
    case False
    with assms have e: "Suc ?p = length ?s" by simp
    have "(?s)[?p := x] = take ?p ?s @ [x]" for x using e assms by (simp add: upd_conv_take_nth_drop)
    with e show ?thesis by (simp add: ring_Do_def ring_Add_def d)
  qed
qed

lemma ring_Do_adds:
  assumes "rb_pos b < length (rb_slots b)"
  shows "ring_Do (fold ring_Add ts b) = last_n (length (rb_slots b)) (ring_Do b @ map (\<lambda>t. Some (buffered t)) ts)"
  using assms
proof (induction ts arbitrary: b)
  case Nil
  then show ?case by (simp add: last_n_def ring_Do_def)
next
  case (Cons t ts)
  note a = ring_Do_Add [OF Cons.prems, of t]
  have ne: "ring_Do b \<noteq> []" "length (ring_Do b) = length (rb_slots b)" using Cons.prems by (auto simp: ring_Do_def)
  have "ring_Do (fold ring_Add (t # ts) b) = last_n (length (rb_slots b)) (tl (ring_Do b) @ Some (buffered t) # map (\<lambda>t. Some (buffered t)) ts)"
    using Cons.IH [OF a(2)] a(1,3) by simp
  also have "\<dots> = last_n (length (rb_slots b)) (ring_Do b @ map (\<lambda>t. Some (buffered t)) (t # ts))"
    using ne by (cases "ring_Do b") (auto simp: last_n_def Suc_diff_le)
  finally show ?case .
qed

lemma map_filter_last_n:
  "List.map_filter id (last_n n (replicate n None @ map (\<lambda>t. Some (f t)) xs)) = map f (last_n n xs)"
proof -
  have "List.map_filter id (replicate k None) = []" "List.map_filter id (map (\<lambda>t. Some (f t)) ys) = map f ys" for k ys
    by (induction k; simp add: map_filter_simps) (induction ys; simp add: map_filter_simps)
  then show ?thesis by (simp add: last_n_def drop_map List.map_filter_def)
qed

lemma ring_contents:
  "List.map_filter id (ring_Do (fold ring_Add ts (NewRingBuffer capacity))) =
     map buffered (last_n (nat (if capacity \<le> 0 then DefaultBufferCapacity else capacity)) ts)"
proof -
  define n where "n = nat (if capacity \<le> 0 then DefaultBufferCapacity else capacity)"
  have "0 < n" by (simp add: n_def DefaultBufferCapacity_def)
  then have "ring_Do (fold ring_Add ts (NewRingBuffer capacity)) = last_n n (replicate n None @ map (\<lambda>t. Some (buffered t)) ts)"
    using ring_Do_adds [of "NewRingBuffer capacity" ts] by (simp add: NewRingBuffer_def ring_Do_def flip: n_def)
  then show ?thesis by (simp add: map_filter_last_n flip: n_def)
qed

section \<open>The order of identifiers\<close>

lemma append_less: "(w @ xs :: string) < w @ ys \<longleftrightarrow> xs < ys"
  by (induction w) simp_all

lemma point_before_Z: "CHR ''.'' < CHR ''Z''"
  by (simp add: less_char_def)

lemma eventID_same_second:
  assumes "t mod second = 0" "0 < d" "d < second"
  shows "eventID (t + d) < eventID t"
proof -
  have "(t + d) div second = t div second" "(t + d) mod second = d"
    using assms by (simp_all add: div_add1_eq mod_add_eq [of t second d, symmetric])
  with assms show ?thesis
    by (simp add: eventID_def fraction_def append_less point_before_Z)
qed

section \<open>Properties\<close>

text \<open>
  C26. The buffer is a window on the stream: after any sequence of events, what is fetched since an identifier is, in the order of
  the identifiers, exactly those of the last events, as many as the capacity, whose identifier is greater.
\<close>

theorem GetSince_window:
  fixes capacity :: int
  assumes "sorts_by_id srt"
  defines "n \<equiv> nat (if capacity \<le> 0 then DefaultBufferCapacity else capacity)"
  shows "mset (GetSince srt lastID (fold ring_Add ts (NewRingBuffer capacity))) =
      mset (filter (\<lambda>ev. be_ID ev > lastID) (map buffered (last_n n ts)))
    \<and> sorted (map be_ID (GetSince srt lastID (fold ring_Add ts (NewRingBuffer capacity))))"
  using assms(1) by (simp add: GetSince_def sorts_by_id_def ring_contents n_def)

lemma sort_key_sorts: "sorts_by_id (sort_key be_ID)"
  by (simp add: sorts_by_id_def)

definition at_instant :: "time \<Rightarrow> Telemetry" where
  "at_instant t = \<lparr>tm_RobotID = ''r1'', tm_Timestamp = t, tm_Online = True, tm_ActuatorStatus = ''enabled'', tm_MockMode = True,
     tm_IMU = None, tm_JointStates = [], tm_CurrentTask = ''idle'', tm_Position = [], tm_TargetPosition = [],
     tm_DistanceToTarget = None\<rparr>"

theorem GetSince_window_witness:
  "mset (GetSince (sort_key be_ID) [] (fold ring_Add (map at_instant [1, 2, 3]) (NewRingBuffer 2))) =
     mset (map (\<lambda>t. buffered (at_instant t)) [2, 3])"
proof -
  have "be_ID (buffered u) \<noteq> []" for u by (simp add: buffered_def eventID_def)
  then have "be_ID (buffered u) > []" for u by (cases "be_ID (buffered u)") auto
  with GetSince_window [OF sort_key_sorts, of "[]" "map at_instant [1, 2, 3]" 2] show ?thesis
    by (simp add: last_n_def numeral_2_eq_2)
qed

text \<open>
  A resumed stream misses events: the fraction of a second is written without its trailing zeros, and not at all when it is zero, so
  every event within the second after a full second has a smaller identifier than the event at the full second. A client that has
  seen the latter and resumes from it is not given the former, although they are later and in the buffer.
\<close>

theorem resume_misses_events:
  assumes "t mod second = 0" "t < tm_Timestamp u" "tm_Timestamp u < t + second" "sorts_by_id srt"
  shows "buffered u \<notin> set (GetSince srt (eventID t) b)"
proof -
  have "be_ID (buffered u) < eventID t"
    using eventID_same_second [of t "tm_Timestamp u - t"] assms(1-3) by (simp add: buffered_def)
  moreover have "set (srt xs) = set xs" for xs using assms(4) by (metis set_mset_mset sorts_by_id_def)
  ultimately show ?thesis by (auto simp: GetSince_def)
qed

theorem resume_misses_events_witness:
  "buffered (at_instant (7 * second + 100000000)) \<in> set (List.map_filter id (ring_Do (fold ring_Add
      [at_instant (7 * second), at_instant (7 * second + 100000000)] (NewRingBuffer 2))))
   \<and> buffered (at_instant (7 * second + 100000000)) \<notin> set (GetSince (sort_key be_ID) (eventID (7 * second)) (fold ring_Add
      [at_instant (7 * second), at_instant (7 * second + 100000000)] (NewRingBuffer 2)))"
proof
  show "buffered (at_instant (7 * second + 100000000)) \<in> set (List.map_filter id (ring_Do (fold ring_Add
      [at_instant (7 * second), at_instant (7 * second + 100000000)] (NewRingBuffer 2))))"
    unfolding ring_contents by (simp add: last_n_def)
  show "buffered (at_instant (7 * second + 100000000)) \<notin> set (GetSince (sort_key be_ID) (eventID (7 * second)) (fold ring_Add
      [at_instant (7 * second), at_instant (7 * second + 100000000)] (NewRingBuffer 2)))"
    by (rule resume_misses_events [OF _ _ _ sort_key_sorts]) (simp_all add: at_instant_def second_def)
qed

end
