(* ===== verification/Edge_Agent.thy ===== *)
theory Edge_Agent
  imports Api_Command Streaming "HOL-Library.Sublist"
begin

text \<open>
  The edge agent, \<^verbatim>\<open>pkg/edge/agent.go\<close>, \<^verbatim>\<open>config.go\<close> and \<^verbatim>\<open>sync.go\<close>: it posts heartbeats to the control plane and publishes the
  commands of the answer on the local bus, those its own safety filter allows (theory \<open>Safety\<close>). Then the agent and the handler of
  heartbeats (theory \<open>Api_Command\<close>) together, with the JSON of commands between them.

  The cloud is a function from a request and its state to an answer, \<open>None\<close> when the client gets an error, and its state. The
  environment of the process, \<^verbatim>\<open>time.Parse\<close>, whether a URL is well formed and whether NATS takes the \<open>n\<close>-th message are arguments.
\<close>

section \<open>Configuration\<close>

record EdgeConfig =
  eg_EdgeID :: string
  eg_NATSURL :: string
  eg_CloudURL :: string
  eg_RobotIDs :: "string list"
  eg_Heartbeat :: int
  eg_APIKey :: string

definition getEnv :: "(string \<Rightarrow> string) \<Rightarrow> string \<Rightarrow> string \<Rightarrow> string" where
  "getEnv env key def = (if env key \<noteq> [] then env key else def)"

text \<open>\<^verbatim>\<open>strconv.Atoi\<close> of the trimmed text: a sign, digits, and a value in range.\<close>

definition parseInt :: "string \<Rightarrow> int option" where
  "parseInt s0 =
     (let s = TrimSpace s0;
          neg = (s \<noteq> [] \<and> hd s = CHR ''-'');
          ds = (if s \<noteq> [] \<and> (hd s = CHR ''-'' \<or> hd s = CHR ''+'') then tl s else s);
          v = (if neg then - digits_value ds else digits_value ds)
      in if ds \<noteq> [] \<and> list_all is_digit ds \<and> - (2 ^ 63) \<le> v \<and> v < 2 ^ 63 then Some v else None)"

definition LoadConfig :: "(string \<Rightarrow> string) \<Rightarrow> string \<Rightarrow> EdgeConfig" where
  "LoadConfig env secret =
     \<lparr>eg_EdgeID = getEnv env ''EDGE_ID'' ''edge-001'',
      eg_NATSURL = getEnv env ''NATS_URL'' ''nats://localhost:4222'',
      eg_CloudURL = getEnv env ''CLOUD_URL'' ''http://localhost:8080'',
      eg_RobotIDs = filter (\<lambda>i. i \<noteq> []) (map TrimSpace (str_split CHR '','' (env ''EDGE_ROBOT_IDS''))),
      eg_Heartbeat = (if env ''EDGE_HEARTBEAT_SEC'' = [] then 10
        else case parseInt (env ''EDGE_HEARTBEAT_SEC'') of Some n \<Rightarrow> if n > 0 then n else 10 | None \<Rightarrow> 10),
      eg_APIKey = secret\<rparr>"

section \<open>Commands as JSON\<close>

text \<open>\<^verbatim>\<open>json.Marshal\<close> of a command; an empty payload and an empty operator are left out.\<close>

definition command_json :: "Command \<Rightarrow> json" where
  "command_json c = JObj (
     [(''robot_id'', JStr (c_RobotID c)), (''command'', JStr (c_Command c))]
     @ (case c_Payload c of RawJson j \<Rightarrow> [(''payload'', j)] | _ \<Rightarrow> [])
     @ [(''timestamp'', JStr (eventID (c_Timestamp c)))]
     @ (if c_OperatorID c = [] then [] else [(''operator_id'', JStr (c_OperatorID c))]))"

fun decode_time :: "(string \<Rightarrow> time option) \<Rightarrow> (time \<Rightarrow> 's \<Rightarrow> 's) \<Rightarrow> 's field_decoder" where
  "decode_time parse upd (JStr v) s = (case parse v of Some t \<Rightarrow> (True, upd t s) | None \<Rightarrow> (False, s))"
| "decode_time parse upd JNull s = (True, s)"
| "decode_time parse upd _ s = (False, s)"

definition command_fields :: "(string \<Rightarrow> time option) \<Rightarrow> Command struct_fields" where
  "command_fields parse =
     [(''robot_id'', decode_string (\<lambda>v c. c\<lparr>c_RobotID := v\<rparr>)),
      (''command'', decode_string (\<lambda>v c. c\<lparr>c_Command := v\<rparr>)),
      (''payload'', decode_raw (\<lambda>v c. c\<lparr>c_Payload := v\<rparr>)),
      (''timestamp'', decode_time parse (\<lambda>v c. c\<lparr>c_Timestamp := v\<rparr>)),
      (''operator_id'', decode_string (\<lambda>v c. c\<lparr>c_OperatorID := v\<rparr>))]"

definition Command_zero :: Command where
  "Command_zero = \<lparr>c_RobotID = [], c_Command = [], c_Payload = RawEmpty, c_Timestamp = 0, c_OperatorID = []\<rparr>"

fun decode_command_list :: "(string \<Rightarrow> time option) \<Rightarrow> json list \<Rightarrow> bool \<times> Command list" where
  "decode_command_list parse [] = (True, [])"
| "decode_command_list parse (j # js) =
     (let (ok, c) = unmarshal (command_fields parse) (RawJson j) Command_zero; (ok', cs) = decode_command_list parse js
      in (ok \<and> ok', c # cs))"

text \<open>\<^verbatim>\<open>HeartbeatResponse\<close> is its list of commands.\<close>

fun decode_pending :: "(string \<Rightarrow> time option) \<Rightarrow> Command list field_decoder" where
  "decode_pending parse (JArr js) s = decode_command_list parse js"
| "decode_pending parse JNull s = (True, [])"
| "decode_pending parse _ s = (False, s)"

definition HeartbeatResponse_fields :: "(string \<Rightarrow> time option) \<Rightarrow> Command list struct_fields" where
  "HeartbeatResponse_fields parse = [(''pending_commands'', decode_pending parse)]"

section \<open>A heartbeat\<close>

record http_request =
  hq_url :: string
  hq_headers :: "(string \<times> string) list"
  hq_body :: raw_message

type_synonym 'c cloud = "http_request \<Rightarrow> 'c \<Rightarrow> (int \<times> raw_message) option \<times> 'c"

datatype sync_error = SyncRequest | SyncHTTP | SyncStatus int raw_message | SyncDecode

record sync_env =
  sy_now :: time
  sy_url_ok :: "string \<Rightarrow> bool"
  sy_parse :: "string \<Rightarrow> time option"
  sy_nats :: "nat \<Rightarrow> bool"

definition HeartbeatRequest :: "EdgeConfig \<Rightarrow> time \<Rightarrow> raw_message" where
  "HeartbeatRequest cfg now = RawJson (JObj
     [(''edge_id'', JStr (eg_EdgeID cfg)), (''timestamp'', JStr (whole_second (now div second) @ ''Z'')),
      (''robots'', JArr (map JStr (eg_RobotIDs cfg)))])"

definition heartbeat_http :: "EdgeConfig \<Rightarrow> time \<Rightarrow> http_request" where
  "heartbeat_http cfg now =
     \<lparr>hq_url = eg_CloudURL cfg @ ''/v1/edges/'' @ eg_EdgeID cfg @ ''/heartbeat'',
      hq_headers = (''Content-Type'', ''application/json'') # (if eg_APIKey cfg \<noteq> [] then [(''X-API-Key'', eg_APIKey cfg)] else []),
      hq_body = HeartbeatRequest cfg now\<rparr>"

text \<open>The loop over the commands; a publication that fails is passed over.\<close>

fun relay :: "(nat \<Rightarrow> bool) \<Rightarrow> Command list \<Rightarrow> outbox \<Rightarrow> outbox" where
  "relay nats [] out = out"
| "relay nats (c # cs) out =
     (if \<not> edge_SafetyAllow c then relay nats cs out
      else relay (nats \<circ> Suc) cs (snd (PublishCommand (nats 0) c out)))"

definition Sync :: "EdgeConfig \<Rightarrow> sync_env \<Rightarrow> 'c cloud \<Rightarrow> 'c \<Rightarrow> outbox \<Rightarrow> (sync_error + unit) \<times> 'c \<times> outbox" where
  "Sync cfg env cloud c out =
     (let hq = heartbeat_http cfg (sy_now env) in
      if \<not> sy_url_ok env (hq_url hq) then (Inl SyncRequest, c, out)
      else case cloud hq c of
          (None, c') \<Rightarrow> (Inl SyncHTTP, c', out)
        | (Some (status, body), c') \<Rightarrow>
            if status \<noteq> 200 then (Inl (SyncStatus status body), c', out)
            else let (ok, cmds) = unmarshal (HeartbeatResponse_fields (sy_parse env)) body [] in
              if \<not> ok then (Inl SyncDecode, c', out)
              else (Inr (), c', relay (sy_nats env) cmds out))"

section \<open>The loop of the agent\<close>

text \<open>\<^verbatim>\<open>time.NewTicker\<close> panics unless the interval, a product of 64-bit integers, is positive.\<close>

definition heartbeat_interval :: "EdgeConfig \<Rightarrow> duration" where
  "heartbeat_interval cfg = int64 (eg_Heartbeat cfg * second)"

text \<open>What the loop meets: a tick with the environment of its heartbeat and the cloud at that time, what others do to the cloud, the end.\<close>

datatype 'c agent_input = HeartbeatTick sync_env "'c cloud" | CloudMoves "'c \<Rightarrow> 'c" | Stopped

fun agent_loop :: "EdgeConfig \<Rightarrow> 'c agent_input list \<Rightarrow> 'c \<times> outbox \<Rightarrow> 'c \<times> outbox" where
  "agent_loop cfg [] w = w"
| "agent_loop cfg (HeartbeatTick env cloud # is) w = agent_loop cfg is (snd (Sync cfg env cloud (fst w) (snd w)))"
| "agent_loop cfg (CloudMoves f # is) w = agent_loop cfg is (f (fst w), snd w)"
| "agent_loop cfg (Stopped # is) w = w"

definition agent_Run :: "EdgeConfig \<Rightarrow> sync_env \<Rightarrow> 'c cloud \<Rightarrow> 'c agent_input list \<Rightarrow> 'c \<Rightarrow> outbox \<Rightarrow> ('c \<times> outbox) option" where
  "agent_Run cfg env cloud is c out =
     (if heartbeat_interval cfg \<le> 0 then None else Some (agent_loop cfg is (snd (Sync cfg env cloud c out))))"

section \<open>The control plane as the cloud\<close>

text \<open>A \<^verbatim>\<open>time.Time\<close> is marshalled when its year has four digits; an answer that cannot be marshalled leaves the body empty.\<close>

definition time_marshals :: "time \<Rightarrow> bool" where
  "time_marshals t \<longleftrightarrow> 0 \<le> fst (civil (t div second div 86400)) \<and> fst (civil (t div second div 86400)) \<le> 9999"

definition encodable :: "Command \<Rightarrow> bool" where
  "encodable c \<longleftrightarrow> marshal_ok c \<and> time_marshals (c_Timestamp c)"

fun http_of :: "reply \<Rightarrow> int \<times> raw_message" where
  "http_of (Json code (PPending cs)) =
     (code, if list_all encodable cs
            then RawJson (JObj [(''pending_commands'', if cs = [] then JNull else JArr (map command_json cs))]) else RawEmpty)"
| "http_of (Error st m) = (st, RawInvalid m)"
| "http_of _ = (200, RawEmpty)"

text \<open>What the network does to a request: nothing, or it loses the request or the answer. \<open>vars\<close> is the router's \<^verbatim>\<open>mux.Vars\<close> of a URL.
  The agent's credentials are taken to pass the middlewares of the route (theory \<open>Api_Routes\<close>), so that the handler is called.\<close>

datatype network = Delivered | RequestLost | AnswerLost

definition control_plane :: "(string \<Rightarrow> string \<Rightarrow> string) \<Rightarrow> api_env \<Rightarrow> request \<Rightarrow> network \<Rightarrow> server cloud" where
  "control_plane vars ev r net hq s =
     (case net of
        RequestLost \<Rightarrow> (None, s)
      | _ \<Rightarrow> (let (reply, s') = edgeHeartbeat ev (r\<lparr>rq_var := vars (hq_url hq), rq_body := hq_body hq\<rparr>) s
              in (if net = AnswerLost then None else Some (http_of reply), s')))"

section \<open>Lemmas\<close>

text \<open>A command survives the way through JSON when its instant is read back.\<close>

lemma find_command_fields:
  "find_field (command_fields parse) ''robot_id'' = Some (decode_string (\<lambda>v c. c\<lparr>c_RobotID := v\<rparr>))"
  "find_field (command_fields parse) ''command'' = Some (decode_string (\<lambda>v c. c\<lparr>c_Command := v\<rparr>))"
  "find_field (command_fields parse) ''payload'' = Some (decode_raw (\<lambda>v c. c\<lparr>c_Payload := v\<rparr>))"
  "find_field (command_fields parse) ''timestamp'' = Some (decode_time parse (\<lambda>v c. c\<lparr>c_Timestamp := v\<rparr>))"
  "find_field (command_fields parse) ''operator_id'' = Some (decode_string (\<lambda>v c. c\<lparr>c_OperatorID := v\<rparr>))"
  by (simp_all add: find_field_def command_fields_def)

lemma command_json_decode:
  assumes "marshal_ok c" "parse (eventID (c_Timestamp c)) = Some (c_Timestamp c)"
  shows "unmarshal (command_fields parse) (RawJson (command_json c)) Command_zero = (True, c)"
proof -
  note s = find_command_fields decode_raw_def command_json_def Command_zero_def assms(2) Let_def
  show ?thesis
  proof (cases "c_Payload c")
    case RawEmpty
    then show ?thesis by (cases "c_OperatorID c = []") (simp_all add: s)
  next
    case (RawInvalid t)
    with assms(1) show ?thesis by (simp add: marshal_ok_def)
  next
    case (RawJson j)
    then show ?thesis by (cases "c_OperatorID c = []") (simp_all add: s)
  qed
qed

lemma decode_command_list_json:
  "\<forall>c \<in> set cs. marshal_ok c \<and> parse (eventID (c_Timestamp c)) = Some (c_Timestamp c) \<Longrightarrow>
     decode_command_list parse (map command_json cs) = (True, cs)"
  by (induction cs) (simp_all add: command_json_decode del: unmarshal.simps)

lemma HeartbeatResponse_decode:
  assumes "\<forall>c \<in> set cs. encodable c \<and> parse (eventID (c_Timestamp c)) = Some (c_Timestamp c)"
  shows "unmarshal (HeartbeatResponse_fields parse) (snd (http_of (Json 200 (PPending cs)))) [] = (True, cs)"
proof -
  have "find_field (HeartbeatResponse_fields parse) ''pending_commands'' = Some (decode_pending parse)"
    by (simp add: find_field_def HeartbeatResponse_fields_def)
  moreover have "list_all encodable cs" using assms by (simp add: list_all_iff)
  moreover have "decode_command_list parse (map command_json cs) = (True, cs)"
    using assms by (intro decode_command_list_json) (auto simp: encodable_def)
  ultimately show ?thesis by simp
qed

lemma relay_safe: "\<exists>more. relay nats cs out = out @ more \<and> subseq more (filter edge_SafetyAllow cs)"
proof (induction cs arbitrary: nats out)
  case (Cons c cs)
  show ?case
  proof (cases "edge_SafetyAllow c")
    case False
    with Cons.IH [of nats out] show ?thesis by simp
  next
    case True
    obtain more where m: "relay (nats \<circ> Suc) cs (snd (PublishCommand (nats 0) c out)) = snd (PublishCommand (nats 0) c out) @ more"
      "subseq more (filter edge_SafetyAllow cs)" using Cons.IH by blast
    show ?thesis
    proof (cases "marshal_ok c \<and> nats 0")
      case pub: True
      with m True have "relay nats (c # cs) out = out @ c # more" by (simp add: PublishCommand_def)
      moreover have "subseq (c # more) (filter edge_SafetyAllow (c # cs))" using m True by simp
      ultimately show ?thesis by blast
    next
      case False
      with m True have "relay nats (c # cs) out = out @ more" by (auto simp: PublishCommand_def)
      moreover have "subseq more (filter edge_SafetyAllow (c # cs))" using m True by (simp add: list_emb_Cons)
      ultimately show ?thesis by blast
    qed
  qed
qed simp

lemma relay_all: "list_all marshal_ok cs \<Longrightarrow> relay (\<lambda>_. True) cs out = out @ filter edge_SafetyAllow cs"
  by (induction cs arbitrary: out) (simp_all add: PublishCommand_def comp_def)

lemma Sync_safe: "\<exists>more. snd (snd (Sync cfg env cloud c out)) = out @ more \<and> list_all edge_SafetyAllow more"
proof -
  have rel: "\<exists>more. relay nats cs out = out @ more \<and> list_all edge_SafetyAllow more" for nats cs
  proof -
    obtain more where m: "relay nats cs out = out @ more" "subseq more (filter edge_SafetyAllow cs)" using relay_safe by blast
    then have "set more \<subseteq> set (filter edge_SafetyAllow cs)" by (auto simp: subseq_conv_nths dest: in_set_nthsD)
    with m(1) show ?thesis by (auto simp: list_all_iff)
  qed
  show ?thesis by (auto simp: Sync_def Let_def split: option.split prod.split intro: rel)
qed

lemma agent_loop_safe: "\<exists>more. snd (agent_loop cfg is w) = snd w @ more \<and> list_all edge_SafetyAllow more"
proof (induction cfg "is" w rule: agent_loop.induct)
  case (2 cfg env cloud "is" w)
  obtain m1 where m1: "snd (snd (Sync cfg env cloud (fst w) (snd w))) = snd w @ m1" "list_all edge_SafetyAllow m1"
    using Sync_safe [of cfg env cloud "fst w" "snd w"] by blast
  from 2 obtain m2 where "snd (agent_loop cfg is (snd (Sync cfg env cloud (fst w) (snd w))))
      = snd (snd (Sync cfg env cloud (fst w) (snd w))) @ m2" "list_all edge_SafetyAllow m2" by blast
  with m1 have "snd (agent_loop cfg (HeartbeatTick env cloud # is) w) = snd w @ (m1 @ m2)" "list_all edge_SafetyAllow (m1 @ m2)" by simp_all
  then show ?case by blast
qed auto

text \<open>What the handler of heartbeats does with the request of the agent.\<close>

lemma heartbeat_body:
  "fst (unmarshal heartbeat_fields (HeartbeatRequest cfg now) q)"
proof -
  have "decode_elems (map JStr ws) = (True, ws)" for ws by (induction ws) simp_all
  then show ?thesis by (simp add: HeartbeatRequest_def heartbeat_fields_def find_field_def Let_def)
qed

lemma edgeHeartbeat_agent:
  assumes "sv_edges s = Some es" "vars (hq_url (heartbeat_http cfg now)) ''id'' = i" "i \<noteq> []"
  obtains es' where "edgeHeartbeat ev (r\<lparr>rq_var := vars (hq_url (heartbeat_http cfg now)), rq_body := hq_body (heartbeat_http cfg now)\<rparr>) s
      = (Json 200 (PPending (edge_queue es i)), s\<lparr>sv_edges := Some es'\<rparr>)"
    "\<And>e. edge_queue es' e = (if e = i then [] else edge_queue es e)"
proof -
  let ?e = "\<lparr>e_ID = i, e_LastHeartbeat = ev_now ev 0, e_ConfigJSON = [], e_CreatedAt = ev_now ev 0, e_UpdatedAt = ev_now ev 0\<rparr>"
  let ?es1 = "UpsertEdge (ev_now ev 1) ?e es"
  have q: "edge_queue ?es1 e = edge_queue es e" for e by (simp add: edge_queue_def UpsertEdge_def)
  obtain req where body: "unmarshal heartbeat_fields (HeartbeatRequest cfg now) \<lparr>hb_EdgeID = [], hb_Timestamp = [], hb_Robots = []\<rparr> = (True, req)"
    using heartbeat_body [of cfg now "\<lparr>hb_EdgeID = [], hb_Timestamp = [], hb_Robots = []\<rparr>"] by (metis (full_types) prod.collapse)
  show ?thesis
  proof (rule that)
    show "edgeHeartbeat ev (r\<lparr>rq_var := vars (hq_url (heartbeat_http cfg now)), rq_body := hq_body (heartbeat_http cfg now)\<rparr>) s
      = (Json 200 (PPending (edge_queue es i)), s\<lparr>sv_edges := Some (snd (FetchAndAckPendingCommands (ev_now ev 2) i ?es1))\<rparr>)"
      using assms body eq.fetch_result [of "ev_now ev 2" i ?es1]
      by (simp add: edgeHeartbeat_def Let_def split_beta q [unfolded One_nat_def] heartbeat_http_def)
    show "edge_queue (snd (FetchAndAckPendingCommands (ev_now ev 2) i ?es1)) e = (if e = i then [] else edge_queue es e)" for e
      by (auto simp: eq.queue_fetch q [unfolded One_nat_def])
  qed
qed

text \<open>What a heartbeat does to the server and to the bus, by what the network does to it.\<close>

lemma Sync_effect:
  fixes cfg env vars ev r s es out
  defines "i \<equiv> eg_EdgeID cfg"
  defines "q \<equiv> edge_queue es i"
  defines "url \<equiv> hq_url (heartbeat_http cfg (sy_now env))"
  defines "run net \<equiv> Sync cfg env (control_plane vars ev r net) s out"
  assumes "sv_edges s = Some es" "i \<noteq> []" "vars url ''id'' = i" "sy_url_ok env url" "sy_nats env = (\<lambda>_. True)"
    and codec: "\<forall>c \<in> set q. encodable c \<and> sy_parse env (eventID (c_Timestamp c)) = Some (c_Timestamp c)"
  shows "\<exists>es'. edge_queue es' i = []
    \<and> run Delivered = (Inr (), s\<lparr>sv_edges := Some es'\<rparr>, out @ filter edge_SafetyAllow q)
    \<and> run AnswerLost = (Inl SyncHTTP, s\<lparr>sv_edges := Some es'\<rparr>, out)
    \<and> run RequestLost = (Inl SyncHTTP, s, out)"
proof -
  obtain es' where hb: "edgeHeartbeat ev (r\<lparr>rq_var := vars url, rq_body := hq_body (heartbeat_http cfg (sy_now env))\<rparr>) s
      = (Json 200 (PPending q), s\<lparr>sv_edges := Some es'\<rparr>)" "edge_queue es' i = []"
    using edgeHeartbeat_agent [OF assms(5), of vars cfg "sy_now env" i ev r] assms(6,7)
    unfolding url_def q_def by metis
  have ok: "list_all marshal_ok q" using codec by (auto simp: list_all_iff encodable_def)
  have http: "fst (http_of (Json 200 (PPending q))) = 200" by simp
  note dec = HeartbeatResponse_decode [OF codec]
  have "run Delivered = (Inr (), s\<lparr>sv_edges := Some es'\<rparr>, out @ filter edge_SafetyAllow q)"
    using hb(1) dec http assms(8,9) relay_all [OF ok]
    unfolding run_def Sync_def control_plane_def url_def [symmetric] Let_def
    by (simp add: split_beta url_def [symmetric] del: http_of.simps unmarshal.simps)
  moreover have "run AnswerLost = (Inl SyncHTTP, s\<lparr>sv_edges := Some es'\<rparr>, out)" "run RequestLost = (Inl SyncHTTP, s, out)"
    using hb(1) assms(8) unfolding run_def Sync_def control_plane_def Let_def
    by (simp_all add: url_def [symmetric])
  ultimately show ?thesis using hb(2) by blast
qed

section \<open>Properties\<close>

text \<open>
  Whatever the cloud answers and whenever it moves, everything the edge agent publishes on the local bus passed its safety
  filter, and it only ever adds to the bus.
\<close>

theorem agent_publishes_safe:
  "case agent_Run cfg env cloud is c out of
     None \<Rightarrow> heartbeat_interval cfg \<le> 0
   | Some (c', out') \<Rightarrow> \<exists>more. out' = out @ more \<and> list_all edge_SafetyAllow more"
proof (cases "heartbeat_interval cfg \<le> 0")
  case True
  then show ?thesis by (simp add: agent_Run_def)
next
  case False
  obtain m1 where m1: "snd (snd (Sync cfg env cloud c out)) = out @ m1" "list_all edge_SafetyAllow m1"
    using Sync_safe [of cfg env cloud c out] by blast
  obtain m2 where "snd (agent_loop cfg is (snd (Sync cfg env cloud c out))) = snd (snd (Sync cfg env cloud c out)) @ m2"
    "list_all edge_SafetyAllow m2" using agent_loop_safe [of cfg "is" "snd (Sync cfg env cloud c out)"] by blast
  with m1 have "snd (agent_loop cfg is (snd (Sync cfg env cloud c out))) = out @ (m1 @ m2)" "list_all edge_SafetyAllow (m1 @ m2)"
    by simp_all
  with False show ?thesis by (auto simp: agent_Run_def split: prod.split)
qed

text \<open>
  C33. A heartbeat against the control plane: when the answer arrives, the commands that were queued for the edge are on the local
  bus as they were queued, in order, those its filter allows, and the queue is empty; when the answer is lost, the queue is
  empty as well and nothing is published, so the commands are gone; when the request is lost nothing has happened.
\<close>

theorem Sync_delivers:
  fixes cfg env vars ev r s es out
  defines "i \<equiv> eg_EdgeID cfg"
  defines "q \<equiv> edge_queue es i"
  defines "url \<equiv> hq_url (heartbeat_http cfg (sy_now env))"
  defines "run net \<equiv> Sync cfg env (control_plane vars ev r net) s out"
  assumes "sv_edges s = Some es" "i \<noteq> []" "vars url ''id'' = i" "sy_url_ok env url" "sy_nats env = (\<lambda>_. True)"
    and codec: "\<forall>c \<in> set q. encodable c \<and> sy_parse env (eventID (c_Timestamp c)) = Some (c_Timestamp c)"
  shows "\<exists>es'. edge_queue es' i = []
    \<and> run Delivered = (Inr (), s\<lparr>sv_edges := Some es'\<rparr>, out @ filter edge_SafetyAllow q)
    \<and> run AnswerLost = (Inl SyncHTTP, s\<lparr>sv_edges := Some es'\<rparr>, out)
    \<and> run RequestLost = (Inl SyncHTTP, s, out)"
  using Sync_effect [where s = s and es = es and vars = vars and cfg = cfg and env = env and ev = ev and r = r and out = out,
      OF assms(5-10) [unfolded i_def q_def url_def]]
  unfolding i_def q_def url_def run_def .

text \<open>The agent of the edge \<^verbatim>\<open>e1\<close>, and what it takes from outside; its \<^verbatim>\<open>time.Parse\<close> knows one instant.\<close>

definition example_edge :: EdgeConfig where
  "example_edge = \<lparr>eg_EdgeID = ''e1'', eg_NATSURL = [], eg_CloudURL = ''c'', eg_RobotIDs = [''r1''], eg_Heartbeat = 10, eg_APIKey = []\<rparr>"

definition example_sync :: sync_env where
  "example_sync = \<lparr>sy_now = 0, sy_url_ok = (\<lambda>_. True), sy_parse = (\<lambda>s. if s = eventID 101 then Some 101 else None), sy_nats = (\<lambda>_. True)\<rparr>"

definition edge_command :: "string \<Rightarrow> Command" where
  "edge_command name = \<lparr>c_RobotID = ''r1'', c_Command = name,
     c_Payload = RawJson (JObj [(''target_coordinates'', JStr ''1,2'')]), c_Timestamp = 101, c_OperatorID = []\<rparr>"

definition example_queue :: "string list \<Rightarrow> edge_store" where
  "example_queue names = fold (\<lambda>n. EnqueueCommand 1 ''u'' ''e1'' ''r1'' (edge_command n)) names edges_NewMemoryStore"

lemma example_queue_Sync:
  "edge_queue (example_queue names) ''e1'' = map edge_command names"
proof -
  have "edge_queue (fold (\<lambda>n. EnqueueCommand 1 ''u'' ''e1'' ''r1'' (edge_command n)) names s) ''e1''
      = edge_queue s ''e1'' @ map edge_command names" for s
    by (induction names arbitrary: s) (simp_all add: eq.queue_enqueue)
  then show ?thesis by (simp add: example_queue_def edges_NewMemoryStore_def edge_queue_def)
qed

lemma edge_command_encodable:
  "encodable (edge_command n) \<and> sy_parse example_sync (eventID (c_Timestamp (edge_command n))) = Some (c_Timestamp (edge_command n))"
proof -
  have "time_marshals 101" by code_simp
  then show ?thesis by (simp add: encodable_def edge_command_def marshal_ok_def example_sync_def)
qed

lemma edge_command_allowed:
  "edge_SafetyAllow (edge_command ''safe_stop'')" "edge_SafetyAllow (edge_command ''stand_mode'')"
  "\<not> edge_SafetyAllow (edge_command ''dance'')" "\<not> edge_SafetyAllow (edge_command ''navigate_to'')"
  by code_simp+

lemma example_edge_simps:
  "eg_EdgeID example_edge = ''e1''" "sy_nats example_sync = (\<lambda>_. True)" "sy_url_ok example_sync u"
  by (simp_all add: example_edge_def example_sync_def)

theorem Sync_delivers_witness:
  defines "s \<equiv> example_server\<lparr>sv_edges := Some (example_queue [''safe_stop'', ''dance'', ''stand_mode''])\<rparr>"
  shows "\<exists>s'. Sync example_edge example_sync (control_plane (\<lambda>_ _. ''e1'') (example_env True) (example_request (operator_of ''acme'') [] RawEmpty) Delivered) s []
     = (Inr (), s', [edge_command ''safe_stop'', edge_command ''stand_mode''])"
proof -
  have st: "sv_edges s = Some (example_queue [''safe_stop'', ''dance'', ''stand_mode''])" by (simp add: s_def)
  have ne: "eg_EdgeID example_edge \<noteq> []" and vars: "''e1'' = eg_EdgeID example_edge" by (simp_all add: example_edge_simps)
  have codec: "\<forall>c \<in> set (edge_queue (example_queue [''safe_stop'', ''dance'', ''stand_mode'']) (eg_EdgeID example_edge)).
      encodable c \<and> sy_parse example_sync (eventID (c_Timestamp c)) = Some (c_Timestamp c)"
    unfolding example_edge_simps(1) example_queue_Sync using edge_command_encodable by simp
  note d = Sync_delivers [where vars = "\<lambda>_ _. ''e1''" and ev = "example_env True" and out = "[]"
      and r = "example_request (operator_of ''acme'') [] RawEmpty", OF st ne vars example_edge_simps(3,2) codec]
  then show ?thesis unfolding example_edge_simps(1) example_queue_Sync by (auto simp: edge_command_allowed)
qed

text \<open>The request for a navigation, and what the handler makes of it.\<close>

definition navigation_body :: raw_message where
  "navigation_body = RawJson (JObj [(''command'', JStr ''navigate_to''), (''payload'', JObj [(''target_coordinates'', JStr ''1,2'')])])"

definition edge_server :: server where
  "edge_server = example_server\<lparr>sv_edges := Some edges_NewMemoryStore\<rparr>"

lemma navigation_decode:
  "unmarshal (command_request_fields of_int) navigation_body command_request_zero =
     (True, \<lparr>cq_Command = ''navigate_to'', cq_Payload = [(''target_coordinates'', JStr ''1,2'')], cq_OperatorID = []\<rparr>)"
  by (simp add: navigation_body_def command_request_fields_def find_field_def command_request_zero_def)

lemma navigation_command:
  "command_of 101 ''r1'' \<lparr>cq_Command = ''navigate_to'', cq_Payload = [(''target_coordinates'', JStr ''1,2'')], cq_OperatorID = []\<rparr>
     = edge_command ''navigate_to''"
  by (simp add: command_of_def edge_command_def marshal_map_def)

lemma navigation_allowed: "SafetyAllow (edge_command ''navigate_to'')"
  by code_simp

lemma navigation_sent:
  defines "r \<equiv> example_request (operator_of ''acme'') [(''id'', ''r1'')] navigation_body"
  shows "\<exists>s1. sendCommand (example_env True) r edge_server = (Json 202 PAccepted, s1)
    \<and> sent example_robot (edge_command ''navigate_to'') edge_server s1"
proof -
  have c: "confined r ''acme''" by (simp add: r_def operator_confined)
  have v: "rq_var r ''id'' = ''r1''" by (simp add: r_def example_request_def)
  have g: "registry_Get (sv_registry edge_server) ''r1'' = Some example_robot" by (simp add: edge_server_def example_server_def registry_Get_def)
  obtain st' where k: "reserve_key (example_env True) r ''r1'' edge_server = (True, edge_server\<lparr>sv_idempotency := Some st'\<rparr>)"
    by (simp add: reserve_key_def r_def example_request_def TrimSpace_def is_space_def edge_server_def example_server_def Reserve_def example_env_def)
  have f: "ev_float (example_env True) = real_of_int" "ev_now (example_env True) 1 = 101" "rq_body r = navigation_body"
    by (simp_all add: example_env_def r_def example_request_def)
  have e: "\<not> foreign ''acme'' (r_TenantID example_robot)" by (simp add: example_robot_def foreign_def)
  have ed: "r_EdgeID example_robot = ''e1''" by (simp add: example_robot_def)
  have q: "edge_queue (EnqueueCommand n u ''e1'' ''r1'' (edge_command ''navigate_to'') edges_NewMemoryStore)
      = (\<lambda>e. if e = ''e1'' then [edge_command ''navigate_to''] else [])" for n u
    by (rule ext) (simp add: edge_queue_def EnqueueCommand_def edges_NewMemoryStore_def)
  have sv: "sv_edges edge_server = Some edges_NewMemoryStore" by (simp add: edge_server_def)
  have q0: "edge_queue edges_NewMemoryStore e = []" for e by (simp add: edge_queue_def edges_NewMemoryStore_def)
  show ?thesis
    using q by (simp add: sent_def q0 sendCommand_def Let_def confined_with_tenant [OF c] v g k f e navigation_decode navigation_command
        navigation_allowed deliver_def ed sv f [unfolded One_nat_def] del: unmarshal.simps)
qed

text \<open>
  C34. A navigation that the control plane accepts for a robot behind an edge is lost there. Whenever \<^verbatim>\<open>sendCommand\<close> answers a request by
  sending a \<^verbatim>\<open>navigate_to\<close> to such a robot, the command is the last one in the queue of the edge, the next heartbeat of the agent
  that is answered takes it out of the queue, and what the agent publishes is what it would have published without it: its filter, which knows no
  \<^verbatim>\<open>navigate_to\<close>, drops it. (The queue can be sent as JSON and its instants are read back; the bus of the edge takes what is published.)
\<close>

theorem navigation_lost_at_edge:
  fixes cfg env vars ev r ev' r' s s1 es out cmd robot
  defines "i \<equiv> eg_EdgeID cfg"
  defines "url \<equiv> hq_url (heartbeat_http cfg (sy_now env))"
  assumes accepted: "sendCommand ev r s = (Json 202 PAccepted, s1)" "sent robot cmd s s1" "c_Command cmd = ''navigate_to''"
    and edge: "r_EdgeID robot = i" "sv_edges s = Some es" "i \<noteq> []"
    and agent: "vars url ''id'' = i" "sy_url_ok env url" "sy_nats env = (\<lambda>_. True)"
    and codec: "\<forall>c \<in> set (edge_queue es i @ [cmd]). encodable c \<and> sy_parse env (eventID (c_Timestamp c)) = Some (c_Timestamp c)"
  shows "\<exists>es1 es2. sv_edges s1 = Some es1 \<and> edge_queue es1 i = edge_queue es i @ [cmd] \<and> sv_bus s1 = sv_bus s
    \<and> Sync cfg env (control_plane vars ev' r' Delivered) s1 out
        = (Inr (), s1\<lparr>sv_edges := Some es2\<rparr>, out @ filter edge_SafetyAllow (edge_queue es i))
    \<and> edge_queue es2 i = [] \<and> \<not> edge_SafetyAllow cmd"
proof -
  obtain es1 where es1: "sv_edges s1 = Some es1" "edge_queue es1 i = edge_queue es i @ [cmd]" "sv_bus s1 = sv_bus s"
    using accepted(2) edge by (auto simp: sent_def)
  have drop: "\<not> edge_SafetyAllow cmd" using accepted(3) by (simp add: edge_SafetyAllow_def)
  obtain es2 where es2: "edge_queue es2 i = []"
    "Sync cfg env (control_plane vars ev' r' Delivered) s1 out
      = (Inr (), s1\<lparr>sv_edges := Some es2\<rparr>, out @ filter edge_SafetyAllow (edge_queue es1 i))"
    using Sync_effect [where s = s1 and es = es1 and vars = vars and cfg = cfg and env = env and ev = ev' and r = r' and out = out,
        OF es1(1) edge(3) [unfolded i_def] agent(1,2) [unfolded i_def url_def] agent(3)] codec es1(2)
    by (auto simp: i_def)
  with es1 drop show ?thesis by auto
qed

theorem navigation_lost_at_edge_witness:
  defines "r \<equiv> example_request (operator_of ''acme'') [(''id'', ''r1'')] navigation_body"
  shows "\<exists>s1 s2. sendCommand (example_env True) r edge_server = (Json 202 PAccepted, s1)
    \<and> Sync example_edge example_sync (control_plane (\<lambda>_ _. ''e1'') (example_env True) r Delivered) s1 [] = (Inr (), s2, [])"
proof -
  obtain s1 where s1: "sendCommand (example_env True) r edge_server = (Json 202 PAccepted, s1)"
    "sent example_robot (edge_command ''navigate_to'') edge_server s1"
    using navigation_sent unfolding r_def by blast
  have f: "c_Command (edge_command ''navigate_to'') = ''navigate_to''" "r_EdgeID example_robot = eg_EdgeID example_edge"
    "sv_edges edge_server = Some edges_NewMemoryStore" "eg_EdgeID example_edge \<noteq> []" "''e1'' = eg_EdgeID example_edge"
    "edge_queue edges_NewMemoryStore e = []" for e
    by (simp_all add: edge_command_def example_robot_def example_edge_simps edge_server_def edge_queue_def edges_NewMemoryStore_def)
  have codec: "\<forall>c \<in> set (edge_queue edges_NewMemoryStore (eg_EdgeID example_edge) @ [edge_command ''navigate_to'']).
      encodable c \<and> sy_parse example_sync (eventID (c_Timestamp c)) = Some (c_Timestamp c)"
    using edge_command_encodable by (simp add: f(6))
  note lost = navigation_lost_at_edge [where vars = "\<lambda>_ _. ''e1''" and ev' = "example_env True" and out = "[]" and r' = r,
      OF s1 f(1-5) example_edge_simps(3,2) codec]
  then show ?thesis using s1(1) by (auto simp: f(6))
qed

text \<open>
  The interval of the heartbeats is positive for every configuration of at most 9223372036 seconds; one more second
  overflows to a negative interval, with which the agent panics at its start.
\<close>

theorem LoadConfig_interval:
  fixes env secret
  defines "cfg \<equiv> LoadConfig env secret"
  shows "eg_Heartbeat cfg > 0 \<and> (eg_Heartbeat cfg > 9223372036 \<or> heartbeat_interval cfg = eg_Heartbeat cfg * second)
    \<and> heartbeat_interval (cfg\<lparr>eg_Heartbeat := 9223372037\<rparr>) < 0"
proof -
  have "eg_Heartbeat cfg > 0" by (simp add: cfg_def LoadConfig_def split: option.split)
  moreover have "eg_Heartbeat cfg > 9223372036 \<or> heartbeat_interval cfg = eg_Heartbeat cfg * second"
    using \<open>eg_Heartbeat cfg > 0\<close> unfolding heartbeat_interval_def second_def
    by (cases "eg_Heartbeat cfg > 9223372036") (simp_all add: int64_id)
  moreover have "heartbeat_interval (cfg\<lparr>eg_Heartbeat := 9223372037\<rparr>) < 0"
    by (simp add: heartbeat_interval_def second_def int64_def)
  ultimately show ?thesis by blast
qed

end
