(* ===== verification/Sim_Scenarios.thy ===== *)
theory Sim_Scenarios
  imports Simrobot
begin

text \<open>
  The predefined failures of the simulated robot and the replay of a script of ticks, \<^verbatim>\<open>internal/simrobot/scenarios.go\<close> and
  \<^verbatim>\<open>replay.go\<close>. Reading a script from its file is outside.
\<close>

text \<open>The \<^verbatim>\<open>float64\<close> written \<^verbatim>\<open>0.1\<close>.\<close>

definition tenth :: real where "tenth = 3602879701896397 / 2 ^ 55"

definition FailureConfig_zero :: FailureConfig where
  "FailureConfig_zero = \<lparr>fc_Type = [], fc_AfterTicks = 0, fc_WhenDistanceLt = 0, fc_AfterCommand = [], fc_BatteryLevel = 0,
     fc_SlowdownFactor = 0, fc_DurationTicks = 0, fc_applied = False\<rparr>"

definition ScenarioNavigationTimeout :: FailureConfig where
  "ScenarioNavigationTimeout = FailureConfig_zero\<lparr>fc_Type := ''navigation_timeout'', fc_AfterTicks := 10\<rparr>"

definition ScenarioOfflineMidRoute :: FailureConfig where
  "ScenarioOfflineMidRoute = FailureConfig_zero\<lparr>fc_Type := ''offline_mid_route'', fc_AfterTicks := 5\<rparr>"

definition ScenarioSafeStopMidRoute :: FailureConfig where
  "ScenarioSafeStopMidRoute = FailureConfig_zero\<lparr>fc_Type := ''safe_stop_mid_route'', fc_AfterTicks := 5\<rparr>"

definition ScenarioBatteryLow :: FailureConfig where
  "ScenarioBatteryLow = FailureConfig_zero\<lparr>fc_Type := ''battery_low'', fc_AfterTicks := 3, fc_BatteryLevel := 5\<rparr>"

definition ScenarioOfflineAfterNavigate :: FailureConfig where
  "ScenarioOfflineAfterNavigate =
     FailureConfig_zero\<lparr>fc_Type := ''offline_mid_route'', fc_AfterCommand := ''navigate_to'', fc_AfterTicks := 1\<rparr>"

definition ScenarioDelayedArrival :: FailureConfig where
  "ScenarioDelayedArrival =
     FailureConfig_zero\<lparr>fc_Type := ''delayed_arrival'', fc_AfterTicks := 2, fc_SlowdownFactor := tenth, fc_DurationTicks := 20\<rparr>"

section \<open>Replay\<close>

record ReplayTick =
  rt_Position :: Position
  rt_DistanceToTarget :: real
  rt_Online :: bool

record ReplayScript =
  sp_Scenario :: string
  sp_Ticks :: "ReplayTick list"

text \<open>
  One tick sets the state and publishes it; \<open>now i\<close> and \<open>now' i\<close> are the readings of the clock. Between two ticks the replay
  sleeps: it returns the robot, the telemetry it published and the pauses.
\<close>

definition replay_tick :: "time \<Rightarrow> nat \<Rightarrow> ReplayTick \<Rightarrow> SimRobot \<Rightarrow> SimRobot" where
  "replay_tick now i tick r = r\<lparr>sr_state := (sr_state r)\<lparr>si_Position := rt_Position tick, si_DistanceToTarget := rt_DistanceToTarget tick,
     si_Online := rt_Online tick, si_TickCount := int i + 1, si_UpdatedAt := now\<rparr>\<rparr>"

fun replay_from ::
  "(nat \<Rightarrow> time) \<Rightarrow> (nat \<Rightarrow> time) \<Rightarrow> duration \<Rightarrow> nat \<Rightarrow> ReplayTick list \<Rightarrow> SimRobot \<Rightarrow> SimRobot \<times> Telemetry list \<times> duration list" where
  "replay_from now now' iv i [] r = (r, [], [])"
| "replay_from now now' iv i (tick # tcs) r =
     (let r1 = replay_tick (now i) i tick r;
          t = buildTelemetryFromState (now' i) (sr_state r1);
          (r2, ts, ds) = replay_from now now' iv (Suc i) tcs r1
      in (r2, t # ts, if tcs = [] then ds else iv # ds))"

definition RunReplay ::
  "(nat \<Rightarrow> time) \<Rightarrow> (nat \<Rightarrow> time) \<Rightarrow> duration \<Rightarrow> ReplayScript option \<Rightarrow> SimRobot \<Rightarrow> SimRobot \<times> Telemetry list \<times> duration list" where
  "RunReplay now now' tickInterval script r =
     (case script of
        None \<Rightarrow> (r, [], [])
      | Some sc \<Rightarrow> if sp_Ticks sc = [] then (r, [], [])
          else replay_from now now' (if tickInterval \<le> 0 then 500 * millisecond else tickInterval) 0 (sp_Ticks sc) r)"

section \<open>Properties\<close>

text \<open>A tick under a failure that takes the robot offline.\<close>

lemma offline_tick:
  assumes "sr_failureConfig r = Some cfg" "fc_Type cfg = ''offline_mid_route''"
    "failure_triggered cfg ((sr_state r)\<lparr>si_TickCount := si_TickCount (sr_state r) + 1, si_UpdatedAt := now\<rparr>)"
  shows "\<not> si_Online (sr_state (fst (Tick fl now now' r)))"
  using assms by (simp add: Tick_def applyFailure_def Let_def)

text \<open>
  The failure \<^verbatim>\<open>ScenarioOfflineAfterNavigate\<close> takes a robot offline on its first tick, whatever it was commanded: its two
  conditions are alternatives.
\<close>

theorem offline_without_navigate:
  defines "idle r \<equiv> r\<lparr>sr_failureConfig := Some ScenarioOfflineAfterNavigate,
      sr_state := (sr_state r)\<lparr>si_TickCount := 0, si_LastCommand := [], si_Mode := ModeIdle, si_Online := True\<rparr>\<rparr>"
  shows "si_Online (sr_state (idle r)) \<and> \<not> si_Online (sr_state (fst (Tick fl now now' (idle r))))"
proof -
  have "failure_triggered ScenarioOfflineAfterNavigate st" if "si_TickCount st = 1" for st
    using that by (simp add: failure_triggered_def ScenarioOfflineAfterNavigate_def FailureConfig_zero_def)
  then have "\<not> si_Online (sr_state (fst (Tick fl now now' (idle r))))"
    by (intro offline_tick [where cfg = ScenarioOfflineAfterNavigate])
      (simp_all add: idle_def, simp add: ScenarioOfflineAfterNavigate_def)
  then show ?thesis by (simp add: idle_def)
qed

text \<open>A replay publishes one message per tick of the script, with its distance and whether the robot is online;
  it sleeps once less than it publishes.\<close>

lemma replay_tick_telemetry [simp]:
  "tm_DistanceToTarget (buildTelemetryFromState t (sr_state (replay_tick now i tick r))) = Some (rt_DistanceToTarget tick)"
  "tm_Online (buildTelemetryFromState t (sr_state (replay_tick now i tick r))) = rt_Online tick"
  by (simp_all add: replay_tick_def buildTelemetryFromState_def)

lemma replay_from_spec:
  "replay_from now now' iv i tcs r = (r', ts, ds) \<Longrightarrow>
     map tm_DistanceToTarget ts = map (Some \<circ> rt_DistanceToTarget) tcs \<and> map tm_Online ts = map rt_Online tcs
     \<and> ds = replicate (length tcs - 1) iv"
proof (induction tcs arbitrary: i r r' ts ds)
  case (Cons tick tcs)
  obtain r2 ts2 ds2 where rest: "replay_from now now' iv (Suc i) tcs (replay_tick (now i) i tick r) = (r2, ts2, ds2)"
    by (metis surj_pair)
  with Cons.prems have "ts = buildTelemetryFromState (now' i) (sr_state (replay_tick (now i) i tick r)) # ts2"
    "ds = (if tcs = [] then ds2 else iv # ds2)" by (simp_all add: Let_def)
  with Cons.IH [OF rest] show ?case by (cases tcs) simp_all
qed simp

theorem RunReplay_spec:
  fixes script r now now' iv
  defines "res \<equiv> RunReplay now now' iv (Some script) r"
  shows "map tm_DistanceToTarget (fst (snd res)) = map (Some \<circ> rt_DistanceToTarget) (sp_Ticks script)
    \<and> map tm_Online (fst (snd res)) = map rt_Online (sp_Ticks script)
    \<and> length (snd (snd res)) = length (sp_Ticks script) - 1"
proof (cases "sp_Ticks script = []")
  case True
  then show ?thesis by (simp add: res_def RunReplay_def)
next
  case False
  obtain r' ts ds where "replay_from now now' (if iv \<le> 0 then 500 * millisecond else iv) 0 (sp_Ticks script) r = (r', ts, ds)"
    by (metis surj_pair)
  with replay_from_spec [OF this] False show ?thesis by (simp add: res_def RunReplay_def)
qed

end
