(* ===== verification/Validation_Checks.thy ===== *)
theory Validation_Checks
  imports Streaming Sim_Scenarios Robot_Engine "HOL-Library.Sublist"
begin

text \<open>
  The checks of the validation layer, \<^verbatim>\<open>internal/validation\<close>: the assertions a scenario makes about the events, the
  telemetry, the tasks and the final state that were observed (\<^verbatim>\<open>assertions.go\<close>, \<^verbatim>\<open>event_checks.go\<close>,
  \<^verbatim>\<open>telemetry_checks.go\<close>, \<^verbatim>\<open>state_checks.go\<close>), and the contract of an adapter (\<^verbatim>\<open>adapter_contract.go\<close>).

  A check returns whether it passed, a message, and details, a \<^verbatim>\<open>map[string]interface{}\<close> that may be \<^verbatim>\<open>nil\<close>. \<open>show_num\<close> is
  the text of a number under \<^verbatim>\<open>%v\<close>, \<open>fl\<close> the rounding of an addition. Instants are in UTC.
\<close>

section \<open>What is observed\<close>

datatype detail = DStr string | DNum real | DInt int | DStrs "string list"

type_synonym check_details = "(string \<times> detail) list option"
type_synonym check_result = "bool \<times> string \<times> check_details"

record CollectedEvent =
  ce_Type :: string
  ce_Payload :: event_data
  ce_Timestamp :: time

record TelemetrySample =
  ts_RobotID :: string
  ts_Online :: bool
  ts_Position :: string
  ts_TargetPosition :: string
  ts_DistanceToTarget :: "real option"
  ts_CurrentTask :: string
  ts_Timestamp :: string

text \<open>The validation layer's own view of a task, of a simulated robot and of the state of a robot.\<close>

record ValTask =
  vt_ID :: string
  vt_RobotID :: string
  vt_ScenarioID :: string
  vt_Status :: string
  vt_Payload :: raw_message

record SimRobotState =
  ss_RobotID :: string
  ss_Online :: bool
  ss_Mode :: string
  ss_Position :: string
  ss_DistanceToTarget :: real

record AssertionContext =
  ac_RobotID :: string
  ac_Events :: "CollectedEvent list"
  ac_TelemetrySamples :: "TelemetrySample list"
  ac_Tasks :: "ValTask list"
  ac_FinalRobotState :: "RobotStateResponse option"
  ac_SimRobotState :: "SimRobotState option"
  ac_MallAssistantTaskID :: string
  ac_NavigateTaskIDs :: "string list"

record Assertion =
  as_Type :: string
  as_State :: string
  as_ScenarioID :: string
  as_Status :: string
  as_Events :: "string list"
  as_EventType :: string
  as_Field :: string
  as_Negated :: bool
  as_Reason :: string

record ValidationResult =
  vr_AssertionType :: string
  vr_Passed :: bool
  vr_Message :: string
  vr_Details :: check_details

definition AssertFinalRobotState :: string where "AssertFinalRobotState = ''final_robot_state''"
definition AssertTaskStatus :: string where "AssertTaskStatus = ''task_status''"
definition AssertEventSequence :: string where "AssertEventSequence = ''event_sequence''"
definition AssertEventPresent :: string where "AssertEventPresent = ''event_present''"
definition AssertNoNavigationTask :: string where "AssertNoNavigationTask = ''no_navigation_task_created''"
definition AssertTelemetryFieldPresent :: string where "AssertTelemetryFieldPresent = ''telemetry_field_present''"
definition AssertTelemetryProgression :: string where "AssertTelemetryProgression = ''telemetry_progression''"
definition AssertTimeoutTriggered :: string where "AssertTimeoutTriggered = ''timeout_triggered''"
definition AssertSafeStopReceived :: string where "AssertSafeStopReceived = ''safe_stop_received''"
definition AssertRobotOfflineFailure :: string where "AssertRobotOfflineFailure = ''robot_offline_causes_failure''"

lemmas assert_defs = AssertFinalRobotState_def AssertTaskStatus_def AssertEventSequence_def AssertEventPresent_def
  AssertNoNavigationTask_def AssertTelemetryFieldPresent_def AssertTelemetryProgression_def AssertTimeoutTriggered_def
  AssertSafeStopReceived_def AssertRobotOfflineFailure_def

text \<open>ASCII letters folded to upper case, \<^verbatim>\<open>strings.ToUpper\<close>; a \<^verbatim>\<open>[]string\<close> under \<^verbatim>\<open>%v\<close>.\<close>

definition ToUpper :: "string \<Rightarrow> string" where
  "ToUpper s = map (\<lambda>c. if 97 \<le> (of_char c :: nat) \<and> (of_char c :: nat) \<le> 122 then char_of ((of_char c :: nat) - 32) else c) s"

definition show_strings :: "string list \<Rightarrow> string" where
  "show_strings ws = ''['' @ str_join CHR '' '' ws @ '']''"

section \<open>Events\<close>

definition eventTypes :: "CollectedEvent list \<Rightarrow> string list" where
  "eventTypes collected = map ce_Type collected"

text \<open>The inner loop, from the index on: what follows the first \<open>want\<close>. Then the loop over the expected events.\<close>

fun seek :: "string \<Rightarrow> string list \<Rightarrow> string list option" where
  "seek want [] = None"
| "seek want (c # cs) = (if c = want then Some cs else seek want cs)"

fun missing_event :: "string list \<Rightarrow> string list \<Rightarrow> string option" where
  "missing_event [] cs = None"
| "missing_event (want # ws) cs = (case seek want cs of None \<Rightarrow> Some want | Some rest \<Rightarrow> missing_event ws rest)"

definition CheckEventSequence :: "CollectedEvent list \<Rightarrow> string list \<Rightarrow> check_result" where
  "CheckEventSequence collected expected =
     (if expected = [] then (True, ''no events to check'', None)
      else let types = eventTypes collected in
        case missing_event expected types of
          Some want \<Rightarrow> (False, ''event '' @ want @ '' not found in expected order (expected: '' @ show_strings expected @ '')'',
            Some [(''expected'', DStrs expected), (''collected'', DStrs types), (''missing'', DStr want)])
        | None \<Rightarrow> (True, ''event sequence correct: '' @ show_strings expected, Some [(''events'', DStrs types)]))"

definition CheckEventPresent :: "CollectedEvent list \<Rightarrow> string \<Rightarrow> check_result" where
  "CheckEventPresent collected eventType0 =
     (let eventType = TrimSpace eventType0 in
      if list_ex (\<lambda>e. ce_Type e = eventType) collected
      then (True, ''event '' @ eventType @ '' present'', Some [(''event_type'', DStr eventType)])
      else (False, ''event '' @ eventType @ '' not found'',
        Some [(''event_type'', DStr eventType), (''collected'', DStrs (eventTypes collected))]))"

section \<open>Telemetry\<close>

definition sample_of :: "Telemetry \<Rightarrow> TelemetrySample" where
  "sample_of t = \<lparr>ts_RobotID = tm_RobotID t, ts_Online = tm_Online t, ts_Position = tm_Position t,
     ts_TargetPosition = tm_TargetPosition t, ts_DistanceToTarget = tm_DistanceToTarget t, ts_CurrentTask = tm_CurrentTask t,
     ts_Timestamp = (if time_IsZero (tm_Timestamp t) then [] else whole_second (tm_Timestamp t div second) @ ''Z'')\<rparr>"

definition TelemetryToSamples :: "Telemetry option list \<Rightarrow> TelemetrySample list" where
  "TelemetryToSamples tel = List.map_filter (map_option sample_of) tel"

definition other_robot :: "string \<Rightarrow> TelemetrySample \<Rightarrow> bool" where
  "other_robot robotID s \<longleftrightarrow> robotID \<noteq> [] \<and> ts_RobotID s \<noteq> robotID"

text \<open>Whether the sample has the field; \<open>None\<close> for a name that is no field.\<close>

definition sample_has :: "string \<Rightarrow> TelemetrySample \<Rightarrow> bool option" where
  "sample_has field s =
     (if field = ''robot_id'' then Some (ts_RobotID s \<noteq> [])
      else if field = ''online'' then Some True
      else if field = ''position'' then Some (ts_Position s \<noteq> [])
      else if field = ''target_position'' then Some (ts_TargetPosition s \<noteq> [])
      else if field = ''distance_to_target'' then Some (ts_DistanceToTarget s \<noteq> None)
      else if field = ''current_task'' then Some (ts_CurrentTask s \<noteq> [])
      else if field = ''timestamp'' then Some (ts_Timestamp s \<noteq> [])
      else None)"

fun field_loop :: "string \<Rightarrow> string \<Rightarrow> int \<Rightarrow> TelemetrySample list \<Rightarrow> check_result" where
  "field_loop field robotID n [] = (False, ''field '' @ field @ '' not found in telemetry samples'',
     Some [(''field'', DStr field), (''samples'', DInt n)])"
| "field_loop field robotID n (s # ss) =
     (if other_robot robotID s then field_loop field robotID n ss
      else case sample_has field s of
          None \<Rightarrow> (False, ''unknown field: '' @ field, None)
        | Some True \<Rightarrow> (True, ''field '' @ field @ '' present in telemetry'', Some [(''field'', DStr field)])
        | Some False \<Rightarrow> field_loop field robotID n ss)"

definition CheckTelemetryFieldPresent :: "TelemetrySample list \<Rightarrow> string \<Rightarrow> string \<Rightarrow> check_result" where
  "CheckTelemetryFieldPresent samples field robotID = field_loop (ToLower field) robotID (int (length samples)) samples"

text \<open>The loop gives the pair of distances that fails, or the last distance; \<^verbatim>\<open>0.1\<close> is \<open>tenth\<close>.\<close>

fun progress_loop :: "(real \<Rightarrow> real) \<Rightarrow> string \<Rightarrow> real option \<Rightarrow> TelemetrySample list \<Rightarrow> (real \<times> real) + real option" where
  "progress_loop fl robotID prev [] = Inr prev"
| "progress_loop fl robotID prev (s # ss) =
     (if other_robot robotID s then progress_loop fl robotID prev ss
      else case ts_DistanceToTarget s of
          None \<Rightarrow> progress_loop fl robotID prev ss
        | Some d \<Rightarrow> (case prev of
              None \<Rightarrow> progress_loop fl robotID (Some d) ss
            | Some p \<Rightarrow> if d > p \<and> p > tenth \<and> d > fl (p + 1 / 2) then Inl (p, d) else progress_loop fl robotID (Some d) ss))"

definition CheckTelemetryProgression :: "(real \<Rightarrow> real) \<Rightarrow> (real \<Rightarrow> string) \<Rightarrow> TelemetrySample list \<Rightarrow> string \<Rightarrow> check_result" where
  "CheckTelemetryProgression fl show_num samples robotID =
     (case progress_loop fl robotID None samples of
        Inl (p, d) \<Rightarrow> (False, ''distance increased from '' @ show_num p @ '' to '' @ show_num d,
          Some [(''prev'', DNum p), (''curr'', DNum d)])
      | Inr None \<Rightarrow> (False, ''no distance_to_target samples'', None)
      | Inr (Some d) \<Rightarrow> (True, ''distance_to_target progressed or stayed constant'', Some [(''final_distance'', DNum d)]))"

definition CheckSafeStopReceived ::
  "CollectedEvent list \<Rightarrow> SimRobotState option \<Rightarrow> TelemetrySample list \<Rightarrow> string \<Rightarrow> check_result" where
  "CheckSafeStopReceived events simState samples robotID =
     (if list_ex (\<lambda>e. ce_Type e = ''safe_stop'') events
      then (True, ''safe_stop event emitted'', Some [(''event_type'', DStr ''safe_stop'')])
      else if (case simState of None \<Rightarrow> False | Some st \<Rightarrow> ss_Mode st = ''safe_stop'')
      then (True, ''robot in safe_stop mode'', Some [(''mode'', DStr (ss_Mode (the simState)))])
      else if list_ex (\<lambda>s. \<not> other_robot robotID s \<and> ts_CurrentTask s = ''idle'' \<and> length samples > 1) samples
      then (True, ''telemetry shows idle (safe_stop effect)'', None)
      else (False, ''safe_stop not observed'', None))"

section \<open>States and tasks\<close>

definition IsTerminalState :: "string \<Rightarrow> bool" where
  "IsTerminalState st \<longleftrightarrow> st = ''IDLE'' \<or> st = ''ERROR_STATE''"

definition IsFailureState :: "string \<Rightarrow> bool" where
  "IsFailureState st \<longleftrightarrow> st = ''ERROR_STATE''"

definition checkFinalRobotState :: "Assertion \<Rightarrow> AssertionContext \<Rightarrow> check_result" where
  "checkFinalRobotState a ctx =
     (let expected = or_default (ToUpper (as_State a)) ''IDLE'' in
      case ac_FinalRobotState ctx of
        None \<Rightarrow> (False, ''no robot state available'', Some [(''expected'', DStr expected)])
      | Some st \<Rightarrow>
          let actual = ToUpper (rs_State st); passed = (actual = expected)
          in (passed, if passed then ''robot state is '' @ actual else ''expected state '' @ expected @ '', got '' @ actual,
              Some [(''expected'', DStr expected), (''actual'', DStr actual)]))"

definition checkTaskStatus :: "Assertion \<Rightarrow> AssertionContext \<Rightarrow> check_result" where
  "checkTaskStatus a ctx =
     (let scenarioID = as_ScenarioID a; expectedStatus = or_default (ToLower (as_Status a)) ''completed'' in
      case find (\<lambda>t. \<not> (scenarioID \<noteq> [] \<and> vt_ScenarioID t \<noteq> scenarioID) \<and> vt_RobotID t = ac_RobotID ctx) (ac_Tasks ctx) of
        None \<Rightarrow> (False, ''no matching task found'', Some [(''scenario_id'', DStr scenarioID), (''expected'', DStr expectedStatus)])
      | Some t \<Rightarrow>
          let actual = ToLower (vt_Status t); passed = (actual = expectedStatus)
          in (passed, if passed then ''task '' @ vt_ID t @ '' has status '' @ actual
                      else ''task '' @ vt_ID t @ '': expected status '' @ expectedStatus @ '', got '' @ actual,
              Some [(''task_id'', DStr (vt_ID t)), (''expected'', DStr expectedStatus), (''actual'', DStr actual)]))"

definition checkEventSequence :: "Assertion \<Rightarrow> AssertionContext \<Rightarrow> check_result" where
  "checkEventSequence a ctx = CheckEventSequence (ac_Events ctx) (as_Events a)"

definition checkEventPresent :: "Assertion \<Rightarrow> AssertionContext \<Rightarrow> check_result" where
  "checkEventPresent a ctx =
     (let eventType = (if as_EventType a = [] \<and> as_Events a \<noteq> [] then hd (as_Events a) else as_EventType a)
      in if eventType = [] then (False, ''no event type specified'', None) else CheckEventPresent (ac_Events ctx) eventType)"

definition checkNoNavigationTask :: "Assertion \<Rightarrow> AssertionContext \<Rightarrow> check_result" where
  "checkNoNavigationTask a ctx =
     (case find (\<lambda>t. vt_ScenarioID t = ''navigate_to_store'' \<and> vt_RobotID t = ac_RobotID ctx) (ac_Tasks ctx) of
        Some t \<Rightarrow> (False, ''found navigate_to_store task '' @ vt_ID t @ '' (expected none)'', Some [(''task_id'', DStr (vt_ID t))])
      | None \<Rightarrow> (True, ''no navigate_to_store task created'', None))"

definition checkTelemetryFieldPresent :: "Assertion \<Rightarrow> AssertionContext \<Rightarrow> check_result" where
  "checkTelemetryFieldPresent a ctx =
     (if as_Field a = [] then (False, ''no field specified'', None)
      else CheckTelemetryFieldPresent (ac_TelemetrySamples ctx) (as_Field a) (ac_RobotID ctx))"

definition checkTelemetryProgression :: "(real \<Rightarrow> real) \<Rightarrow> (real \<Rightarrow> string) \<Rightarrow> Assertion \<Rightarrow> AssertionContext \<Rightarrow> check_result" where
  "checkTelemetryProgression fl show_num a ctx = CheckTelemetryProgression fl show_num (ac_TelemetrySamples ctx) (ac_RobotID ctx)"

text \<open>The reason of the assertion is folded and defaulted, and then not used.\<close>

definition failed_task :: "AssertionContext \<Rightarrow> ValTask option" where
  "failed_task ctx = find (\<lambda>t. vt_RobotID t = ac_RobotID ctx \<and> vt_Status t = ''failed'') (ac_Tasks ctx)"

definition checkTimeoutTriggered :: "Assertion \<Rightarrow> AssertionContext \<Rightarrow> check_result" where
  "checkTimeoutTriggered a ctx =
     (case failed_task ctx of
        Some t \<Rightarrow> (True, ''task failed (timeout path)'', Some [(''task_id'', DStr (vt_ID t)), (''status'', DStr (vt_Status t))])
      | None \<Rightarrow> (False, ''no timeout/failure observed'', None))"

definition checkSafeStopReceived :: "Assertion \<Rightarrow> AssertionContext \<Rightarrow> check_result" where
  "checkSafeStopReceived a ctx =
     CheckSafeStopReceived (ac_Events ctx) (ac_SimRobotState ctx) (ac_TelemetrySamples ctx) (ac_RobotID ctx)"

definition checkRobotOfflineFailure :: "Assertion \<Rightarrow> AssertionContext \<Rightarrow> check_result" where
  "checkRobotOfflineFailure a ctx =
     (case failed_task ctx of
        Some t \<Rightarrow> (True,
          if list_ex (\<lambda>s. ts_RobotID s = ac_RobotID ctx \<and> \<not> ts_Online s) (ac_TelemetrySamples ctx)
          then ''task failed with robot offline'' else ''task failed (offline scenario)'',
          Some [(''task_id'', DStr (vt_ID t))])
      | None \<Rightarrow> (False, ''no failure observed for offline scenario'', None))"

section \<open>Assertions\<close>

definition dispatch :: "(real \<Rightarrow> real) \<Rightarrow> (real \<Rightarrow> string) \<Rightarrow> Assertion \<Rightarrow> AssertionContext \<Rightarrow> check_result" where
  "dispatch fl show_num a ctx =
     (let ty = as_Type a in
      if ty = AssertFinalRobotState then checkFinalRobotState a ctx
      else if ty = AssertTaskStatus then checkTaskStatus a ctx
      else if ty = AssertEventSequence then checkEventSequence a ctx
      else if ty = AssertEventPresent then checkEventPresent a ctx
      else if ty = AssertNoNavigationTask then checkNoNavigationTask a ctx
      else if ty = AssertTelemetryFieldPresent then checkTelemetryFieldPresent a ctx
      else if ty = AssertTelemetryProgression then checkTelemetryProgression fl show_num a ctx
      else if ty = AssertTimeoutTriggered then checkTimeoutTriggered a ctx
      else if ty = AssertSafeStopReceived then checkSafeStopReceived a ctx
      else if ty = AssertRobotOfflineFailure then checkRobotOfflineFailure a ctx
      else (False, ''unknown assertion type: '' @ ty, Some [(''type'', DStr ty)]))"

definition EvaluateAssertion :: "(real \<Rightarrow> real) \<Rightarrow> (real \<Rightarrow> string) \<Rightarrow> Assertion \<Rightarrow> AssertionContext \<Rightarrow> ValidationResult" where
  "EvaluateAssertion fl show_num a ctx =
     (let (passed0, msg0, details) = dispatch fl show_num a ctx;
          passed = (if as_Negated a then \<not> passed0 else passed0);
          msg = (if as_Negated a \<and> msg0 \<noteq> [] then ''negated: '' @ msg0 else msg0)
      in \<lparr>vr_AssertionType = as_Type a, vr_Passed = passed, vr_Message = msg, vr_Details = details\<rparr>)"

section \<open>The order of events\<close>

lemma seek_None: "seek w cs = None \<longleftrightarrow> w \<notin> set cs"
  by (induction cs) auto

lemma seek_Some: "seek w cs = Some rest \<Longrightarrow> subseq (w # ws) cs \<longleftrightarrow> subseq ws rest"
  by (induction cs) (auto split: if_splits)

lemma missing_event_take:
  "(case missing_event ws cs of None \<Rightarrow> subseq ws cs
    | Some w \<Rightarrow> \<exists>k < length ws. ws ! k = w \<and> subseq (take k ws) cs \<and> \<not> subseq (take (Suc k) ws) cs)"
proof (induction ws cs rule: missing_event.induct)
  case (1 cs)
  show ?case by simp
next
  case (2 want ws cs)
  show ?case
  proof (cases "seek want cs")
    case None
    then have "want \<notin> set cs" by (simp add: seek_None)
    then have "\<not> subseq [want] cs" by (simp add: subseq_singleton_left)
    with None show ?thesis by auto
  next
    case (Some rest)
    note sub = seek_Some [OF Some]
    show ?thesis
    proof (cases "missing_event ws rest")
      case None
      with "2.IH" [OF Some] Some sub show ?thesis by simp
    next
      case (Some w)
      with "2.IH" [OF \<open>seek want cs = Some rest\<close>] obtain k where
        "k < length ws" "ws ! k = w" "subseq (take k ws) rest" "\<not> subseq (take (Suc k) ws) rest" by auto
      then have k: "Suc k < length (want # ws)" "(want # ws) ! Suc k = w" "subseq (take (Suc k) (want # ws)) cs"
        "\<not> subseq (take (Suc (Suc k)) (want # ws)) cs" using sub by simp_all
      have eq: "missing_event (want # ws) cs = Some w" using Some \<open>seek want cs = Some rest\<close> by simp
      show ?thesis unfolding eq option.case by (rule exI [of _ "Suc k"], intro conjI) (rule k)+
    qed
  qed
qed

lemma missing_event_iff: "missing_event ws cs = None \<longleftrightarrow> subseq ws cs"
proof (cases "missing_event ws cs")
  case None
  with missing_event_take [of ws cs] show ?thesis by simp
next
  case (Some w)
  with missing_event_take [of ws cs] obtain k where "\<not> subseq (take (Suc k) ws) cs" by auto
  moreover have "subseq (take (Suc k) ws) ws" by (simp add: prefix_imp_subseq take_is_prefix)
  ultimately have "\<not> subseq ws cs" using subseq_order.trans by blast
  with Some show ?thesis by simp
qed

section \<open>Distances\<close>

text \<open>The distances that count, and what a pair of neighbours has to satisfy.\<close>

definition distances :: "string \<Rightarrow> TelemetrySample list \<Rightarrow> real list" where
  "distances robotID samples = List.map_filter (\<lambda>s. if other_robot robotID s then None else ts_DistanceToTarget s) samples"

definition tolerated :: "(real \<Rightarrow> real) \<Rightarrow> real \<Rightarrow> real \<Rightarrow> bool" where
  "tolerated fl p d \<longleftrightarrow> d \<le> p \<or> p \<le> tenth \<or> d \<le> fl (p + 1 / 2)"

lemma distances_simps [simp]:
  "distances robotID [] = []"
  "distances robotID (s # ss) = (if other_robot robotID s then distances robotID ss
     else case ts_DistanceToTarget s of None \<Rightarrow> distances robotID ss | Some d \<Rightarrow> d # distances robotID ss)"
  by (auto simp: distances_def List.map_filter_simps split: option.split)

lemma progress_loop_Some:
  "(\<exists>d. progress_loop fl robotID (Some p) ss = Inr (Some d)) \<longleftrightarrow> successively (tolerated fl) (p # distances robotID ss)"
proof (induction ss arbitrary: p)
  case (Cons s ss)
  show ?case
  proof (cases "other_robot robotID s \<or> ts_DistanceToTarget s = None")
    case True
    then have "progress_loop fl robotID (Some p) (s # ss) = progress_loop fl robotID (Some p) ss"
      "distances robotID (s # ss) = distances robotID ss" by auto
    with Cons.IH [of p] show ?thesis by simp
  next
    case False
    then obtain d where d: "ts_DistanceToTarget s = Some d" and s: "\<not> other_robot robotID s" by auto
    have t: "tolerated fl p d \<longleftrightarrow> \<not> (d > p \<and> p > tenth \<and> d > fl (p + 1 / 2))" by (auto simp: tolerated_def)
    show ?thesis
    proof (cases "tolerated fl p d")
      case True
      then have "progress_loop fl robotID (Some p) (s # ss) = progress_loop fl robotID (Some d) ss"
        using d s t by auto
      with True d s Cons.IH [of d] show ?thesis by simp
    next
      case no: False
      then have "progress_loop fl robotID (Some p) (s # ss) = Inl (p, d)"
        using d s by (simp only: t) simp
      with no d s show ?thesis by simp
    qed
  qed
qed simp

lemma progress_loop_None:
  "(\<exists>d. progress_loop fl robotID None ss = Inr (Some d)) \<longleftrightarrow> distances robotID ss \<noteq> [] \<and> successively (tolerated fl) (distances robotID ss)"
proof (induction ss)
  case (Cons s ss)
  show ?case
  proof (cases "other_robot robotID s \<or> ts_DistanceToTarget s = None")
    case True
    with Cons.IH show ?thesis by auto
  next
    case False
    then obtain d where "ts_DistanceToTarget s = Some d" "\<not> other_robot robotID s" by auto
    then show ?thesis using progress_loop_Some [of fl robotID d ss] by simp
  qed
qed simp

section \<open>Properties\<close>

text \<open>
  C35. The check of the order of events passes exactly when the expected types are a subsequence of the types that were
  collected; otherwise its message names the first expected event that is missing, the one before which everything was found.
\<close>

theorem CheckEventSequence_spec:
  fixes collected expected
  defines "res \<equiv> CheckEventSequence collected expected"
  shows "(fst res \<longleftrightarrow> subseq expected (map ce_Type collected))
    \<and> (fst res \<or> (\<exists>k < length expected. subseq (take k expected) (map ce_Type collected)
         \<and> \<not> subseq (take (Suc k) expected) (map ce_Type collected)
         \<and> fst (snd res) = ''event '' @ expected ! k @ '' not found in expected order (expected: '' @ show_strings expected @ '')''))"
proof (cases "expected = []")
  case True
  then show ?thesis by (simp add: res_def CheckEventSequence_def)
next
  case False
  show ?thesis
  proof (cases "missing_event expected (map ce_Type collected)")
    case None
    with False show ?thesis by (simp add: res_def CheckEventSequence_def eventTypes_def flip: missing_event_iff)
  next
    case (Some w)
    then have "\<not> subseq expected (map ce_Type collected)" by (simp flip: missing_event_iff)
    with False Some missing_event_take [of expected "map ce_Type collected"] show ?thesis
      by (auto simp: res_def CheckEventSequence_def eventTypes_def)
  qed
qed

text \<open>
  The check of the progression passes exactly when the robot gave a distance and no distance exceeds the one
  before it by more than half a metre, distances up to the tenth of a metre apart.
\<close>

theorem CheckTelemetryProgression_iff:
  "fst (CheckTelemetryProgression fl show_num samples robotID) \<longleftrightarrow>
     distances robotID samples \<noteq> [] \<and> successively (tolerated fl) (distances robotID samples)"
proof -
  have "fst (CheckTelemetryProgression fl show_num samples robotID) \<longleftrightarrow>
      (\<exists>d. progress_loop fl robotID None samples = Inr (Some d))"
    by (auto simp: CheckTelemetryProgression_def split: sum.split option.split)
  with progress_loop_None show ?thesis by simp
qed

text \<open>A robot that moves away from its target by half a metre with each sample, for as long as one likes, progresses.\<close>

definition away :: "string \<Rightarrow> nat \<Rightarrow> TelemetrySample" where
  "away robotID i = \<lparr>ts_RobotID = robotID, ts_Online = True, ts_Position = [], ts_TargetPosition = [],
     ts_DistanceToTarget = Some (1 + of_nat i / 2), ts_CurrentTask = [], ts_Timestamp = []\<rparr>"

lemma distances_away: "distances robotID (map (away robotID) is) = map (\<lambda>i. 1 + of_nat i / 2) is"
  by (induction "is") (simp_all add: away_def other_robot_def)

theorem moving_away_progresses:
  "fst (CheckTelemetryProgression (\<lambda>x. x) show_num (map (away robotID) [0..<Suc n]) robotID)
   \<and> distances robotID (map (away robotID) [0..<Suc n]) = map (\<lambda>i. 1 + of_nat i / 2) [0..<Suc n]"
proof -
  have "successively (tolerated (\<lambda>x. x)) (map (\<lambda>i. 1 + of_nat i / 2) [m..<k])" for m k
    by (auto simp: successively_conv_nth tolerated_def field_simps)
  with CheckTelemetryProgression_iff show ?thesis unfolding distances_away
    by (metis list.map_disc_iff upt_rec zero_less_Suc list.distinct(1) distances_away)
qed

text \<open>
  The assertions \<^verbatim>\<open>timeout_triggered\<close> and \<^verbatim>\<open>robot_offline_causes_failure\<close> are the same predicate: some task of the
  robot failed. Neither the reason nor whether any telemetry of the robot was offline matters.
\<close>

theorem timeout_and_offline_agree:
  "fst (dispatch fl show_num (a\<lparr>as_Type := AssertTimeoutTriggered\<rparr>) ctx) = list_ex (\<lambda>t. vt_RobotID t = ac_RobotID ctx \<and> vt_Status t = ''failed'') (ac_Tasks ctx)
   \<and> fst (dispatch fl show_num (b\<lparr>as_Type := AssertRobotOfflineFailure\<rparr>) ctx) = list_ex (\<lambda>t. vt_RobotID t = ac_RobotID ctx \<and> vt_Status t = ''failed'') (ac_Tasks ctx)"
  by (auto simp: dispatch_def assert_defs checkTimeoutTriggered_def checkRobotOfflineFailure_def failed_task_def list_ex_iff find_None_iff find_Some_iff
      split: option.split)

text \<open>Negation swaps the verdict of every assertion, so one whose type is misspelt passes when it is negated.\<close>

theorem EvaluateAssertion_negation:
  "vr_Passed (EvaluateAssertion fl show_num (a\<lparr>as_Negated := True\<rparr>) ctx)
     = (\<not> vr_Passed (EvaluateAssertion fl show_num (a\<lparr>as_Negated := False\<rparr>) ctx))
   \<and> vr_Passed (EvaluateAssertion fl show_num (a\<lparr>as_Type := ''tasks_status'', as_Negated := True\<rparr>) ctx)"
proof -
  have "dispatch fl show_num (a\<lparr>as_Negated := n\<rparr>) ctx = dispatch fl show_num a ctx" for n
    by (simp add: dispatch_def checkFinalRobotState_def checkTaskStatus_def checkEventSequence_def checkEventPresent_def
        checkNoNavigationTask_def checkTelemetryFieldPresent_def checkTelemetryProgression_def checkTimeoutTriggered_def
        checkSafeStopReceived_def checkRobotOfflineFailure_def Let_def)
  moreover have "fst (dispatch fl show_num (a\<lparr>as_Type := ''tasks_status'', as_Negated := True\<rparr>) ctx) = False"
    by (simp add: dispatch_def assert_defs Let_def)
  ultimately show ?thesis by (simp add: EvaluateAssertion_def split_beta Let_def)
qed

end
