(* ===== verification/Adapter_Contract.thy ===== *)
theory Adapter_Contract
  imports Validation_Checks
begin

text \<open>
  The contract an adapter has to meet, \<^verbatim>\<open>internal/validation/adapter_contract.go\<close>. The map from capabilities to commands is
  the list of its entries; the JSON text of the contract is left to \<^verbatim>\<open>encoding/json\<close>.
\<close>

record ContractSpec =
  cs_RequiredCommands :: "string list"
  cs_RequiredTelemetry :: "string list"
  cs_CapabilityCommands :: "(string \<times> string list) list"

definition DefaultContractSpec :: ContractSpec where
  "DefaultContractSpec = \<lparr>
     cs_RequiredCommands = [''navigate_to'', ''safe_stop'', ''release_control'', ''walk_mode'', ''stand_mode''],
     cs_RequiredTelemetry = [''robot_id'', ''online'', ''current_task'', ''position'', ''target_position'',
       ''distance_to_target'', ''timestamp'', ''actuator_status''],
     cs_CapabilityCommands = [(CapNavigation, [''navigate_to'']), (CapSafeStop, [''safe_stop'']),
       (CapReleaseControl, [''release_control'']), (CapWalk, [''walk_mode'']), (CapStand, [''stand_mode'']),
       (CapSpeech, [''speak''])]\<rparr>"

record ContractViolation =
  cv_Category :: string
  cv_Field :: string
  cv_Message :: string

text \<open>Whether the telemetry has the field; \<open>None\<close> for a name the code does not know.\<close>

definition telemetry_has :: "Telemetry \<Rightarrow> string \<Rightarrow> bool option" where
  "telemetry_has t field =
     (if field = ''robot_id'' then Some (tm_RobotID t \<noteq> [])
      else if field = ''timestamp'' then Some (\<not> time_IsZero (tm_Timestamp t))
      else if field = ''online'' then Some True
      else if field = ''current_task'' then Some (tm_CurrentTask t \<noteq> [])
      else if field = ''position'' then Some (tm_Position t \<noteq> [])
      else if field = ''target_position'' then Some (tm_TargetPosition t \<noteq> [])
      else if field = ''distance_to_target'' then Some (tm_DistanceToTarget t \<noteq> None)
      else if field = ''actuator_status'' then Some (tm_ActuatorStatus t \<noteq> [])
      else None)"

definition missing_field :: "string \<Rightarrow> Telemetry \<Rightarrow> string \<Rightarrow> ContractViolation option" where
  "missing_field msg t field =
     (if telemetry_has t field = Some False then Some \<lparr>cv_Category = ''telemetry'', cv_Field = field, cv_Message = msg\<rparr> else None)"

text \<open>The loop over the capabilities of the robot only skips.\<close>

definition ValidateAdapterContract :: "ContractSpec \<Rightarrow> Robot option \<Rightarrow> Telemetry option \<Rightarrow> ContractViolation list" where
  "ValidateAdapterContract spec robot telemetry =
     (case robot of
        None \<Rightarrow> [\<lparr>cv_Category = ''robot'', cv_Field = [], cv_Message = ''robot is nil''\<rparr>]
      | Some r \<Rightarrow> (case telemetry of
            None \<Rightarrow> [\<lparr>cv_Category = ''telemetry'', cv_Field = [], cv_Message = ''telemetry sample is nil''\<rparr>]
          | Some t \<Rightarrow>
              List.map_filter (missing_field ''required telemetry field missing or empty'' t) (cs_RequiredTelemetry spec)
              @ (if r_ID r \<noteq> [] \<and> tm_RobotID t \<noteq> [] \<and> r_ID r \<noteq> tm_RobotID t
                 then [\<lparr>cv_Category = ''telemetry'', cv_Field = ''robot_id'', cv_Message = ''telemetry robot_id does not match registry''\<rparr>]
                 else [])))"

definition ValidateTelemetryFields :: "Telemetry option \<Rightarrow> ContractViolation list" where
  "ValidateTelemetryFields telemetry =
     (case telemetry of
        None \<Rightarrow> [\<lparr>cv_Category = ''telemetry'', cv_Field = [], cv_Message = ''nil telemetry''\<rparr>]
      | Some t \<Rightarrow> List.map_filter (missing_field ''missing or empty'' t)
          [''robot_id'', ''online'', ''timestamp'', ''position'', ''target_position'', ''distance_to_target'', ''current_task''])"

record ContractTiming =
  ct_TelemetryIntervalSec :: int
  ct_StaleThresholdSec :: int
  ct_CommandEffectMaxDelaySec :: int

record ContractJSON =
  cj_Description :: string
  cj_RequiredCommands :: "string list"
  cj_RequiredTelemetry :: "string list"
  cj_CapabilityCommands :: "(string \<times> string list) list"
  cj_Timing :: ContractTiming
  cj_Telemetry :: string \<comment> \<open>\<^verbatim>\<open>NATSTopics\<close>\<close>
  cj_Commands :: string

definition contract_json :: "ContractSpec \<Rightarrow> ContractJSON" where
  "contract_json spec = \<lparr>cj_Description = ''Adapter readiness contract for SAI AUROSY Mall Assistant pilot'',
     cj_RequiredCommands = cs_RequiredCommands spec, cj_RequiredTelemetry = cs_RequiredTelemetry spec,
     cj_CapabilityCommands = cs_CapabilityCommands spec,
     cj_Timing = \<lparr>ct_TelemetryIntervalSec = 2, ct_StaleThresholdSec = 5, ct_CommandEffectMaxDelaySec = 2\<rparr>,
     cj_Telemetry = ''telemetry.robots.{robot_id}'', cj_Commands = ''commands.robots.{robot_id}''\<rparr>"

definition validation_HasCapability :: "Robot option \<Rightarrow> string \<Rightarrow> bool" where
  "validation_HasCapability robot c =
     (case robot of None \<Rightarrow> False | Some r \<Rightarrow> list_ex (\<lambda>x. ToLower x = ToLower c) (r_Capabilities r))"

section \<open>Properties\<close>

text \<open>
  An adapter meets the default contract exactly when every field of a sample of its telemetry has a value and the sample is of the
  robot. So neither the commands nor the capabilities of the robot matter.
\<close>

theorem contract_met_iff:
  "ValidateAdapterContract DefaultContractSpec (Some r) (Some t) = [] \<longleftrightarrow>
     tm_RobotID t \<noteq> [] \<and> (r_ID r = [] \<or> r_ID r = tm_RobotID t) \<and> \<not> time_IsZero (tm_Timestamp t)
     \<and> tm_CurrentTask t \<noteq> [] \<and> tm_Position t \<noteq> [] \<and> tm_TargetPosition t \<noteq> [] \<and> tm_DistanceToTarget t \<noteq> None
     \<and> tm_ActuatorStatus t \<noteq> []"
  by (auto simp: ValidateAdapterContract_def DefaultContractSpec_def missing_field_def telemetry_has_def List.map_filter_simps)

text \<open>
  The platform's own simulated robot breaks the contract of adapters whenever it is not travelling and has not arrived: its
  telemetry then has no target position, which the contract asks for in every sample.
\<close>

theorem idle_simulator_breaks_contract:
  "\<lparr>cv_Category = ''telemetry'', cv_Field = ''target_position'', cv_Message = ''required telemetry field missing or empty''\<rparr>
     \<in> set (ValidateAdapterContract DefaultContractSpec (Some r)
         (Some (buildTelemetryFromState now (st\<lparr>si_Mode := ModeIdle\<rparr>))))"
  by (simp add: ValidateAdapterContract_def DefaultContractSpec_def missing_field_def telemetry_has_def List.map_filter_simps
      buildTelemetryFromState_def travelling_def)

end
