(* ===== verification/Validation_Runner.thy ===== *)
theory Validation_Runner
  imports Adapter_Contract Tasks
begin

text \<open>
  The runner of validation scenarios, \<^verbatim>\<open>internal/validation/runner.go\<close> and \<^verbatim>\<open>scenario.go\<close>, with the adapters and the exit
  code of \<^verbatim>\<open>cmd/validation/main.go\<close>. A run resets the simulated robot, carries out the steps of the scenario, and evaluates its assertions
  on what was observed.

  The platform under test runs beside it: what its services answer is in \<open>ValidationContext\<close>, with \<open>None\<close> for a
  collaborator that is \<^verbatim>\<open>nil\<close>. What the runner asks of them is the list of its calls. Parsing YAML is outside.
\<close>

section \<open>Scenarios\<close>

record Precondition =
  pre_RobotOnline :: "bool option"
  pre_RobotAtBase :: "bool option"
  pre_NoRunningTask :: "bool option"
  pre_Key :: string
  pre_Value :: string

record ValStep =
  vs_Action :: string
  vs_Text :: string
  vs_TimeoutSec :: int
  vs_StoreName :: string

text \<open>The validation layer's own configuration of a failure, and the one of the simulated robot made from it.\<close>

record ValFailure =
  vf_Type :: string
  vf_AfterTicks :: int
  vf_WhenDistanceLt :: real
  vf_AfterCommand :: string
  vf_BatteryLevel :: real
  vf_SlowdownFactor :: real
  vf_DurationTicks :: int

definition sim_failure :: "ValFailure \<Rightarrow> FailureConfig" where
  "sim_failure f = \<lparr>fc_Type = vf_Type f, fc_AfterTicks = vf_AfterTicks f, fc_WhenDistanceLt = vf_WhenDistanceLt f,
     fc_AfterCommand = vf_AfterCommand f, fc_BatteryLevel = vf_BatteryLevel f, fc_SlowdownFactor = vf_SlowdownFactor f,
     fc_DurationTicks = vf_DurationTicks f, fc_applied = False\<rparr>"

record ValScenario =
  vsc_Name :: string
  vsc_Description :: string
  vsc_RobotID :: string
  vsc_Preconditions :: "Precondition list"
  vsc_Steps :: "ValStep list"
  vsc_Assertions :: "Assertion list"
  vsc_FailureConfig :: "ValFailure option"

text \<open>The defaults after parsing, for a file of the name \<open>base\<close>; the extension of a file name, \<^verbatim>\<open>filepath.Ext\<close>.\<close>

definition scenario_defaults :: "string \<Rightarrow> ValScenario \<Rightarrow> ValScenario" where
  "scenario_defaults base s = s\<lparr>vsc_Name := or_default (vsc_Name s) base, vsc_RobotID := or_default (vsc_RobotID s) ''sim-001''\<rparr>"

definition file_ext :: "string \<Rightarrow> string" where
  "file_ext name = (if CHR ''.'' \<in> set name then CHR ''.'' # last (str_split CHR ''.'' name) else [])"

text \<open>The entries of a directory with whether they are directories; \<open>parse\<close> reads and parses a file.\<close>

fun LoadScenariosFromDir :: "(string \<Rightarrow> string + ValScenario) \<Rightarrow> (string \<times> bool) list \<Rightarrow> string + ValScenario list" where
  "LoadScenariosFromDir parse [] = Inr []"
| "LoadScenariosFromDir parse ((name, is_dir) # es) =
     (if is_dir \<or> file_ext name \<noteq> ''.yaml'' \<and> file_ext name \<noteq> ''.yml'' then LoadScenariosFromDir parse es
      else case parse name of
          Inl e \<Rightarrow> Inl (''load '' @ name @ '': '' @ e)
        | Inr s \<Rightarrow> (case LoadScenariosFromDir parse es of
              Inl e \<Rightarrow> Inl e
            | Inr ss \<Rightarrow> Inr (scenario_defaults name s # ss)))"

definition ScenarioNames :: "(string \<Rightarrow> string + ValScenario) \<Rightarrow> (string \<times> bool) list \<Rightarrow> string + string list" where
  "ScenarioNames parse es = (case LoadScenariosFromDir parse es of Inl e \<Rightarrow> Inl e | Inr ss \<Rightarrow> Inr (map vsc_Name ss))"

section \<open>The run of a scenario\<close>

record RunConfig =
  rg_ContractCheck :: bool

record sim_api =
  sa_Reset :: "string \<Rightarrow> string option" \<comment> \<open>the text of the error\<close>
  sa_GetState :: "string \<Rightarrow> SimRobotState option"

record ValidationContext =
  vx_sim :: "sim_api option"
  vx_trigger :: "(nat \<Rightarrow> string + string) option" \<comment> \<open>what the start in the \<open>n\<close>-th step gives: an error or a task\<close>
  vx_events :: "CollectedEvent list option" \<comment> \<open>what is collected in the end\<close>
  vx_telemetry :: "Telemetry option list option"
  vx_tasks :: "(string \<Rightarrow> ValTask list) option"
  vx_states :: "(string \<Rightarrow> RobotStateResponse option) option"
  vx_registry :: "(string \<Rightarrow> Robot option) option"
  vx_expired :: "nat \<Rightarrow> bool" \<comment> \<open>whether the deadline has passed before the \<open>n\<close>-th step\<close>
  vx_clock :: "nat \<Rightarrow> time"

datatype val_call = CallReset string | CallInject string FailureConfig | CallClearEvents | CallClearTelemetry
  | CallStart string string string | CallSubmit string string | CallSleep duration

record Report =
  rp_ScenarioName :: string
  rp_Status :: string
  rp_StartTime :: time
  rp_EndTime :: time
  rp_DurationMs :: int
  rp_AssertionsPassed :: nat
  rp_AssertionsFailed :: nat
  rp_FinalRobotState :: string
  rp_EmittedEvents :: "CollectedEvent list"
  rp_Results :: "ValidationResult list"
  rp_Error :: string
  rp_ContractViolations :: "ContractViolation list"

text \<open>\<^verbatim>\<open>time.Duration(sec) * time.Second\<close>, with the default when it is not positive.\<close>

definition sleep_for :: "int \<Rightarrow> int \<Rightarrow> val_call" where
  "sleep_for sec dflt = CallSleep (int64 ((if sec \<le> 0 then dflt else sec) * second))"

definition visitor_text :: "ValStep \<Rightarrow> string" where
  "visitor_text st = (let t1 = (if vs_Text st = [] \<and> vs_StoreName st \<noteq> [] then ''Where is '' @ vs_StoreName st @ ''?'' else vs_Text st)
     in or_default t1 ''Where is Nike?'')"

text \<open>One step: its calls, and an error that ends the run or the task that was started.\<close>

definition exec_step :: "ValidationContext \<Rightarrow> string \<Rightarrow> nat \<Rightarrow> ValStep \<Rightarrow> val_call list \<times> (string + string option)" where
  "exec_step vx robotID n st =
     (let act = vs_Action st in
      if act = ''start_mall_assistant'' then
        (case vx_trigger vx of
           None \<Rightarrow> ([], Inr None)
         | Some start \<Rightarrow> ([CallStart robotID ''default'' ''validation''],
             case start n of Inl e \<Rightarrow> Inl (''start_mall_assistant: '' @ e) | Inr i \<Rightarrow> Inr (Some i)))
      else if act = ''submit_visitor_request'' then
        (case vx_trigger vx of None \<Rightarrow> ([], Inr None) | Some start \<Rightarrow> ([CallSubmit robotID (visitor_text st)], Inr None))
      else if act = ''wait_navigation_complete'' \<or> act = ''wait_return_complete'' then ([sleep_for (vs_TimeoutSec st) 60], Inr None)
      else if act = ''wait'' then ([sleep_for (vs_TimeoutSec st) 5], Inr None)
      else if act = ''inject_safe_stop'' then ([CallSleep (2 * second)], Inr None)
      else ([], Inr None))"

text \<open>
  All steps: the error that ended the run, the task of the assistant, the text in \<^verbatim>\<open>report.Error\<close>, and the calls. The \<^verbatim>\<open>break\<close> in the
  \<^verbatim>\<open>select\<close> leaves the \<^verbatim>\<open>select\<close>, not the loop.
\<close>

fun exec_steps :: "ValidationContext \<Rightarrow> string \<Rightarrow> nat \<Rightarrow> ValStep list \<Rightarrow> string \<Rightarrow> string
    \<Rightarrow> string option \<times> string \<times> string \<times> val_call list" where
  "exec_steps vx robotID n [] mall err = (None, mall, err, [])"
| "exec_steps vx robotID n (st # sts) mall err =
     (let err1 = (if vx_expired vx n then ''scenario timeout'' else err) in
      case exec_step vx robotID n st of
        (calls, Inl e) \<Rightarrow> (Some e, mall, err1, calls)
      | (calls, Inr started) \<Rightarrow>
          let (fatal, mall2, err2, more) = exec_steps vx robotID (Suc n) sts (case started of None \<Rightarrow> mall | Some i \<Rightarrow> i) err1
          in (fatal, mall2, err2, calls @ more))"

definition setup_calls :: "ValidationContext \<Rightarrow> string \<Rightarrow> ValFailure option \<Rightarrow> val_call list" where
  "setup_calls vx robotID failure =
     (if vx_sim vx \<noteq> None
      then CallReset robotID # (case failure of None \<Rightarrow> [] | Some f \<Rightarrow> [CallInject robotID (sim_failure f)]) else [])
     @ (if vx_events vx \<noteq> None then [CallClearEvents] else []) @ (if vx_telemetry vx \<noteq> None then [CallClearTelemetry] else [])"

definition assertion_context :: "ValidationContext \<Rightarrow> string \<Rightarrow> string \<Rightarrow> AssertionContext" where
  "assertion_context vx robotID mall =
     (let tasks = (case vx_tasks vx of None \<Rightarrow> [] | Some listing \<Rightarrow> listing robotID) in
      \<lparr>ac_RobotID = robotID,
       ac_Events = (case vx_events vx of None \<Rightarrow> [] | Some es \<Rightarrow> es),
       ac_TelemetrySamples = (case vx_telemetry vx of None \<Rightarrow> [] | Some tel \<Rightarrow> TelemetryToSamples tel),
       ac_Tasks = tasks,
       ac_FinalRobotState = (case vx_states vx of None \<Rightarrow> None | Some get \<Rightarrow> get robotID),
       ac_SimRobotState = (case vx_sim vx of None \<Rightarrow> None | Some sim \<Rightarrow> sa_GetState sim robotID),
       ac_MallAssistantTaskID = mall,
       ac_NavigateTaskIDs = map vt_ID (filter (\<lambda>t. vt_ScenarioID t = ''navigate_to_store'') tasks)\<rparr>)"

definition RunContractCheck :: "Robot option \<Rightarrow> Telemetry option \<Rightarrow> Report \<Rightarrow> Report" where
  "RunContractCheck robot telemetry report =
     (if robot = None \<or> telemetry = None then report
      else report\<lparr>rp_ContractViolations := ValidateAdapterContract DefaultContractSpec robot telemetry\<rparr>)"

definition report_start :: "ValidationContext \<Rightarrow> ValScenario \<Rightarrow> Report" where
  "report_start vx sc = \<lparr>rp_ScenarioName = vsc_Name sc, rp_Status = ''FAIL'', rp_StartTime = vx_clock vx 0, rp_EndTime = 0,
     rp_DurationMs = 0, rp_AssertionsPassed = 0, rp_AssertionsFailed = 0, rp_FinalRobotState = [], rp_EmittedEvents = [],
     rp_Results = [], rp_Error = [], rp_ContractViolations = []\<rparr>"

definition report_end :: "ValidationContext \<Rightarrow> Report \<Rightarrow> Report" where
  "report_end vx r = r\<lparr>rp_EndTime := vx_clock vx 1, rp_DurationMs := (vx_clock vx 2 - rp_StartTime r) div millisecond\<rparr>"

text \<open>The assertions, and the verdict.\<close>

definition judged :: "(real \<Rightarrow> real) \<Rightarrow> (real \<Rightarrow> string) \<Rightarrow> ValidationContext \<Rightarrow> ValScenario \<Rightarrow> string \<Rightarrow> string \<Rightarrow> string \<Rightarrow> Report" where
  "judged fl show_num vx sc robotID mall err =
     (let ac = assertion_context vx robotID mall;
          results = map (\<lambda>a. EvaluateAssertion fl show_num a ac) (vsc_Assertions sc);
          passed = length (filter vr_Passed results);
          failed = length (filter (\<lambda>r. \<not> vr_Passed r) results)
      in (report_end vx ((report_start vx sc)\<lparr>rp_Error := err, rp_EmittedEvents := ac_Events ac,
            rp_FinalRobotState := (case ac_FinalRobotState ac of None \<Rightarrow> [] | Some st \<Rightarrow> rs_State st), rp_Results := results,
            rp_AssertionsPassed := passed, rp_AssertionsFailed := failed\<rparr>))
         \<lparr>rp_Status := (if failed = 0 \<and> err = [] then ''PASS'' else ''FAIL'')\<rparr>)"

text \<open>
  The contract check takes the last telemetry, \<^verbatim>\<open>nil\<close> if there is none; without a collector the call on the \<^verbatim>\<open>nil\<close> interface
  panics, which is \<open>None\<close>.
\<close>

definition contract_checked :: "RunConfig \<Rightarrow> ValidationContext \<Rightarrow> string \<Rightarrow> Report \<Rightarrow> Report option" where
  "contract_checked cfg vx robotID report =
     (case (rg_ContractCheck cfg, vx_registry vx) of
        (True, Some get) \<Rightarrow> (case vx_telemetry vx of
            None \<Rightarrow> None
          | Some tel \<Rightarrow> Some (RunContractCheck (get robotID) (if tel = [] then None else last tel) report))
      | _ \<Rightarrow> Some report)"

definition scenario_robot :: "ValScenario \<Rightarrow> string" where
  "scenario_robot sc = or_default (vsc_RobotID sc) ''sim-001''"

definition reset_error :: "ValidationContext \<Rightarrow> string \<Rightarrow> string option" where
  "reset_error vx robotID = (case vx_sim vx of None \<Rightarrow> None | Some sim \<Rightarrow> sa_Reset sim robotID)"

definition RunScenario ::
  "(real \<Rightarrow> real) \<Rightarrow> (real \<Rightarrow> string) \<Rightarrow> RunConfig \<Rightarrow> ValidationContext \<Rightarrow> ValScenario \<Rightarrow> Report option \<times> val_call list" where
  "RunScenario fl show_num cfg vx sc =
     (let robotID = scenario_robot sc in
      case reset_error vx robotID of
        Some e \<Rightarrow> (Some (report_end vx ((report_start vx sc)\<lparr>rp_Error := ''reset failed: '' @ e\<rparr>)), [CallReset robotID])
      | None \<Rightarrow>
          let (fatal, mall, err, calls) = exec_steps vx robotID 0 (vsc_Steps sc) [] [];
              before = setup_calls vx robotID (vsc_FailureConfig sc) @ calls
          in case fatal of
               Some e \<Rightarrow> (Some (report_end vx ((report_start vx sc)\<lparr>rp_Error := e\<rparr>)), before)
             | None \<Rightarrow> (contract_checked cfg vx robotID (judged fl show_num vx sc robotID mall err), before @ [CallSleep (2 * second)]))"

definition exitCode :: "Report \<Rightarrow> int" where
  "exitCode r = (if rp_Status r \<noteq> ''PASS'' then 1 else if rp_ContractViolations r \<noteq> [] then 1 else 0)"

definition failed_reports :: "Report list \<Rightarrow> nat" where
  "failed_reports rs = length (filter (\<lambda>r. rp_Status r = ''FAIL'' \<or> rp_ContractViolations r \<noteq> []) rs)"

section \<open>The adapters of the executable\<close>

definition val_task :: "Task \<Rightarrow> ValTask" where
  "val_task t = \<lparr>vt_ID = k_ID t, vt_RobotID = k_RobotID t, vt_ScenarioID = k_ScenarioID t, vt_Status = status_string (k_Status t),
     vt_Payload = k_Payload t\<rparr>"

definition taskStoreAdapter_List :: "string list \<Rightarrow> task_store \<Rightarrow> string \<Rightarrow> ValTask list" where
  "taskStoreAdapter_List ks store robotID =
     map val_task (tasks_List ks \<lparr>lf_RobotID = robotID, lf_TenantID = [], lf_Status = []\<rparr> store)"

fun mode_string :: "SimMode \<Rightarrow> string" where
  "mode_string ModeIdle = ''idle''"
| "mode_string ModeNavigating = ''navigating''"
| "mode_string ModeArrived = ''arrived''"
| "mode_string ModeReturning = ''returning_to_base''"
| "mode_string ModeSafeStop = ''safe_stop''"
| "mode_string ModeError = ''error''"
| "mode_string ModeStand = ''stand''"
| "mode_string ModeWalk = ''walk''"

definition fmtPosition :: "Position \<Rightarrow> string" where
  "fmtPosition p = show_2f (po_X p) @ '','' @ show_2f (po_Y p) @ '',0''"

definition simRobotAdapter_GetState :: "sim_service \<Rightarrow> string \<Rightarrow> SimRobotState option" where
  "simRobotAdapter_GetState s robotID =
     (case sim_GetState robotID s of
        Inl e \<Rightarrow> None
      | Inr st \<Rightarrow> Some \<lparr>ss_RobotID = si_RobotID st, ss_Online = si_Online st, ss_Mode = mode_string (si_Mode st),
          ss_Position = fmtPosition (si_Position st), ss_DistanceToTarget = si_DistanceToTarget st\<rparr>)"

definition StartMallAssistant :: "time \<Rightarrow> string \<Rightarrow> string \<Rightarrow> string \<Rightarrow> string \<Rightarrow> task_store \<Rightarrow> string \<times> task_store" where
  "StartMallAssistant now uuid robotID tenantID operatorID s =
     (uuid, tasks_Create now \<lparr>k_ID = uuid, k_RobotID = robotID, k_TenantID = tenantID, k_Type = ''scenario'',
        k_ScenarioID = ''mall_assistant'', k_Payload = RawEmpty, k_Status = StatusPending, k_CreatedAt = 0, k_UpdatedAt = 0,
        k_CompletedAt = None, k_OperatorID = operatorID\<rparr> s)"

section \<open>Lemmas\<close>

text \<open>Whether a step starts the assistant and fails to.\<close>

definition start_fails :: "ValidationContext \<Rightarrow> nat \<Rightarrow> ValStep \<Rightarrow> bool" where
  "start_fails vx n st \<longleftrightarrow> vs_Action st = ''start_mall_assistant''
     \<and> (case vx_trigger vx of None \<Rightarrow> False | Some start \<Rightarrow> isl (start n))"

lemma exec_step_Inl: "(\<exists>e. snd (exec_step vx robotID n st) = Inl e) \<longleftrightarrow> start_fails vx n st"
  by (auto simp: exec_step_def start_fails_def Let_def split: option.split sum.split)

lemma exec_step_Cons:
  "exec_steps vx robotID n (st # sts) mall err =
     (let err1 = (if vx_expired vx n then ''scenario timeout'' else err); calls = fst (exec_step vx robotID n st) in
      case snd (exec_step vx robotID n st) of
        Inl e \<Rightarrow> (Some e, mall, err1, calls)
      | Inr started \<Rightarrow>
          let (fatal, mall2, err2, more) = exec_steps vx robotID (Suc n) sts (case started of None \<Rightarrow> mall | Some i \<Rightarrow> i) err1
          in (fatal, mall2, err2, calls @ more))"
  by (simp add: Let_def split_beta split: sum.split)

lemma all_less_Suc_nth: "(\<forall>k < Suc m. P k) \<longleftrightarrow> P 0 \<and> (\<forall>k < m. P (Suc k))"
  by (metis Suc_less_eq less_Suc_eq_0_disj zero_less_Suc)

text \<open>The steps end without an error that ends the run, exactly when no start fails; then the deadline is what is reported.\<close>

lemma exec_steps_fatal:
  "fst (exec_steps vx robotID n sts mall err) = None \<longleftrightarrow> (\<forall>k < length sts. \<not> start_fails vx (n + k) (sts ! k))"
proof (induction sts arbitrary: n mall err)
  case (Cons st sts)
  show ?case
  proof (cases "snd (exec_step vx robotID n st)")
    case (Inl e)
    then have "start_fails vx n st" using exec_step_Inl by blast
    with Inl show ?thesis unfolding exec_step_Cons by (auto simp: Let_def intro: exI [of _ 0])
  next
    case (Inr started)
    then have "\<not> start_fails vx n st" using exec_step_Inl [of vx robotID n st] by auto
    with Inr Cons.IH [of "Suc n"] show ?thesis
      unfolding exec_step_Cons by (simp add: Let_def split_beta all_less_Suc_nth)
  qed
qed simp

lemma exec_steps_error:
  "fst (exec_steps vx robotID n sts mall err) = None \<Longrightarrow>
     fst (snd (snd (exec_steps vx robotID n sts mall err))) = [] \<longleftrightarrow> err = [] \<and> (\<forall>k < length sts. \<not> vx_expired vx (n + k))"
proof (induction sts arbitrary: n mall err)
  case (Cons st sts)
  show ?case
  proof (cases "snd (exec_step vx robotID n st)")
    case (Inl e)
    with Cons.prems show ?thesis unfolding exec_step_Cons by (simp add: Let_def)
  next
    case (Inr started)
    with Cons.prems Cons.IH [of "Suc n"] show ?thesis
      unfolding exec_step_Cons by (simp add: Let_def split_beta all_less_Suc_nth)
  qed
qed simp

lemma exec_steps_expired:
  "fst (exec_steps (vx\<lparr>vx_expired := e\<rparr>) robotID n sts mall err') = fst (exec_steps vx robotID n sts mall err)
   \<and> snd (snd (snd (exec_steps (vx\<lparr>vx_expired := e\<rparr>) robotID n sts mall err'))) = snd (snd (snd (exec_steps vx robotID n sts mall err)))"
proof (induction sts arbitrary: n mall err err')
  case (Cons st sts)
  have eq: "exec_step (vx\<lparr>vx_expired := e\<rparr>) robotID n st = exec_step vx robotID n st"
    by (simp add: exec_step_def Let_def)
  show ?case
    unfolding exec_step_Cons eq using Cons.IH
    by (auto simp: Let_def split_beta split: sum.split)
qed simp

section \<open>Properties\<close>

text \<open>The verdict of a report.\<close>

lemma judged_status:
  "rp_Status (judged fl show_num vx sc robotID mall err) = ''PASS'' \<longleftrightarrow>
     err = [] \<and> (\<forall>a \<in> set (vsc_Assertions sc). vr_Passed (EvaluateAssertion fl show_num a (assertion_context vx robotID mall)))"
  by (auto simp: judged_def Let_def filter_empty_conv)

lemma contract_checked_status: "contract_checked cfg vx robotID r = Some r' \<Longrightarrow> rp_Status r' = rp_Status r"
  by (auto simp: contract_checked_def RunContractCheck_def split: bool.splits option.splits if_splits)

text \<open>
  C36. A scenario passes exactly when the robot could be reset, every start of the assistant succeeded, no step came after
  the deadline, and every assertion holds of what was observed.
\<close>

theorem RunScenario_verdict:
  fixes vx sc
  defines "robotID \<equiv> scenario_robot sc" and "steps \<equiv> vsc_Steps sc"
  assumes "fst (RunScenario fl show_num cfg vx sc) = Some report"
  shows "rp_Status report = ''PASS'' \<longleftrightarrow>
     reset_error vx robotID = None \<and> (\<forall>k < length steps. \<not> start_fails vx k (steps ! k)) \<and> (\<forall>k < length steps. \<not> vx_expired vx k)
     \<and> (\<forall>a \<in> set (vsc_Assertions sc). vr_Passed (EvaluateAssertion fl show_num a
          (assertion_context vx robotID (fst (snd (exec_steps vx robotID 0 steps [] []))))))"
proof -
  obtain fatal mall err calls where ex: "exec_steps vx robotID 0 steps [] [] = (fatal, mall, err, calls)" by (metis surj_pair)
  note run = assms(3)[unfolded RunScenario_def Let_def, folded robotID_def steps_def]
  show ?thesis
  proof (cases "reset_error vx robotID")
    case (Some e)
    with run show ?thesis by (auto simp: report_end_def report_start_def)
  next
    case no_err: None
    show ?thesis
    proof (cases fatal)
      case (Some e)
      with exec_steps_fatal [of vx robotID 0 steps "[]" "[]"] ex have "\<not> (\<forall>k < length steps. \<not> start_fails vx k (steps ! k))" by simp
      with run no_err ex Some show ?thesis by (auto simp: report_end_def report_start_def)
    next
      case None
      then have "contract_checked cfg vx robotID (judged fl show_num vx sc robotID mall err) = Some report"
        using run no_err ex by simp
      then have "rp_Status report = rp_Status (judged fl show_num vx sc robotID mall err)" by (rule contract_checked_status)
      moreover have "\<forall>k < length steps. \<not> start_fails vx k (steps ! k)"
        using exec_steps_fatal [of vx robotID 0 steps "[]" "[]"] ex None by simp
      moreover have "err = [] \<longleftrightarrow> (\<forall>k < length steps. \<not> vx_expired vx k)"
        using exec_steps_error [of vx robotID 0 steps "[]" "[]"] ex None by simp
      ultimately show ?thesis using no_err ex by (simp add: judged_status)
    qed
  qed
qed

definition quiet_context :: ValidationContext where
  "quiet_context = \<lparr>vx_sim = None, vx_trigger = None, vx_events = Some [], vx_telemetry = None, vx_tasks = None, vx_states = None,
     vx_registry = None, vx_expired = (\<lambda>n. n = 1), vx_clock = int\<rparr>"

definition two_waits :: ValScenario where
  "two_waits = \<lparr>vsc_Name = ''waits'', vsc_Description = [], vsc_RobotID = [], vsc_Preconditions = [],
     vsc_Steps = [\<lparr>vs_Action = ''wait'', vs_Text = [], vs_TimeoutSec = 0, vs_StoreName = []\<rparr>,
                  \<lparr>vs_Action = ''wait'', vs_Text = [], vs_TimeoutSec = 7, vs_StoreName = []\<rparr>],
     vsc_Assertions = [], vsc_FailureConfig = None\<rparr>"

theorem RunScenario_verdict_witness:
  "\<exists>report. fst (RunScenario (\<lambda>x. x) (\<lambda>_. []) \<lparr>rg_ContractCheck = False\<rparr> quiet_context two_waits) = Some report
     \<and> rp_Status report \<noteq> ''PASS''"
proof -
  obtain report where r: "fst (RunScenario (\<lambda>x. x) (\<lambda>_. []) \<lparr>rg_ContractCheck = False\<rparr> quiet_context two_waits) = Some report"
    by (simp add: RunScenario_def quiet_context_def two_waits_def reset_error_def exec_step_def contract_checked_def Let_def)
  have "vx_expired quiet_context 1" "1 < length (vsc_Steps two_waits)" by (simp_all add: quiet_context_def two_waits_def)
  with RunScenario_verdict [OF r] have "rp_Status report \<noteq> ''PASS''" by blast
  with r show ?thesis by blast
qed

text \<open>The deadline stops nothing: with it and without it the same calls are made, to the last step.\<close>

theorem deadline_stops_nothing:
  "snd (RunScenario fl show_num cfg (vx\<lparr>vx_expired := e\<rparr>) sc) = snd (RunScenario fl show_num cfg vx sc)"
proof -
  note x = exec_steps_expired [where vx = vx and e = e and robotID = "scenario_robot sc" and n = 0 and sts = "vsc_Steps sc"
      and mall = "[]" and err = "[]" and err' = "[]"]
  have r: "reset_error (vx\<lparr>vx_expired := e\<rparr>) i = reset_error vx i" for i by (simp add: reset_error_def)
  have s: "setup_calls (vx\<lparr>vx_expired := e\<rparr>) i f = setup_calls vx i f" for i f by (simp add: setup_calls_def)
  show ?thesis
    unfolding RunScenario_def Let_def r s using x by (auto simp: split_beta split: option.split)
qed

text \<open>The preconditions of a scenario are never looked at.\<close>

theorem preconditions_ignored:
  "RunScenario fl show_num cfg vx (sc\<lparr>vsc_Preconditions := ps\<rparr>) = RunScenario fl show_num cfg vx sc"
proof -
  have r: "scenario_robot (sc\<lparr>vsc_Preconditions := ps\<rparr>) = scenario_robot sc" by (simp add: scenario_robot_def)
  have s: "report_start vx (sc\<lparr>vsc_Preconditions := ps\<rparr>) = report_start vx sc" by (simp add: report_start_def)
  have j: "judged fl show_num vx (sc\<lparr>vsc_Preconditions := ps\<rparr>) i m err = judged fl show_num vx sc i m err" for i m err
    by (simp add: judged_def s Let_def)
  have f: "vsc_Steps (sc\<lparr>vsc_Preconditions := ps\<rparr>) = vsc_Steps sc"
    "vsc_FailureConfig (sc\<lparr>vsc_Preconditions := ps\<rparr>) = vsc_FailureConfig sc" by simp_all
  show ?thesis unfolding RunScenario_def r s j f ..
qed

text \<open>
  The failure of the scenario \<^verbatim>\<open>offline_before_task\<close> (\<^verbatim>\<open>after_ticks: 0\<close> and no other condition) never happens: no
  tick of the robot takes it offline.
\<close>

theorem offline_before_task_never:
  fixes r :: SimRobot
  defines "f \<equiv> sim_failure \<lparr>vf_Type = ''offline_mid_route'', vf_AfterTicks = 0, vf_WhenDistanceLt = 0, vf_AfterCommand = [],
     vf_BatteryLevel = 0, vf_SlowdownFactor = 0, vf_DurationTicks = 0\<rparr>"
  shows "si_Online (sr_state (fst (Tick fl now now' (r\<lparr>sr_failureConfig := Some f\<rparr>)))) = si_Online (sr_state r)
     \<and> sr_failureConfig (fst (Tick fl now now' (r\<lparr>sr_failureConfig := Some f\<rparr>))) = Some f"
proof -
  have "\<not> failure_triggered f st" for st by (simp add: f_def sim_failure_def failure_triggered_def)
  then show ?thesis by (simp add: Tick_def applyFailure_def sim_move_def Let_def)
qed

text \<open>
  The status of a task is checked on the first task the store happens to list: with two tasks of the same scenario the same
  assertion on the same store passes or fails with the order of the map.
\<close>

definition nav_task :: "string \<Rightarrow> Status \<Rightarrow> Task" where
  "nav_task i st = \<lparr>k_ID = i, k_RobotID = ''sim-001'', k_TenantID = [], k_Type = [], k_ScenarioID = ''navigate_to_store'',
     k_Payload = RawEmpty, k_Status = st, k_CreatedAt = 1, k_UpdatedAt = 1, k_CompletedAt = None, k_OperatorID = []\<rparr>"

theorem task_status_depends_on_order:
  fixes vx a
  defines "s \<equiv> [''a'' \<mapsto> nav_task ''a'' StatusCompleted, ''b'' \<mapsto> nav_task ''b'' StatusFailed]"
  defines "ctx ks \<equiv> assertion_context (vx\<lparr>vx_tasks := Some (taskStoreAdapter_List ks s)\<rparr>) ''sim-001'' []"
  defines "check \<equiv> a\<lparr>as_Type := AssertTaskStatus, as_ScenarioID := ''navigate_to_store'', as_Status := ''completed'', as_Negated := False\<rparr>"
  shows "go_range s [''a'', ''b''] \<and> vr_Passed (EvaluateAssertion fl show_num check (ctx [''a'', ''b'']))
     \<and> go_range s [''b'', ''a''] \<and> \<not> vr_Passed (EvaluateAssertion fl show_num check (ctx [''b'', ''a'']))"
proof -
  have l: "taskStoreAdapter_List [''a'', ''b''] s ''sim-001'' = [val_task (nav_task ''a'' StatusCompleted), val_task (nav_task ''b'' StatusFailed)]"
    "taskStoreAdapter_List [''b'', ''a''] s ''sim-001'' = [val_task (nav_task ''b'' StatusFailed), val_task (nav_task ''a'' StatusCompleted)]"
    by (simp_all add: taskStoreAdapter_List_def tasks_List_def s_def task_match_def nav_task_def)
  have c: "ToLower ''completed'' = ''completed''" "ToLower ''failed'' = ''failed''"
    by (simp_all add: ToLower_def lower_char_def)
  have "go_range s [''a'', ''b'']" "go_range s [''b'', ''a'']" by (auto simp: go_range_def s_def)
  then show ?thesis
    by (simp add: ctx_def check_def EvaluateAssertion_def dispatch_def assert_defs checkTaskStatus_def assertion_context_def l c
        val_task_def nav_task_def Let_def or_default_def)
qed

end
