(* ===== verification/Events.thy ===== *)
theory Events
  imports Robot_Engine "HOL-Library.Sublist"
begin

text \<open>
  The broadcaster of events to the clients of the event stream, \<^verbatim>\<open>pkg/control-plane/events/broadcaster.go\<close>. A
  subscriber is a buffered channel of Go: its contents and whether it is closed; channels are numbered as they are made. Sending
  to a closed channel and closing one again are panics, values of the model. What clients take out of their channel is recorded beside it.
\<close>

record Event =
  sse_Type :: string
  sse_Timestamp :: time
  sse_Data :: event_data

record broadcaster =
  bc_next :: nat
  bc_subs :: "nat set"
  bc_buf :: "nat \<Rightarrow> Event list"
  bc_closed :: "nat set"
  bc_got :: "nat \<Rightarrow> Event list" \<comment> \<open>what the client has taken\<close>

definition NewBroadcaster :: broadcaster where
  "NewBroadcaster = \<lparr>bc_next = 0, bc_subs = {}, bc_buf = (\<lambda>_. []), bc_closed = {}, bc_got = (\<lambda>_. [])\<rparr>"

text \<open>\<^verbatim>\<open>make(Subscriber, 32)\<close>.\<close>

definition Subscribe :: "broadcaster \<Rightarrow> nat \<times> broadcaster" where
  "Subscribe b = (bc_next b, b\<lparr>bc_next := Suc (bc_next b), bc_subs := insert (bc_next b) (bc_subs b)\<rparr>)"

definition Unsubscribe :: "nat \<Rightarrow> broadcaster \<Rightarrow> broadcaster option" where
  "Unsubscribe ch b =
     (let b1 = b\<lparr>bc_subs := bc_subs b - {ch}\<rparr>
      in if ch \<in> bc_closed b then None else Some (b1\<lparr>bc_closed := insert ch (bc_closed b)\<rparr>))"

text \<open>\<^verbatim>\<open>select { case ch <- e: default: }\<close>.\<close>

definition offer :: "Event \<Rightarrow> nat \<Rightarrow> broadcaster option \<Rightarrow> broadcaster option" where
  "offer e ch w =
     (case w of None \<Rightarrow> None
      | Some b \<Rightarrow> if ch \<in> bc_closed b then None
                  else if length (bc_buf b ch) < 32 then Some (b\<lparr>bc_buf := (bc_buf b)(ch := bc_buf b ch @ [e])\<rparr>)
                  else Some b)"

text \<open>The event of a broadcast; a nil map of data is made empty.\<close>

definition sent_event :: "time \<Rightarrow> string \<Rightarrow> event_data option \<Rightarrow> Event" where
  "sent_event now eventType data =
     \<lparr>sse_Type = eventType, sse_Timestamp = now, sse_Data = (case data of None \<Rightarrow> [] | Some d \<Rightarrow> d)\<rparr>"

text \<open>\<open>chs\<close> is the order in which the map of the subscribers is ranged over.\<close>

definition Broadcast :: "nat list \<Rightarrow> time \<Rightarrow> string \<Rightarrow> event_data option \<Rightarrow> broadcaster \<Rightarrow> broadcaster option" where
  "Broadcast chs now eventType data b =
     fold (offer (sent_event now eventType data)) chs (Some b)"

text \<open>A client takes the next event.\<close>

definition take_event :: "nat \<Rightarrow> broadcaster \<Rightarrow> broadcaster" where
  "take_event ch b =
     (case bc_buf b ch of [] \<Rightarrow> b
      | e # es \<Rightarrow> b\<lparr>bc_buf := (bc_buf b)(ch := es), bc_got := (bc_got b)(ch := bc_got b ch @ [e])\<rparr>)"

section \<open>Histories\<close>

datatype bc_op = OpSubscribe | OpUnsubscribe nat | OpBroadcast time string "event_data option" | OpTake nat

inductive bc_step :: "bc_op \<Rightarrow> broadcaster \<Rightarrow> broadcaster \<Rightarrow> bool" where
  subscribe: "bc_step OpSubscribe b (snd (Subscribe b))"
| unsubscribe: "ch \<in> bc_subs b \<Longrightarrow> Unsubscribe ch b = Some b' \<Longrightarrow> bc_step (OpUnsubscribe ch) b b'"
| broadcast: "set chs = bc_subs b \<Longrightarrow> distinct chs \<Longrightarrow> Broadcast chs now eventType data b = Some b'
    \<Longrightarrow> bc_step (OpBroadcast now eventType data) b b'"
| take: "bc_step (OpTake ch) b (take_event ch b)"

inductive bc_run :: "broadcaster \<Rightarrow> bc_op list \<Rightarrow> broadcaster \<Rightarrow> bool" where
  none: "bc_run b [] b"
| more: "bc_step x b b1 \<Longrightarrow> bc_run b1 xs b2 \<Longrightarrow> bc_run b (x # xs) b2"

inductive_cases bc_run_ConsE: "bc_run b (x # xs) b'"
inductive_cases bc_run_NilE: "bc_run b [] b'"
inductive_cases bc_subscribeE: "bc_step OpSubscribe b b'"
inductive_cases bc_unsubscribeE: "bc_step (OpUnsubscribe ch) b b'"
inductive_cases bc_broadcastE: "bc_step (OpBroadcast now eventType data) b b'"
inductive_cases bc_takeE: "bc_step (OpTake ch) b b'"

text \<open>Subscribers are open channels that were made; a channel not made yet is empty.\<close>

definition bc_wf :: "broadcaster \<Rightarrow> bool" where
  "bc_wf b \<longleftrightarrow> finite (bc_subs b) \<and> (\<forall>ch \<in> bc_subs b. ch < bc_next b) \<and> bc_subs b \<inter> bc_closed b = {}
     \<and> (\<forall>ch \<in> bc_closed b. ch < bc_next b)
     \<and> (\<forall>ch. bc_next b \<le> ch \<longrightarrow> bc_buf b ch = [] \<and> bc_got b ch = []) \<and> (\<forall>ch. length (bc_buf b ch) \<le> 32)"

lemma bc_wf_New: "bc_wf NewBroadcaster"
  by (simp add: bc_wf_def NewBroadcaster_def)

text \<open>Offering to open channels never panics, and touches the buffers only.\<close>

lemma offer_all:
  assumes "distinct chs" "set chs \<inter> bc_closed b = {}"
  shows "fold (offer e) chs (Some b) = Some (b\<lparr>bc_buf := (\<lambda>ch. if ch \<in> set chs \<and> length (bc_buf b ch) < 32
      then bc_buf b ch @ [e] else bc_buf b ch)\<rparr>)"
  using assms
proof (induction chs arbitrary: b)
  case Nil
  then show ?case by simp
next
  case (Cons c chs)
  let ?b1 = "if length (bc_buf b c) < 32 then b\<lparr>bc_buf := (bc_buf b)(c := bc_buf b c @ [e])\<rparr> else b"
  have o: "offer e c (Some b) = Some ?b1" using Cons.prems by (auto simp: offer_def)
  have "fold (offer e) chs (Some ?b1) = Some (?b1\<lparr>bc_buf := (\<lambda>ch. if ch \<in> set chs \<and> length (bc_buf ?b1 ch) < 32
      then bc_buf ?b1 ch @ [e] else bc_buf ?b1 ch)\<rparr>)"
    by (rule Cons.IH) (use Cons.prems in auto)
  moreover have "?b1\<lparr>bc_buf := (\<lambda>ch. if ch \<in> set chs \<and> length (bc_buf ?b1 ch) < 32 then bc_buf ?b1 ch @ [e] else bc_buf ?b1 ch)\<rparr> =
      b\<lparr>bc_buf := (\<lambda>ch. if ch \<in> set (c # chs) \<and> length (bc_buf b ch) < 32 then bc_buf b ch @ [e] else bc_buf b ch)\<rparr>"
    using Cons.prems by (cases b) (auto simp: fun_eq_iff)
  ultimately show ?case using o by (simp only: fold_simps)
qed

lemma Broadcast_wf:
  assumes "bc_wf b" "set chs = bc_subs b" "distinct chs"
  shows "Broadcast chs now eventType data b = Some (b\<lparr>bc_buf := (\<lambda>ch. if ch \<in> bc_subs b \<and> length (bc_buf b ch) < 32
      then bc_buf b ch @ [sent_event now eventType data] else bc_buf b ch)\<rparr>)"
  using offer_all [of chs b] assms by (simp add: Broadcast_def bc_wf_def)

lemma bc_step_wf: "bc_step x b b' \<Longrightarrow> bc_wf b \<Longrightarrow> bc_wf b'"
proof (induction rule: bc_step.induct)
  case (subscribe b)
  then show ?case by (auto simp: bc_wf_def Subscribe_def less_Suc_eq)
next
  case (unsubscribe ch b b')
  then show ?case by (auto simp: bc_wf_def Unsubscribe_def Let_def split: if_splits)
next
  case (broadcast chs b now eventType data b')
  with Broadcast_wf [OF broadcast.prems broadcast(1,2), of now eventType data]
  have "b' = b\<lparr>bc_buf := (\<lambda>ch. if ch \<in> bc_subs b \<and> length (bc_buf b ch) < 32
      then bc_buf b ch @ [sent_event now eventType data] else bc_buf b ch)\<rparr>" by simp
  with broadcast.prems show ?case by (auto simp: bc_wf_def)
next
  case (take ch b)
  then show ?case by (auto simp: bc_wf_def take_event_def split: list.split) (metis Suc_leD length_Cons)+
qed

lemma bc_run_wf: "bc_run b xs b' \<Longrightarrow> bc_wf b \<Longrightarrow> bc_wf b'"
  by (induction rule: bc_run.induct) (auto dest: bc_step_wf)

section \<open>The view of one subscriber\<close>

text \<open>What a subscriber has taken and still has before it, computed from the broadcasts and its own taking alone.\<close>

fun view :: "nat \<Rightarrow> bc_op \<Rightarrow> Event list \<times> Event list \<Rightarrow> Event list \<times> Event list" where
  "view ch (OpBroadcast now eventType data) (got, buf) =
     (got, if length buf < 32 then buf @ [sent_event now eventType data] else buf)"
| "view ch (OpTake c) (got, buf) = (if c = ch \<and> buf \<noteq> [] then (got @ [hd buf], tl buf) else (got, buf))"
| "view ch OpSubscribe gb = gb"
| "view ch (OpUnsubscribe c) gb = gb"

lemma bc_step_view:
  assumes "bc_step x b b'" "bc_wf b" "ch \<in> bc_subs b" "x \<noteq> OpUnsubscribe ch"
  shows "(bc_got b' ch, bc_buf b' ch) = view ch x (bc_got b ch, bc_buf b ch) \<and> ch \<in> bc_subs b'"
  using assms
proof (induction rule: bc_step.induct)
  case (broadcast chs b now eventType data b')
  with Broadcast_wf [OF broadcast(4,1,2), of now eventType data] show ?case by auto
qed (auto simp: Subscribe_def Unsubscribe_def take_event_def Let_def split: if_splits list.splits)

lemma bc_run_view:
  "bc_run b xs b' \<Longrightarrow> bc_wf b \<Longrightarrow> ch \<in> bc_subs b \<Longrightarrow> OpUnsubscribe ch \<notin> set xs
     \<Longrightarrow> (bc_got b' ch, bc_buf b' ch) = fold (view ch) xs (bc_got b ch, bc_buf b ch)"
proof (induction rule: bc_run.induct)
  case (more x b b1 xs b2)
  with bc_step_view [OF more(1), of ch] bc_step_wf [OF more(1)] show ?case by auto
qed simp

definition sent :: "bc_op list \<Rightarrow> Event list" where
  "sent xs = concat (map (\<lambda>x. case x of OpBroadcast now t d \<Rightarrow> [sent_event now t d] | _ \<Rightarrow> []) xs)"

text \<open>The subscriber always has room when something is broadcast.\<close>

fun keeps_up :: "nat \<Rightarrow> bc_op list \<Rightarrow> Event list \<times> Event list \<Rightarrow> bool" where
  "keeps_up ch [] gb = True"
| "keeps_up ch (x # xs) gb =
     ((case x of OpBroadcast _ _ _ \<Rightarrow> length (snd gb) < 32 | _ \<Rightarrow> True) \<and> keeps_up ch xs (view ch x gb))"

lemma view_subseq:
  "subseq (fst (fold (view ch) xs (got, buf)) @ snd (fold (view ch) xs (got, buf))) (got @ buf @ sent xs)"
proof (induction xs arbitrary: got buf)
  case (Cons x xs)
  obtain got1 buf1 where v: "view ch x (got, buf) = (got1, buf1)" by fastforce
  have "subseq (got1 @ buf1) (got @ buf @ sent [x])"
    using v by (cases x) (auto simp: sent_def split: if_splits)
  then have "subseq (got1 @ buf1 @ sent xs) (got @ buf @ sent (x # xs))"
    using list_emb_append_mono [of "(=)" "got1 @ buf1" "got @ buf @ sent [x]" "sent xs" "sent xs"] by (simp add: sent_def)
  with Cons.IH [of got1 buf1] v show ?case by (auto intro: subseq_order.trans)
qed (simp add: sent_def)

lemma view_complete:
  "keeps_up ch xs (got, buf) \<Longrightarrow>
     fst (fold (view ch) xs (got, buf)) @ snd (fold (view ch) xs (got, buf)) = got @ buf @ sent xs"
proof (induction xs arbitrary: got buf)
  case (Cons x xs)
  obtain got1 buf1 where v: "view ch x (got, buf) = (got1, buf1)" by fastforce
  have "got1 @ buf1 = got @ buf @ sent [x]"
    using v Cons.prems by (cases x) (auto simp: sent_def split: if_splits)
  with Cons.IH [of got1 buf1] Cons.prems v show ?case by (simp add: sent_def)
qed (simp add: sent_def)

section \<open>Properties\<close>

text \<open>
  Subscribers do not hinder each other: whatever happens after a client subscribed and before it unsubscribes, broadcasting never
  panics or blocks; what the client has taken and has waiting is determined by the broadcasts and its own taking, whatever the other clients do;
  it is a subsequence of the events broadcast since, all of them if the client was never 32 events behind, and never are more
  than 32 waiting.
\<close>

theorem subscriber_isolated:
  assumes "bc_run NewBroadcaster before b" "bc_run (snd (Subscribe b)) xs b'" "OpUnsubscribe (fst (Subscribe b)) \<notin> set xs"
  defines "ch \<equiv> fst (Subscribe b)"
  shows "(bc_got b' ch, bc_buf b' ch) = fold (view ch) xs ([], [])
    \<and> subseq (bc_got b' ch @ bc_buf b' ch) (sent xs) \<and> length (bc_buf b' ch) \<le> 32
    \<and> (keeps_up ch xs ([], []) \<longrightarrow> bc_got b' ch @ bc_buf b' ch = sent xs)
    \<and> (\<forall>chs now eventType data. set chs = bc_subs b' \<and> distinct chs \<longrightarrow> Broadcast chs now eventType data b' \<noteq> None)"
proof -
  have wf: "bc_wf b" using bc_run_wf [OF assms(1) bc_wf_New] .
  have wf1: "bc_wf (snd (Subscribe b))" by (rule bc_step_wf [OF bc_step.subscribe wf])
  have e: "bc_got (snd (Subscribe b)) ch = []" "bc_buf (snd (Subscribe b)) ch = []" "ch \<in> bc_subs (snd (Subscribe b))"
    using wf by (simp_all add: bc_wf_def Subscribe_def ch_def)
  have wf': "bc_wf b'" by (rule bc_run_wf [OF assms(2) wf1])
  have v: "(bc_got b' ch, bc_buf b' ch) = fold (view ch) xs ([], [])"
    using bc_run_view [OF assms(2) wf1 e(3)] assms(3) e by (simp add: ch_def)
  then have f: "bc_got b' ch = fst (fold (view ch) xs ([], []))" "bc_buf b' ch = snd (fold (view ch) xs ([], []))"
    by (metis fst_conv, metis snd_conv)
  from v view_subseq [of ch xs "[]" "[]"] view_complete [of ch xs "[]" "[]"] wf' show ?thesis
    unfolding f by (auto simp: bc_wf_def Broadcast_wf [OF wf'] simp flip: f)
qed

theorem subscriber_isolated_witness:
  "\<exists>b'. bc_run (snd (Subscribe NewBroadcaster)) [OpBroadcast 5 ''e'' None, OpTake 0] b' \<and> bc_got b' 0 = [sent_event 5 ''e'' None]"
proof -
  let ?b1 = "snd (Subscribe NewBroadcaster)" and ?xs = "[OpBroadcast 5 ''e'' None, OpTake 0]"
  have "bc_wf ?b1" by (rule bc_step_wf [OF bc_step.subscribe bc_wf_New])
  then obtain b2 where "Broadcast [0] 5 ''e'' None ?b1 = Some b2"
    using Broadcast_wf [of ?b1 "[0]"] by (auto simp: Subscribe_def NewBroadcaster_def)
  then have "bc_step (OpBroadcast 5 ''e'' None) ?b1 b2"
    by (intro bc_step.broadcast [of "[0]"]) (simp_all add: Subscribe_def NewBroadcaster_def)
  then have run: "bc_run ?b1 ?xs (take_event 0 b2)"
    by (intro bc_run.more [OF _ bc_run.more [OF bc_step.take bc_run.none]])
  have c: "fst (Subscribe NewBroadcaster) = 0" by (simp add: Subscribe_def NewBroadcaster_def)
  from subscriber_isolated [OF bc_run.none run] have "bc_got (take_event 0 b2) 0 = [sent_event 5 ''e'' None]"
    unfolding c by simp
  with run show ?thesis by blast
qed

end
