(* ===== verification/Sql_Tables.thy ===== *)
theory Sql_Tables
  imports Go_Json
begin

text \<open>
  What the SQL stores share. A table is the list of its rows. A statement may fail (the argument \<open>ok\<close>, the answer of
  the database); an insertion fails on a key that is taken. The rows of a query come in the order in which the
  database meets them, an argument \<open>rs\<close> with the same rows as the table; \<^verbatim>\<open>ORDER BY\<close> sorts them, so that rows
  with the same key may come in either order.

  The locale \<open>sql_table\<close> connects a table with the in-memory store of the same values: the map from keys to values,
  what the statements do to it, and that a query is a way to range over it.
\<close>

section \<open>Placeholders\<close>

fun ph_from :: "nat \<Rightarrow> string \<Rightarrow> string" where
  "ph_from n [] = []"
| "ph_from n (r # q) = (if r = CHR ''?'' then ''$'' @ show_nat n @ ph_from (n + 1) q else r # ph_from n q)"

definition ph :: "string \<Rightarrow> string \<Rightarrow> string" where
  "ph driver q = (if driver \<noteq> ''pgx'' then q else ph_from 1 q)"

text \<open>The placeholders of a query, each with the number of the argument PostgreSQL binds to it.\<close>

lemma ph_from_append:
  "ph_from n (a @ b) = ph_from n a @ ph_from (n + count_list a CHR ''?'') b"
  by (induction a arbitrary: n) simp_all

lemma ph_from_plain: "CHR ''?'' \<notin> set a \<Longrightarrow> ph_from n a = a"
  by (induction a arbitrary: n) auto

lemma count_list_zero: "c \<notin> set xs \<Longrightarrow> count_list xs c = 0"
  by (induction xs) auto

lemma ph_from_segments:
  "list_all (\<lambda>s. CHR ''?'' \<notin> set s) segs \<Longrightarrow>
   ph_from n (concat (map (\<lambda>s. s @ ''?'') segs)) =
     concat (map (\<lambda>(i, s). s @ ''$'' @ show_nat i) (zip [n ..< n + length segs] segs))"
proof (induction segs arbitrary: n)
  case (Cons s segs)
  have "[n ..< n + length (s # segs)] = n # [Suc n ..< Suc n + length segs]"
    by (simp add: upt_rec)
  with Cons show ?case
    by (simp add: ph_from_append ph_from_plain count_list_zero)
qed simp

text \<open>A query of \<open>k\<close> placeholders gets the numbers \<open>1\<close> to \<open>k\<close> in order, and nothing else of it changes.\<close>

lemma ph_pgx:
  assumes "list_all (\<lambda>s. CHR ''?'' \<notin> set s) segs" "CHR ''?'' \<notin> set rest"
  shows "ph ''pgx'' (concat (map (\<lambda>s. s @ ''?'') segs) @ rest) =
    concat (map (\<lambda>(i, s). s @ ''$'' @ show_nat i) (zip [1 ..< 1 + length segs] segs)) @ rest"
  using assms ph_from_segments [OF assms(1), of 1]
  by (simp add: ph_def ph_from_append ph_from_plain)

text \<open>A string column that may be \<^verbatim>\<open>NULL\<close>.\<close>

definition null_if_empty :: "string \<Rightarrow> string option" where
  "null_if_empty s = (if s = [] then None else Some s)"

definition null_string :: "string option \<Rightarrow> string" where
  "null_string c = (case c of None \<Rightarrow> [] | Some s \<Rightarrow> s)"

lemma null_string_if_empty [simp]: "null_string (null_if_empty s) = s"
  by (simp add: null_string_def null_if_empty_def)

definition COALESCE :: "string option \<Rightarrow> string \<Rightarrow> string" where
  "COALESCE c d = (case c of None \<Rightarrow> d | Some s \<Rightarrow> s)"

lemma COALESCE_simps [simp]: "COALESCE None d = d" "COALESCE (Some s) d = s"
  by (simp_all add: COALESCE_def)

text \<open>A list of strings as JSON text; an error of reading it is dropped.\<close>

definition marshal_strings :: "string list \<Rightarrow> raw_message" where
  "marshal_strings xs = RawJson (JArr (map JStr xs))"

definition read_strings :: "raw_message \<Rightarrow> string list" where
  "read_strings raw = (case raw of RawJson j \<Rightarrow> snd (decode_strings (\<lambda>v _. v) j []) | _ \<Rightarrow> [])"

lemma decode_elems_strings: "decode_elems (map JStr xs) = (True, xs)"
  by (induction xs) simp_all

lemma read_strings_marshal: "read_strings (marshal_strings xs) = xs"
  by (simp add: read_strings_def marshal_strings_def decode_elems_strings)

section \<open>Statements\<close>

type_synonym 'r table = "'r list"

datatype db_error = DbFailed | DbUnique

definition sql_insert :: "('r \<Rightarrow> 'k) \<Rightarrow> bool \<Rightarrow> 'r \<Rightarrow> 'r table \<Rightarrow> db_error + 'r table" where
  "sql_insert pk ok r t =
     (if \<not> ok then Inl DbFailed else if list_ex (\<lambda>r'. pk r' = pk r) t then Inl DbUnique else Inr (t @ [r]))"

text \<open>\<^verbatim>\<open>UPDATE\<close> and \<^verbatim>\<open>DELETE\<close>, with the number of rows affected.\<close>

definition sql_update :: "bool \<Rightarrow> ('r \<Rightarrow> bool) \<Rightarrow> ('r \<Rightarrow> 'r) \<Rightarrow> 'r table \<Rightarrow> db_error + nat \<times> 'r table" where
  "sql_update ok P f t =
     (if \<not> ok then Inl DbFailed else Inr (length (filter P t), map (\<lambda>r. if P r then f r else r) t))"

definition sql_delete :: "bool \<Rightarrow> ('r \<Rightarrow> bool) \<Rightarrow> 'r table \<Rightarrow> db_error + nat \<times> 'r table" where
  "sql_delete ok P t = (if \<not> ok then Inl DbFailed else Inr (length (filter P t), filter (\<lambda>r. \<not> P r) t))"

text \<open>\<^verbatim>\<open>QueryRow\<close>: the first row that matches, or \<^verbatim>\<open>sql.ErrNoRows\<close>.\<close>

definition sql_query_row :: "bool \<Rightarrow> ('r \<Rightarrow> bool) \<Rightarrow> 'r table \<Rightarrow> db_error + 'r option" where
  "sql_query_row ok P rs = (if \<not> ok then Inl DbFailed else Inr (find P rs))"

text \<open>The writes of the stores: an \<^verbatim>\<open>UPDATE\<close> or \<^verbatim>\<open>DELETE\<close> that affects no row is reported as not found.\<close>

datatype write_error = WriteFailed db_error | WriteNotFound

definition exec_affected :: "db_error + nat \<times> 'r table \<Rightarrow> write_error + 'r table" where
  "exec_affected res = (case res of
     Inl e \<Rightarrow> Inl (WriteFailed e)
   | Inr (n, t) \<Rightarrow> if n = 0 then Inl WriteNotFound else Inr t)"

text \<open>A failed statement leaves the table as it is.\<close>

definition put_or_keep :: "'t \<Rightarrow> 'e + 't \<Rightarrow> 't" where
  "put_or_keep old res = (case res of Inl _ \<Rightarrow> old | Inr new \<Rightarrow> new)"

lemma exec_affected_Inr: "exec_affected res = Inr t \<longleftrightarrow> (\<exists>n. res = Inr (n, t) \<and> n \<noteq> 0)"
  by (auto simp: exec_affected_def split: sum.split prod.split)

definition sql_scan :: "'r table \<Rightarrow> 'r list \<Rightarrow> bool" where
  "sql_scan t rs \<longleftrightarrow> mset rs = mset t"

definition order_asc :: "('r \<Rightarrow> 'k::linorder) \<Rightarrow> 'r list \<Rightarrow> 'r list" where
  "order_asc k rs = sort_key k rs"

definition order_desc :: "('r \<Rightarrow> int) \<Rightarrow> 'r list \<Rightarrow> 'r list" where
  "order_desc k rs = sort_key (\<lambda>r. - k r) rs"

lemma mset_order [simp]: "mset (order_asc k rs) = mset rs" "mset (order_desc h rs) = mset rs"
  by (simp_all add: order_asc_def order_desc_def)

lemma set_order [simp]: "set (order_asc k rs) = set rs" "set (order_desc h rs) = set rs"
  by (simp_all add: order_asc_def order_desc_def)

lemma length_order [simp]: "length (order_asc k rs) = length rs" "length (order_desc h rs) = length rs"
  by (simp_all add: order_asc_def order_desc_def)

lemma filter_order [simp]:
  "filter P (order_asc k rs) = order_asc k (filter P rs)" "filter P (order_desc h rs) = order_desc h (filter P rs)"
  by (simp_all add: order_asc_def order_desc_def filter_sort)

lemma order_desc_newest: "rs \<noteq> [] \<Longrightarrow> r \<in> set rs \<Longrightarrow> k r \<le> k (hd (order_desc k rs))"
proof -
  assume ne: "rs \<noteq> []" and r: "r \<in> set rs"
  have s: "sorted (map (\<lambda>r. - k r) (order_desc k rs))" by (simp add: order_desc_def)
  from ne obtain x xs where x: "order_desc k rs = x # xs"
    by (metis length_0_conv length_order(2) neq_Nil_conv)
  from r have "r \<in> set (order_desc k rs)" by simp
  with s x show ?thesis by auto
qed

lemma sql_scan_refl [simp]: "sql_scan t t"
  by (simp add: sql_scan_def)

lemma sql_scan_order [simp]: "sql_scan t (order_asc k rs) = sql_scan t rs" "sql_scan t (order_desc h rs) = sql_scan t rs"
  by (simp_all add: sql_scan_def)

lemma sql_scan_set: "sql_scan t rs \<Longrightarrow> set rs = set t"
  unfolding sql_scan_def by (rule mset_eq_setD)

lemma sql_scan_filter: "sql_scan t rs \<Longrightarrow> sql_scan (filter P t) (filter P rs)"
  by (simp add: sql_scan_def)

lemma sql_scan_distinct: "sql_scan t rs \<Longrightarrow> distinct (map f rs) = distinct (map f t)"
  unfolding sql_scan_def by (metis mset_map mset_eq_imp_distinct_iff)

text \<open>When no two rows have the same key, the order of a listing is determined.\<close>

lemma order_asc_sorted:
  fixes k :: "'r \<Rightarrow> 'o::linorder"
  assumes "sorted_wrt (\<lambda>r r'. k r < k r') t" "sql_scan t rs"
  shows "order_asc k rs = t"
proof -
  have "inj_on k (set rs)"
  proof (rule inj_onI)
    fix x y assume "x \<in> set rs" "y \<in> set rs" "k x = k y"
    with sql_scan_set [OF assms(2)] have x: "x \<in> set t" and y: "y \<in> set t" by auto
    then obtain i j where ij: "i < length t" "j < length t" "x = t ! i" "y = t ! j" by (auto simp: in_set_conv_nth)
    have "\<not> i < j" using sorted_wrt_nth_less [OF assms(1), of i j] ij \<open>k x = k y\<close> by auto
    moreover have "\<not> j < i" using sorted_wrt_nth_less [OF assms(1), of j i] ij \<open>k x = k y\<close> by auto
    ultimately have "i = j" by simp
    with ij show "x = y" by simp
  qed
  moreover have "sorted (map k t)"
    by (rule sorted_wrt_mono_rel [THEN sorted_wrt_map [THEN iffD2], OF _ assms(1)]) simp
  ultimately show ?thesis unfolding order_asc_def
    using assms(2) by (intro sort_key_inj_key_eq) (simp_all add: sql_scan_def)
qed

lemma order_desc_sorted:
  assumes "sorted_wrt (\<lambda>r r'. k r < k r') t" "sql_scan t rs"
  shows "order_desc k rs = rev t"
proof -
  have "sorted_wrt (\<lambda>r r'. - k r < - k r') (rev t)" using assms(1) by (simp add: sorted_wrt_rev)
  moreover have "sql_scan (rev t) rs" using assms(2) by (simp add: sql_scan_def)
  ultimately have "order_asc (\<lambda>r. - k r) rs = rev t" by (rule order_asc_sorted)
  then show ?thesis by (simp add: order_asc_def order_desc_def)
qed

section \<open>A table as a store\<close>

text \<open>
  \<open>pk\<close> is the primary key of a row and \<open>dec\<close> the value that \<^verbatim>\<open>Scan\<close> reads from it. The store of the table maps a key to
  the value of its row.
\<close>

definition tbl_map :: "('r \<Rightarrow> string) \<Rightarrow> ('r \<Rightarrow> 'v) \<Rightarrow> 'r table \<Rightarrow> 'v gomap" where
  "tbl_map pk dec t = (\<lambda>i. map_option dec (find (\<lambda>r. pk r = i) t))"

definition tbl_keys :: "('r \<Rightarrow> string) \<Rightarrow> 'r table \<Rightarrow> bool" where
  "tbl_keys pk t \<longleftrightarrow> distinct (map pk t)"

lemma find_Cons_key: "find (\<lambda>r. pk r = i) (r # t) = (if pk r = i then Some r else find (\<lambda>r. pk r = i) t)"
  by simp

lemma find_append: "find P (xs @ ys) = (case find P xs of None \<Rightarrow> find P ys | Some x \<Rightarrow> Some x)"
  by (induction xs) auto

lemma find_None_list_ex: "find P xs = None \<longleftrightarrow> \<not> list_ex P xs"
  by (induction xs) auto

locale sql_table =
  fixes pk :: "'r \<Rightarrow> string"
    and dec :: "'r \<Rightarrow> 'v"
    and key :: "'v \<Rightarrow> string"
  assumes key_dec: "key (dec r) = pk r"
begin

abbreviation store :: "'r table \<Rightarrow> 'v gomap" where
  "store \<equiv> tbl_map pk dec"

lemma store_Nil [simp]: "store [] = Map.empty"
  by (simp add: tbl_map_def fun_eq_iff)

lemma store_Cons [simp]: "store (r # t) = (store t)(pk r \<mapsto> dec r)"
  by (auto simp: tbl_map_def fun_eq_iff)

lemma store_None: "store t i = None \<longleftrightarrow> \<not> list_ex (\<lambda>r. pk r = i) t"
  by (simp add: tbl_map_def find_None_list_ex)

lemma store_key: "store t i = Some v \<Longrightarrow> key v = i"
  by (auto simp: tbl_map_def find_Some_iff key_dec)

lemma store_from: "store t i = Some v \<Longrightarrow> \<exists>r \<in> set t. pk r = i \<and> v = dec r"
  by (auto simp: tbl_map_def find_Some_iff)

lemma store_dom: "dom (store t) = set (map pk t)"
proof (induction t)
  case (Cons r t)
  have "dom (store (r # t)) = insert (pk r) (dom (store t))" by (simp only: store_Cons) simp
  with Cons show ?case by (simp only: list.map list.set)
qed simp

lemma store_append_new: "store t (pk r) = None \<Longrightarrow> store (t @ [r]) = (store t)(pk r \<mapsto> dec r)"
  by (induction t) (auto simp: fun_upd_twist split: if_splits)

lemma store_insert:
  "sql_insert pk ok r t = Inr t' \<Longrightarrow> store t (pk r) = None \<and> store t' = (store t)(pk r \<mapsto> dec r)"
  by (auto simp: sql_insert_def store_append_new store_None split: if_splits)

lemma keys_insert: "sql_insert pk ok r t = Inr t' \<Longrightarrow> tbl_keys pk t \<Longrightarrow> tbl_keys pk t'"
  by (fastforce simp: sql_insert_def tbl_keys_def list_ex_iff split: if_splits)

lemma store_update_at:
  assumes "\<And>r. pk (f r) = pk r"
  shows "store (map (\<lambda>r. if pk r = i then f r else r) t) j =
    (if j = i then map_option (dec \<circ> f) (find (\<lambda>r. pk r = i) t) else store t j)"
proof (induction t)
  case (Cons r t)
  then show ?case by (cases "pk r = i") (auto simp: assms comp_def)
qed (simp add: tbl_map_def)

lemma store_update:
  assumes "\<And>r. pk (f r) = pk r" "\<And>r. dec (f r) = g (dec r)"
  shows "store (map (\<lambda>r. if pk r = i then f r else r) t) j = (if j = i then map_option g (store t i) else store t j)"
  using store_update_at [of f i t j] assms by (simp add: tbl_map_def option.map_comp comp_def)

lemma store_replace:
  assumes "store t i \<noteq> None" "\<And>r. pk (f r) = pk r" "\<And>r. pk r = i \<Longrightarrow> dec (f r) = v"
  shows "store (map (\<lambda>r. if pk r = i then f r else r) t) = (store t)(i \<mapsto> v)"
proof (rule ext)
  fix j
  from assms(1) obtain r where r: "find (\<lambda>r. pk r = i) t = Some r" by (auto simp: tbl_map_def)
  then have "pk r = i" by (auto simp: find_Some_iff)
  with r assms(3) show "store (map (\<lambda>r. if pk r = i then f r else r) t) j = ((store t)(i \<mapsto> v)) j"
    by (simp add: store_update_at [OF assms(2)])
qed

lemma keys_update:
  assumes "\<And>r. pk (f r) = pk r"
  shows "tbl_keys pk (map (\<lambda>r. if P r then f r else r) t) = tbl_keys pk t"
proof -
  have "map pk (map (\<lambda>r. if P r then f r else r) t) = map pk t" by (simp add: assms)
  then show ?thesis by (simp add: tbl_keys_def del: map_map)
qed

lemma store_delete: "store (filter (\<lambda>r. pk r \<noteq> i) t) = (store t)(i := None)"
  by (induction t) (auto simp: fun_eq_iff)

lemma keys_delete: "tbl_keys pk t \<Longrightarrow> tbl_keys pk (filter P t)"
  by (simp add: tbl_keys_def distinct_map_filter)

lemma affected: "0 < length (filter (\<lambda>r. pk r = i) t) \<longleftrightarrow> store t i \<noteq> None"
  by (induction t) auto

lemma affected_none: "filter (\<lambda>r. pk r = i) t = [] \<longleftrightarrow> store t i = None"
  using affected [of i t] by auto

lemma tbl_keys_Cons [simp]: "tbl_keys pk (r # t) \<longleftrightarrow> pk r \<notin> pk ` set t \<and> tbl_keys pk t"
  by (simp add: tbl_keys_def)

lemma store_row: "tbl_keys pk t \<Longrightarrow> r \<in> set t \<Longrightarrow> store t (pk r) = Some (dec r)"
proof (induction t)
  case (Cons r' t)
  show ?case
  proof (cases "r = r'")
    case False
    with Cons.prems have m: "r \<in> set t" and "pk r' \<notin> pk ` set t" by simp_all
    then have "pk r \<noteq> pk r'" by (metis image_eqI)
    with m Cons show ?thesis by simp
  qed simp
qed simp

text \<open>A query in any order is a way of ranging over the store.\<close>

lemma scan_range: "tbl_keys pk t \<Longrightarrow> sql_scan t rs \<Longrightarrow> go_range (store t) (map pk rs)"
  by (auto simp: go_range_def tbl_keys_def sql_scan_distinct store_dom dest: sql_scan_set)

lemma scan_values: "tbl_keys pk t \<Longrightarrow> set rs \<subseteq> set t \<Longrightarrow> go_values (store t) (map pk rs) = map dec rs"
  by (induction rs) (auto simp: store_row)

lemma scan_listing:
  "tbl_keys pk t \<Longrightarrow> sql_scan t rs \<Longrightarrow> map dec rs = go_values (store t) (map pk rs)"
  by (simp add: scan_values sql_scan_set)

lemma scan_filtered:
  "tbl_keys pk t \<Longrightarrow> sql_scan t rs \<Longrightarrow> (\<And>r. r \<in> set t \<Longrightarrow> P r = Q (dec r)) \<Longrightarrow>
     map dec (filter P rs) = filter Q (go_values (store t) (map pk rs))"
proof -
  assume k: "tbl_keys pk t" and s: "sql_scan t rs" and PQ: "\<And>r. r \<in> set t \<Longrightarrow> P r = Q (dec r)"
  have "filter P rs = filter (Q \<circ> dec) rs" by (rule filter_cong [OF refl]) (simp add: PQ sql_scan_set [OF s])
  with k s show ?thesis by (simp add: scan_values sql_scan_set filter_map)
qed

lemma find_scan:
  assumes "tbl_keys pk t" "sql_scan t rs"
  shows "find (\<lambda>r. pk r = i) rs = find (\<lambda>r. pk r = i) t"
proof -
  have eq: "find (\<lambda>r. pk r = i) us = Some r" if "tbl_keys pk us" "r \<in> set us" "pk r = i" for us r
    using that
  proof (induction us)
    case (Cons u us)
    then show ?case by (cases "r = u") auto
  qed simp
  have k: "tbl_keys pk rs" using assms by (simp add: tbl_keys_def sql_scan_distinct)
  show ?thesis
  proof (cases "find (\<lambda>r. pk r = i) t")
    case None
    then have "find (\<lambda>r. pk r = i) rs = None" by (simp add: find_None_iff sql_scan_set [OF assms(2)])
    with None show ?thesis by (simp only:)
  next
    case (Some r)
    then have "r \<in> set t \<and> pk r = i" by (auto simp: find_Some_iff)
    with eq [OF k, of r] assms(2) Some show ?thesis by (simp add: sql_scan_set)
  qed
qed

end

end
