(* ===== verification/Tasks_Sql.thy ===== *)
theory Tasks_Sql
  imports Tasks Sql_Tables
begin

text \<open>
  The persistent task store, \<^verbatim>\<open>pkg/control-plane/tasks/sqlstore.go\<close>: the table \<^verbatim>\<open>tasks\<close> of the migrations 3 and 11. It
  refines the in-memory store: each statement does to the store of the table what the operation does, and the
  listing, newest first, is the in-memory listing for one order of ranging over the map. A write stamps the task as
  the in-memory store does; an empty tenant is written as \<^verbatim>\<open>default\<close>.
\<close>

record task_row =
  tq_id :: string
  tq_robot_id :: string
  tq_tenant_id :: "string option"
  tq_type :: string
  tq_scenario_id :: "string option"
  tq_payload :: raw_message
  tq_status :: Status
  tq_created_at :: time
  tq_updated_at :: time
  tq_completed_at :: "time option"
  tq_operator_id :: "string option"

definition row_of_task :: "Task \<Rightarrow> task_row" where
  "row_of_task t =
     \<lparr>tq_id = k_ID t, tq_robot_id = k_RobotID t,
      tq_tenant_id = Some (let tenantID = k_TenantID t in if tenantID = [] then ''default'' else tenantID),
      tq_type = k_Type t, tq_scenario_id = null_if_empty (k_ScenarioID t), tq_payload = k_Payload t,
      tq_status = k_Status t, tq_created_at = k_CreatedAt t, tq_updated_at = k_UpdatedAt t,
      tq_completed_at = k_CompletedAt t, tq_operator_id = null_if_empty (k_OperatorID t)\<rparr>"

definition task_of_row :: "task_row \<Rightarrow> Task" where
  "task_of_row r =
     \<lparr>k_ID = tq_id r, k_RobotID = tq_robot_id r, k_TenantID = COALESCE (tq_tenant_id r) ''default'',
      k_Type = tq_type r, k_ScenarioID = null_string (tq_scenario_id r), k_Payload = tq_payload r,
      k_Status = tq_status r, k_CreatedAt = tq_created_at r, k_UpdatedAt = tq_updated_at r,
      k_CompletedAt = tq_completed_at r, k_OperatorID = null_string (tq_operator_id r)\<rparr>"

definition sqltasks_Create :: "bool \<Rightarrow> time \<Rightarrow> Task \<Rightarrow> task_row table \<Rightarrow> db_error + task_row table" where
  "sqltasks_Create ok now t tbl = sql_insert tq_id ok (row_of_task (task_stamp now t)) tbl"

definition sqltasks_Get :: "bool \<Rightarrow> string \<Rightarrow> task_row table \<Rightarrow> db_error + Task option" where
  "sqltasks_Get ok i tbl = map_sum id (map_option task_of_row) (sql_query_row ok (\<lambda>r. tq_id r = i) tbl)"

definition task_where :: "ListFilters \<Rightarrow> task_row \<Rightarrow> bool" where
  "task_where f r \<longleftrightarrow>
     (lf_RobotID f \<noteq> [] \<longrightarrow> tq_robot_id r = lf_RobotID f)
     \<and> (lf_TenantID f \<noteq> [] \<longrightarrow> tq_tenant_id r = Some (lf_TenantID f))
     \<and> (lf_Status f \<noteq> [] \<longrightarrow> status_string (tq_status r) = lf_Status f)"

definition sqltasks_List :: "bool \<Rightarrow> ListFilters \<Rightarrow> task_row list \<Rightarrow> db_error + Task list" where
  "sqltasks_List ok f rs =
     (if \<not> ok then Inl DbFailed
      else Inr (map task_of_row (order_desc tq_created_at (filter (task_where f) rs))))"

definition sqltasks_UpdateStatus ::
  "bool \<Rightarrow> time \<Rightarrow> string \<Rightarrow> Status \<Rightarrow> task_row table \<Rightarrow> db_error + task_row table" where
  "sqltasks_UpdateStatus ok now i status tbl =
     map_sum id snd (sql_update ok (\<lambda>r. tq_id r = i) (\<lambda>r. r\<lparr>tq_status := status, tq_updated_at := now\<rparr>) tbl)"

definition sqltasks_UpdateStatusAndCompletedAt ::
  "bool \<Rightarrow> time \<Rightarrow> string \<Rightarrow> Status \<Rightarrow> time \<Rightarrow> task_row table \<Rightarrow> db_error + task_row table" where
  "sqltasks_UpdateStatusAndCompletedAt ok now i status completedAt tbl =
     map_sum id snd (sql_update ok (\<lambda>r. tq_id r = i)
       (\<lambda>r. r\<lparr>tq_status := status, tq_updated_at := now, tq_completed_at := Some completedAt\<rparr>) tbl)"

definition sqltasks_HasRunningForRobot :: "bool \<Rightarrow> string \<Rightarrow> task_row table \<Rightarrow> db_error + bool" where
  "sqltasks_HasRunningForRobot ok robotID tbl =
     (if \<not> ok then Inl DbFailed
      else let count = length (filter (\<lambda>r. tq_robot_id r = robotID \<and> tq_status r = StatusRunning) tbl)
           in Inr (count > 0))"

section \<open>Refinement of the in-memory store\<close>

interpretation tq: sql_table tq_id task_of_row k_ID
  by unfold_locales (simp add: task_of_row_def)

abbreviation task_store_of :: "task_row table \<Rightarrow> task_store" where
  "task_store_of \<equiv> tbl_map tq_id task_of_row"

definition written_task :: "Task \<Rightarrow> Task" where
  "written_task t = t\<lparr>k_TenantID := or_default (k_TenantID t) ''default''\<rparr>"

lemma task_roundtrip: "task_of_row (row_of_task t) = written_task t"
  by (simp add: task_of_row_def row_of_task_def written_task_def or_default_def)

lemma written_stamp: "written_task (task_stamp now t) = task_stamp now (written_task t)"
  by (simp add: written_task_def task_stamp_def Let_def)

lemma row_of_task_id [simp]: "tq_id (row_of_task t) = k_ID t"
  by (simp add: row_of_task_def)

lemma sqltasks_Create_store:
  "sqltasks_Create ok now t tbl = Inr tbl' \<Longrightarrow>
     task_store_of tbl (k_ID t) = None \<and> task_store_of tbl' = tasks_Create now (written_task t) (task_store_of tbl)"
  unfolding sqltasks_Create_def
  by (drule tq.store_insert) (simp add: tasks_Create_def task_roundtrip written_stamp, simp add: written_task_def)

lemma sqltasks_Create_taken:
  "task_store_of tbl (k_ID t) \<noteq> None \<Longrightarrow> sqltasks_Create True now t tbl = Inl DbUnique"
  by (simp add: sqltasks_Create_def sql_insert_def tq.store_None)

lemma sqltasks_Get_store: "sqltasks_Get True i tbl = Inr (tasks_Get (task_store_of tbl) i)"
  by (simp add: sqltasks_Get_def sql_query_row_def tasks_Get_def tbl_map_def)

lemma sqltasks_UpdateStatus_store:
  "sqltasks_UpdateStatus True now i st tbl = Inr tbl' \<Longrightarrow>
     task_store_of tbl' = tasks_UpdateStatus now i st (task_store_of tbl)"
proof (rule ext)
  fix j
  assume "sqltasks_UpdateStatus True now i st tbl = Inr tbl'"
  then have "tbl' = map (\<lambda>r. if tq_id r = i then r\<lparr>tq_status := st, tq_updated_at := now\<rparr> else r) tbl"
    by (simp add: sqltasks_UpdateStatus_def sql_update_def)
  then show "task_store_of tbl' j = tasks_UpdateStatus now i st (task_store_of tbl) j"
    by (simp add: tq.store_update [where g = "\<lambda>t. t\<lparr>k_Status := st, k_UpdatedAt := now\<rparr>"] task_of_row_def
        tasks_UpdateStatus_def split: option.split)
qed

lemma sqltasks_finish_store:
  "sqltasks_UpdateStatusAndCompletedAt True now i st c tbl = Inr tbl' \<Longrightarrow>
     task_store_of tbl' = tasks_UpdateStatusAndCompletedAt now i st c (task_store_of tbl)"
proof (rule ext)
  fix j
  assume "sqltasks_UpdateStatusAndCompletedAt True now i st c tbl = Inr tbl'"
  then have "tbl' = map (\<lambda>r. if tq_id r = i
      then r\<lparr>tq_status := st, tq_updated_at := now, tq_completed_at := Some c\<rparr> else r) tbl"
    by (simp add: sqltasks_UpdateStatusAndCompletedAt_def sql_update_def)
  then show "task_store_of tbl' j = tasks_UpdateStatusAndCompletedAt now i st c (task_store_of tbl) j"
    by (simp add: tq.store_update [where g = "\<lambda>t. t\<lparr>k_Status := st, k_UpdatedAt := now, k_CompletedAt := Some c\<rparr>"]
        task_of_row_def tasks_UpdateStatusAndCompletedAt_def split: option.split)
qed

text \<open>Every row has its tenant: \<^verbatim>\<open>Create\<close> never writes \<^verbatim>\<open>NULL\<close>, and the migration has a default.\<close>

definition tenants_filled :: "task_row table \<Rightarrow> bool" where
  "tenants_filled tbl \<longleftrightarrow> list_all (\<lambda>r. tq_tenant_id r \<noteq> None) tbl"

lemma task_where_match: "tq_tenant_id r \<noteq> None \<Longrightarrow> task_where f r = task_match f (task_of_row r)"
  by (auto simp: task_where_def task_match_def task_of_row_def)

lemma sqltasks_List_store:
  assumes "tbl_keys tq_id tbl" "tenants_filled tbl" "sql_scan tbl rs"
  defines "ks \<equiv> map tq_id (order_desc tq_created_at rs)"
  shows "go_range (task_store_of tbl) ks"
    and "sqltasks_List True f rs = Inr (tasks_List ks f (task_store_of tbl))"
proof -
  have s: "sql_scan tbl (order_desc tq_created_at rs)" using assms(3) by simp
  show "go_range (task_store_of tbl) ks" unfolding ks_def by (rule tq.scan_range [OF assms(1) s])
  have "map task_of_row (filter (task_where f) (order_desc tq_created_at rs)) =
      filter (task_match f) (go_values (task_store_of tbl) ks)"
    unfolding ks_def
    by (rule tq.scan_filtered [OF assms(1) s])
      (use assms(2) in \<open>auto simp: task_where_match tenants_filled_def list_all_iff\<close>)
  then show "sqltasks_List True f rs = Inr (tasks_List ks f (task_store_of tbl))"
    by (simp add: sqltasks_List_def tasks_List_def)
qed

lemma sqltasks_HasRunning_store:
  assumes "tbl_keys tq_id tbl"
  shows "sqltasks_HasRunningForRobot True r tbl = Inr (running_tasks (task_store_of tbl) r \<noteq> {})"
proof -
  have "(\<exists>w \<in> set tbl. tq_robot_id w = r \<and> tq_status w = StatusRunning) \<longleftrightarrow> running_tasks (task_store_of tbl) r \<noteq> {}"
  proof
    assume "\<exists>w \<in> set tbl. tq_robot_id w = r \<and> tq_status w = StatusRunning"
    then obtain w where w: "w \<in> set tbl" "tq_robot_id w = r" "tq_status w = StatusRunning" by blast
    from tq.store_row [OF assms w(1)] w(2,3) have "tq_id w \<in> running_tasks (task_store_of tbl) r"
      by (simp add: running_tasks_def task_of_row_def)
    then show "running_tasks (task_store_of tbl) r \<noteq> {}" by blast
  next
    assume "running_tasks (task_store_of tbl) r \<noteq> {}"
    then obtain i t where "task_store_of tbl i = Some t" "k_RobotID t = r" "k_Status t = StatusRunning"
      by (auto simp: running_tasks_def)
    then show "\<exists>w \<in> set tbl. tq_robot_id w = r \<and> tq_status w = StatusRunning"
      by (auto dest!: tq.store_from simp: task_of_row_def)
  qed
  then show ?thesis by (simp add: sqltasks_HasRunningForRobot_def filter_empty_conv)
qed

text \<open>The contract of \<^verbatim>\<open>tasks.Store\<close>, on the table.\<close>

lemma put_UpdateStatus:
  "task_store_of (put_or_keep tbl (sqltasks_UpdateStatus True now i st tbl)) =
     tasks_UpdateStatus now i st (task_store_of tbl)"
  using sqltasks_UpdateStatus_store [of now i st tbl]
  by (auto simp: put_or_keep_def sqltasks_UpdateStatus_def sql_update_def)

lemma put_finish:
  "task_store_of (put_or_keep tbl (sqltasks_UpdateStatusAndCompletedAt True now i st c tbl)) =
     tasks_UpdateStatusAndCompletedAt now i st c (task_store_of tbl)"
  using sqltasks_finish_store [of now i st c tbl]
  by (auto simp: put_or_keep_def sqltasks_UpdateStatusAndCompletedAt_def sql_update_def)

interpretation tqs: task_store_spec "\<lambda>tbl. tasks_Get (task_store_of tbl)"
  "\<lambda>now i st tbl. put_or_keep tbl (sqltasks_UpdateStatus True now i st tbl)"
  "\<lambda>now i st c tbl. put_or_keep tbl (sqltasks_UpdateStatusAndCompletedAt True now i st c tbl)"
  by unfold_locales (simp_all add: put_UpdateStatus put_finish ts.get_set_status ts.get_finish)

section \<open>Properties\<close>

lemma sqltasks_keys:
  "sqltasks_UpdateStatus ok now i st tbl = Inr tbl' \<Longrightarrow> tbl_keys tq_id tbl \<and> tenants_filled tbl
     \<Longrightarrow> tbl_keys tq_id tbl' \<and> tenants_filled tbl'"
  "sqltasks_UpdateStatusAndCompletedAt ok now i st c tbl = Inr tbl' \<Longrightarrow> tbl_keys tq_id tbl \<and> tenants_filled tbl
     \<Longrightarrow> tbl_keys tq_id tbl' \<and> tenants_filled tbl'"
  "sqltasks_Create ok now t tbl = Inr tbl' \<Longrightarrow> tbl_keys tq_id tbl \<and> tenants_filled tbl
     \<Longrightarrow> tbl_keys tq_id tbl' \<and> tenants_filled tbl'"
proof -
  show "sqltasks_UpdateStatus ok now i st tbl = Inr tbl' \<Longrightarrow> tbl_keys tq_id tbl \<and> tenants_filled tbl
     \<Longrightarrow> tbl_keys tq_id tbl' \<and> tenants_filled tbl'"
    by (auto simp: sqltasks_UpdateStatus_def sql_update_def tq.keys_update tenants_filled_def list_all_iff split: if_splits)
  show "sqltasks_UpdateStatusAndCompletedAt ok now i st c tbl = Inr tbl' \<Longrightarrow> tbl_keys tq_id tbl \<and> tenants_filled tbl
     \<Longrightarrow> tbl_keys tq_id tbl' \<and> tenants_filled tbl'"
    by (auto simp: sqltasks_UpdateStatusAndCompletedAt_def sql_update_def tq.keys_update tenants_filled_def list_all_iff
        split: if_splits)
  show "sqltasks_Create ok now t tbl = Inr tbl' \<Longrightarrow> tbl_keys tq_id tbl \<and> tenants_filled tbl
     \<Longrightarrow> tbl_keys tq_id tbl' \<and> tenants_filled tbl'"
    unfolding sqltasks_Create_def
    by (auto dest: tq.keys_insert) (auto simp: sql_insert_def tenants_filled_def row_of_task_def split: if_splits)
qed

text \<open>
  C37. The persistent task store refines the in-memory one: on a table with distinct identifiers, reading, both updates and the
  question for a running task are those of the map of its rows, a listing is the in-memory listing for one order of
  ranging over that map, a creation is the in-memory creation of the task with its tenant filled in when the identifier is new and
  refused when it is taken (the in-memory store overwrites), and every write keeps the identifiers distinct.
\<close>

theorem sql_task_store_refines:
  assumes "tbl_keys tq_id tbl" "tenants_filled tbl" "sql_scan tbl rs"
  defines "S \<equiv> tbl_map tq_id task_of_row"
  shows "sqltasks_Get True i tbl = Inr (tasks_Get (S tbl) i)
    \<and> (\<exists>ks. go_range (S tbl) ks \<and> sqltasks_List True f rs = Inr (tasks_List ks f (S tbl))
         \<and> sqltasks_HasRunningForRobot True r tbl = Inr (HasRunningForRobot ks r (S tbl)))
    \<and> (\<exists>t1. sqltasks_UpdateStatus True now i st tbl = Inr t1 \<and> S t1 = tasks_UpdateStatus now i st (S tbl)
         \<and> tbl_keys tq_id t1 \<and> tenants_filled t1)
    \<and> (\<exists>t2. sqltasks_UpdateStatusAndCompletedAt True now i st c tbl = Inr t2
         \<and> S t2 = tasks_UpdateStatusAndCompletedAt now i st c (S tbl) \<and> tbl_keys tq_id t2 \<and> tenants_filled t2)
    \<and> (case S tbl (k_ID t) of
         Some _ \<Rightarrow> sqltasks_Create True now t tbl = Inl DbUnique
       | None \<Rightarrow> \<exists>t3. sqltasks_Create True now t tbl = Inr t3
           \<and> S t3 = tasks_Create now (t\<lparr>k_TenantID := or_default (k_TenantID t) ''default''\<rparr>) (S tbl)
           \<and> tbl_keys tq_id t3 \<and> tenants_filled t3)"
proof (intro conjI)
  note wf = conjI [OF assms(1,2)]
  show "sqltasks_Get True i tbl = Inr (tasks_Get (S tbl) i)"
    unfolding S_def by (rule sqltasks_Get_store)
  have l: "go_range (S tbl) (map tq_id (order_desc tq_created_at rs))"
    "sqltasks_List True f rs = Inr (tasks_List (map tq_id (order_desc tq_created_at rs)) f (S tbl))"
    unfolding S_def by (rule sqltasks_List_store [OF assms(1-3)])+
  have "sqltasks_HasRunningForRobot True r tbl =
      Inr (HasRunningForRobot (map tq_id (order_desc tq_created_at rs)) r (S tbl))"
    using sqltasks_HasRunning_store [OF assms(1), of r] HasRunningForRobot_iff [OF l(1), of r] by (simp add: S_def)
  with l show "\<exists>ks. go_range (S tbl) ks \<and> sqltasks_List True f rs = Inr (tasks_List ks f (S tbl))
      \<and> sqltasks_HasRunningForRobot True r tbl = Inr (HasRunningForRobot ks r (S tbl))"
    by blast
  obtain t1 where t1: "sqltasks_UpdateStatus True now i st tbl = Inr t1"
    by (simp add: sqltasks_UpdateStatus_def sql_update_def)
  with sqltasks_UpdateStatus_store [OF t1] sqltasks_keys(1) [OF t1 wf]
  show "\<exists>t1. sqltasks_UpdateStatus True now i st tbl = Inr t1 \<and> S t1 = tasks_UpdateStatus now i st (S tbl)
      \<and> tbl_keys tq_id t1 \<and> tenants_filled t1" unfolding S_def by blast
  obtain t2 where t2: "sqltasks_UpdateStatusAndCompletedAt True now i st c tbl = Inr t2"
    by (simp add: sqltasks_UpdateStatusAndCompletedAt_def sql_update_def)
  with sqltasks_finish_store [OF t2] sqltasks_keys(2) [OF t2 wf]
  show "\<exists>t2. sqltasks_UpdateStatusAndCompletedAt True now i st c tbl = Inr t2
      \<and> S t2 = tasks_UpdateStatusAndCompletedAt now i st c (S tbl) \<and> tbl_keys tq_id t2 \<and> tenants_filled t2"
    unfolding S_def by blast
  show "case S tbl (k_ID t) of
         Some _ \<Rightarrow> sqltasks_Create True now t tbl = Inl DbUnique
       | None \<Rightarrow> \<exists>t3. sqltasks_Create True now t tbl = Inr t3
           \<and> S t3 = tasks_Create now (t\<lparr>k_TenantID := or_default (k_TenantID t) ''default''\<rparr>) (S tbl)
           \<and> tbl_keys tq_id t3 \<and> tenants_filled t3"
  proof (cases "S tbl (k_ID t)")
    case None
    then obtain t3 where t3: "sqltasks_Create True now t tbl = Inr t3"
      by (auto simp: S_def sqltasks_Create_def sql_insert_def tq.store_None)
    with sqltasks_Create_store [OF t3] sqltasks_keys(3) [OF t3 wf] None show ?thesis
      by (simp add: S_def written_task_def)
  qed (simp add: S_def sqltasks_Create_taken)
qed

theorem sql_task_store_refines_witness:
  "\<exists>r t3. tbl_keys tq_id [r] \<and> sqltasks_Create True 7 (task_of_row (r\<lparr>tq_id := ''t2''\<rparr>)) [r] = Inr t3
     \<and> tbl_map tq_id task_of_row t3 ''t2'' \<noteq> None"
proof -
  define r where "r = \<lparr>tq_id = ''t1'', tq_robot_id = ''r1'', tq_tenant_id = Some ''default'', tq_type = ''scenario'',
    tq_scenario_id = None, tq_payload = RawEmpty, tq_status = StatusPending, tq_created_at = 1, tq_updated_at = 1,
    tq_completed_at = None, tq_operator_id = None\<rparr>"
  let ?t = "task_of_row (r\<lparr>tq_id := ''t2''\<rparr>)"
  have h: "tbl_keys tq_id [r]" "tenants_filled [r]" "sql_scan [r] [r]"
    by (simp_all add: r_def tenants_filled_def tbl_keys_def)
  have id: "k_ID ?t = ''t2''" by (simp add: task_of_row_def)
  have n: "tbl_map tq_id task_of_row [r] ''t2'' = None" by (simp add: tbl_map_def r_def)
  from sql_task_store_refines [OF h, where t = ?t and now = 7]
  obtain t3 where "sqltasks_Create True 7 ?t [r] = Inr t3"
    "tbl_map tq_id task_of_row t3 = tasks_Create 7 (?t\<lparr>k_TenantID := or_default (k_TenantID ?t) ''default''\<rparr>)
       (tbl_map tq_id task_of_row [r])"
    unfolding id n option.case by blast
  with h(1) show ?thesis by (intro exI [of _ r] exI [of _ t3]) (simp add: tasks_Create_def id)
qed

end
