(* ===== verification/Runner_Sql.thy ===== *)
theory Runner_Sql
  imports Runner_Correct Tasks_Sql
begin

text \<open>
  The task runner on the persistent store. The runner takes the first task of the listing of the pending ones and
  gives the iteration up when its robot is busy or not registered. The SQL listing is newest first, always in the same order, so the
  newest pending task holds up all the others for as long as its robot is not free.
\<close>

text \<open>\<open>k\<close> ticks of \<^verbatim>\<open>Run\<close>; \<open>None\<close> while an iteration has not returned.\<close>

fun Run_ticks :: "RunnerConfig \<Rightarrow> runner_env \<Rightarrow> nat \<Rightarrow> world \<Rightarrow> world option" where
  "Run_ticks cfg env 0 w = Some w"
| "Run_ticks cfg env (Suc k) w = (case runOne cfg env w of None \<Rightarrow> None | Some w' \<Rightarrow> Run_ticks cfg env k w')"

lemma order_desc_single_max:
  assumes "nw \<in> set xs" "\<And>r. r \<in> set xs \<Longrightarrow> r \<noteq> nw \<Longrightarrow> f r < f nw"
  shows "hd (order_desc f xs) = nw"
proof (rule ccontr)
  assume h: "hd (order_desc f xs) \<noteq> nw"
  from assms(1) have ne: "xs \<noteq> []" by auto
  then have "order_desc f xs \<noteq> []" by (metis length_0_conv length_order(2))
  then have "hd (order_desc f xs) \<in> set xs" using set_order(2) [of f xs] hd_in_set by metis
  with assms(2) h have "f (hd (order_desc f xs)) < f nw" by blast
  moreover have "f nw \<le> f (hd (order_desc f xs))" by (rule order_desc_newest [OF ne assms(1)])
  ultimately show False by simp
qed

text \<open>The task the runner takes from the table: the newest pending one.\<close>

lemma sql_pending_head:
  assumes "tbl_keys tq_id tbl" "tenants_filled tbl" "sql_scan tbl rs"
    and "nw \<in> set tbl" "tq_status nw = StatusPending"
    and "\<And>r. r \<in> set tbl \<Longrightarrow> tq_status r = StatusPending \<Longrightarrow> r \<noteq> nw \<Longrightarrow> tq_created_at r < tq_created_at nw"
  defines "pending \<equiv> tasks_List (map tq_id (order_desc tq_created_at rs)) pending_filter (task_store_of tbl)"
  shows "pending \<noteq> [] \<and> hd pending = task_of_row nw"
proof -
  let ?P = "filter (task_where pending_filter) rs"
  have P: "task_where pending_filter r \<longleftrightarrow> tq_status r = StatusPending" for r
    using status_string_inj [of "tq_status r" StatusPending] by (auto simp: task_where_def pending_filter_def)
  have eq: "pending = map task_of_row (order_desc tq_created_at ?P)"
    using sqltasks_List_store(2) [OF assms(1-3), of pending_filter] by (simp add: sqltasks_List_def pending_def)
  have nw: "nw \<in> set ?P" using assms(4,5) by (simp add: P sql_scan_set [OF assms(3)])
  have ne: "order_desc tq_created_at ?P \<noteq> []"
    using nw by (metis empty_iff empty_set set_order(2))
  have "hd (order_desc tq_created_at ?P) = nw"
    by (rule order_desc_single_max [OF nw]) (use assms(6) in \<open>auto simp: P sql_scan_set [OF assms(3)]\<close>)
  with ne show ?thesis unfolding eq by (simp add: hd_map)
qed

lemma runOne_blocked:
  assumes calm: "\<And>n s. re_tasks env n s = s"
    and listing: "\<And>n. re_order env n (w_tasks w) = ks" "go_range (w_tasks w) ks"
    and head: "tasks_List ks pending_filter (w_tasks w) \<noteq> []"
      "k_RobotID (hd (tasks_List ks pending_filter (w_tasks w))) = rid"
    and busy: "running_tasks (w_tasks w) rid \<noteq> {} \<or> (\<forall>n. re_registry env n rid = None)"
  shows "\<exists>n. runOne cfg env w = Some (syncs env n w)"
proof -
  have t: "w_tasks (sync env v) = w_tasks v" for v by (simp add: calm)
  have h: "HasRunningForRobot ks rid (w_tasks w) \<longleftrightarrow> running_tasks (w_tasks w) rid \<noteq> {}"
    by (rule HasRunningForRobot_iff [OF listing(2)])
  have s: "syncs env 1 w = sync env w" "syncs env 2 w = sync env (sync env w)"
    "syncs env 3 w = sync env (sync env (sync env w))"
    by (simp_all add: syncs_def eval_nat_numeral)
  show ?thesis
    using busy unfolding runOne_def Let_def here_sync
    by (auto simp: t listing(1) head h simp del: sync_frames(6) intro: exI [of _ 1, unfolded s]
        exI [of _ 2, unfolded s] exI [of _ 3, unfolded s] s [symmetric])
qed

lemma syncs_calm: "(\<And>n s. re_tasks env n s = s) \<Longrightarrow> w_tasks (syncs env n w) = w_tasks w"
  by (induction n) (simp_all add: syncs_def)

lemma syncs_log [simp]: "w_log (syncs env n w) = w_log w"
  by (induction n) (simp_all add: syncs_def)

text \<open>
  C38. While nobody else writes the store, the newest pending task holds up every other one: as long as its robot is
  running a task, or is not registered, no number of ticks of the runner changes the store, publishes a command or
  reports anything, whatever other robots and tasks there are.
\<close>

theorem newest_pending_blocks:
  assumes calm: "\<And>n s. re_tasks env n s = s"
    and tbl: "tbl_keys tq_id tbl" "tenants_filled tbl" "task_store_of tbl = w_tasks w" "sql_scan tbl rs"
    and listing: "\<And>n. re_order env n (w_tasks w) = map tq_id (order_desc tq_created_at rs)"
    and newest: "nw \<in> set tbl" "tq_status nw = StatusPending"
      "\<And>r. r \<in> set tbl \<Longrightarrow> tq_status r = StatusPending \<Longrightarrow> r \<noteq> nw \<Longrightarrow> tq_created_at r < tq_created_at nw"
    and busy: "running_tasks (w_tasks w) (tq_robot_id nw) \<noteq> {} \<or> (\<forall>n. re_registry env n (tq_robot_id nw) = None)"
  shows "\<exists>w'. Run_ticks cfg env k w = Some w'
    \<and> w_tasks w' = w_tasks w \<and> w_bus w' = w_bus w \<and> w_zones w' = w_zones w \<and> w_log w' = w_log w"
  using tbl(3) listing busy
proof (induction k arbitrary: w)
  case (Suc k)
  have "task_store_of tbl = w_tasks w" by (rule Suc.prems(1))
  with sql_pending_head [OF tbl(1,2,4) newest]
  have head: "tasks_List (map tq_id (order_desc tq_created_at rs)) pending_filter (w_tasks w) \<noteq> []"
    "k_RobotID (hd (tasks_List (map tq_id (order_desc tq_created_at rs)) pending_filter (w_tasks w))) = tq_robot_id nw"
    by (simp_all add: task_of_row_def)
  have "go_range (w_tasks w) (map tq_id (order_desc tq_created_at rs))"
    using sqltasks_List_store(1) [OF tbl(1,2,4)] Suc.prems(1) by simp
  with runOne_blocked [OF calm Suc.prems(2) _ head Suc.prems(3)]
  obtain n where n: "runOne cfg env w = Some (syncs env n w)" by blast
  show ?case
    using Suc.IH [of "syncs env n w"] Suc.prems by (simp add: n syncs_calm [OF calm])
qed simp

definition sql_task :: "string \<Rightarrow> string \<Rightarrow> Status \<Rightarrow> time \<Rightarrow> task_row" where
  "sql_task i robot st created = row_of_task
     \<lparr>k_ID = i, k_RobotID = robot, k_TenantID = [], k_Type = ''scenario'', k_ScenarioID = ''standby'', k_Payload = RawEmpty,
      k_Status = st, k_CreatedAt = created, k_UpdatedAt = created, k_CompletedAt = None, k_OperatorID = []\<rparr>"

definition sql_rows :: "task_row table" where
  "sql_rows = [sql_task ''t1'' ''r1'' StatusRunning 1, sql_task ''t2'' ''r2'' StatusPending 2, sql_task ''t3'' ''r1'' StatusPending 3]"

definition sql_world :: world where
  "sql_world = \<lparr>w_now = 9, w_tick = 0, w_tasks = task_store_of sql_rows, w_zones = coordinator_NewStore, w_bus = [],
     w_log = [], w_ctxs = Map.empty, w_events = []\<rparr>"

definition sql_robot :: "string \<Rightarrow> Robot" where
  "sql_robot i = \<lparr>r_ID = i, r_Vendor = [], r_Model = [], r_AdapterEndpoint = [], r_TenantID = ''default'', r_EdgeID = [],
     r_Location = [], r_Capabilities = [CapStand], r_CreatedAt = 1, r_UpdatedAt = 1\<rparr>"

definition sql_env :: runner_env where
  "sql_env = \<lparr>re_delay = (\<lambda>n. 1), re_tasks = (\<lambda>n s. s), re_order = (\<lambda>n s. [''t3'', ''t2'', ''t1'']), re_fail = (\<lambda>n. False),
     re_done = (\<lambda>n. False), re_pub = (\<lambda>n. True), re_registry = (\<lambda>n i. Some (sql_robot i)), re_catalog = NewCatalog\<rparr>"

lemma sql_rows_ids: "map tq_id sql_rows = [''t1'', ''t2'', ''t3'']" "map tq_created_at sql_rows = [1, 2, 3]"
  by (simp_all add: sql_rows_def sql_task_def row_of_task_def)

theorem newest_pending_blocks_witness:
  "\<exists>w'. Run_ticks \<lparr>rn_coordinator = False, rn_mall = False, rn_engine = None, rn_onTaskCompleted = True, rn_onTaskStarted = True,
      rn_onZoneAcquired = False, rn_onZoneReleased = False\<rparr> sql_env 1000 sql_world = Some w'
    \<and> w_tasks w' = w_tasks sql_world \<and> w_bus w' = w_bus sql_world \<and> w_zones w' = w_zones sql_world \<and> w_log w' = w_log sql_world"
proof (rule newest_pending_blocks [where tbl = sql_rows and rs = sql_rows and nw = "sql_task ''t3'' ''r1'' StatusPending 3"])
  show "tbl_keys tq_id sql_rows" by (simp add: tbl_keys_def sql_rows_ids)
  show "tenants_filled sql_rows" by (simp add: tenants_filled_def sql_rows_def sql_task_def row_of_task_def)
  show "re_order sql_env n (w_tasks sql_world) = map tq_id (order_desc tq_created_at sql_rows)" for n
    by (simp add: sql_env_def order_desc_def sql_rows_def sql_task_def row_of_task_def)
  have "task_store_of sql_rows ''t1'' = Some (task_of_row (sql_task ''t1'' ''r1'' StatusRunning 1))"
    by (simp add: tbl_map_def sql_rows_def sql_task_def row_of_task_def)
  then have "''t1'' \<in> running_tasks (task_store_of sql_rows) ''r1''"
    by (simp add: running_tasks_def task_of_row_def sql_task_def row_of_task_def)
  then show "running_tasks (w_tasks sql_world) (tq_robot_id (sql_task ''t3'' ''r1'' StatusPending 3)) \<noteq> {}
      \<or> (\<forall>n. re_registry sql_env n (tq_robot_id (sql_task ''t3'' ''r1'' StatusPending 3)) = None)"
    by (auto simp: sql_world_def sql_task_def row_of_task_def)
qed (auto simp: sql_env_def sql_world_def sql_rows_def sql_task_def row_of_task_def)

end
