(* ===== verification/Scenarios_Sql.thy ===== *)
theory Scenarios_Sql
  imports Api_Tasks Runner_Correct Sql_Tables
begin

text \<open>
  The persistent scenarios, \<^verbatim>\<open>pkg/control-plane/scenarios/sqlstore.go\<close>: the table \<^verbatim>\<open>scenarios\<close> of the migration 13 (the columns
  the migration 18 adds belong to the marketplace), whose steps and capabilities are JSON text. The collation of the text
  columns is an argument \<open>col\<close>. An instant stands for its text in RFC 3339.

  A step without a payload is written as \<^verbatim>\<open>null\<close> and read back as the four characters of \<^verbatim>\<open>null\<close>, which the runner takes
  for a payload.
\<close>

record scenario_row =
  sq_id :: string
  sq_name :: string
  sq_description :: "string option"
  sq_steps :: raw_message
  sq_required_capabilities :: raw_message
  sq_tenant_id :: "string option"
  sq_created_at :: time
  sq_updated_at :: time

text \<open>\<^verbatim>\<open>json.Marshal\<close> of a step fails on a payload that is not JSON; the error is dropped, the text is then empty.\<close>

definition step_json :: "ScenarioStep \<Rightarrow> json option" where
  "step_json s = map_option (\<lambda>payload. JObj [(''command'', JStr (ss_Command s)), (''payload'', payload),
       (''duration_sec'', JInt (ss_DurationSec s))])
     (case ss_Payload s of RawEmpty \<Rightarrow> Some JNull | RawInvalid _ \<Rightarrow> None | RawJson j \<Rightarrow> Some j)"

definition marshal_steps :: "ScenarioStep list \<Rightarrow> raw_message" where
  "marshal_steps steps = (case those (map step_json steps) of None \<Rightarrow> RawEmpty | Some js \<Rightarrow> RawJson (JArr js))"

text \<open>\<^verbatim>\<open>_ = json.Unmarshal(text, &xs)\<close> into an empty slice.\<close>

definition read_steps :: "raw_message \<Rightarrow> ScenarioStep list" where
  "read_steps raw = (case raw of RawJson j \<Rightarrow> snd (decode_steps (\<lambda>v _. v) j []) | _ \<Rightarrow> [])"

definition scenario_of_row :: "scenario_row \<Rightarrow> Scenario" where
  "scenario_of_row r =
     \<lparr>sc_ID = sq_id r, sc_Name = sq_name r, sc_Description = null_string (sq_description r),
      sc_Steps = read_steps (sq_steps r), sc_RequiredCapabilities = read_strings (sq_required_capabilities r)\<rparr>"

definition sqlscen_listWithTenant ::
  "bool \<Rightarrow> (string \<Rightarrow> 'o::linorder) \<Rightarrow> string \<Rightarrow> scenario_row list \<Rightarrow> db_error + Scenario list" where
  "sqlscen_listWithTenant ok col tenantID rs =
     (if \<not> ok then Inl DbFailed
      else Inr (map scenario_of_row (order_asc (\<lambda>r. col (sq_id r))
             (filter (\<lambda>r. tenantID \<noteq> [] \<longrightarrow> sq_tenant_id r = None \<or> sq_tenant_id r = Some tenantID) rs))))"

definition sqlscen_List :: "bool \<Rightarrow> (string \<Rightarrow> 'o::linorder) \<Rightarrow> scenario_row list \<Rightarrow> db_error + Scenario list" where
  "sqlscen_List ok col rs = sqlscen_listWithTenant ok col [] rs"

definition sqlscen_ListByTenant ::
  "bool \<Rightarrow> (string \<Rightarrow> 'o::linorder) \<Rightarrow> string \<Rightarrow> scenario_row list \<Rightarrow> db_error + Scenario list" where
  "sqlscen_ListByTenant ok col tenantID rs = sqlscen_listWithTenant ok col tenantID rs"

definition sqlscen_getByTenant :: "bool \<Rightarrow> string \<Rightarrow> string \<Rightarrow> scenario_row table \<Rightarrow> db_error + Scenario option" where
  "sqlscen_getByTenant ok i tenantID tbl = map_sum id (map_option scenario_of_row)
     (sql_query_row ok (if tenantID \<noteq> []
        then (\<lambda>r. sq_id r = i \<and> (sq_tenant_id r = None \<or> sq_tenant_id r = Some tenantID))
        else (\<lambda>r. sq_id r = i)) tbl)"

definition sqlscen_Get :: "bool \<Rightarrow> string \<Rightarrow> scenario_row table \<Rightarrow> db_error + Scenario option" where
  "sqlscen_Get ok i tbl = sqlscen_getByTenant ok i [] tbl"

definition sqlscen_GetByTenant :: "bool \<Rightarrow> string \<Rightarrow> string \<Rightarrow> scenario_row table \<Rightarrow> db_error + Scenario option" where
  "sqlscen_GetByTenant ok i tenantID tbl = sqlscen_getByTenant ok i tenantID tbl"

definition sqlscen_Create :: "bool \<Rightarrow> time \<Rightarrow> Scenario \<Rightarrow> scenario_row table \<Rightarrow> db_error + scenario_row table" where
  "sqlscen_Create ok now sc tbl = sql_insert sq_id ok
     \<lparr>sq_id = sc_ID sc, sq_name = sc_Name sc, sq_description = null_if_empty (sc_Description sc),
      sq_steps = marshal_steps (sc_Steps sc), sq_required_capabilities = marshal_strings (sc_RequiredCapabilities sc),
      sq_tenant_id = None, sq_created_at = now, sq_updated_at = now\<rparr> tbl"

definition sqlscen_Update :: "bool \<Rightarrow> time \<Rightarrow> Scenario \<Rightarrow> scenario_row table \<Rightarrow> write_error + scenario_row table" where
  "sqlscen_Update ok now sc tbl = exec_affected (sql_update ok (\<lambda>r. sq_id r = sc_ID sc)
     (\<lambda>r. r\<lparr>sq_name := sc_Name sc, sq_description := null_if_empty (sc_Description sc),
        sq_steps := marshal_steps (sc_Steps sc), sq_required_capabilities := marshal_strings (sc_RequiredCapabilities sc),
        sq_updated_at := now\<rparr>) tbl)"

definition sqlscen_Delete :: "bool \<Rightarrow> string \<Rightarrow> scenario_row table \<Rightarrow> write_error + scenario_row table" where
  "sqlscen_Delete ok i tbl = exec_affected (sql_delete ok (\<lambda>r. sq_id r = i) tbl)"

section \<open>The round trip\<close>

text \<open>What a step is after it was stored.\<close>

definition stored_step :: "ScenarioStep \<Rightarrow> ScenarioStep" where
  "stored_step s = (if ss_Payload s = RawEmpty then s\<lparr>ss_Payload := RawJson JNull\<rparr> else s)"

definition stored_scenario :: "Scenario \<Rightarrow> Scenario" where
  "stored_scenario sc = sc\<lparr>sc_Steps := map stored_step (sc_Steps sc)\<rparr>"

text \<open>Values of Go: the payload is JSON or absent, the duration an \<^verbatim>\<open>int\<close>.\<close>

definition step_ok :: "ScenarioStep \<Rightarrow> bool" where
  "step_ok s \<longleftrightarrow> (case ss_Payload s of RawInvalid _ \<Rightarrow> False | _ \<Rightarrow> True)
     \<and> - (2 ^ 63) \<le> ss_DurationSec s \<and> ss_DurationSec s < 2 ^ 63"

lemma step_find_field [simp]:
  "find_field step_fields ''command'' = Some (decode_string (\<lambda>v q. q\<lparr>ss_Command := v\<rparr>))"
  "find_field step_fields ''payload'' = Some (decode_raw (\<lambda>v q. q\<lparr>ss_Payload := v\<rparr>))"
  "find_field step_fields ''duration_sec'' = Some (decode_int (\<lambda>v q. q\<lparr>ss_DurationSec := v\<rparr>))"
  by (simp_all add: find_field_def step_fields_def)

lemma step_roundtrip:
  assumes "step_ok s"
  shows "\<exists>j. step_json s = Some j \<and> unmarshal step_fields (RawJson j) step_zero = (True, stored_step s)"
  using assms
  by (cases "ss_Payload s")
    (auto simp: step_json_def step_ok_def decode_raw_def stored_step_def step_zero_def Let_def)

lemma steps_roundtrip:
  "list_all step_ok steps \<Longrightarrow> \<exists>js. those (map step_json steps) = Some js
     \<and> decode_step_list js = (True, map stored_step steps)"
proof (induction steps)
  case (Cons s steps)
  from Cons.prems have s: "step_ok s" by simp
  from step_roundtrip [OF s] obtain j where
    "step_json s = Some j" "unmarshal step_fields (RawJson j) step_zero = (True, stored_step s)" by blast
  with Cons show ?case by (auto simp del: unmarshal.simps)
qed simp

lemma read_steps_marshal: "list_all step_ok steps \<Longrightarrow> read_steps (marshal_steps steps) = map stored_step steps"
  using steps_roundtrip [of steps] by (auto simp: read_steps_def marshal_steps_def)

interpretation sq: sql_table sq_id scenario_of_row sc_ID
  by unfold_locales (simp add: scenario_of_row_def)

abbreviation scenario_store_of :: "scenario_row table \<Rightarrow> scenario_store" where
  "scenario_store_of \<equiv> tbl_map sq_id scenario_of_row"

lemma sqlscen_Get_store: "sqlscen_Get True i tbl = Inr (scenarios_Get (scenario_store_of tbl) i)"
  by (simp add: sqlscen_Get_def sqlscen_getByTenant_def sql_query_row_def scenarios_Get_def tbl_map_def)

lemma sqlscen_Create_store:
  assumes "list_all step_ok (sc_Steps sc)"
  shows "map_sum (\<lambda>e. ()) scenario_store_of (sqlscen_Create True now sc tbl) =
    map_sum (\<lambda>e. ()) id (scenarios_Create (stored_scenario sc) (scenario_store_of tbl))"
proof (cases "sqlscen_Create True now sc tbl")
  case (Inl e)
  then have "scenario_store_of tbl (sc_ID sc) \<noteq> None"
    by (auto simp: sqlscen_Create_def sql_insert_def sq.store_None split: if_splits)
  with Inl show ?thesis by (auto simp: scenarios_Create_def stored_scenario_def)
next
  case (Inr tbl')
  then have "scenario_store_of tbl (sc_ID sc) = None \<and> scenario_store_of tbl' =
      (scenario_store_of tbl)(sc_ID sc \<mapsto> stored_scenario sc)"
    unfolding sqlscen_Create_def
    by (auto dest!: sq.store_insert simp: scenario_of_row_def stored_scenario_def read_strings_marshal
        read_steps_marshal [OF assms])
  with Inr show ?thesis by (simp add: scenarios_Create_def stored_scenario_def)
qed

lemma sqlscen_Delete_store:
  "map_sum (\<lambda>e. ()) scenario_store_of (sqlscen_Delete True i tbl) =
     map_sum (\<lambda>e. ()) id (scenarios_Delete i (scenario_store_of tbl))"
  using sq.affected [of i tbl]
  by (auto simp: sqlscen_Delete_def exec_affected_def sql_delete_def scenarios_Delete_def sq.store_delete split: option.split)

lemma sqlscen_Update_store:
  assumes "list_all step_ok (sc_Steps sc)"
  shows "map_sum (\<lambda>e. ()) scenario_store_of (sqlscen_Update True now sc tbl) =
    map_sum (\<lambda>e. ()) id (scenarios_Update (stored_scenario sc) (scenario_store_of tbl))"
proof -
  let ?f = "\<lambda>r. r\<lparr>sq_name := sc_Name sc, sq_description := null_if_empty (sc_Description sc),
    sq_steps := marshal_steps (sc_Steps sc), sq_required_capabilities := marshal_strings (sc_RequiredCapabilities sc),
    sq_updated_at := now\<rparr>"
  let ?t = "map (\<lambda>r. if sq_id r = sc_ID sc then ?f r else r) tbl"
  have u: "sqlscen_Update True now sc tbl =
      (if scenario_store_of tbl (sc_ID sc) = None then Inl WriteNotFound else Inr ?t)"
    by (simp add: sq.affected_none sqlscen_Update_def exec_affected_def sql_update_def)
  have "scenario_store_of ?t = (scenario_store_of tbl)(sc_ID sc \<mapsto> stored_scenario sc)"
    if "scenario_store_of tbl (sc_ID sc) \<noteq> None"
    by (rule sq.store_replace [OF that])
      (simp_all add: scenario_of_row_def stored_scenario_def read_strings_marshal read_steps_marshal [OF assms])
  then show ?thesis by (auto simp: u scenarios_Update_def stored_scenario_def split: option.split)
qed

text \<open>
  A scenario that is created and read back is the one that was created, except that a step without a payload now has
  the payload \<^verbatim>\<open>null\<close>.
\<close>

theorem scenario_roundtrip:
  assumes "sqlscen_Create True now sc tbl = Inr tbl'" "list_all step_ok (sc_Steps sc)"
  shows "sqlscen_Get True (sc_ID sc) tbl' = Inr (Some (sc\<lparr>sc_Steps := map stored_step (sc_Steps sc)\<rparr>))
    \<and> (\<forall>i. i \<noteq> sc_ID sc \<longrightarrow> sqlscen_Get True i tbl' = sqlscen_Get True i tbl)"
  using sqlscen_Create_store [OF assms(2), of now tbl]
  by (auto simp: assms(1) sqlscen_Get_store scenarios_Create_def scenarios_Get_def stored_scenario_def split: option.splits)

theorem scenario_roundtrip_witness:
  "map_sum id (map_option (map ss_Payload \<circ> sc_Steps))
      (sqlscen_Get True ''navigation'' (put_or_keep [] (sqlscen_Create True 5 navigation_scenario []))) =
    Inr (Some [RawJson JNull, RawJson JNull])"
proof -
  obtain tbl' where c: "sqlscen_Create True 5 navigation_scenario [] = Inr tbl'"
    by (simp add: sqlscen_Create_def sql_insert_def)
  have "list_all step_ok (sc_Steps navigation_scenario)" by (simp add: navigation_scenario_def step_ok_def)
  from scenario_roundtrip [OF c this] c show ?thesis
    by (simp add: navigation_scenario_def put_or_keep_def stored_step_def)
qed

section \<open>What the runner publishes for a stored scenario\<close>

text \<open>Every command of a run is a step's, with the payload of that step, or the emergency stop.\<close>

definition sent_for :: "Task \<Rightarrow> taskPayload \<Rightarrow> ScenarioStep list \<Rightarrow> Command \<Rightarrow> bool" where
  "sent_for task p steps c \<longleftrightarrow> c_Command c = ''safe_stop''
     \<or> (\<exists>s \<in> set steps. c_Command c = ss_Command s \<and> c_Payload c = step_payload task p s)"

definition sends :: "(Command \<Rightarrow> bool) \<Rightarrow> world \<Rightarrow> world \<Rightarrow> bool" where
  "sends P w w' \<longleftrightarrow> (\<exists>cs. w_bus w' = w_bus w @ cs \<and> list_all P cs)"

lemma sends_same: "w_bus w' = w_bus w \<Longrightarrow> sends P w w'"
  unfolding sends_def by (rule exI [of _ "[]"]) simp

lemma sends_trans: "sends P w w1 \<Longrightarrow> sends P w1 w2 \<Longrightarrow> sends P w w2"
  unfolding sends_def by (elim exE conjE, rule_tac x = "cs @ csa" in exI) simp

lemma sends_mono: "sends P w w' \<Longrightarrow> (\<And>c. P c \<Longrightarrow> Q c) \<Longrightarrow> sends Q w w'"
  unfolding sends_def by (auto simp: list_all_iff)

lemma sends_publish: "P c \<Longrightarrow> sends P w (snd (publish env c w))"
  unfolding sends_def publish_def by (auto simp: Let_def PublishCommand_def intro: exI [of _ "[c]"] exI [of _ "[]"])

lemma safe_stop_sent: "sent_for task p steps (safe_stop_command now rid opr)"
  by (simp add: sent_for_def safe_stop_command_def)

lemma sends_cancel_exit: "sends (sent_for task p steps) w (cancel_exit cfg env task w)"
  unfolding cancel_exit_def sendSafeStop_publish
  by (rule sends_trans [OF sends_same sends_publish]) (simp_all add: safe_stop_sent)

lemma sends_hold_loop: "sends (sent_for task p steps) w (snd (hold_loop cfg env task deadline w))"
proof (induction w rule: hold_loop_induct [where env = env and task = task and deadline = deadline])
  case (1 w)
  have s: "sends (sent_for task p steps) w (sync env w)" "sends (sent_for task p steps) w (slept env w)"
    by (rule sends_same, simp add: slept_def)+
  show ?case
    using 1 sends_trans [OF s(1) sends_cancel_exit] sends_trans [OF s(2)]
    by (subst hold_loop_unfold) (auto intro: sends_same)
qed

lemma sends_hold: "sends (sent_for task p steps) w (snd (hold cfg env task d w))"
  by (simp add: hold_def sends_hold_loop sends_same)

lemma sends_run_steps:
  "set steps \<subseteq> set all \<Longrightarrow> sends (sent_for task p all) w (run_steps cfg env task p steps w)"
proof (induction steps arbitrary: w)
  case Nil
  show ?case by (rule sends_same) simp
next
  case (Cons s steps)
  let ?P = "sent_for task p all" and ?w1 = "sync env w" and ?c = "step_command (w_now (sync env w)) task p s"
  let ?w2 = "snd (publish env ?c ?w1)"
  have a: "sends ?P w ?w1" by (rule sends_same) simp
  have "?P ?c" using Cons.prems by (auto simp: sent_for_def step_command_def)
  then have b: "sends ?P w ?w2" by (rule sends_trans [OF a sends_publish])
  have c: "sends ?P w (cancel_exit cfg env task ?w1)" by (rule sends_trans [OF a sends_cancel_exit])
  have f: "sends ?P w (finish cfg env task st ?w1)" "sends ?P w (finish cfg env task st ?w2)" for st
    by (rule sends_trans [OF a sends_same], simp) (rule sends_trans [OF b sends_same], simp)
  have h: "sends ?P w (snd (hold cfg env task d ?w2))" for d by (rule sends_trans [OF b sends_hold])
  have "sends ?P w (run_steps cfg env task p steps (snd (hold cfg env task d ?w2)))" for d
    by (rule sends_trans [OF h Cons.IH]) (use Cons.prems in simp)
  with c f h show ?case unfolding run_steps_Cons Let_def by simp
qed

lemma sends_run_scenario:
  "sends (sent_for task p (sc_Steps sc)) w (run_scenario cfg env task p sc w)"
proof -
  have r: "sends P w (release_zone cfg task z v) = sends P w v" for P z v
    by (simp add: sends_def release_zone_def)
  have s: "sends (sent_for task p (sc_Steps sc)) w (run_steps cfg env task p (sc_Steps sc) v)"
    if "w_bus v = w_bus w" for v
    by (rule sends_trans [OF sends_same sends_run_steps]) (simp_all add: that)
  have f: "sends (sent_for task p (sc_Steps sc)) w (finish cfg env task StatusFailed w)"
    by (rule sends_same) simp
  show ?thesis unfolding run_scenario_def Let_def
    by (simp add: r s f split: prod.split)
qed

text \<open>
  C39. The parameters of a task do not reach a stored scenario: whatever scenario the table holds after it was created through the store, a
  run publishes each \<^verbatim>\<open>cmd_vel\<close> step that has no payload of its own with the payload \<^verbatim>\<open>null\<close>, and each velocity
  command of a run is one of the scenario's own payloads or \<^verbatim>\<open>null\<close>; the task's velocities are in none of them.
\<close>

theorem stored_scenario_ignores_task:
  assumes "sqlscen_Create True now sc tbl = Inr tbl'" "list_all step_ok (sc_Steps sc)"
  shows "\<exists>stored cs. sqlscen_Get True (sc_ID sc) tbl' = Inr (Some stored)
    \<and> w_bus (run_scenario cfg env task p stored w) = w_bus w @ cs
    \<and> list_all (\<lambda>c. c_Command c = ''safe_stop'' \<or>
         (\<exists>s \<in> set (sc_Steps sc). c_Command c = ss_Command s
            \<and> c_Payload c = (if ss_Payload s = RawEmpty then RawJson JNull else ss_Payload s))) cs"
proof -
  let ?st = "stored_scenario sc"
  have g: "sqlscen_Get True (sc_ID sc) tbl' = Inr (Some ?st)"
    using sqlscen_Create_store [OF assms(2), of now tbl]
    by (auto simp: assms(1) sqlscen_Get_store scenarios_Create_def scenarios_Get_def stored_scenario_def split: option.splits)
  have pl: "step_payload task p (stored_step s) = (if ss_Payload s = RawEmpty then RawJson JNull else ss_Payload s)" for s
    by (simp add: step_payload_def stored_step_def Let_def)
  have "sent_for task p (sc_Steps ?st) c \<Longrightarrow> c_Command c = ''safe_stop'' \<or>
         (\<exists>s \<in> set (sc_Steps sc). c_Command c = ss_Command s
            \<and> c_Payload c = (if ss_Payload s = RawEmpty then RawJson JNull else ss_Payload s))" for c
    unfolding sent_for_def by (auto simp: stored_scenario_def pl) (auto simp: stored_step_def)
  then have "sends (\<lambda>c. c_Command c = ''safe_stop'' \<or> (\<exists>s \<in> set (sc_Steps sc). c_Command c = ss_Command s
            \<and> c_Payload c = (if ss_Payload s = RawEmpty then RawJson JNull else ss_Payload s)))
      w (run_scenario cfg env task p ?st w)"
    by (rule sends_mono [OF sends_run_scenario])
  with g show ?thesis unfolding sends_def by blast
qed

text \<open>A navigation with velocities of its own, from the table and from memory.\<close>

definition velocity_task :: Task where
  "velocity_task = \<lparr>k_ID = ''t1'', k_RobotID = ''r1'', k_TenantID = ''default'', k_Type = ''scenario'', k_ScenarioID = ''navigation'',
     k_Payload = RawJson (JObj [(''linear_x'', JInt 1)]), k_Status = StatusRunning, k_CreatedAt = 1, k_UpdatedAt = 1,
     k_CompletedAt = None, k_OperatorID = ''op''\<rparr>"

lemma memory_scenario_uses_task:
  "map (step_payload velocity_task p) (sc_Steps navigation_scenario) = [RawEmpty, RawJson (JObj [(''linear_x'', JInt 1)])]"
  by (simp add: navigation_scenario_def step_payload_def velocity_task_def)

theorem stored_scenario_ignores_task_witness:
  "\<exists>stored cs. sqlscen_Get True ''navigation'' (put_or_keep [] (sqlscen_Create True 5 navigation_scenario [])) = Inr (Some stored)
    \<and> w_bus (run_scenario demo_cfg (demo_env (\<lambda>s. s)) velocity_task (task_payload velocity_task) stored demo_world)
        = w_bus demo_world @ cs
    \<and> list_all (\<lambda>c. c_Command c = ''safe_stop'' \<or> c_Payload c = RawJson JNull) cs"
proof -
  obtain tbl' where c: "sqlscen_Create True 5 navigation_scenario [] = Inr tbl'"
    by (simp add: sqlscen_Create_def sql_insert_def)
  have ok: "list_all step_ok (sc_Steps navigation_scenario)" by (simp add: navigation_scenario_def step_ok_def)
  from stored_scenario_ignores_task [OF c ok, of demo_cfg "demo_env (\<lambda>s. s)" velocity_task "task_payload velocity_task" demo_world]
  obtain stored cs where g: "sqlscen_Get True (sc_ID navigation_scenario) tbl' = Inr (Some stored)"
    and b: "w_bus (run_scenario demo_cfg (demo_env (\<lambda>s. s)) velocity_task (task_payload velocity_task) stored demo_world)
        = w_bus demo_world @ cs"
    and l: "list_all (\<lambda>c. c_Command c = ''safe_stop'' \<or>
         (\<exists>s \<in> set (sc_Steps navigation_scenario). c_Command c = ss_Command s
            \<and> c_Payload c = (if ss_Payload s = RawEmpty then RawJson JNull else ss_Payload s))) cs" by blast
  from l have "list_all (\<lambda>c. c_Command c = ''safe_stop'' \<or> c_Payload c = RawJson JNull) cs"
    by (rule list.pred_mono_strong) (auto simp: navigation_scenario_def)
  with g b c show ?thesis by (auto simp: put_or_keep_def navigation_scenario_def)
qed

end
