(* ===== verification/Edges_Sql.thy ===== *)
theory Edges_Sql
  imports Edge_Agent Sql_Tables
begin

text \<open>
  The persistent edge store, \<^verbatim>\<open>pkg/control-plane/edges/sqlstore.go\<close>: the tables \<^verbatim>\<open>edges\<close> and \<^verbatim>\<open>edge_commands\<close> of the
  migration 9. A fetch reads the pending commands of an edge and then marks them one statement at a time; \<open>acked\<close>
  says which of these statements the database carries out (their errors are dropped). Commands are JSON text; \<open>parse\<close> is
  \<^verbatim>\<open>time.Parse\<close>.
\<close>

record edge_row =
  er_id :: string
  er_last_heartbeat :: time
  er_config_json :: "string option"
  er_created_at :: time
  er_updated_at :: time

record edge_command_row =
  ec_id :: string
  ec_edge_id :: string
  ec_robot_id :: string
  ec_command_json :: raw_message
  ec_created_at :: time
  ec_acked_at :: "time option"

record edge_db =
  eb_edges :: "edge_row table"
  eb_cmds :: "edge_command_row table"

section \<open>The edges\<close>

text \<open>On a conflict only the instants of the heartbeat and of the update are written.\<close>

definition sqledges_UpsertEdge :: "bool \<Rightarrow> time \<Rightarrow> Edge \<Rightarrow> edge_db \<Rightarrow> db_error + edge_db" where
  "sqledges_UpsertEdge ok now e db =
     (let e1 = edge_stamp now e in
      if \<not> ok then Inl DbFailed
      else if list_ex (\<lambda>r. er_id r = e_ID e1) (eb_edges db)
        then Inr (db\<lparr>eb_edges := map (\<lambda>r. if er_id r = e_ID e1
               then r\<lparr>er_last_heartbeat := e_LastHeartbeat e1, er_updated_at := e_UpdatedAt e1\<rparr> else r) (eb_edges db)\<rparr>)
        else Inr (db\<lparr>eb_edges := eb_edges db @
               [\<lparr>er_id = e_ID e1, er_last_heartbeat = e_LastHeartbeat e1, er_config_json = Some (e_ConfigJSON e1),
                 er_created_at = e_CreatedAt e1, er_updated_at = e_UpdatedAt e1\<rparr>]\<rparr>))"

text \<open>A \<^verbatim>\<open>NULL\<close> cannot be scanned into a \<^verbatim>\<open>string\<close>.\<close>

definition edge_of_row :: "edge_row \<Rightarrow> Edge option" where
  "edge_of_row r = map_option (\<lambda>c. \<lparr>e_ID = er_id r, e_LastHeartbeat = er_last_heartbeat r, e_ConfigJSON = c,
     e_CreatedAt = er_created_at r, e_UpdatedAt = er_updated_at r\<rparr>) (er_config_json r)"

definition sqledges_GetEdge :: "bool \<Rightarrow> string \<Rightarrow> edge_db \<Rightarrow> db_error + Edge option" where
  "sqledges_GetEdge ok i db =
     (case sql_query_row ok (\<lambda>r. er_id r = i) (eb_edges db) of
        Inl e \<Rightarrow> Inl e
      | Inr None \<Rightarrow> Inr None
      | Inr (Some r) \<Rightarrow> (case edge_of_row r of None \<Rightarrow> Inl DbFailed | Some e \<Rightarrow> Inr (Some e)))"

definition sqledges_ListEdges :: "bool \<Rightarrow> (string \<Rightarrow> 'o::linorder) \<Rightarrow> edge_row list \<Rightarrow> db_error + Edge list" where
  "sqledges_ListEdges ok col rs =
     (if \<not> ok then Inl DbFailed
      else case those (map edge_of_row (order_asc (\<lambda>r. col (er_id r)) rs)) of
          None \<Rightarrow> Inl DbFailed | Some es \<Rightarrow> Inr es)"

section \<open>The queues\<close>

datatype enqueue_error = EnqMarshal | EnqDb db_error

definition sqledges_EnqueueCommand ::
  "bool \<Rightarrow> time \<Rightarrow> string \<Rightarrow> string \<Rightarrow> string \<Rightarrow> Command \<Rightarrow> edge_db \<Rightarrow> enqueue_error + edge_db" where
  "sqledges_EnqueueCommand ok now uuid edgeID robotID cmd db =
     (if \<not> marshal_ok cmd then Inl EnqMarshal
      else map_sum EnqDb (\<lambda>t. db\<lparr>eb_cmds := t\<rparr>) (sql_insert ec_id ok
        \<lparr>ec_id = uuid, ec_edge_id = edgeID, ec_robot_id = robotID, ec_command_json = RawJson (command_json cmd),
         ec_created_at = now, ec_acked_at = None\<rparr> (eb_cmds db)))"

definition pending_for :: "string \<Rightarrow> edge_command_row \<Rightarrow> bool" where
  "pending_for edgeID r \<longleftrightarrow> ec_edge_id r = edgeID \<and> ec_acked_at r = None"

text \<open>The commands of the rows; a text that does not decode is skipped.\<close>

definition row_command :: "(string \<Rightarrow> time option) \<Rightarrow> edge_command_row \<Rightarrow> Command option" where
  "row_command parse r =
     (case unmarshal (command_fields parse) (ec_command_json r) Command_zero of
        (True, c) \<Rightarrow> Some c | (False, _) \<Rightarrow> None)"

fun decode_rows :: "(string \<Rightarrow> time option) \<Rightarrow> edge_command_row list \<Rightarrow> (string \<times> Command) list" where
  "decode_rows parse [] = []"
| "decode_rows parse (r # rs) =
     (case row_command parse r of None \<Rightarrow> decode_rows parse rs | Some c \<Rightarrow> (ec_id r, c) # decode_rows parse rs)"

definition ack_row :: "(string \<Rightarrow> bool) \<Rightarrow> time \<Rightarrow> string \<Rightarrow> edge_command_row table \<Rightarrow> edge_command_row table" where
  "ack_row acked now i t =
     put_or_keep t (map_sum id snd (sql_update (acked i) (\<lambda>r. ec_id r = i) (\<lambda>r. r\<lparr>ec_acked_at := Some now\<rparr>) t))"

definition sqledges_FetchAndAck ::
  "bool \<Rightarrow> (string \<Rightarrow> bool) \<Rightarrow> (string \<Rightarrow> time option) \<Rightarrow> time \<Rightarrow> string \<Rightarrow> edge_command_row list \<Rightarrow> edge_db
    \<Rightarrow> db_error + Command list \<times> edge_db" where
  "sqledges_FetchAndAck ok acked parse now edgeID rs db =
     (if \<not> ok then Inl DbFailed
      else let got = decode_rows parse (order_asc ec_created_at (filter (pending_for edgeID) rs)) in
        Inr (map snd got, db\<lparr>eb_cmds := fold (ack_row acked now) (map fst got) (eb_cmds db)\<rparr>))"

section \<open>What a fetch does\<close>

lemma ack_row_map: "ack_row acked now i t = map (\<lambda>r. if ec_id r = i \<and> acked i then r\<lparr>ec_acked_at := Some now\<rparr> else r) t"
  by (simp add: ack_row_def put_or_keep_def sql_update_def)

lemma fold_ack_rows:
  "fold (ack_row acked now) is t = map (\<lambda>r. if ec_id r \<in> set is \<and> acked (ec_id r) then r\<lparr>ec_acked_at := Some now\<rparr> else r) t"
  by (induction "is" arbitrary: t) (auto simp: ack_row_map)

lemma decode_rows_fst: "set (map fst (decode_rows parse rs)) = ec_id ` {r \<in> set rs. row_command parse r \<noteq> None}"
  by (induction rs) (auto split: option.split)

lemma decode_rows_snd: "map snd (decode_rows parse rs) = List.map_filter (row_command parse) rs"
  by (induction rs) (auto simp: List.map_filter_simps split: option.split)

text \<open>Whether a fetch takes a row out of the queue.\<close>

definition taken :: "(string \<Rightarrow> bool) \<Rightarrow> (string \<Rightarrow> time option) \<Rightarrow> string \<Rightarrow> edge_command_row \<Rightarrow> bool" where
  "taken acked parse edgeID r \<longleftrightarrow> pending_for edgeID r \<and> row_command parse r \<noteq> None \<and> acked (ec_id r)"

lemma distinct_row: "distinct (map f t) \<Longrightarrow> r \<in> set t \<Longrightarrow> r' \<in> set t \<Longrightarrow> f r = f r' \<Longrightarrow> r = r'"
  by (simp add: distinct_map inj_on_def)

lemma fetch_rows:
  assumes "distinct (map ec_id (eb_cmds db))" "sql_scan (eb_cmds db) rs"
    and "sqledges_FetchAndAck True acked parse now e rs db = Inr (cmds, db')"
  shows "cmds = List.map_filter (row_command parse) (order_asc ec_created_at (filter (pending_for e) rs))"
    and "eb_cmds db' = map (\<lambda>r. if taken acked parse e r then r\<lparr>ec_acked_at := Some now\<rparr> else r) (eb_cmds db)"
    and "eb_edges db' = eb_edges db"
proof -
  let ?got = "decode_rows parse (order_asc ec_created_at (filter (pending_for e) rs))"
  have eq: "cmds = map snd ?got" "db' = db\<lparr>eb_cmds := fold (ack_row acked now) (map fst ?got) (eb_cmds db)\<rparr>"
    using assms(3) by (simp_all add: sqledges_FetchAndAck_def Let_def)
  show "cmds = List.map_filter (row_command parse) (order_asc ec_created_at (filter (pending_for e) rs))"
    by (simp add: eq(1) decode_rows_snd)
  show "eb_edges db' = eb_edges db" by (simp add: eq(2))
  have ids: "set (map fst ?got) = ec_id ` {r \<in> set (eb_cmds db). pending_for e r \<and> row_command parse r \<noteq> None}"
    unfolding decode_rows_fst by (auto simp: sql_scan_set [OF assms(2)])
  have "ec_id r \<in> set (map fst ?got) \<longleftrightarrow> pending_for e r \<and> row_command parse r \<noteq> None" if "r \<in> set (eb_cmds db)" for r
    unfolding ids using distinct_row [OF assms(1) that] that by blast
  then show "eb_cmds db' = map (\<lambda>r. if taken acked parse e r then r\<lparr>ec_acked_at := Some now\<rparr> else r) (eb_cmds db)"
    unfolding eq(2) by (simp add: fold_ack_rows taken_def del: set_map)
qed

section \<open>Refinement of the in-memory queues\<close>

definition pending_of_row :: "(string \<Rightarrow> time option) \<Rightarrow> edge_command_row \<Rightarrow> pendingCommand" where
  "pending_of_row parse r =
     \<lparr>pc_id = ec_id r, pc_edgeID = ec_edge_id r, pc_robotID = ec_robot_id r, pc_cmd = the (row_command parse r),
      pc_createdAt = ec_created_at r, pc_ackedAt = ec_acked_at r\<rparr>"

definition edges_of_db :: "(string \<Rightarrow> time option) \<Rightarrow> edge_db \<Rightarrow> edge_store" where
  "edges_of_db parse db =
     \<lparr>es_edges = (\<lambda>i. Option.bind (find (\<lambda>r. er_id r = i) (eb_edges db)) edge_of_row),
      es_cmds = map (pending_of_row parse) (eb_cmds db)\<rparr>"

text \<open>A table that only the store has written: identifiers differ, every command decodes, and no two share an instant.\<close>

definition queue_table :: "(string \<Rightarrow> time option) \<Rightarrow> edge_db \<Rightarrow> bool" where
  "queue_table parse db \<longleftrightarrow> distinct (map ec_id (eb_cmds db))
     \<and> list_all (\<lambda>r. row_command parse r \<noteq> None) (eb_cmds db)
     \<and> sorted_wrt (\<lambda>r r'. ec_created_at r < ec_created_at r') (eb_cmds db)"

lemma EnqueueCommand_queue_table:
  assumes "queue_table parse db" "sqledges_EnqueueCommand True now uuid e rid cmd db = Inr db'"
    and "parse (eventID (c_Timestamp cmd)) = Some (c_Timestamp cmd)"
    and "list_all (\<lambda>r. ec_created_at r < now) (eb_cmds db)"
  shows "queue_table parse db' \<and> edges_of_db parse db' = EnqueueCommand now uuid e rid cmd (edges_of_db parse db)"
proof -
  let ?r = "\<lparr>ec_id = uuid, ec_edge_id = e, ec_robot_id = rid, ec_command_json = RawJson (command_json cmd),
         ec_created_at = now, ec_acked_at = None\<rparr>"
  from assms(2) have m: "marshal_ok cmd" and new: "\<not> list_ex (\<lambda>r. ec_id r = uuid) (eb_cmds db)"
    and db': "db' = db\<lparr>eb_cmds := eb_cmds db @ [?r]\<rparr>"
    by (auto simp: sqledges_EnqueueCommand_def sql_insert_def split: if_splits)
  have d: "row_command parse ?r = Some cmd"
    by (simp add: row_command_def command_json_decode [where parse = parse, OF m assms(3)] del: unmarshal.simps)
  have "queue_table parse db'"
    using assms(1,4) new d by (auto simp: queue_table_def db' sorted_wrt_append list_all_iff list_ex_iff)
  moreover have "edges_of_db parse db' = EnqueueCommand now uuid e rid cmd (edges_of_db parse db)"
    using d by (simp add: edges_of_db_def db' EnqueueCommand_def pending_of_row_def)
  ultimately show ?thesis ..
qed

lemma map_filter_all: "list_all (\<lambda>r. f r \<noteq> None) xs \<Longrightarrow> List.map_filter f xs = map (\<lambda>r. the (f r)) xs"
  by (induction xs) (auto simp: List.map_filter_simps)

lemma fetch_and_ack_snd:
  "snd (fetch_and_ack now e ps) =
     map (\<lambda>p. if pc_edgeID p = e \<and> pc_ackedAt p = None then p\<lparr>pc_ackedAt := Some now\<rparr> else p) ps"
  by (induction ps) (auto simp: Let_def split: prod.splits)

text \<open>
  C40. The persistent queues deliver as the in-memory ones when every acknowledgement is recorded: on a table the store has
  written, with one instant per command, a fetch returns the commands the in-memory store returns, in the order of
  queueing, and leaves the table of the store it leaves.
\<close>

theorem sql_fetch_refines:
  assumes "queue_table parse db" "sql_scan (eb_cmds db) rs" "\<And>i. acked i"
  shows "\<exists>cmds db'. sqledges_FetchAndAck True acked parse now e rs db = Inr (cmds, db')
    \<and> FetchAndAckPendingCommands now e (edges_of_db parse db) = (cmds, edges_of_db parse db')
    \<and> queue_table parse db'"
proof -
  obtain cmds db' where f: "sqledges_FetchAndAck True acked parse now e rs db = Inr (cmds, db')"
    by (simp add: sqledges_FetchAndAck_def Let_def)
  from assms(1) have di: "distinct (map ec_id (eb_cmds db))" and de: "list_all (\<lambda>r. row_command parse r \<noteq> None) (eb_cmds db)"
    and so: "sorted_wrt (\<lambda>r r'. ec_created_at r < ec_created_at r') (eb_cmds db)" by (simp_all add: queue_table_def)
  note fr = fetch_rows [OF di assms(2) f]
  have "order_asc ec_created_at (filter (pending_for e) rs) = filter (pending_for e) (eb_cmds db)"
    using order_asc_sorted [OF sorted_wrt_filter [OF so] sql_scan_filter [OF assms(2)]] .
  with fr(1) have c: "cmds = map (\<lambda>r. the (row_command parse r)) (filter (pending_for e) (eb_cmds db))"
    using de by (simp add: map_filter_all list_all_iff)
  have t: "eb_cmds db' = map (\<lambda>r. if pending_for e r then r\<lparr>ec_acked_at := Some now\<rparr> else r) (eb_cmds db)"
    unfolding fr(2) using de assms(3) by (auto simp: taken_def list_all_iff)
  have rc: "row_command parse (r\<lparr>ec_acked_at := a\<rparr>) = row_command parse r" for r a
    by (simp add: row_command_def)
  have "edges_of_db parse db' = (edges_of_db parse db)\<lparr>es_cmds := snd (fetch_and_ack now e (es_cmds (edges_of_db parse db)))\<rparr>"
    by (simp add: edges_of_db_def fr(3) t fetch_and_ack_snd pending_of_row_def pending_for_def rc)
  moreover have "cmds = fst (fetch_and_ack now e (es_cmds (edges_of_db parse db)))"
    by (simp add: c fetch_and_ack_out edges_of_db_def filter_map comp_def pending_of_row_def pending_for_def [abs_def])
  moreover have "queue_table parse db'"
    using di de so unfolding queue_table_def t
    by (simp add: comp_def if_distrib rc list.pred_map sorted_wrt_map cong: if_cong)
  ultimately show ?thesis using f by (simp add: FetchAndAck_eq)
qed

definition stop_now :: Command where
  "stop_now = \<lparr>c_RobotID = ''r1'', c_Command = ''safe_stop'', c_Payload = RawEmpty, c_Timestamp = 5, c_OperatorID = ''op''\<rparr>"

definition stop_row :: "string \<Rightarrow> time \<Rightarrow> edge_command_row" where
  "stop_row i t = \<lparr>ec_id = i, ec_edge_id = ''e1'', ec_robot_id = ''r1'', ec_command_json = RawJson (command_json stop_now),
     ec_created_at = t, ec_acked_at = None\<rparr>"

definition stop_db :: edge_db where
  "stop_db = \<lparr>eb_edges = [], eb_cmds = [stop_row ''c1'' 5, stop_row ''c2'' 6]\<rparr>"

lemma stop_row_command: "row_command (\<lambda>s. Some 5) (stop_row i t) = Some stop_now"
proof -
  have "marshal_ok stop_now" by (simp add: marshal_ok_def stop_now_def)
  moreover have "(\<lambda>s. Some 5) (eventID (c_Timestamp stop_now)) = Some (c_Timestamp stop_now)" by (simp add: stop_now_def)
  ultimately have "unmarshal (command_fields (\<lambda>s. Some 5)) (RawJson (command_json stop_now)) Command_zero = (True, stop_now)"
    by (rule command_json_decode)
  then show ?thesis by (simp add: row_command_def stop_row_def del: unmarshal.simps)
qed

lemma stop_db_table: "queue_table (\<lambda>s. Some 5) stop_db"
  by (simp add: queue_table_def stop_db_def stop_row_command) (simp add: stop_row_def)

theorem sql_fetch_refines_witness:
  "\<exists>cmds db'. sqledges_FetchAndAck True (\<lambda>i. True) (\<lambda>s. Some 5) 9 ''e1'' (rev (eb_cmds stop_db)) stop_db = Inr (cmds, db')
    \<and> FetchAndAckPendingCommands 9 ''e1'' (edges_of_db (\<lambda>s. Some 5) stop_db) = (cmds, edges_of_db (\<lambda>s. Some 5) db')
    \<and> queue_table (\<lambda>s. Some 5) db'"
  by (rule sql_fetch_refines [OF stop_db_table]) (simp_all add: sql_scan_def)

section \<open>Acknowledgements that are lost\<close>

lemma mset_map_filter_order: "mset (List.map_filter f (order_asc k rs)) = mset (List.map_filter f rs)"
  by (simp add: List.map_filter_def)

lemma mset_map_filter_scan: "sql_scan t rs \<Longrightarrow> mset (List.map_filter f (filter P rs)) = mset (List.map_filter f (filter P t))"
  by (simp add: List.map_filter_def sql_scan_def)

lemma map_filter_taken:
  "List.map_filter (row_command parse) (filter (\<lambda>r. pending_for e r \<and> \<not> taken acked parse e r) t) =
     List.map_filter (row_command parse) (filter (\<lambda>r. pending_for e r \<and> \<not> acked (ec_id r)) t)"
  by (induction t) (auto simp: List.map_filter_simps taken_def split: option.split)

text \<open>
  A fetch hands over every pending command of the edge that decodes, and the next fetch hands over again exactly those whose
  acknowledgement was not recorded: the store delivers at least once, where the in-memory store delivers at most once.
  A row whose text does not decode is never delivered and stays pending.
\<close>

theorem sql_fetch_redelivers:
  assumes "distinct (map ec_id (eb_cmds db))" "sql_scan (eb_cmds db) rs"
    and "sqledges_FetchAndAck True acked parse now e rs db = Inr (cmds, db')" "sql_scan (eb_cmds db') rs'"
    and "sqledges_FetchAndAck True acked' parse now' e rs' db' = Inr (cmds', db'')"
  shows "mset cmds = mset (List.map_filter (row_command parse) (filter (pending_for e) (eb_cmds db)))
    \<and> mset cmds' = mset (List.map_filter (row_command parse)
         (filter (\<lambda>r. pending_for e r \<and> \<not> acked (ec_id r)) (eb_cmds db)))
    \<and> filter (\<lambda>r. pending_for e r \<and> row_command parse r = None) (eb_cmds db'') =
         filter (\<lambda>r. pending_for e r \<and> row_command parse r = None) (eb_cmds db)"
proof -
  note fr = fetch_rows [OF assms(1-3)]
  have rc: "row_command parse (r\<lparr>ec_acked_at := a\<rparr>) = row_command parse r" for r a
    by (simp add: row_command_def)
  have ids: "map ec_id (eb_cmds db') = map ec_id (eb_cmds db)" unfolding fr(2) by simp
  have di': "distinct (map ec_id (eb_cmds db'))" by (simp only: ids assms(1))
  note fr' = fetch_rows [OF di' assms(4,5)]
  have left: "filter P (map (\<lambda>r. if taken a parse e r then r\<lparr>ec_acked_at := Some n\<rparr> else r) t) =
      filter (\<lambda>r. P r \<and> \<not> taken a parse e r) t"
    if "\<And>r. P r \<Longrightarrow> pending_for e r" for P a n t
  proof -
    have "\<not> P (r\<lparr>ec_acked_at := Some n\<rparr>)" for r
      using that [of "r\<lparr>ec_acked_at := Some n\<rparr>"] by (auto simp: pending_for_def)
    then show ?thesis by (induction t) auto
  qed
  have p': "filter (pending_for e) (eb_cmds db') = filter (\<lambda>r. pending_for e r \<and> \<not> taken acked parse e r) (eb_cmds db)"
    unfolding fr(2) by (rule left)
  have c: "mset cmds = mset (List.map_filter (row_command parse) (filter (pending_for e) (eb_cmds db)))"
    unfolding fr(1) by (simp add: mset_map_filter_order mset_map_filter_scan [OF assms(2)])
  have "mset cmds' = mset (List.map_filter (row_command parse) (filter (pending_for e) (eb_cmds db')))"
    unfolding fr'(1) by (simp add: mset_map_filter_order mset_map_filter_scan [OF assms(4)])
  also have "List.map_filter (row_command parse) (filter (pending_for e) (eb_cmds db')) =
      List.map_filter (row_command parse) (filter (\<lambda>r. pending_for e r \<and> \<not> acked (ec_id r)) (eb_cmds db))"
    unfolding p' by (rule map_filter_taken)
  finally have c': "mset cmds' = mset (List.map_filter (row_command parse)
         (filter (\<lambda>r. pending_for e r \<and> \<not> acked (ec_id r)) (eb_cmds db)))" .
  have n: "filter (\<lambda>r. pending_for e r \<and> row_command parse r = None)
        (map (\<lambda>r. if taken a parse e r then r\<lparr>ec_acked_at := Some n\<rparr> else r) t) =
      filter (\<lambda>r. pending_for e r \<and> row_command parse r = None) t" for a n t
    by (induction t) (auto simp: taken_def rc)
  show ?thesis using c c' by (simp only: fr'(2) fr(2) n simp_thms)
qed

theorem sql_fetch_redelivers_witness:
  "\<exists>cmds cmds' db' db''. sqledges_FetchAndAck True (\<lambda>i. i = ''c1'') (\<lambda>s. Some 5) 9 ''e1'' (eb_cmds stop_db) stop_db = Inr (cmds, db')
     \<and> sqledges_FetchAndAck True (\<lambda>i. True) (\<lambda>s. Some 5) 10 ''e1'' (eb_cmds db') db' = Inr (cmds', db'')
     \<and> mset cmds = {#stop_now, stop_now#} \<and> mset cmds' = {#stop_now#}"
proof -
  obtain cmds db' where f: "sqledges_FetchAndAck True (\<lambda>i. i = ''c1'') (\<lambda>s. Some 5) 9 ''e1'' (eb_cmds stop_db) stop_db = Inr (cmds, db')"
    by (simp add: sqledges_FetchAndAck_def Let_def)
  obtain cmds' db'' where g: "sqledges_FetchAndAck True (\<lambda>i. True) (\<lambda>s. Some 5) 10 ''e1'' (eb_cmds db') db' = Inr (cmds', db'')"
    by (simp add: sqledges_FetchAndAck_def Let_def)
  have d: "distinct (map ec_id (eb_cmds stop_db))" by (simp add: stop_db_def stop_row_def)
  have p: "pending_for ''e1'' (stop_row i t)" "ec_id (stop_row i t) = i" for i t
    by (simp_all add: pending_for_def stop_row_def)
  from sql_fetch_redelivers [OF d _ f _ g] f g show ?thesis
    by (auto simp: stop_db_def p stop_row_command List.map_filter_simps)
qed

section \<open>Heartbeats of an edge\<close>

lemma find_update_at:
  assumes "\<And>r. er_id (f r) = er_id r"
  shows "find (\<lambda>r. er_id r = i) (map (\<lambda>r. if er_id r = i then f r else r) t) = map_option f (find (\<lambda>r. er_id r = i) t)"
  by (induction t) (auto simp: assms)

text \<open>
  A further heartbeat of a known edge leaves its configuration and its instant of creation in the table; the in-memory
  store replaces the record, whose creation is then the last heartbeat.
\<close>

theorem upsert_keeps_creation:
  assumes "sqledges_GetEdge True (e_ID e) db = Inr (Some old)" "sqledges_UpsertEdge True now e db = Inr db'"
  shows "sqledges_GetEdge True (e_ID e) db' =
      Inr (Some (old\<lparr>e_LastHeartbeat := e_LastHeartbeat e, e_UpdatedAt := now\<rparr>))
    \<and> GetEdge (UpsertEdge now e s) (e_ID e) = Some (edge_stamp now e)"
proof -
  from assms(1) obtain r c where r: "find (\<lambda>r. er_id r = e_ID e) (eb_edges db) = Some r" "er_config_json r = Some c"
    "old = \<lparr>e_ID = er_id r, e_LastHeartbeat = er_last_heartbeat r, e_ConfigJSON = c, e_CreatedAt = er_created_at r,
       e_UpdatedAt = er_updated_at r\<rparr>"
    by (auto simp: sqledges_GetEdge_def sql_query_row_def edge_of_row_def split: option.splits)
  have i: "e_ID (edge_stamp now e) = e_ID e" "e_UpdatedAt (edge_stamp now e) = now"
    "e_LastHeartbeat (edge_stamp now e) = e_LastHeartbeat e"
    by (simp_all add: edge_stamp_def Let_def)
  have ex: "list_ex (\<lambda>r. er_id r = e_ID e) (eb_edges db)"
    using r(1) find_None_list_ex [of "\<lambda>r. er_id r = e_ID e" "eb_edges db"] by simp
  have d: "db' = db\<lparr>eb_edges := map (\<lambda>r. if er_id r = e_ID e
      then r\<lparr>er_last_heartbeat := e_LastHeartbeat e, er_updated_at := now\<rparr> else r) (eb_edges db)\<rparr>"
    using assms(2) ex unfolding sqledges_UpsertEdge_def Let_def i by simp
  have "sqledges_GetEdge True (e_ID e) db' =
      Inr (Some (old\<lparr>e_LastHeartbeat := e_LastHeartbeat e, e_UpdatedAt := now\<rparr>))"
    by (simp add: sqledges_GetEdge_def sql_query_row_def d find_update_at r edge_of_row_def)
  moreover have "GetEdge (UpsertEdge now e s) (e_ID e) = Some (edge_stamp now e)"
    using edg.get_add_same [of now e s] .
  ultimately show ?thesis ..
qed

end
