(* ===== verification/Registry_Sql.thy ===== *)
theory Registry_Sql
  imports Registry Sql_Tables
begin

text \<open>
  The persistent fleet registry, \<^verbatim>\<open>pkg/control-plane/registry/sqlstore.go\<close>: the table \<^verbatim>\<open>robots\<close> of the migrations 1, 4, 9
  and 19. Errors of the database are dropped: a write is lost, a read finds nothing. A robot that is added again replaces its row on
  SQLite; on PostgreSQL the row keeps its instant of creation.
\<close>

record robot_row =
  rq_id :: string
  rq_vendor :: string
  rq_model :: string
  rq_adapter_endpoint :: string
  rq_tenant_id :: string
  rq_edge_id :: "string option"
  rq_location :: "string option"
  rq_capabilities :: "raw_message option"
  rq_created_at :: time
  rq_updated_at :: time

definition row_of_robot :: "Robot \<Rightarrow> robot_row" where
  "row_of_robot r =
     \<lparr>rq_id = r_ID r, rq_vendor = r_Vendor r, rq_model = r_Model r, rq_adapter_endpoint = r_AdapterEndpoint r,
      rq_tenant_id = r_TenantID r, rq_edge_id = Some (r_EdgeID r), rq_location = Some (r_Location r),
      rq_capabilities = Some (marshal_strings (r_Capabilities r)), rq_created_at = r_CreatedAt r,
      rq_updated_at = r_UpdatedAt r\<rparr>"

definition robot_of_row :: "robot_row \<Rightarrow> Robot" where
  "robot_of_row w =
     \<lparr>r_ID = rq_id w, r_Vendor = rq_vendor w, r_Model = rq_model w, r_AdapterEndpoint = rq_adapter_endpoint w,
      r_TenantID = rq_tenant_id w, r_EdgeID = COALESCE (rq_edge_id w) [], r_Location = COALESCE (rq_location w) [],
      r_Capabilities = (case rq_capabilities w of None \<Rightarrow> [] | Some raw \<Rightarrow> read_strings raw),
      r_CreatedAt = rq_created_at w, r_UpdatedAt = rq_updated_at w\<rparr>"

definition sqlreg_Add :: "string \<Rightarrow> bool \<Rightarrow> time \<Rightarrow> Robot \<Rightarrow> robot_row table \<Rightarrow> robot_row table" where
  "sqlreg_Add driver ok now r tbl =
     (let w = row_of_robot (robot_stamp now r) in
      if \<not> ok then tbl
      else if driver = ''pgx''
        then (if list_ex (\<lambda>v. rq_id v = rq_id w) tbl
              then map (\<lambda>v. if rq_id v = rq_id w then w\<lparr>rq_created_at := rq_created_at v\<rparr> else v) tbl
              else tbl @ [w])
      else filter (\<lambda>v. rq_id v \<noteq> rq_id w) tbl @ [w])"

definition sqlreg_Get :: "bool \<Rightarrow> string \<Rightarrow> robot_row table \<Rightarrow> Robot option" where
  "sqlreg_Get ok i tbl =
     (case sql_query_row ok (\<lambda>w. rq_id w = i) tbl of Inl e \<Rightarrow> None | Inr w \<Rightarrow> map_option robot_of_row w)"

definition sqlreg_listWithTenant :: "bool \<Rightarrow> (string \<Rightarrow> 'o::linorder) \<Rightarrow> string \<Rightarrow> robot_row list \<Rightarrow> Robot list" where
  "sqlreg_listWithTenant ok col tenantID rs =
     (if \<not> ok then []
      else map robot_of_row (order_asc (\<lambda>w. col (rq_id w))
             (filter (\<lambda>w. tenantID \<noteq> [] \<longrightarrow> rq_tenant_id w = tenantID) rs)))"

definition sqlreg_List :: "bool \<Rightarrow> (string \<Rightarrow> 'o::linorder) \<Rightarrow> robot_row list \<Rightarrow> Robot list" where
  "sqlreg_List ok col rs = sqlreg_listWithTenant ok col [] rs"

definition sqlreg_ListByTenant :: "bool \<Rightarrow> (string \<Rightarrow> 'o::linorder) \<Rightarrow> string \<Rightarrow> robot_row list \<Rightarrow> Robot list" where
  "sqlreg_ListByTenant ok col tenantID rs = sqlreg_listWithTenant ok col tenantID rs"

definition sqlreg_Delete :: "bool \<Rightarrow> string \<Rightarrow> robot_row table \<Rightarrow> bool \<times> robot_row table" where
  "sqlreg_Delete ok i tbl =
     (case sql_delete ok (\<lambda>w. rq_id w = i) tbl of Inl e \<Rightarrow> (False, tbl) | Inr (n, tbl') \<Rightarrow> (n > 0, tbl'))"

section \<open>Refinement of the in-memory registry\<close>

interpretation rq: sql_table rq_id robot_of_row r_ID
  by unfold_locales (simp add: robot_of_row_def)

abbreviation registry_of :: "robot_row table \<Rightarrow> registry" where
  "registry_of \<equiv> tbl_map rq_id robot_of_row"

lemma robot_roundtrip: "robot_of_row (row_of_robot r) = r"
  by (simp add: robot_of_row_def row_of_robot_def read_strings_marshal)

lemma row_of_robot_id [simp]: "rq_id (row_of_robot r) = r_ID r"
  by (simp add: row_of_robot_def)

lemma sqlreg_Add_sqlite: "driver \<noteq> ''pgx'' \<Longrightarrow> registry_of (sqlreg_Add driver True now r tbl) = registry_Add now r (registry_of tbl)"
proof -
  let ?w = "row_of_robot (robot_stamp now r)"
  assume d: "driver \<noteq> ''pgx''"
  have "registry_of (filter (\<lambda>v. rq_id v \<noteq> r_ID r) tbl) (rq_id ?w) = None" by (simp add: rq.store_delete)
  from rq.store_append_new [OF this]
  have "registry_of (filter (\<lambda>v. rq_id v \<noteq> r_ID r) tbl @ [?w]) = (registry_of tbl)(r_ID r \<mapsto> robot_stamp now r)"
    by (simp add: rq.store_delete robot_roundtrip)
  with d show ?thesis by (simp add: sqlreg_Add_def registry_Add_def)
qed

lemma sqlreg_Get_store: "sqlreg_Get True i tbl = registry_Get (registry_of tbl) i"
  by (simp add: sqlreg_Get_def sql_query_row_def registry_Get_def tbl_map_def)

lemma sqlreg_Delete_store:
  "registry_of (snd (sqlreg_Delete True i tbl)) = snd (registry_Delete i (registry_of tbl))"
  "fst (sqlreg_Delete True i tbl) = fst (registry_Delete i (registry_of tbl))"
proof -
  show "fst (sqlreg_Delete True i tbl) = fst (registry_Delete i (registry_of tbl))"
    using rq.affected [of i tbl] by (simp add: sqlreg_Delete_def sql_delete_def registry_Delete_fst)
  have "registry_of (snd (sqlreg_Delete True i tbl)) = (registry_of tbl)(i := None)"
    by (simp add: sqlreg_Delete_def sql_delete_def rq.store_delete)
  then show "registry_of (snd (sqlreg_Delete True i tbl)) = snd (registry_Delete i (registry_of tbl))"
    by (auto simp: registry_Delete_def fun_eq_iff split: option.split)
qed

text \<open>On SQLite the table has the contract of a store with deletion.\<close>

interpretation rqs: deletable_store "\<lambda>tbl i. sqlreg_Get True i tbl"
  "sqlreg_Add ''sqlite'' True" r_ID robot_stamp "\<lambda>i tbl. snd (sqlreg_Delete True i tbl)"
  by unfold_locales (simp_all add: sqlreg_Get_store sqlreg_Add_sqlite sqlreg_Delete_store reg.get_add reg.get_del)

text \<open>On PostgreSQL a robot that is added again keeps the instant of its creation.\<close>

lemma sqlreg_Add_pgx:
  "sqlreg_Get True i (sqlreg_Add ''pgx'' True now r tbl) =
     (if i = r_ID r
      then Some ((robot_stamp now r)\<lparr>r_CreatedAt := (case sqlreg_Get True i tbl of
             None \<Rightarrow> r_CreatedAt (robot_stamp now r) | Some old \<Rightarrow> r_CreatedAt old)\<rparr>)
      else sqlreg_Get True i tbl)"
proof (cases "registry_of tbl (r_ID r)")
  case None
  then have n: "\<not> list_ex (\<lambda>v. rq_id v = r_ID r) tbl" by (simp add: rq.store_None)
  have "registry_of (tbl @ [row_of_robot (robot_stamp now r)]) = (registry_of tbl)(r_ID r \<mapsto> robot_stamp now r)"
    using rq.store_append_new [of tbl "row_of_robot (robot_stamp now r)"] None by (simp add: robot_roundtrip)
  with None n show ?thesis by (simp add: sqlreg_Get_store registry_Get_def sqlreg_Add_def)
next
  case (Some old)
  let ?w = "row_of_robot (robot_stamp now r)" and ?f = "\<lambda>v. (row_of_robot (robot_stamp now r))\<lparr>rq_id := rq_id v, rq_created_at := rq_created_at v\<rparr>"
  obtain v where v: "find (\<lambda>v. rq_id v = r_ID r) tbl = Some v" "old = robot_of_row v"
    using Some by (auto simp: tbl_map_def)
  then have vid: "rq_id v = r_ID r" by (auto simp: find_Some_iff)
  have ex: "list_ex (\<lambda>v. rq_id v = r_ID r) tbl" using Some rq.store_None [of tbl "r_ID r"] by simp
  have m: "sqlreg_Add ''pgx'' True now r tbl = map (\<lambda>v. if rq_id v = r_ID r then ?f v else v) tbl"
    using ex by (simp add: sqlreg_Add_def cong: if_cong)
  have "robot_of_row (?f v) = (robot_stamp now r)\<lparr>r_CreatedAt := r_CreatedAt old\<rparr>"
    by (rule Robot.equality) (simp_all add: vid v(2) robot_of_row_def row_of_robot_def read_strings_marshal)
  then show ?thesis
    unfolding m sqlreg_Get_store registry_Get_def
    using rq.store_update_at [of ?f "r_ID r" tbl i] v by (simp add: Some)
qed

lemma sqlreg_listing:
  fixes col :: "string \<Rightarrow> 'o::linorder"
  assumes "tbl_keys rq_id tbl" "sql_scan tbl rs"
  defines "ks \<equiv> map rq_id (order_asc (\<lambda>w. col (rq_id w)) rs)"
  shows "go_range (registry_of tbl) ks"
    and "sqlreg_List True col rs = registry_List ks (registry_of tbl)"
    and "sqlreg_ListByTenant True col t rs = registry_ListByTenant ks t (registry_of tbl)"
proof -
  have s: "sql_scan tbl (order_asc (\<lambda>w. col (rq_id w)) rs)" using assms(2) by simp
  show "go_range (registry_of tbl) ks" unfolding ks_def by (rule rq.scan_range [OF assms(1) s])
  show "sqlreg_List True col rs = registry_List ks (registry_of tbl)"
    unfolding ks_def using rq.scan_listing [OF assms(1) s]
    by (simp add: sqlreg_List_def sqlreg_listWithTenant_def registry_List_def)
  have "map robot_of_row (filter (\<lambda>w. t \<noteq> [] \<longrightarrow> rq_tenant_id w = t) (order_asc (\<lambda>w. col (rq_id w)) rs)) =
      filter (\<lambda>r. t = [] \<or> r_TenantID r = t) (go_values (registry_of tbl) ks)"
    unfolding ks_def by (rule rq.scan_filtered [OF assms(1) s]) (auto simp: robot_of_row_def)
  then show "sqlreg_ListByTenant True col t rs = registry_ListByTenant ks t (registry_of tbl)"
    by (simp add: sqlreg_ListByTenant_def sqlreg_listWithTenant_def registry_ListByTenant_def)
qed

end
