(* ===== verification/Tenants_Sql.thy ===== *)
theory Tenants_Sql
  imports Tenants Idempotency Sql_Tables
begin

text \<open>
  Two persistent stores: the tenants, \<^verbatim>\<open>pkg/control-plane/tenants/sqlstore.go\<close> (table \<^verbatim>\<open>tenants\<close>), and the
  idempotency keys, \<^verbatim>\<open>SQLStore\<close> of \<^verbatim>\<open>pkg/control-plane/commands/idempotency.go\<close> (table \<^verbatim>\<open>command_idempotency\<close>).
\<close>

section \<open>Tenants\<close>

record tenant_row =
  nq_id :: string
  nq_name :: string
  nq_config :: "raw_message option"

text \<open>An empty configuration is written as \<^verbatim>\<open>NULL\<close>; \<^verbatim>\<open>NULL\<close> and the empty text are read as no configuration.\<close>

definition config_column :: "raw_message \<Rightarrow> raw_message option" where
  "config_column c = (if c = RawEmpty then None else Some c)"

definition tenant_of_row :: "tenant_row \<Rightarrow> Tenant" where
  "tenant_of_row r =
     \<lparr>tn_ID = nq_id r, tn_Name = nq_name r, tn_Config = (case nq_config r of None \<Rightarrow> RawEmpty | Some c \<Rightarrow> c)\<rparr>"

definition sqlten_List :: "bool \<Rightarrow> (string \<Rightarrow> 'o::linorder) \<Rightarrow> tenant_row list \<Rightarrow> db_error + Tenant list" where
  "sqlten_List ok col rs =
     (if \<not> ok then Inl DbFailed else Inr (map tenant_of_row (order_asc (\<lambda>r. col (nq_id r)) rs)))"

definition sqlten_Get :: "bool \<Rightarrow> string \<Rightarrow> tenant_row table \<Rightarrow> db_error + Tenant option" where
  "sqlten_Get ok i tbl = map_sum id (map_option tenant_of_row) (sql_query_row ok (\<lambda>r. nq_id r = i) tbl)"

definition sqlten_Create :: "bool \<Rightarrow> Tenant \<Rightarrow> tenant_row table \<Rightarrow> db_error + tenant_row table" where
  "sqlten_Create ok t tbl =
     sql_insert nq_id ok \<lparr>nq_id = tn_ID t, nq_name = tn_Name t, nq_config = config_column (tn_Config t)\<rparr> tbl"

definition sqlten_Update :: "bool \<Rightarrow> Tenant \<Rightarrow> tenant_row table \<Rightarrow> write_error + tenant_row table" where
  "sqlten_Update ok t tbl = exec_affected (sql_update ok (\<lambda>r. nq_id r = tn_ID t)
     (\<lambda>r. r\<lparr>nq_name := tn_Name t, nq_config := config_column (tn_Config t)\<rparr>) tbl)"

definition sqlten_Delete :: "bool \<Rightarrow> string \<Rightarrow> tenant_row table \<Rightarrow> write_error + tenant_row table" where
  "sqlten_Delete ok i tbl = exec_affected (sql_delete ok (\<lambda>r. nq_id r = i) tbl)"

interpretation nq: sql_table nq_id tenant_of_row tn_ID
  by unfold_locales (simp add: tenant_of_row_def)

abbreviation tenants_of :: "tenant_row table \<Rightarrow> tenant_store" where
  "tenants_of \<equiv> tbl_map nq_id tenant_of_row"

lemma config_column_read [simp]: "(case config_column c of None \<Rightarrow> RawEmpty | Some c \<Rightarrow> c) = c"
  by (simp add: config_column_def)

lemma sqlten_Get_store: "sqlten_Get True i tbl = Inr (tenants_Get (tenants_of tbl) i)"
  by (simp add: sqlten_Get_def sql_query_row_def tenants_Get_def tbl_map_def)

lemma sqlten_Create_store:
  "map_sum (\<lambda>e. ()) tenants_of (sqlten_Create True t tbl) = map_sum (\<lambda>e. ()) id (tenants_Create t (tenants_of tbl))"
proof (cases "sqlten_Create True t tbl")
  case (Inl e)
  then have "tenants_of tbl (tn_ID t) \<noteq> None"
    by (auto simp: sqlten_Create_def sql_insert_def nq.store_None split: if_splits)
  with Inl show ?thesis by (auto simp: tenants_Create_def)
next
  case (Inr tbl')
  then have "tenants_of tbl (tn_ID t) = None \<and> tenants_of tbl' = (tenants_of tbl)(tn_ID t \<mapsto> t)"
    unfolding sqlten_Create_def by (auto dest!: nq.store_insert simp: tenant_of_row_def)
  with Inr show ?thesis by (simp add: tenants_Create_def)
qed

lemma sqlten_Update_store:
  "map_sum (\<lambda>e. ()) tenants_of (sqlten_Update True t tbl) = map_sum (\<lambda>e. ()) id (tenants_Update t (tenants_of tbl))"
proof -
  let ?f = "\<lambda>r. r\<lparr>nq_name := tn_Name t, nq_config := config_column (tn_Config t)\<rparr>"
  let ?t = "map (\<lambda>r. if nq_id r = tn_ID t then ?f r else r) tbl"
  have u: "sqlten_Update True t tbl = (if tenants_of tbl (tn_ID t) = None then Inl WriteNotFound else Inr ?t)"
    by (simp add: sqlten_Update_def exec_affected_def sql_update_def nq.affected_none)
  have "tenants_of ?t = (tenants_of tbl)(tn_ID t \<mapsto> t)" if "tenants_of tbl (tn_ID t) \<noteq> None"
    by (rule nq.store_replace [OF that]) (simp_all add: tenant_of_row_def)
  then show ?thesis by (auto simp: u tenants_Update_def split: option.split)
qed

lemma sqlten_Delete_store:
  "map_sum (\<lambda>e. ()) tenants_of (sqlten_Delete True i tbl) = map_sum (\<lambda>e. ()) id (tenants_Delete i (tenants_of tbl))"
  by (auto simp: sqlten_Delete_def exec_affected_def sql_delete_def nq.affected_none tenants_Delete_def nq.store_delete
      split: option.split)

lemma sqlten_List_store:
  fixes col :: "string \<Rightarrow> 'o::linorder"
  assumes "tbl_keys nq_id tbl" "sql_scan tbl rs"
  defines "ks \<equiv> map nq_id (order_asc (\<lambda>r. col (nq_id r)) rs)"
  shows "go_range (tenants_of tbl) ks" "sqlten_List True col rs = Inr (tenants_List ks (tenants_of tbl))"
proof -
  have s: "sql_scan tbl (order_asc (\<lambda>r. col (nq_id r)) rs)" using assms(2) by simp
  show "go_range (tenants_of tbl) ks" unfolding ks_def by (rule nq.scan_range [OF assms(1) s])
  show "sqlten_List True col rs = Inr (tenants_List ks (tenants_of tbl))"
    unfolding ks_def using nq.scan_listing [OF assms(1) s] by (simp add: sqlten_List_def tenants_List_def)
qed

section \<open>Idempotency keys\<close>

record idem_row =
  iq_key :: string
  iq_robot_id :: string
  iq_created_at :: time

text \<open>A violation of the primary key means that the key is taken; any other failure is an error.\<close>

definition isUniqueViolation :: "db_error \<Rightarrow> bool" where
  "isUniqueViolation e \<longleftrightarrow> e = DbUnique"

definition sqlidem_Reserve :: "bool \<Rightarrow> time \<Rightarrow> string \<Rightarrow> string \<Rightarrow> idem_row table \<Rightarrow> (db_error + bool) \<times> idem_row table" where
  "sqlidem_Reserve ok now k robotID tbl =
     (case sql_insert iq_key ok \<lparr>iq_key = k, iq_robot_id = robotID, iq_created_at = now\<rparr> tbl of
        Inl e \<Rightarrow> (if isUniqueViolation e then Inr False else Inl e, tbl)
      | Inr tbl' \<Rightarrow> (Inr True, tbl'))"

definition sqlidem_Cleanup :: "bool \<Rightarrow> time \<Rightarrow> duration \<Rightarrow> idem_row table \<Rightarrow> db_error + idem_row table" where
  "sqlidem_Cleanup ok now olderThan tbl =
     (let cutoff = now - olderThan in map_sum id snd (sql_delete ok (\<lambda>r. iq_created_at r < cutoff) tbl))"

definition entry_of_row :: "idem_row \<Rightarrow> memoryEntry" where
  "entry_of_row r = \<lparr>me_robotID = iq_robot_id r, me_createdAt = iq_created_at r\<rparr>"

abbreviation idem_of :: "idem_row table \<Rightarrow> idem_store" where
  "idem_of \<equiv> tbl_map iq_key entry_of_row"

lemma entry_created: "me_createdAt (entry_of_row r) = iq_created_at r"
  by (simp add: entry_of_row_def)

lemma idem_of_None: "idem_of tbl k = None \<longleftrightarrow> \<not> list_ex (\<lambda>r. iq_key r = k) tbl"
  by (simp add: tbl_map_def find_None_list_ex)

lemma sqlidem_Reserve_store:
  "\<exists>b tbl'. sqlidem_Reserve True now k rid tbl = (Inr b, tbl') \<and> Reserve now k rid (idem_of tbl) = (b, idem_of tbl')"
proof (cases "idem_of tbl k")
  case None
  then have n: "\<not> list_ex (\<lambda>r. iq_key r = k) tbl" by (simp add: idem_of_None)
  have "idem_of (tbl @ [\<lparr>iq_key = k, iq_robot_id = rid, iq_created_at = now\<rparr>]) =
      (idem_of tbl)(k \<mapsto> \<lparr>me_robotID = rid, me_createdAt = now\<rparr>)"
    using None by (auto simp: fun_eq_iff tbl_map_def find_append entry_of_row_def split: option.split)
  with None n show ?thesis by (intro exI [of _ True]) (simp add: sqlidem_Reserve_def sql_insert_def Reserve_def)
next
  case (Some v)
  then have "list_ex (\<lambda>r. iq_key r = k) tbl" using idem_of_None [of tbl k] by simp
  with Some show ?thesis
    by (intro exI [of _ False]) (simp add: sqlidem_Reserve_def sql_insert_def Reserve_def isUniqueViolation_def)
qed

lemma sqlidem_Cleanup_store:
  "tbl_keys iq_key tbl \<Longrightarrow> sqlidem_Cleanup True now old tbl = Inr tbl' \<Longrightarrow> idem_of tbl' = Cleanup now old (idem_of tbl)"
proof -
  assume k: "tbl_keys iq_key tbl" and c: "sqlidem_Cleanup True now old tbl = Inr tbl'"
  from c have t: "tbl' = filter (\<lambda>r. \<not> iq_created_at r < now - old) tbl"
    by (simp add: sqlidem_Cleanup_def sql_delete_def Let_def)
  have "idem_of (filter (\<lambda>r. \<not> iq_created_at r < now - old) tbl) i = Cleanup now old (idem_of tbl) i" for i
    using k
  proof (induction tbl)
    case (Cons r t)
    have n: "idem_of t i = None" if "iq_key r = i"
    proof -
      from Cons.prems that have "i \<notin> iq_key ` set t" by (simp add: tbl_keys_def)
      then have "\<not> list_ex (\<lambda>r. iq_key r = i) t" by (auto simp: list_ex_iff)
      then show ?thesis by (simp only: idem_of_None not_False_eq_True)
    qed
    have h: "idem_of (r # u) i = (if iq_key r = i then Some (entry_of_row r) else idem_of u i)" for u
      by (simp add: tbl_map_def)
    have ih: "idem_of (filter (\<lambda>r. \<not> iq_created_at r < now - old) t) i = Cleanup now old (idem_of t) i"
      using Cons by (simp add: tbl_keys_def)
    show ?case
      using n ih by (auto simp: h Cleanup_def Let_def entry_created split: option.splits)
  qed (simp add: Cleanup_def tbl_map_def Let_def)
  then show ?thesis by (simp add: t fun_eq_iff)
qed

text \<open>The contract of the reservations, on the table.\<close>

interpretation iqs: idempotency "\<lambda>tbl k. list_ex (\<lambda>r. iq_key r = k) tbl"
  "\<lambda>k tbl. (fst (sqlidem_Reserve True now k rid tbl) = Inr True, snd (sqlidem_Reserve True now k rid tbl))"
  "\<lambda>tbl. put_or_keep tbl (sqlidem_Cleanup ok now' old tbl)" for now rid ok now' old
  by unfold_locales
    (auto simp: sqlidem_Reserve_def sql_insert_def isUniqueViolation_def sqlidem_Cleanup_def sql_delete_def put_or_keep_def
      list_ex_iff Let_def split: if_splits)

end
