(* ===== verification/Audit_Sql.thy ===== *)
theory Audit_Sql
  imports Audit_Log Sql_Tables
begin

text \<open>
  The persistent audit log, \<^verbatim>\<open>pkg/control-plane/audit/sqlstore.go\<close>: the table \<^verbatim>\<open>audit_log\<close> of the migration 7. It honours the
  filter on the tenant, has no bound on the matches it considers, and takes a negative offset for none.
\<close>

record audit_row =
  aq_id :: string
  aq_actor :: string
  aq_action :: string
  aq_resource :: string
  aq_resource_id :: "string option"
  aq_timestamp :: time
  aq_details :: "details option"
  aq_tenant_id :: "string option"

definition details_column :: "details \<Rightarrow> details option" where
  "details_column d = (if d = NoDetails \<or> d = DetText [] then None else Some d)"

definition row_of_entry :: "Entry \<Rightarrow> audit_row" where
  "row_of_entry e =
     \<lparr>aq_id = a_ID e, aq_actor = a_Actor e, aq_action = a_Action e, aq_resource = a_Resource e,
      aq_resource_id = null_if_empty (a_ResourceID e), aq_timestamp = a_Timestamp e,
      aq_details = details_column (a_Details e), aq_tenant_id = null_if_empty (a_TenantID e)\<rparr>"

definition audit_of_row :: "audit_row \<Rightarrow> Entry" where
  "audit_of_row r =
     \<lparr>a_ID = aq_id r, a_Actor = aq_actor r, a_Action = aq_action r, a_Resource = aq_resource r,
      a_ResourceID = null_string (aq_resource_id r), a_Timestamp = aq_timestamp r,
      a_Details = (case aq_details r of None \<Rightarrow> NoDetails | Some d \<Rightarrow> d), a_TenantID = null_string (aq_tenant_id r)\<rparr>"

definition sqlaudit_Append :: "bool \<Rightarrow> time \<Rightarrow> string \<Rightarrow> Entry \<Rightarrow> audit_row table \<Rightarrow> db_error + audit_row table" where
  "sqlaudit_Append ok now uuid e tbl =
     (let e1 = (if a_ID e = [] then e\<lparr>a_ID := uuid\<rparr> else e);
          e2 = (if time_IsZero (a_Timestamp e1) then e1\<lparr>a_Timestamp := now\<rparr> else e1)
      in sql_insert aq_id ok (row_of_entry e2) tbl)"

definition audit_where :: "AuditFilters \<Rightarrow> audit_row \<Rightarrow> bool" where
  "audit_where f r \<longleftrightarrow>
     (f_RobotID f \<noteq> [] \<longrightarrow> aq_resource r = ''robot'' \<and> aq_resource_id r = Some (f_RobotID f))
     \<and> (f_TenantID f \<noteq> [] \<longrightarrow> aq_tenant_id r = Some (f_TenantID f))
     \<and> (f_Actor f \<noteq> [] \<longrightarrow> aq_actor r = f_Actor f)
     \<and> (f_Action f \<noteq> [] \<longrightarrow> aq_action r = f_Action f)
     \<and> (case f_From f of None \<Rightarrow> True | Some t \<Rightarrow> aq_timestamp r \<ge> t)
     \<and> (case f_To f of None \<Rightarrow> True | Some t \<Rightarrow> aq_timestamp r \<le> t)"

definition sqlaudit_List :: "bool \<Rightarrow> AuditFilters \<Rightarrow> audit_row list \<Rightarrow> db_error + Entry list" where
  "sqlaudit_List ok f rs =
     (let limit = (if f_Limit f > 0 then f_Limit f else 100);
          offset = (if f_Offset f > 0 then f_Offset f else 0)
      in if \<not> ok then Inl DbFailed
         else Inr (map audit_of_row (take (nat limit) (drop (nat offset)
                (order_desc aq_timestamp (filter (audit_where f) rs))))))"

section \<open>What a listing returns\<close>

lemma audit_roundtrip: "a_Details e \<noteq> DetText [] \<Longrightarrow> audit_of_row (row_of_entry e) = e"
  by (simp add: audit_of_row_def row_of_entry_def details_column_def)

lemma null_string_Some: "s \<noteq> [] \<Longrightarrow> null_string c = s \<longleftrightarrow> c = Some s"
  by (auto simp: null_string_def split: option.split)

lemma audit_where_match:
  "audit_where f r \<longleftrightarrow> audit_match f (audit_of_row r) \<and> (f_TenantID f = [] \<or> a_TenantID (audit_of_row r) = f_TenantID f)"
proof -
  have c: "(s \<noteq> [] \<longrightarrow> c = Some s) \<longleftrightarrow> (s = [] \<or> null_string c = s)" for s c
    using null_string_Some [of s c] by blast
  have rid: "(f_RobotID f \<noteq> [] \<longrightarrow> aq_resource r = ''robot'' \<and> aq_resource_id r = Some (f_RobotID f)) \<longleftrightarrow>
      \<not> (f_RobotID f \<noteq> [] \<and> (aq_resource r \<noteq> ''robot'' \<or> null_string (aq_resource_id r) \<noteq> f_RobotID f))"
    using null_string_Some [of "f_RobotID f" "aq_resource_id r"] by blast
  have lo: "(case f_From f of None \<Rightarrow> True | Some t \<Rightarrow> aq_timestamp r \<ge> t) \<longleftrightarrow>
      \<not> (case f_From f of None \<Rightarrow> False | Some t \<Rightarrow> aq_timestamp r < t)" by (cases "f_From f") auto
  have hi: "(case f_To f of None \<Rightarrow> True | Some t \<Rightarrow> aq_timestamp r \<le> t) \<longleftrightarrow>
      \<not> (case f_To f of None \<Rightarrow> False | Some t \<Rightarrow> t < aq_timestamp r)" by (cases "f_To f") auto
  show ?thesis
    unfolding audit_where_def audit_match_def audit_of_row_def Entry.simps rid lo hi c by blast
qed

text \<open>A caller confined to a tenant sees entries of that tenant only, whatever is in the table and however the query is made.\<close>

theorem sqlaudit_tenant:
  assumes "sqlaudit_List ok f rs = Inr es" "f_TenantID f \<noteq> []" "e \<in> set es"
  shows "a_TenantID e = f_TenantID f \<and> audit_match f e"
proof -
  from assms(1) have "es = map audit_of_row (take (nat (if f_Limit f > 0 then f_Limit f else 100))
      (drop (nat (if f_Offset f > 0 then f_Offset f else 0)) (order_desc aq_timestamp (filter (audit_where f) rs))))"
    by (simp add: sqlaudit_List_def Let_def split: if_splits)
  with assms(3) obtain r where "e = audit_of_row r" "r \<in> set (order_desc aq_timestamp (filter (audit_where f) rs))"
    by (auto dest!: in_set_takeD in_set_dropD)
  with assms(2) show ?thesis by (simp add: audit_where_match)
qed

text \<open>
  Both stores give the same page when it asks for no tenant, no more than a thousand entries match, and no two entries
  have the same instant (entries are appended in the order of their instants).
\<close>

theorem sqlaudit_agrees:
  assumes "sorted_wrt (\<lambda>r r'. aq_timestamp r < aq_timestamp r') tbl" "sql_scan tbl rs"
    and "f_TenantID f = []" "length (filter (audit_where f) tbl) \<le> 1000"
    and "0 \<le> f_Offset f" "f_Offset f + f_Limit f < 2 ^ 63" "f_Offset f + 100 < 2 ^ 63"
  shows "\<exists>es. sqlaudit_List True f rs = Inr es \<and> audit_List f (map audit_of_row tbl) = Some es"
proof -
  have w: "audit_where f = audit_match f \<circ> audit_of_row" using assms(3) by (simp add: audit_where_match fun_eq_iff)
  have "order_desc aq_timestamp (filter (audit_where f) rs) = rev (filter (audit_where f) tbl)"
    by (rule order_desc_sorted [OF sorted_wrt_filter [OF assms(1)] sql_scan_filter [OF assms(2)]])
  then have l: "sqlaudit_List True f rs = Inr (take (nat (if 0 < f_Limit f then f_Limit f else 100)) (drop (nat (f_Offset f))
      (rev (map audit_of_row (filter (audit_where f) tbl)))))"
    using assms(5) by (simp add: sqlaudit_List_def Let_def take_map drop_map rev_map)
  have m: "filter (audit_match f) (rev (map audit_of_row tbl)) = rev (map audit_of_row (filter (audit_where f) tbl))"
    by (simp add: w rev_filter [symmetric] filter_map)
  have "take 1000 (rev (map audit_of_row (filter (audit_where f) tbl))) = rev (map audit_of_row (filter (audit_where f) tbl))"
    using assms(4) by simp
  with l show ?thesis by (simp only: audit_List_window [OF assms(5-7)] m) simp
qed

end
