(* ===== verification/Runs_Sql.thy ===== *)
theory Runs_Sql
  imports Api_Workflows Sql_Tables
begin

text \<open>
  The persistent workflow runs, \<^verbatim>\<open>pkg/control-plane/orchestration/sqlstore.go\<close>: the tables \<^verbatim>\<open>workflow_runs\<close> and
  \<^verbatim>\<open>workflow_run_tasks\<close> of the migrations 5 and 12. \<open>fk\<close> says whether the database enforces the foreign key of the
  second (PostgreSQL does). A listing has the newest fifty runs of all tenants, without their tasks.
\<close>

record run_row =
  nr_id :: string
  nr_workflow_id :: string
  nr_tenant_id :: "string option"
  nr_status :: WorkflowRunStatus
  nr_created_at :: time
  nr_updated_at :: time

record run_task_row =
  nt_run_id :: string
  nt_task_id :: string
  nt_step_index :: nat

record run_db =
  nd_runs :: "run_row table"
  nd_tasks :: "run_task_row table"

definition run_of_row :: "run_row \<Rightarrow> WorkflowRun" where
  "run_of_row r =
     \<lparr>wr_ID = nr_id r, wr_WorkflowID = nr_workflow_id r, wr_TenantID = COALESCE (nr_tenant_id r) [],
      wr_Status = nr_status r, wr_CreatedAt = nr_created_at r, wr_UpdatedAt = nr_updated_at r, wr_Tasks = []\<rparr>"

definition sqlruns_Create :: "bool \<Rightarrow> time \<Rightarrow> WorkflowRun \<Rightarrow> run_db \<Rightarrow> db_error + run_db" where
  "sqlruns_Create ok now run db =
     (let run1 = run\<lparr>wr_UpdatedAt := now\<rparr>;
          run2 = (if time_IsZero (wr_CreatedAt run1) then run1\<lparr>wr_CreatedAt := now\<rparr> else run1)
      in map_sum id (\<lambda>t. db\<lparr>nd_runs := t\<rparr>) (sql_insert nr_id ok
           \<lparr>nr_id = wr_ID run2, nr_workflow_id = wr_WorkflowID run2, nr_tenant_id = Some (wr_TenantID run2),
            nr_status = wr_Status run2, nr_created_at = wr_CreatedAt run2, nr_updated_at = wr_UpdatedAt run2\<rparr>
           (nd_runs db)))"

definition sqlruns_List :: "bool \<Rightarrow> run_row list \<Rightarrow> db_error + WorkflowRun list" where
  "sqlruns_List ok rs = (if \<not> ok then Inl DbFailed else Inr (map run_of_row (take 50 (order_desc nr_created_at rs))))"

text \<open>When the query for the tasks fails the run is returned without them.\<close>

definition sqlruns_Get :: "bool \<Rightarrow> bool \<Rightarrow> string \<Rightarrow> run_task_row list \<Rightarrow> run_db \<Rightarrow> db_error + WorkflowRun option" where
  "sqlruns_Get ok ok2 i rs db =
     (case sql_query_row ok (\<lambda>r. nr_id r = i) (nd_runs db) of
        Inl e \<Rightarrow> Inl e
      | Inr None \<Rightarrow> Inr None
      | Inr (Some r) \<Rightarrow> (let run = run_of_row r in
          if \<not> ok2 then Inr (Some run)
          else Inr (Some (run\<lparr>wr_Tasks := wr_Tasks run @
                 map (\<lambda>t. \<lparr>wt_TaskID = nt_task_id t, wt_StepIndex = nt_step_index t\<rparr>)
                   (order_asc nt_step_index (filter (\<lambda>t. nt_run_id t = i) rs))\<rparr>))))"

definition sqlruns_UpdateStatus :: "bool \<Rightarrow> time \<Rightarrow> string \<Rightarrow> WorkflowRunStatus \<Rightarrow> run_db \<Rightarrow> db_error + run_db" where
  "sqlruns_UpdateStatus ok now i status db = map_sum id (\<lambda>(n, t). db\<lparr>nd_runs := t\<rparr>)
     (sql_update ok (\<lambda>r. nr_id r = i) (\<lambda>r. r\<lparr>nr_status := status, nr_updated_at := now\<rparr>) (nd_runs db))"

definition sqlruns_UpdateTenantID :: "bool \<Rightarrow> time \<Rightarrow> string \<Rightarrow> string \<Rightarrow> run_db \<Rightarrow> db_error + run_db" where
  "sqlruns_UpdateTenantID ok now runID tenantID db = map_sum id (\<lambda>(n, t). db\<lparr>nd_runs := t\<rparr>)
     (sql_update ok (\<lambda>r. nr_id r = runID) (\<lambda>r. r\<lparr>nr_tenant_id := Some tenantID, nr_updated_at := now\<rparr>) (nd_runs db))"

definition sqlruns_AddTask :: "bool \<Rightarrow> bool \<Rightarrow> string \<Rightarrow> string \<Rightarrow> nat \<Rightarrow> run_db \<Rightarrow> db_error + run_db" where
  "sqlruns_AddTask fk ok runID taskID stepIndex db =
     (if fk \<and> \<not> list_ex (\<lambda>r. nr_id r = runID) (nd_runs db) then Inl DbFailed
      else map_sum id (\<lambda>t. db\<lparr>nd_tasks := t\<rparr>) (sql_insert (\<lambda>t. (nt_run_id t, nt_task_id t)) ok
        \<lparr>nt_run_id = runID, nt_task_id = taskID, nt_step_index = stepIndex\<rparr> (nd_tasks db)))"

section \<open>Refinement of the in-memory runs\<close>

text \<open>The tasks of a run, in the order of their rows.\<close>

definition tasks_of_run :: "run_db \<Rightarrow> string \<Rightarrow> WorkflowRunTask list" where
  "tasks_of_run db i = map (\<lambda>t. \<lparr>wt_TaskID = nt_task_id t, wt_StepIndex = nt_step_index t\<rparr>)
     (filter (\<lambda>t. nt_run_id t = i) (nd_tasks db))"

definition run_of_db :: "run_db \<Rightarrow> string \<Rightarrow> WorkflowRun option" where
  "run_of_db db i = map_option (\<lambda>r. (run_of_row r)\<lparr>wr_Tasks := tasks_of_run db i\<rparr>) (find (\<lambda>r. nr_id r = i) (nd_runs db))"

lemma find_run_update:
  assumes "\<And>r. nr_id (f r) = nr_id r"
  shows "find (\<lambda>r. nr_id r = j) (map (\<lambda>r. if nr_id r = i then f r else r) t) =
    (if j = i then map_option f (find (\<lambda>r. nr_id r = i) t) else find (\<lambda>r. nr_id r = j) t)"
  by (induction t) (auto simp: assms)

lemma run_of_db_update:
  assumes "\<And>r. nr_id (f r) = nr_id r" "\<And>r. run_of_row (f r) = g (run_of_row r)"
    and "\<And>r ts. g (r\<lparr>wr_Tasks := ts\<rparr>) = (g r)\<lparr>wr_Tasks := ts\<rparr>"
  shows "run_of_db (db\<lparr>nd_runs := map (\<lambda>r. if nr_id r = i then f r else r) (nd_runs db)\<rparr>) j =
    (if j = i then map_option g (run_of_db db i) else run_of_db db j)"
  by (simp add: run_of_db_def find_run_update [OF assms(1)] tasks_of_run_def option.map_comp comp_def assms(2,3))

lemma sqlruns_UpdateStatus_store:
  assumes "sqlruns_UpdateStatus True now i st db = Inr db'"
  shows "run_of_db db' = runs_UpdateStatus now i st (run_of_db db)"
proof (rule ext)
  fix j
  from assms have "db' = db\<lparr>nd_runs := map (\<lambda>r. if nr_id r = i then r\<lparr>nr_status := st, nr_updated_at := now\<rparr> else r) (nd_runs db)\<rparr>"
    by (simp add: sqlruns_UpdateStatus_def sql_update_def)
  then show "run_of_db db' j = runs_UpdateStatus now i st (run_of_db db) j"
    by (simp add: run_of_db_update [where g = "\<lambda>r. r\<lparr>wr_Status := st, wr_UpdatedAt := now\<rparr>"] run_of_row_def runs_UpdateStatus_def
        split: option.split)
qed

lemma sqlruns_UpdateTenantID_store:
  assumes "sqlruns_UpdateTenantID True now i t db = Inr db'"
  shows "run_of_db db' = UpdateTenantID now i t (run_of_db db)"
proof (rule ext)
  fix j
  from assms have "db' = db\<lparr>nd_runs := map (\<lambda>r. if nr_id r = i then r\<lparr>nr_tenant_id := Some t, nr_updated_at := now\<rparr> else r) (nd_runs db)\<rparr>"
    by (simp add: sqlruns_UpdateTenantID_def sql_update_def)
  then show "run_of_db db' j = UpdateTenantID now i t (run_of_db db) j"
    by (simp add: run_of_db_update [where g = "\<lambda>r. r\<lparr>wr_TenantID := t, wr_UpdatedAt := now\<rparr>"] run_of_row_def UpdateTenantID_def
        split: option.split)
qed

text \<open>A task that is added shows in the run, whose instant of update stays as it is (the in-memory store renews it).\<close>

lemma sqlruns_AddTask_store:
  assumes "sqlruns_AddTask fk True i taskID k db = Inr db'"
  shows "run_of_db db' j = (if j = i
    then map_option (\<lambda>r. r\<lparr>wr_Tasks := wr_Tasks r @ [\<lparr>wt_TaskID = taskID, wt_StepIndex = k\<rparr>]\<rparr>) (run_of_db db i)
    else run_of_db db j)"
proof -
  from assms have "db' = db\<lparr>nd_tasks := nd_tasks db @ [\<lparr>nt_run_id = i, nt_task_id = taskID, nt_step_index = k\<rparr>]\<rparr>"
    by (auto simp: sqlruns_AddTask_def sql_insert_def split: if_splits)
  then show ?thesis by (auto simp: run_of_db_def tasks_of_run_def option.map_comp comp_def)
qed

text \<open>A run is read with its tasks in the order of their steps: as they were added, when they were added in that order.\<close>

lemma sqlruns_Get_store:
  assumes "sql_scan (nd_tasks db) rs"
    and "sorted_wrt (\<lambda>t t'. nt_step_index t < nt_step_index t') (filter (\<lambda>t. nt_run_id t = i) (nd_tasks db))"
  shows "sqlruns_Get True True i rs db = Inr (run_of_db db i)"
proof -
  have "order_asc nt_step_index (filter (\<lambda>t. nt_run_id t = i) rs) = filter (\<lambda>t. nt_run_id t = i) (nd_tasks db)"
    by (rule order_asc_sorted [OF assms(2) sql_scan_filter [OF assms(1)]])
  then show ?thesis
    by (simp add: sqlruns_Get_def sql_query_row_def run_of_db_def tasks_of_run_def run_of_row_def split: option.split)
qed

text \<open>
  The handler filters the listing by the tenant after the fifty newest runs of all tenants were taken: when fifty runs of others
  are newer than all runs of a tenant, the tenant sees none of its own.
\<close>

definition runs_shown :: "string \<Rightarrow> WorkflowRun list \<Rightarrow> WorkflowRun list" where
  "runs_shown tenantID list = (if tenantID \<noteq> [] then filter (\<lambda>run. wr_TenantID run = tenantID) list else list)"

lemma listWorkflowRuns_shown:
  "sv_runs s = Some runs \<Longrightarrow> listWorkflowRuns ev r s =
     with_tenant r s (\<lambda>tenantID. (Json 200 (PRuns (runs_shown tenantID (runs_List (ev_runs ev) runs))), s))"
  by (simp add: listWorkflowRuns_def runs_shown_def Let_def)

theorem newest_runs_hide_tenant:
  assumes "sql_scan (nd_runs db) rs" "tenantID \<noteq> []"
    and "distinct others" "set others \<subseteq> set (nd_runs db)" "length others = 50"
    and "\<And>r. r \<in> set others \<Longrightarrow> COALESCE (nr_tenant_id r) [] \<noteq> tenantID"
    and "\<And>r own. r \<in> set others \<Longrightarrow> own \<in> set (nd_runs db) \<Longrightarrow> COALESCE (nr_tenant_id own) [] = tenantID
      \<Longrightarrow> nr_created_at own < nr_created_at r"
  shows "map_sum id (runs_shown tenantID) (sqlruns_List True rs) = Inr []"
proof -
  let ?l = "order_desc nr_created_at rs"
  have set: "set ?l = set (nd_runs db)" by (simp add: sql_scan_set [OF assms(1)])
  have "COALESCE (nr_tenant_id own) [] \<noteq> tenantID" if own: "own \<in> set (take 50 ?l)" for own
  proof
    assume t: "COALESCE (nr_tenant_id own) [] = tenantID"
    from own obtain k where k: "k < 50" "k < length ?l" "?l ! k = own" by (auto simp: in_set_conv_nth)
    have s: "sorted (map (\<lambda>r. - nr_created_at r) ?l)" by (simp add: order_desc_def)
    have "r \<in> set (take k ?l)" if r: "r \<in> set others" for r
    proof -
      from r assms(4) have "r \<in> set ?l" unfolding set by blast
      then obtain m where m: "m < length ?l" "?l ! m = r" unfolding in_set_conv_nth by blast
      have "own \<in> set (nd_runs db)" using k set nth_mem by blast
      from assms(7) [OF r this t] have lt: "nr_created_at own < nr_created_at r" .
      have "m < k"
      proof (rule ccontr)
        assume "\<not> m < k"
        with sorted_nth_mono [OF s, of k m] k m have "- nr_created_at own \<le> - nr_created_at r" by simp
        with lt show False by simp
      qed
      with m show ?thesis by (auto simp: in_set_conv_nth)
    qed
    then have "card (set others) \<le> card (set (take k ?l))" by (intro card_mono) auto
    also have "\<dots> \<le> k" by (rule order_trans [OF card_length]) simp
    finally show False using k(1) assms(3,5) by (simp add: distinct_card)
  qed
  then have "filter (\<lambda>run. wr_TenantID run = tenantID) (map run_of_row (take 50 ?l)) = []"
    by (auto simp: filter_empty_conv run_of_row_def)
  with assms(2) show ?thesis by (simp add: sqlruns_List_def runs_shown_def)
qed

end
