(* ===== verification/Webhooks_Sql.thy ===== *)
theory Webhooks_Sql
  imports Webhooks Sql_Tables
begin

text \<open>
  The persistent webhooks, \<^verbatim>\<open>pkg/control-plane/webhooks/sqlstore.go\<close>: the table \<^verbatim>\<open>webhooks\<close> of the migration 6. The events of a
  webhook are one column, joined by commas; the webhooks of an event are found with \<^verbatim>\<open>LIKE\<close>, whose patterns have
  the wildcards \<^verbatim>\<open>%\<close> and \<^verbatim>\<open>_\<close> (names with a backslash, which PostgreSQL takes for an escape, are left out) and
  which ignores the case of ASCII letters except on PostgreSQL.
\<close>

record hook_row =
  hq_id :: string
  hq_url_col :: string
  hq_events :: "string option"
  hq_secret :: "string option"
  hq_enabled :: int
  hq_created_at :: time
  hq_updated_at :: time

definition splitEvents :: "string \<Rightarrow> string list" where
  "splitEvents s = (if s = [] then [] else filter (\<lambda>t. t \<noteq> []) (map TrimSpace (str_split CHR '','' s)))"

definition hook_of_row :: "hook_row \<Rightarrow> Webhook" where
  "hook_of_row r =
     \<lparr>wh_ID = hq_id r, wh_URL = hq_url_col r, wh_Events = (case hq_events r of None \<Rightarrow> [] | Some e \<Rightarrow> splitEvents e),
      wh_Secret = null_string (hq_secret r), wh_Enabled = (hq_enabled r = 1), wh_CreatedAt = hq_created_at r,
      wh_UpdatedAt = hq_updated_at r\<rparr>"

definition sqlhooks_Create :: "bool \<Rightarrow> time \<Rightarrow> string \<Rightarrow> Webhook \<Rightarrow> hook_row table \<Rightarrow> db_error + Webhook \<times> hook_row table" where
  "sqlhooks_Create ok now uuid w tbl =
     (let w1 = (if wh_ID w = [] then w\<lparr>wh_ID := uuid\<rparr> else w);
          w2 = w1\<lparr>wh_CreatedAt := now, wh_UpdatedAt := now\<rparr>;
          events = str_join CHR '','' (wh_Events w2);
          enabled = (if wh_Enabled w2 then 1 else 0)
      in map_sum id (\<lambda>t. (w2, t)) (sql_insert hq_id ok
           \<lparr>hq_id = wh_ID w2, hq_url_col = wh_URL w2, hq_events = Some events, hq_secret = null_if_empty (wh_Secret w2),
            hq_enabled = enabled, hq_created_at = wh_CreatedAt w2, hq_updated_at = wh_UpdatedAt w2\<rparr> tbl))"

definition sqlhooks_Get :: "bool \<Rightarrow> string \<Rightarrow> hook_row table \<Rightarrow> db_error + Webhook option" where
  "sqlhooks_Get ok i tbl = map_sum id (map_option hook_of_row) (sql_query_row ok (\<lambda>r. hq_id r = i) tbl)"

definition sqlhooks_List :: "bool \<Rightarrow> hook_row list \<Rightarrow> db_error + Webhook list" where
  "sqlhooks_List ok rs = (if \<not> ok then Inl DbFailed else Inr (map hook_of_row (order_desc hq_created_at rs)))"

text \<open>\<open>same\<close> is the comparison of two characters under \<^verbatim>\<open>LIKE\<close>.\<close>

fun sql_like :: "(char \<Rightarrow> char \<Rightarrow> bool) \<Rightarrow> string \<Rightarrow> string \<Rightarrow> bool" where
  "sql_like same [] s = (s = [])"
| "sql_like same (p # ps) [] = (p = CHR ''%'' \<and> sql_like same ps [])"
| "sql_like same (p # ps) (c # s) =
     (if p = CHR ''%'' then sql_like same ps (c # s) \<or> sql_like same (p # ps) s
      else (p = CHR ''_'' \<or> same p c) \<and> sql_like same ps s)"

definition like_char :: "string \<Rightarrow> char \<Rightarrow> char \<Rightarrow> bool" where
  "like_char driver p c = (if driver = ''pgx'' then p = c else lower_char p = lower_char c)"

definition sqlhooks_ListByEvent :: "string \<Rightarrow> bool \<Rightarrow> string \<Rightarrow> hook_row list \<Rightarrow> db_error + Webhook list" where
  "sqlhooks_ListByEvent driver ok event rs =
     (if \<not> ok then Inl DbFailed
      else Inr (map hook_of_row (filter (\<lambda>r. hq_enabled r = 1 \<and>
             (case hq_events r of None \<Rightarrow> False
              | Some events \<Rightarrow> sql_like (like_char driver) (''%'' @ event @ ''%'') events \<or> events = event)) rs)))"

definition sqlhooks_Update :: "bool \<Rightarrow> time \<Rightarrow> Webhook \<Rightarrow> hook_row table \<Rightarrow> write_error + hook_row table" where
  "sqlhooks_Update ok now w tbl =
     (let events = str_join CHR '','' (wh_Events w); enabled = (if wh_Enabled w then 1 else 0)
      in exec_affected (sql_update ok (\<lambda>r. hq_id r = wh_ID w)
           (\<lambda>r. r\<lparr>hq_url_col := wh_URL w, hq_events := Some events, hq_secret := null_if_empty (wh_Secret w),
              hq_enabled := enabled, hq_updated_at := now\<rparr>) tbl))"

definition sqlhooks_Delete :: "bool \<Rightarrow> string \<Rightarrow> hook_row table \<Rightarrow> write_error + hook_row table" where
  "sqlhooks_Delete ok i tbl = exec_affected (sql_delete ok (\<lambda>r. hq_id r = i) tbl)"

section \<open>The column of events\<close>

text \<open>A name of an event: not empty, without commas and blanks.\<close>

definition event_name :: "string \<Rightarrow> bool" where
  "event_name e \<longleftrightarrow> e \<noteq> [] \<and> list_all (\<lambda>c. c \<noteq> CHR '','' \<and> \<not> is_space c) e"

lemma splitEvents_join: "list_all event_name es \<Longrightarrow> splitEvents (str_join CHR '','' es) = es"
proof (cases "es = []")
  case False
  assume a: "list_all event_name es"
  then have "\<And>w. w \<in> set es \<Longrightarrow> CHR '','' \<notin> set w" by (auto simp: list_all_iff event_name_def)
  with False have s: "str_split CHR '','' (str_join CHR '','' es) = es" by (rule str_split_join)
  from a have t: "map TrimSpace es = es"
    by (intro map_idI TrimSpace_id) (auto simp: list_all_iff event_name_def)
  from a have f: "filter (\<lambda>t. t \<noteq> []) es = es" by (auto simp: list_all_iff event_name_def filter_id_conv)
  have "str_join CHR '','' es \<noteq> []"
    using False a by (cases es; cases "tl es") (auto simp: event_name_def)
  then show ?thesis by (simp add: splitEvents_def s t f)
qed (simp add: splitEvents_def)

section \<open>LIKE\<close>

lemma like_suffix: "sql_like same ''%'' s"
  by (induction s) simp_all

lemma like_prefix: "(\<And>c. same c c) \<Longrightarrow> CHR ''%'' \<notin> set e \<Longrightarrow> sql_like same (e @ ''%'') (e @ s)"
  by (induction e) (auto simp: like_suffix)

lemma like_skip: "sql_like same (CHR ''%'' # ps) s \<Longrightarrow> sql_like same (CHR ''%'' # ps) (p @ s)"
  by (induction p) auto

lemma like_empty_front: "sql_like same ps s \<Longrightarrow> sql_like same (CHR ''%'' # ps) s"
  by (cases s) auto

text \<open>A text that contains the name matches.\<close>

lemma like_contains: "(\<And>c. same c c) \<Longrightarrow> CHR ''%'' \<notin> set e \<Longrightarrow> sql_like same (''%'' @ e @ ''%'') (p @ e @ s)"
  using like_skip [OF like_empty_front [OF like_prefix [of same e s]], of p] by simp

lemma like_char_refl: "like_char driver c c"
  by (simp add: like_char_def)

lemma str_join_contains: "e \<in> set es \<Longrightarrow> \<exists>p s. str_join sep es = p @ e @ s"
proof (induction sep es rule: str_join.induct)
  case (2 sep w)
  then show ?case by (intro exI [of _ "[]"]) simp
next
  case (3 sep w v ws)
  show ?case
  proof (cases "e = w")
    case True
    then show ?thesis by (intro exI [of _ "[]"] exI [of _ "sep # str_join sep (v # ws)"]) simp
  next
    case False
    with 3 obtain p s where "str_join sep (v # ws) = p @ e @ s" by auto
    then show ?thesis by (intro exI [of _ "w @ sep # p"] exI [of _ s]) simp
  qed
qed auto

section \<open>Who is told of an event\<close>

text \<open>
  Every enabled webhook that subscribed to an event is told of it. The converse fails: a webhook may be told of
  an event whose name only occurs in a name it subscribed to.
\<close>

theorem ListByEvent_complete:
  assumes "sqlhooks_ListByEvent driver True event rs = Inr ws" "r \<in> set rs" "hq_enabled r = 1"
    and "hq_events r = Some (str_join CHR '','' es)" "event \<in> set es" "CHR ''%'' \<notin> set event"
  shows "hook_of_row r \<in> set ws"
proof -
  from str_join_contains [OF assms(5)] obtain p s where "str_join CHR '','' es = p @ event @ s" by blast
  moreover have "sql_like (like_char driver) (''%'' @ event @ ''%'') (p @ event @ s)"
    by (rule like_contains) (simp_all add: like_char_refl assms(6))
  ultimately have "sql_like (like_char driver) (''%'' @ event @ ''%'') (str_join CHR '','' es)" by simp
  with assms(1-4) show ?thesis by (auto simp: sqlhooks_ListByEvent_def)
qed

theorem ListByEvent_overmatch:
  "\<exists>r w. hook_of_row r = w \<and> wh_Events w = [''zone_acquired_twice''] \<and> wh_Enabled w
     \<and> sqlhooks_ListByEvent driver True ''zone_acquired'' [r] = Inr [w]
     \<and> ListByEvent [wh_ID w] ''zone_acquired'' [wh_ID w \<mapsto> w] = []"
proof -
  let ?r = "\<lparr>hq_id = ''w'', hq_url_col = [], hq_events = Some ''zone_acquired_twice'', hq_secret = None, hq_enabled = 1,
     hq_created_at = 1, hq_updated_at = 1\<rparr>"
  have e: "wh_Events (hook_of_row ?r) = [''zone_acquired_twice'']"
    using splitEvents_join [of "[''zone_acquired_twice'']"] by (simp add: hook_of_row_def event_name_def is_space_def)
  have "sql_like (like_char driver) (''%'' @ ''zone_acquired'' @ ''%'') ([] @ ''zone_acquired'' @ ''_twice'')"
    by (rule like_contains) (simp_all add: like_char_refl)
  then have "sqlhooks_ListByEvent driver True ''zone_acquired'' [?r] = Inr [hook_of_row ?r]"
    by (simp add: sqlhooks_ListByEvent_def)
  moreover have "ListByEvent [wh_ID (hook_of_row ?r)] ''zone_acquired'' [wh_ID (hook_of_row ?r) \<mapsto> hook_of_row ?r] = []"
    by (simp add: ListByEvent_def e)
  ultimately show ?thesis using e by (intro exI [of _ ?r] exI [of _ "hook_of_row ?r"]) (simp add: hook_of_row_def)
qed

interpretation hq: sql_table hq_id hook_of_row wh_ID
  by unfold_locales (simp add: hook_of_row_def)

abbreviation webhooks_of :: "hook_row table \<Rightarrow> webhook_store" where
  "webhooks_of \<equiv> tbl_map hq_id hook_of_row"

lemma sqlhooks_Create_store:
  assumes "sqlhooks_Create True now uuid w tbl = Inr (w', tbl')" "list_all event_name (wh_Events w)"
  shows "(w', webhooks_of tbl') = webhooks_Create now uuid w (webhooks_of tbl)"
proof -
  let ?w = "(if wh_ID w = [] then w\<lparr>wh_ID := uuid\<rparr> else w)\<lparr>wh_CreatedAt := now, wh_UpdatedAt := now\<rparr>"
  have ev: "wh_Events ?w = wh_Events w" by simp
  from assms(1) have i: "sql_insert hq_id True \<lparr>hq_id = wh_ID ?w, hq_url_col = wh_URL ?w,
      hq_events = Some (str_join CHR '','' (wh_Events w)), hq_secret = null_if_empty (wh_Secret ?w),
      hq_enabled = (if wh_Enabled ?w then 1 else 0), hq_created_at = now, hq_updated_at = now\<rparr> tbl = Inr tbl'" and w: "w' = ?w"
    by (auto simp: sqlhooks_Create_def Let_def sql_insert_def split: if_splits)
  have "hook_of_row \<lparr>hq_id = wh_ID ?w, hq_url_col = wh_URL ?w,
      hq_events = Some (str_join CHR '','' (wh_Events w)), hq_secret = null_if_empty (wh_Secret ?w),
      hq_enabled = (if wh_Enabled ?w then 1 else 0), hq_created_at = now, hq_updated_at = now\<rparr> = ?w"
    by (rule Webhook.equality) (simp_all add: hook_of_row_def splitEvents_join [OF assms(2)])
  with hq.store_insert [OF i] show ?thesis by (simp add: webhooks_Create_def Let_def w)
qed

section \<open>Dead letters\<close>

text \<open>\<^verbatim>\<open>SQLDeadLetterStore.Record\<close> of \<^verbatim>\<open>deadletter.go\<close>, on the table \<^verbatim>\<open>webhook_delivery_failures\<close> of the migration 22.\<close>

definition sqldead_Record ::
  "bool \<Rightarrow> time \<Rightarrow> string \<Rightarrow> string \<Rightarrow> string \<Rightarrow> json \<Rightarrow> string option \<Rightarrow> Failure table \<Rightarrow> db_error + Failure table" where
  "sqldead_Record ok now uuid webhookID event payload err tbl =
     (let errStr = (case err of None \<Rightarrow> [] | Some e \<Rightarrow> e)
      in sql_insert fa_ID ok \<lparr>fa_ID = uuid, fa_WebhookID = webhookID, fa_Event = event, fa_Payload = payload, fa_Error = errStr,
           fa_CreatedAt = now\<rparr> tbl)"

text \<open>With a fresh identifier the table gains the letter the in-memory store records.\<close>

lemma sqldead_Record_memory:
  assumes "\<not> list_ex (\<lambda>f. fa_ID f = de_uuid env (dl_tick d)) tbl" "dl_dead d = Some tbl"
  shows "sqldead_Record True (de_now env (dl_tick d)) (de_uuid env (dl_tick d)) (wh_ID wh) event body (Some err) tbl =
    Inr (the (dl_dead (dead_Record env wh event body err d)))"
  using assms by (simp add: sqldead_Record_def sql_insert_def dead_Record_def)

end
