(* ===== verification/Conversations_Sql.thy ===== *)
theory Conversations_Sql
  imports Conversations Sql_Tables
begin

text \<open>
  The persistent conversations, \<^verbatim>\<open>pkg/control-plane/conversations/sqlstore.go\<close>: the table \<^verbatim>\<open>conversations\<close> of the migration 24.
  Unlike the in-memory store it honours the tenant in every read. An instant stands for its text in RFC 3339.
\<close>

record conv_row =
  vq_id :: string
  vq_intent :: string
  vq_name :: string
  vq_description :: "string option"
  vq_response_template :: string
  vq_response_provider_url :: "string option"
  vq_supported_languages :: raw_message
  vq_tenant_id :: "string option"
  vq_created_at :: time
  vq_updated_at :: time

definition conv_of_row :: "conv_row \<Rightarrow> Conversation" where
  "conv_of_row r =
     \<lparr>cn_ID = vq_id r, cn_Intent = vq_intent r, cn_Name = vq_name r, cn_Description = null_string (vq_description r),
      cn_ResponseTemplate = vq_response_template r, cn_ResponseProviderURL = null_string (vq_response_provider_url r),
      cn_SupportedLanguages = read_strings (vq_supported_languages r), cn_TenantID = null_string (vq_tenant_id r)\<rparr>"

definition visible_to :: "string \<Rightarrow> conv_row \<Rightarrow> bool" where
  "visible_to tenantID r \<longleftrightarrow> vq_tenant_id r = None \<or> vq_tenant_id r = Some tenantID"

definition sqlconv_listWithTenant ::
  "bool \<Rightarrow> (string \<Rightarrow> 'o::linorder) \<Rightarrow> string \<Rightarrow> conv_row list \<Rightarrow> db_error + Conversation list" where
  "sqlconv_listWithTenant ok col tenantID rs =
     (if \<not> ok then Inl DbFailed
      else Inr (map conv_of_row (order_asc (\<lambda>r. col (vq_id r)) (filter (\<lambda>r. tenantID \<noteq> [] \<longrightarrow> visible_to tenantID r) rs))))"

definition sqlconv_List :: "bool \<Rightarrow> (string \<Rightarrow> 'o::linorder) \<Rightarrow> conv_row list \<Rightarrow> db_error + Conversation list" where
  "sqlconv_List ok col rs = sqlconv_listWithTenant ok col [] rs"

definition sqlconv_ListByTenant ::
  "bool \<Rightarrow> (string \<Rightarrow> 'o::linorder) \<Rightarrow> string \<Rightarrow> conv_row list \<Rightarrow> db_error + Conversation list" where
  "sqlconv_ListByTenant ok col tenantID rs = sqlconv_listWithTenant ok col tenantID rs"

definition sqlconv_getByTenant :: "bool \<Rightarrow> string \<Rightarrow> string \<Rightarrow> conv_row table \<Rightarrow> db_error + Conversation option" where
  "sqlconv_getByTenant ok i tenantID tbl = map_sum id (map_option conv_of_row)
     (sql_query_row ok (if tenantID \<noteq> [] then (\<lambda>r. vq_id r = i \<and> visible_to tenantID r) else (\<lambda>r. vq_id r = i)) tbl)"

definition sqlconv_Get :: "bool \<Rightarrow> string \<Rightarrow> conv_row table \<Rightarrow> db_error + Conversation option" where
  "sqlconv_Get ok i tbl = sqlconv_getByTenant ok i [] tbl"

definition sqlconv_GetByTenant :: "bool \<Rightarrow> string \<Rightarrow> string \<Rightarrow> conv_row table \<Rightarrow> db_error + Conversation option" where
  "sqlconv_GetByTenant ok i tenantID tbl = sqlconv_getByTenant ok i tenantID tbl"

text \<open>\<open>rs1\<close> and \<open>rs2\<close> are the rows as the two queries meet them; \<open>ok1\<close> and \<open>ok2\<close> their answers.\<close>

definition sqlconv_GetByIntent ::
  "bool \<Rightarrow> bool \<Rightarrow> string \<Rightarrow> string \<Rightarrow> conv_row list \<Rightarrow> conv_row list \<Rightarrow> db_error + Conversation option" where
  "sqlconv_GetByIntent ok1 ok2 intent tenantID rs1 rs2 =
     (let own = (if tenantID \<noteq> []
            then sql_query_row ok1 (\<lambda>r. vq_intent r = intent \<and> vq_tenant_id r = Some tenantID) rs1 else Inr None)
      in case own of
          Inl e \<Rightarrow> Inl e
        | Inr (Some r) \<Rightarrow> Inr (Some (conv_of_row r))
        | Inr None \<Rightarrow> map_sum id (map_option conv_of_row)
            (sql_query_row ok2 (\<lambda>r. vq_intent r = intent \<and> vq_tenant_id r = None) rs2))"

definition sqlconv_Create :: "bool \<Rightarrow> time \<Rightarrow> Conversation \<Rightarrow> conv_row table \<Rightarrow> db_error + conv_row table" where
  "sqlconv_Create ok now c tbl = sql_insert vq_id ok
     \<lparr>vq_id = cn_ID c, vq_intent = cn_Intent c, vq_name = cn_Name c, vq_description = null_if_empty (cn_Description c),
      vq_response_template = cn_ResponseTemplate c, vq_response_provider_url = null_if_empty (cn_ResponseProviderURL c),
      vq_supported_languages = marshal_strings (cn_SupportedLanguages c), vq_tenant_id = null_if_empty (cn_TenantID c),
      vq_created_at = now, vq_updated_at = now\<rparr> tbl"

definition sqlconv_Update :: "bool \<Rightarrow> time \<Rightarrow> Conversation \<Rightarrow> conv_row table \<Rightarrow> write_error + conv_row table" where
  "sqlconv_Update ok now c tbl = exec_affected (sql_update ok (\<lambda>r. vq_id r = cn_ID c)
     (\<lambda>r. r\<lparr>vq_intent := cn_Intent c, vq_name := cn_Name c, vq_description := null_if_empty (cn_Description c),
        vq_response_template := cn_ResponseTemplate c,
        vq_response_provider_url := null_if_empty (cn_ResponseProviderURL c),
        vq_supported_languages := marshal_strings (cn_SupportedLanguages c),
        vq_tenant_id := null_if_empty (cn_TenantID c), vq_updated_at := now\<rparr>) tbl)"

definition sqlconv_Delete :: "bool \<Rightarrow> string \<Rightarrow> conv_row table \<Rightarrow> write_error + conv_row table" where
  "sqlconv_Delete ok i tbl = exec_affected (sql_delete ok (\<lambda>r. vq_id r = i) tbl)"

section \<open>Refinement of the in-memory store\<close>

interpretation vq: sql_table vq_id conv_of_row cn_ID
  by unfold_locales (simp add: conv_of_row_def)

abbreviation convs_of :: "conv_row table \<Rightarrow> Conversation gomap" where
  "convs_of \<equiv> tbl_map vq_id conv_of_row"

lemma sqlconv_Get_store: "sqlconv_Get True i tbl = Inr (convs_of tbl i)"
  by (simp add: sqlconv_Get_def sqlconv_getByTenant_def sql_query_row_def tbl_map_def)

lemma conv_eta:
  "\<lparr>cn_ID = cn_ID c, cn_Intent = cn_Intent c, cn_Name = cn_Name c, cn_Description = cn_Description c,
     cn_ResponseTemplate = cn_ResponseTemplate c, cn_ResponseProviderURL = cn_ResponseProviderURL c,
     cn_SupportedLanguages = cn_SupportedLanguages c, cn_TenantID = cn_TenantID c\<rparr> = c"
  by simp

lemma sqlconv_Create_store:
  "sqlconv_Create True now c tbl = Inr tbl' \<Longrightarrow> convs_of tbl (cn_ID c) = None \<and> convs_of tbl' = (convs_of tbl)(cn_ID c \<mapsto> c)"
  unfolding sqlconv_Create_def by (drule vq.store_insert) (simp add: conv_of_row_def read_strings_marshal conv_eta)

lemma sqlconv_Update_store:
  assumes "sqlconv_Update True now c tbl = Inr tbl'"
  shows "convs_of tbl (cn_ID c) \<noteq> None \<and> convs_of tbl' = (convs_of tbl)(cn_ID c \<mapsto> c)"
proof -
  from assms have ne: "convs_of tbl (cn_ID c) \<noteq> None"
    by (auto simp: sqlconv_Update_def exec_affected_def sql_update_def vq.affected_none split: if_splits)
  from assms have "tbl' = map (\<lambda>r. if vq_id r = cn_ID c
      then r\<lparr>vq_intent := cn_Intent c, vq_name := cn_Name c, vq_description := null_if_empty (cn_Description c),
        vq_response_template := cn_ResponseTemplate c,
        vq_response_provider_url := null_if_empty (cn_ResponseProviderURL c),
        vq_supported_languages := marshal_strings (cn_SupportedLanguages c),
        vq_tenant_id := null_if_empty (cn_TenantID c), vq_updated_at := now\<rparr> else r) tbl"
    by (auto simp: sqlconv_Update_def exec_affected_def sql_update_def split: if_splits)
  moreover have "convs_of (map (\<lambda>r. if vq_id r = cn_ID c
      then r\<lparr>vq_intent := cn_Intent c, vq_name := cn_Name c, vq_description := null_if_empty (cn_Description c),
        vq_response_template := cn_ResponseTemplate c,
        vq_response_provider_url := null_if_empty (cn_ResponseProviderURL c),
        vq_supported_languages := marshal_strings (cn_SupportedLanguages c),
        vq_tenant_id := null_if_empty (cn_TenantID c), vq_updated_at := now\<rparr> else r) tbl) = (convs_of tbl)(cn_ID c \<mapsto> c)"
    by (rule vq.store_replace [OF ne]) (simp_all add: conv_of_row_def read_strings_marshal)
  ultimately show ?thesis using ne by simp
qed

text \<open>
  What a tenant reads is shared or its own, by each of the three reads; an answer to an intent is the tenant's own
  whenever the tenant has one.
\<close>

theorem sqlconv_confined:
  fixes col :: "string \<Rightarrow> 'o::linorder"
  assumes "tenantID \<noteq> []"
  shows "(case sqlconv_ListByTenant ok1 col tenantID rs1 of Inl e \<Rightarrow> True
      | Inr cs \<Rightarrow> list_all (\<lambda>c. cn_TenantID c = [] \<or> cn_TenantID c = tenantID) cs)
    \<and> (case sqlconv_GetByTenant ok1 i tenantID rs1 of Inr (Some c) \<Rightarrow> cn_TenantID c = [] \<or> cn_TenantID c = tenantID | _ \<Rightarrow> True)
    \<and> (case sqlconv_GetByIntent ok1 ok2 intent tenantID rs1 rs2 of
         Inr (Some c) \<Rightarrow> cn_Intent c = intent
           \<and> (if list_ex (\<lambda>r. vq_intent r = intent \<and> vq_tenant_id r = Some tenantID) rs1
              then cn_TenantID c = tenantID else cn_TenantID c = [])
       | _ \<Rightarrow> True)"
proof (intro conjI)
  have v: "visible_to tenantID r \<Longrightarrow> cn_TenantID (conv_of_row r) = [] \<or> cn_TenantID (conv_of_row r) = tenantID" for r
    by (auto simp: visible_to_def conv_of_row_def null_string_def)
  show "case sqlconv_ListByTenant ok1 col tenantID rs1 of Inl e \<Rightarrow> True
      | Inr cs \<Rightarrow> list_all (\<lambda>c. cn_TenantID c = [] \<or> cn_TenantID c = tenantID) cs"
    using v assms by (auto simp: sqlconv_ListByTenant_def sqlconv_listWithTenant_def list_all_iff simp del: filter_order)
  show "case sqlconv_GetByTenant ok1 i tenantID rs1 of Inr (Some c) \<Rightarrow> cn_TenantID c = [] \<or> cn_TenantID c = tenantID | _ \<Rightarrow> True"
    using v assms
    by (auto simp: sqlconv_GetByTenant_def sqlconv_getByTenant_def sql_query_row_def find_Some_iff split: sum.split option.split)
  show "case sqlconv_GetByIntent ok1 ok2 intent tenantID rs1 rs2 of
         Inr (Some c) \<Rightarrow> cn_Intent c = intent
           \<and> (if list_ex (\<lambda>r. vq_intent r = intent \<and> vq_tenant_id r = Some tenantID) rs1
              then cn_TenantID c = tenantID else cn_TenantID c = [])
       | _ \<Rightarrow> True"
  proof (cases "find (\<lambda>r. vq_intent r = intent \<and> vq_tenant_id r = Some tenantID) rs1")
    case None
    then have n: "\<not> list_ex (\<lambda>r. vq_intent r = intent \<and> vq_tenant_id r = Some tenantID) rs1"
      by (simp only: find_None_list_ex not_False_eq_True)
    show ?thesis using n assms None
      by (auto simp: sqlconv_GetByIntent_def sql_query_row_def Let_def find_Some_iff conv_of_row_def null_string_def
          split: sum.split option.split)
  next
    case (Some r)
    then have n: "list_ex (\<lambda>r. vq_intent r = intent \<and> vq_tenant_id r = Some tenantID) rs1"
      using find_None_list_ex [of "\<lambda>r. vq_intent r = intent \<and> vq_tenant_id r = Some tenantID" rs1] by simp
    from Some have "vq_intent r = intent \<and> vq_tenant_id r = Some tenantID" by (auto simp: find_Some_iff)
    with n assms Some show ?thesis
      by (simp add: sqlconv_GetByIntent_def sql_query_row_def conv_of_row_def null_string_def)
  qed
qed

end
