(* ===== verification/Spec2Isabelle.thy ===== *)
theory Spec2Isabelle
  imports Escort Api_Routes Edge_Agent Validation_Runner Streaming Events Runner_Sql Scenarios_Sql Edges_Sql Registry_Sql Tenants_Sql
    Audit_Sql Runs_Sql Webhooks_Sql Conversations_Sql
begin

text \<open>
  A verification of the SAI AUROSY robot platform: a control plane that keeps a fleet of robots, their tasks and
  their users, sends them commands over a message bus, and guides visitors through a mall. The Go code under \<^verbatim>\<open>src/\<close>
  is translated function by function; the names of the definitions are those of the code, with a prefix where two packages
  use the same name (\<open>tasks_Get\<close>, \<open>registry_Get\<close>) and a prefix per struct on the fields of a record.

  \<^bold>\<open>How the parts interact.\<close> A request reaches the API server (\<^verbatim>\<open>pkg/control-plane/api/server.go\<close>) behind the
  authenticating middleware and the check of roles. Its handlers write the in-memory stores (robots, tenants, tasks,
  scenarios, zones, edges, webhooks, workflow runs) and publish commands on the bus, or queue them for an edge node. The task
  runner takes pending tasks out of the task store one at a time: it publishes the steps of a scenario itself, hands
  a journey to the robot execution engine, which drives a navigation by the robot's telemetry, or starts
  the mall assistant, which talks to a visitor and creates the tasks of a journey. Every command meets the safety
  filter, in the API, in the task runner's steps, in the arbiter on the bus and in the edge agent. Events go to webhooks and
  to the clients of the event stream; telemetry goes to a ring buffer from which a stream is resumed.

  \<^bold>\<open>Conventions.\<close> (theory \<open>Prelude\<close>) An instant is its number of nanoseconds; \<^verbatim>\<open>time.Now()\<close>, UUIDs, random bytes, the
  order in which a map is ranged over, whether the bus or the database takes a message or a statement, and the rounding
  of a floating-point operation (\<open>fl\<close>) are arguments of the operation that draws them, and the theorems quantify over
  them. A pointer or a collaborator that may be \<^verbatim>\<open>nil\<close> is an \<open>option\<close>, an error is a value of a sum or of a datatype
  of its own, a panic is a value. An operation under one mutex is one step; what other goroutines do between two
  steps is an argument as well. JSON is decoded as \<^verbatim>\<open>encoding/json\<close> does it (theory \<open>Go_Json\<close>).

  \<^bold>\<open>The theories.\<close>

  \<^item> \<open>Hal\<close>, \<open>Bus\<close> (\<^verbatim>\<open>pkg/hal\<close>, \<^verbatim>\<open>pkg/telemetry/bus.go\<close>): robots, commands, telemetry, capabilities; publication.
  \<^item> \<open>Store_Interface\<close>, and the stores that interpret its locales: \<open>Registry\<close>, \<open>Tenants\<close>, \<open>Tasks\<close>, \<open>Scenarios\<close>,
    \<open>Edges\<close>, \<open>Coordinator\<close> (zone locks), \<open>Idempotency\<close>, \<open>Audit_Log\<close>. Shown: the laws of a keyed store, exclusive zones,
    edge queues that deliver in order and once, reservations that hold until they are cleaned up.
  \<^item> \<open>Safety\<close> (\<^verbatim>\<open>arbiter/safety.go\<close>, \<^verbatim>\<open>arbiter/arbiter.go\<close>, \<^verbatim>\<open>pkg/edge/safety.go\<close>): exactly which commands pass.
  \<^item> \<open>Robot_State\<close>, \<open>Navigation\<close>, \<open>Robot_Engine\<close> (\<^verbatim>\<open>internal/robot\<close>): the graph of states as an abstract machine the
    state manager refines; a navigation as a loop over what its goroutine meets (telemetry, ticks of the clock, cancellation);
    one outcome per task, and the emergency stop whenever it is not success.
  \<^item> \<open>Task_Runner\<close>, \<open>Runner_Correct\<close> (\<^verbatim>\<open>pkg/control-plane/tasks/runner.go\<close>): one iteration of the runner beside other
    goroutines. The locale \<open>runner_invariant\<close> carries an invariant through an iteration; its interpretations give that only safe
    commands are published, that zones are released on every path, and that a robot runs at most one task.
  \<^item> \<open>Priority_Queue\<close>, \<open>Mall_Graph\<close>, \<open>Mall_Service\<close>, \<open>Simrobot\<close> (\<^verbatim>\<open>internal/mall\<close>, \<^verbatim>\<open>internal/simrobot\<close>): the heap of
    \<^verbatim>\<open>container/heap\<close> as an interpretation of an abstract priority queue, the path search correct against walks of the graph,
    maps and their service, simulated robots that arrive.
  \<^item> \<open>Mall_Assistant\<close>, \<open>Escort\<close> (\<^verbatim>\<open>pkg/control-plane/mallassistant\<close>): the assistant on every branch, and what it means beside
    the task runner.
  \<^item> \<open>Orchestration\<close>, \<open>Webhooks\<close>, \<open>Events\<close>, \<open>Streaming\<close>: workflow runs, deliveries with retries behind a circuit breaker, the
    broadcaster with its buffered channels, the ring buffer of telemetry.
  \<^item> \<open>Auth\<close>, \<open>OAuth\<close>, \<open>Api_Keys\<close> (\<^verbatim>\<open>pkg/control-plane/auth\<close>, \<^verbatim>\<open>oauth\<close>): claims, roles, middlewares, tokens and keys. A
    SQL table is the list of its rows with the constraints of the migrations.
  \<^item> \<open>Api_Server\<close>, \<open>Api_Fleet\<close>, \<open>Api_Command\<close>, \<open>Api_Tasks\<close>, \<open>Api_Workflows\<close>, \<open>Api_Sim\<close>, \<open>Api_Auth\<close>, \<open>Api_Mall\<close>, \<open>Api_Routes\<close>:
    the handlers and their routes. Shown: what a caller confined to a tenant may see and change, the outcomes of a
    command, the invariant of the fleet over histories of requests, exactly what a request may do to the tasks (\<open>api_write\<close>), and
    that it is a lawful neighbour of the task runner (\<open>others_write\<close>), which connects the API with \<open>Runner_Correct\<close>.
  \<^item> \<open>Edge_Agent\<close> (\<^verbatim>\<open>pkg/edge\<close>): the agent behind the control plane's heartbeat route, with the JSON of commands there and back.
    Shown: what it publishes passed its filter; what arrives of a queue when the answer of a heartbeat arrives or is lost.
  \<^item> \<open>Conversations\<close>, \<open>Api_Conversations\<close> (\<^verbatim>\<open>pkg/control-plane/conversations\<close>): answers by intent and their templates.
  \<^item> \<open>Sql_Tables\<close>, \<open>Tasks_Sql\<close>, \<open>Runner_Sql\<close>, \<open>Scenarios_Sql\<close>, \<open>Edges_Sql\<close>, \<open>Registry_Sql\<close>, \<open>Tenants_Sql\<close> (with the
    idempotency keys), \<open>Audit_Sql\<close>, \<open>Runs_Sql\<close>, \<open>Webhooks_Sql\<close>, \<open>Conversations_Sql\<close> (the \<^verbatim>\<open>sqlstore.go\<close> of the stores): a table
    is the list of its rows, a query comes in any order its \<^verbatim>\<open>ORDER BY\<close> leaves open, a statement may fail. The locale
    \<open>sql_table\<close> relates a table with the in-memory store of its values. Shown: which SQL stores refine the in-memory ones and
    under which conditions, and where they differ, what that means for the task runner, the edges and the callers.
  \<^item> \<open>Sim_Scenarios\<close>, \<open>Validation_Checks\<close>, \<open>Adapter_Contract\<close>, \<open>Validation_Runner\<close> (\<^verbatim>\<open>internal/simrobot\<close>, \<^verbatim>\<open>internal/validation\<close>,
    \<^verbatim>\<open>cmd/validation\<close>): the layer that tests the platform. Shown: what each assertion means (the order of events is
    \<open>subseq\<close>), when a scenario passes, and what its deadline and preconditions do not do.

  \<^bold>\<open>Bounds and termination.\<close> There is no fuel. The path search ends because it marks one node more in each round or shortens its
  queue, and a hold step of the runner because each round of its polling loop sleeps for half a second (\<open>termination\<close>
  of \<open>dijkstra\<close> and \<open>hold_loop\<close>). The reconstruction of a path follows predecessors and could loop: it is a
  \<open>partial_function\<close>, and \<open>route_planner_correct\<close> proves that it returns. What waits for the outside (a navigation, the
  assistant) consumes the list of what it meets, with the result \<open>None\<close> until it returns; that it does is
  \<open>runOne_completes\<close> and \<open>nav_Execute_timeout\<close>. \<^verbatim>\<open>int64\<close> arithmetic wraps where the code multiplies
  durations. \<open>sim_arrives\<close> is stated for exact arithmetic (\<open>fl\<close> the identity); every other property
  about coordinates or distances takes the rounding as an argument, with the laws it needs as hypotheses.

  \<^bold>\<open>What is not modelled.\<close> NATS, HTTP, the database drivers, the JWT library, SHA-256 and HMAC, and the AI and speech
  services: third-party code, whose answers are arguments. The rounding of instants by a
  database, the order of their texts (a column of instants is ordered by the instants, as SQLite does within one time zone), its isolation and its foreign keys but one; the SQL-only
  marketplace and analytics, and their handlers: their behaviour is that of the queries. The streams of events and
  telemetry over HTTP, the cognitive gateway, the speech pipeline, health, metrics and tracing, secrets, the reports of the validation layer, the
  wiring in \<^verbatim>\<open>cmd/\<close>, the SDK and the robot adapters (other languages, vendor SDKs): input and output without state of the platform.
  Locations of \<^verbatim>\<open>time.Time\<close>, case folding beyond ASCII, and the text of errors of libraries are left out.
\<close>

end
